(* ===== verification/Prelude.thy ===== *)
theory Prelude
  imports Main "HOL-Library.Word" "HOL-Library.Monad_Syntax" "HOL-Library.Sublist"
    "HOL-Library.Char_ord" "HOL-Library.Code_Target_Nat"
begin

text \<open>
  Shared vocabulary of the development: the types the components name, the collections of
  facts their proofs share, and generic lemmas on lists and options.

  A C string is the list of the bytes before its terminating NUL (\<open>cstr\<close>). A block of
  memory is the list of its bytes (\<open>mem\<close>); a read or a write outside of it is the value
  \<open>None\<close> of the option monad (a memory fault), a pointer into it is an offset, and the
  null pointer is \<open>None\<close> of \<open>nat option\<close>.
\<close>

type_synonym byte = char
type_synonym cstr = "char list"
type_synonym mem = "char list"
type_synonym ptr = "nat option"
type_synonym 'a faulting = "'a option"

named_theorems cstr_simps \<open>evaluation of the C string functions\<close>
named_theorems wf_intros \<open>introduction rules of the well-formedness invariants\<close>
named_theorems step_defs \<open>definitions that unfold one operation of a component\<close>

section \<open>Characters of the protocols\<close>

abbreviation NUL :: char where "NUL \<equiv> CHR 0x00"
abbreviation LF :: char where "LF \<equiv> CHR 0x0A"
abbreviation CR :: char where "CR \<equiv> CHR 0x0D"
abbreviation SP :: char where "SP \<equiv> CHR 0x20"
abbreviation DQ :: char where "DQ \<equiv> CHR 0x22"

definition crlf :: cstr where
  "crlf = [CR, LF]"

definition is_crlf_char :: "char \<Rightarrow> bool" where
  "is_crlf_char c \<longleftrightarrow> c = CR \<or> c = LF"

definition nul_free :: "char list \<Rightarrow> bool" where
  "nul_free s \<longleftrightarrow> NUL \<notin> set s"

definition fits :: "nat \<Rightarrow> cstr \<Rightarrow> bool" where
  \<comment> \<open>a C string that a char array of the given size can hold, terminator included\<close>
  "fits n s \<longleftrightarrow> nul_free s \<and> length s < n"

section \<open>Generic lemmas\<close>

lemma nul_free_Nil [simp]: "nul_free []"
  by (simp add: nul_free_def)

lemma nul_free_Cons [simp]: "nul_free (c # s) \<longleftrightarrow> c \<noteq> NUL \<and> nul_free s"
  by (auto simp: nul_free_def)

lemma nul_free_append [simp]: "nul_free (s @ t) \<longleftrightarrow> nul_free s \<and> nul_free t"
  by (auto simp: nul_free_def)

lemma nul_free_concat [simp]: "nul_free (concat ss) \<longleftrightarrow> (\<forall>s\<in>set ss. nul_free s)"
  by (auto simp: nul_free_def)

lemma nul_free_take [intro]: "nul_free s \<Longrightarrow> nul_free (take n s)"
  by (auto simp: nul_free_def dest: in_set_takeD)

lemma nul_free_drop [intro]: "nul_free s \<Longrightarrow> nul_free (drop n s)"
  by (auto simp: nul_free_def dest: in_set_dropD)

lemma nul_free_dropWhile [intro]: "nul_free s \<Longrightarrow> nul_free (dropWhile P s)"
  by (auto simp: nul_free_def dest: set_dropWhileD)

lemma nul_free_takeWhile [intro]: "nul_free s \<Longrightarrow> nul_free (takeWhile P s)"
  by (auto simp: nul_free_def dest: set_takeWhileD)

lemma nul_free_tl [intro]: "nul_free s \<Longrightarrow> nul_free (tl s)"
  by (cases s) auto

lemma fits_Nil [simp]: "fits n [] \<longleftrightarrow> 0 < n"
  by (simp add: fits_def)

lemma fits_nul_free [dest]: "fits n s \<Longrightarrow> nul_free s"
  by (simp add: fits_def)

lemma fits_length [dest]: "fits n s \<Longrightarrow> length s < n"
  by (simp add: fits_def)

lemma fits_mono: "fits m s \<Longrightarrow> m \<le> n \<Longrightarrow> fits n s"
  by (auto simp: fits_def)

lemma takeWhile_not_NUL [simp]: "nul_free s \<Longrightarrow> takeWhile (\<lambda>c. c \<noteq> NUL) s = s"
  by (auto simp: nul_free_def takeWhile_eq_all_conv)

lemma takeWhile_not_NUL_append [simp]:
  "nul_free s \<Longrightarrow> takeWhile (\<lambda>c. c \<noteq> NUL) (s @ NUL # t) = s"
  by (induction s) auto

lemma nul_free_takeWhile_NUL [simp]: "nul_free (takeWhile (\<lambda>c. c \<noteq> NUL) s)"
  by (auto simp: nul_free_def dest: set_takeWhileD)

lemma crlf_simps [simp]: "nul_free crlf" "length crlf = 2"
  by (simp_all add: crlf_def)

lemma option_bind_SomeE:
  assumes "Option.bind m f = Some y"
  obtains x where "m = Some x" and "f x = Some y"
  using assms by (cases m) auto

lemma prefix_append_same [simp]: "prefix p (p @ s)"
  by (simp add: prefix_def)

lemma prefix_take_eq: "prefix p s \<longleftrightarrow> take (length p) s = p"
proof
  assume "prefix p s"
  then show "take (length p) s = p" by (auto simp: prefix_def)
next
  assume "take (length p) s = p"
  then have "s = p @ drop (length p) s" by (metis append_take_drop_id)
  then show "prefix p s" by (metis prefix_append_same)
qed

lemma prefix_set: "prefix p s \<Longrightarrow> c \<in> set p \<Longrightarrow> c \<in> set s"
  by (auto simp: prefix_def)

lemma ex_True [simp]: "\<exists>b::bool. b" and ex_False [simp]: "\<exists>b::bool. \<not> b"
  by blast+

lemma list_all_take: "list_all P xs \<Longrightarrow> list_all P (take n xs)"
  by (auto simp: list_all_iff dest: in_set_takeD)

lemma hd_dropWhile_ne: "dropWhile P s \<noteq> [] \<Longrightarrow> \<not> P (hd (dropWhile P s))"
  by (rule hd_dropWhile)

end
