(* ===== verification/Dns.thy ===== *)
theory Dns
  imports Prelude
begin

text \<open>
  The messages of the captive DNS server: \<open>dns_server_handle_req\<close> of \<^verbatim>\<open>src/dns_server.c\<close> and
  the layouts of \<^verbatim>\<open>src/dns_server.h\<close>.

  A datagram is a list of bytes. The two buffers of the task are lists of fixed length; a copy
  that does not fit, or a text without its terminator, is the value \<open>None\<close>. Integers of more
  than one byte are little endian in memory, as on the target.
\<close>

unbundle bit_operations_syntax

section \<open>Layouts\<close>

type_synonym bytes = "8 word list"

definition DNS_QUERY_MAX_SIZE :: nat where "DNS_QUERY_MAX_SIZE = 80"
definition DNS_ANSWER_MAX_SIZE :: nat where "DNS_ANSWER_MAX_SIZE = DNS_QUERY_MAX_SIZE + 16"
definition DNS_REPLY_CODE_NO_ERROR :: "8 word" where "DNS_REPLY_CODE_NO_ERROR = 0"
definition DNS_OPCODE_QUERY :: "8 word" where "DNS_OPCODE_QUERY = 0"
definition DNS_ANSWER_TYPE_A :: "16 word" where "DNS_ANSWER_TYPE_A = 1"
definition DNS_ANSWER_CLASS_IN :: "16 word" where "DNS_ANSWER_CLASS_IN = 1"

record dns_header =
  dns_identifier :: "16 word"
  flag_recursion_desired :: bool
  flag_truncation :: bool
  flag_authoritative_answer :: bool
  operation_code :: "8 word" \<comment> \<open>four bits\<close>
  flag_query_response :: bool
  response_code :: "8 word" \<comment> \<open>four bits\<close>
  zero_bits :: "8 word" \<comment> \<open>three bits\<close>
  flag_recursion_available :: bool
  question_count :: "16 word"
  answer_record_count :: "16 word"
  authority_record_count :: "16 word"
  additional_record_count :: "16 word"

record dns_answer =
  domain_name :: "16 word"
  dns_response_type :: "16 word"
  dns_response_class :: "16 word"
  time_to_live_seconds :: "32 word"
  dns_response_data_length :: "16 word"
  dns_response_data :: "32 word"

definition sizeof_dns_header :: nat where "sizeof_dns_header = 12"
definition sizeof_dns_answer :: nat where "sizeof_dns_answer = 16"

definition load16 :: "8 word \<Rightarrow> 8 word \<Rightarrow> 16 word" where
  "load16 a b = ucast a OR push_bit 8 (ucast b)"

definition store16 :: "16 word \<Rightarrow> bytes" where
  "store16 w = [ucast w, ucast (drop_bit 8 w)]"

definition store32 :: "32 word \<Rightarrow> bytes" where
  "store32 w = [ucast w, ucast (drop_bit 8 w), ucast (drop_bit 16 w), ucast (drop_bit 24 w)]"

definition htons :: "16 word \<Rightarrow> 16 word" where
  \<comment> \<open>the target is little endian\<close>
  "htons w = load16 (ucast (drop_bit 8 w)) (ucast w)"

definition flag :: "nat \<Rightarrow> bool \<Rightarrow> 8 word" where
  "flag n b = (if b then 2 ^ n else 0)"

definition read_header :: "bytes \<Rightarrow> dns_header" where
  "read_header b =
     \<lparr>dns_identifier = load16 (b ! 0) (b ! 1),
      flag_recursion_desired = bit (b ! 2) 0, flag_truncation = bit (b ! 2) 1, flag_authoritative_answer = bit (b ! 2) 2,
      operation_code = take_bit 4 (drop_bit 3 (b ! 2)), flag_query_response = bit (b ! 2) 7,
      response_code = take_bit 4 (b ! 3), zero_bits = take_bit 3 (drop_bit 4 (b ! 3)), flag_recursion_available = bit (b ! 3) 7,
      question_count = load16 (b ! 4) (b ! 5), answer_record_count = load16 (b ! 6) (b ! 7),
      authority_record_count = load16 (b ! 8) (b ! 9), additional_record_count = load16 (b ! 10) (b ! 11)\<rparr>"

definition write_header :: "dns_header \<Rightarrow> bytes" where
  "write_header h =
     store16 (dns_identifier h)
     @ [flag 0 (flag_recursion_desired h) OR flag 1 (flag_truncation h) OR flag 2 (flag_authoritative_answer h)
          OR push_bit 3 (operation_code h) OR flag 7 (flag_query_response h),
        response_code h OR push_bit 4 (zero_bits h) OR flag 7 (flag_recursion_available h)]
     @ store16 (question_count h) @ store16 (answer_record_count h)
     @ store16 (authority_record_count h) @ store16 (additional_record_count h)"

definition write_answer :: "dns_answer \<Rightarrow> bytes" where
  "write_answer a =
     store16 (domain_name a) @ store16 (dns_response_type a) @ store16 (dns_response_class a)
     @ store32 (time_to_live_seconds a) @ store16 (dns_response_data_length a) @ store32 (dns_response_data a)"

section \<open>Handling a query\<close>

record dns_tmp_buf =
  db_data :: bytes \<comment> \<open>\<open>DNS_QUERY_MAX_SIZE + 1\<close> bytes\<close>
  db_response :: bytes \<comment> \<open>\<open>DNS_ANSWER_MAX_SIZE\<close> bytes\<close>

definition memcpy_at :: "nat \<Rightarrow> bytes \<Rightarrow> bytes \<Rightarrow> bytes option" where
  "memcpy_at at src buf =
     (if at + length src \<le> length buf then Some (take at buf @ src @ drop (at + length src) buf) else None)"

fun replace_non_ascii_with_dots :: "bytes \<Rightarrow> bytes option" where
  \<comment> \<open>\<open>None\<close>: the text runs behind the end of the buffer\<close>
  "replace_non_ascii_with_dots [] = None"
| "replace_non_ascii_with_dots (ch # p) =
     (if ch = 0 then Some (ch # p)
      else map_option ((#) (if ch < 0x20 \<or> ch > 0x7A then 0x2E else ch)) (replace_non_ascii_with_dots p))"

definition response_header :: "dns_header \<Rightarrow> dns_header" where
  "response_header h = h\<lparr>flag_query_response := True, operation_code := DNS_OPCODE_QUERY, flag_authoritative_answer := True,
     response_code := DNS_REPLY_CODE_NO_ERROR, flag_truncation := False, flag_recursion_desired := False,
     answer_record_count := question_count h, authority_record_count := 0, additional_record_count := 0\<rparr>"

definition answer_record :: "32 word \<Rightarrow> dns_answer" where
  "answer_record ip = \<lparr>domain_name = htons 0xC00C, dns_response_type = htons DNS_ANSWER_TYPE_A,
     dns_response_class = htons DNS_ANSWER_CLASS_IN, time_to_live_seconds = 0, dns_response_data_length = htons 4,
     dns_response_data = ip\<rparr>"

definition dns_server_handle_req :: "bytes option \<Rightarrow> 32 word \<Rightarrow> dns_tmp_buf \<Rightarrow> (bytes option \<times> dns_tmp_buf) option" where
  \<comment> \<open>the datagram that waits (\<open>None\<close>: the socket times out), of which \<open>recvfrom\<close> gives at most
      \<open>DNS_QUERY_MAX_SIZE\<close> bytes; the result: the datagram that is sent\<close>
  "dns_server_handle_req dgram ip_resolved b =
     (let b = b\<lparr>db_data := replicate (length (db_data b)) 0\<rparr>
      in case map_option (take DNS_QUERY_MAX_SIZE) dgram of
           None \<Rightarrow> Some (None, b)
         | Some r \<Rightarrow> do {
             data \<leftarrow> memcpy_at 0 r (db_data b);
             let len = length r;
             let b = b\<lparr>db_data := data\<rparr>;
             if len < sizeof_dns_header then Some (None, b)
             else if len > DNS_ANSWER_MAX_SIZE - sizeof_dns_answer then Some (None, b)
             else do {
               data \<leftarrow> memcpy_at len [0] data;
               resp \<leftarrow> memcpy_at 0 (write_header (response_header (read_header data))) (db_response b);
               resp \<leftarrow> memcpy_at sizeof_dns_header (drop sizeof_dns_header (take len data)) resp;
               p_domain \<leftarrow> replace_non_ascii_with_dots (drop (sizeof_dns_header + 1) data);
               let data = take (sizeof_dns_header + 1) data @ p_domain;
               resp \<leftarrow> memcpy_at len (write_answer (answer_record ip_resolved)) resp;
               Some (Some (take (len + sizeof_dns_answer) resp), \<lparr>db_data = data, db_response = resp\<rparr>) } })"

section \<open>What a client reads\<close>

function skip_name :: "bytes \<Rightarrow> bytes option" where
  \<comment> \<open>what follows a domain name: labels up to the empty one, or up to a pointer\<close>
  "skip_name [] = None"
| "skip_name (c # xs) =
     (if c = 0 then Some xs
      else if unat c \<ge> 192 then (if xs = [] then None else Some (tl xs))
      else if length xs < unat c then None
      else skip_name (drop (unat c) xs))"
  by pat_completeness auto
termination by (relation "measure length") auto

declare skip_name.simps [simp del]

definition be16 :: "8 word \<Rightarrow> 8 word \<Rightarrow> nat" where "be16 hi lo = unat hi * 256 + unat lo"

definition read_record :: "bytes \<Rightarrow> (nat \<times> nat \<times> bytes) option" where
  \<comment> \<open>type, class and data of a resource record\<close>
  "read_record xs = (case skip_name xs of
       Some (t1 # t0 # c1 # c0 # _ # _ # _ # _ # l1 # l0 # rest) \<Rightarrow>
         (if be16 l1 l0 \<le> length rest then Some (be16 t1 t0, be16 c1 c0, take (be16 l1 l0) rest) else None)
     | _ \<Rightarrow> None)"

definition first_answer :: "bytes \<Rightarrow> (nat \<times> nat \<times> bytes) option" where
  \<comment> \<open>the first answer of a response to one question\<close>
  "first_answer m =
     (if length m < sizeof_dns_header \<or> \<not> bit (m ! 2) 7 \<or> be16 (m ! 4) (m ! 5) \<noteq> 1 \<or> be16 (m ! 6) (m ! 7) = 0 then None
      else case skip_name (drop sizeof_dns_header m) of
             Some (_ # _ # _ # _ # rest) \<Rightarrow> read_record rest
           | _ \<Rightarrow> None)"

definition name_ok :: "bytes list \<Rightarrow> bool" where
  "name_ok ls \<longleftrightarrow> (\<forall>l\<in>set ls. 0 < length l \<and> length l < 64)"

definition print_name :: "bytes list \<Rightarrow> bytes" where
  "print_name ls = concat (map (\<lambda>l. of_nat (length l) # l) ls) @ [0]"

definition print_query :: "8 word \<Rightarrow> 8 word \<Rightarrow> 8 word \<Rightarrow> 8 word \<Rightarrow> bytes \<Rightarrow> bytes list \<Rightarrow> bytes \<Rightarrow> bytes \<Rightarrow> bytes" where
  \<comment> \<open>a query with one question: id, flags, the six bytes of the other counts, name, type and class, further records\<close>
  "print_query i1 i0 f1 f0 counts name qtype rest =
     [i1, i0, f1, f0, 0, 1] @ counts @ print_name name @ qtype @ rest"

section \<open>Lemmas\<close>

lemma no_high_bit: "\<not> bit (a :: 8 word) (8 + n)"
  using bit_imp_le_length [of a "8 + n"] by auto

lemma store16_load16 [simp]: "store16 (load16 a b) = [a, b]"
  by (auto simp: store16_def load16_def bit_simps no_high_bit intro!: bit_word_eqI)

lemma layout_lengths [simp]: "length (store16 w) = 2" "length (store32 v) = 4" "length (write_header h) = 12" "length (write_answer a) = 16"
  by (simp_all add: store16_def store32_def write_header_def write_answer_def)

lemma below8: "n < 8 \<Longrightarrow> n \<in> {0, 1, 2, 3, 4, 5, 6, 7 :: nat}"
  by auto

lemma flags_byte: "take_bit 3 (drop_bit 4 b) = z \<Longrightarrow> push_bit 4 z OR flag 7 (bit b 7) = (b :: 8 word) AND 0xF0"
  by (rule bit_word_eqI) (drule below8 [OF less_le_trans], simp, auto simp: flag_def bit_simps)

lemma response_header_bytes:
  "write_header (response_header (read_header d))
     = [d ! 0, d ! 1, 0x84, d ! 3 AND 0xF0, d ! 4, d ! 5, d ! 4, d ! 5, 0, 0, 0, 0]"
proof -
  have zero: "store16 0 = [0, 0]" by (simp add: store16_def)
  show ?thesis
    by (simp add: write_header_def response_header_def read_header_def zero flags_byte DNS_OPCODE_QUERY_def
        DNS_REPLY_CODE_NO_ERROR_def) (simp add: flag_def)
qed

lemma store16_htons: "store16 (htons w) = [ucast (drop_bit 8 w), ucast w]"
  by (simp add: htons_def)

lemma answer_bytes: "write_answer (answer_record ip) = [0xC0, 0x0C, 0, 1, 0, 1, 0, 0, 0, 0, 0, 4] @ store32 ip"
proof -
  have "store32 0 = [0, 0, 0, 0]" by (simp add: store32_def)
  then show ?thesis
    by (simp add: write_answer_def answer_record_def store16_htons DNS_ANSWER_TYPE_A_def DNS_ANSWER_CLASS_IN_def drop_bit_eq_div)
qed

definition response_bytes :: "bytes \<Rightarrow> 32 word \<Rightarrow> bytes" where
  "response_bytes r ip =
     [r ! 0, r ! 1, 0x84, r ! 3 AND 0xF0, r ! 4, r ! 5, r ! 4, r ! 5, 0, 0, 0, 0] @ drop 12 r
     @ [0xC0, 0x0C, 0, 1, 0, 1, 0, 0, 0, 0, 0, 4] @ store32 ip"

definition buf_ok :: "dns_tmp_buf \<Rightarrow> bool" where
  "buf_ok b \<longleftrightarrow> length (db_data b) = DNS_QUERY_MAX_SIZE + 1 \<and> length (db_response b) = DNS_ANSWER_MAX_SIZE"

lemma replace_terminated: "0 \<in> set p \<Longrightarrow> \<exists>q. replace_non_ascii_with_dots p = Some q \<and> length q = length p"
  by (induction p) auto

lemma memcpy_some: "at + length src \<le> length buf \<Longrightarrow> memcpy_at at src buf = Some (take at buf @ src @ drop (at + length src) buf)"
  by (simp add: memcpy_at_def)

lemma memcpy_chain:
  "length src \<le> length buf \<Longrightarrow> memcpy_at (length a) src (a @ buf) = Some (a @ src @ drop (length src) buf)"
  by (simp add: memcpy_at_def)

lemma dns_handle_run:
  assumes "buf_ok b" "12 \<le> length r" "r = take DNS_QUERY_MAX_SIZE d"
  shows "\<exists>b'. dns_server_handle_req (Some d) ip b = Some (Some (response_bytes r ip), b') \<and> buf_ok b'"
proof -
  from assms(3) have r: "length r \<le> 80" by (simp add: DNS_QUERY_MAX_SIZE_def)
  have size: "length (db_data b) = 81" "length (db_response b) = 96"
    using assms(1) by (simp_all add: buf_ok_def DNS_QUERY_MAX_SIZE_def DNS_ANSWER_MAX_SIZE_def)
  define z where "z = replicate (80 - length r) (0 :: 8 word)"
  have z: "drop (length r) (replicate 81 0) = 0 # z"
  proof -
    have "81 - length r = Suc (80 - length r)" using r by simp
    then show ?thesis by (simp only: z_def drop_replicate replicate_Suc)
  qed
  have data: "memcpy_at 0 r (replicate 81 0) = Some (r @ 0 # z)"
    using r by (simp add: memcpy_at_def z del: drop_replicate)
  have data': "memcpy_at (length r) [0] (r @ 0 # z) = Some (r @ 0 # z)" by (simp add: memcpy_at_def)
  define h where "h = write_header (response_header (read_header (r @ 0 # z)))"
  have h: "h = [r ! 0, r ! 1, 0x84, r ! 3 AND 0xF0, r ! 4, r ! 5, r ! 4, r ! 5, 0, 0, 0, 0]"
  proof -
    have "r \<noteq> []" using assms(2) by auto
    with assms(2) show ?thesis by (simp add: h_def response_header_bytes nth_append)
  qed
  define w0 where "w0 = drop 12 (db_response b)"
  have len_h: "length h = 12" by (simp add: h)
  have resp1: "memcpy_at 0 h (db_response b) = Some (h @ w0)" using size by (simp add: memcpy_at_def len_h w0_def)
  define w1 where "w1 = drop (length r - 12) w0"
  have w1: "length w1 = 96 - length r" using size r assms(2) by (simp add: w1_def w0_def)
  have resp2: "memcpy_at 12 (drop 12 r) (h @ w0) = Some ((h @ drop 12 r) @ w1)"
    using memcpy_chain [of "drop 12 r" w0 h] size r assms(2) by (simp add: len_h w0_def w1_def)
  let ?ans = "write_answer (answer_record ip)"
  have len_hr: "length (h @ drop 12 r) = length r" using assms(2) by (simp add: len_h)
  have resp3: "memcpy_at (length r) ?ans ((h @ drop 12 r) @ w1) = Some ((h @ drop 12 r) @ ?ans @ drop 16 w1)"
    using memcpy_chain [of ?ans w1 "h @ drop 12 r"] w1 r unfolding len_hr by simp
  have sent: "take (length r + 16) ((h @ drop 12 r) @ ?ans @ drop 16 w1) = response_bytes r ip"
  proof -
    have "response_bytes r ip = (h @ drop 12 r) @ ?ans" by (simp add: response_bytes_def h answer_bytes)
    moreover have "length ((h @ drop 12 r) @ ?ans) = length r + 16" using len_hr by simp
    ultimately show ?thesis by (metis append_assoc append_eq_conv_conj)
  qed
  have "0 \<in> set (drop 13 (r @ 0 # z))"
  proof (cases "length r = 12")
    case True
    then have "z \<noteq> []" "hd z = 0" by (simp_all add: z_def)
    with True show ?thesis by (cases z) simp_all
  next
    case False
    with assms(2) show ?thesis by simp
  qed
  then obtain p where p: "replace_non_ascii_with_dots (drop 13 (r @ 0 # z)) = Some p" "length p = length (drop 13 (r @ 0 # z))"
    using replace_terminated by blast
  define b' where "b' = \<lparr>db_data = take 13 (r @ 0 # z) @ p, db_response = (h @ drop 12 r) @ ?ans @ drop 16 w1\<rparr>"
  have "dns_server_handle_req (Some d) ip b = Some (Some (response_bytes r ip), b')"
  proof -
    have recv: "map_option (take DNS_QUERY_MAX_SIZE) (Some d) = Some r" using assms(3) by simp
    have sizes: "sizeof_dns_header = 12" "(12 :: nat) + 1 = 13" "sizeof_dns_answer = 16" "DNS_ANSWER_MAX_SIZE - 16 = 80"
      by (simp_all add: sizeof_dns_header_def sizeof_dns_answer_def DNS_ANSWER_MAX_SIZE_def DNS_QUERY_MAX_SIZE_def)
    have conds: "(length r < 12) = False" "(80 < length r) = False" "take (length r) (r @ 0 # z) = r"
      using r assms(2) by simp_all
    have upd: "db_data (b\<lparr>db_data := x\<rparr>) = x" "db_response (b\<lparr>db_data := x\<rparr>) = db_response b"
      "db_response (b\<lparr>db_data := x, db_data := y\<rparr>) = db_response b" for x y by simp_all
    show ?thesis
      unfolding dns_server_handle_req_def Let_def recv sizes option.case
      by (simp only: upd size data data' resp1 resp2 resp3 p(1) sent conds if_False bind.bind_lunit dns_tmp_buf.simps
          h_def [symmetric] b'_def)
  qed
  moreover have "buf_ok b'"
  proof -
    have d: "length (r @ 0 # z) = 81" using r by (simp add: z_def)
    have "length (take 13 (r @ 0 # z) @ p) = 81" using p(2) d by (simp only: length_append length_take length_drop)
    moreover have "length ((h @ drop 12 r) @ ?ans @ drop 16 w1) = 96" using len_hr w1 r by simp
    ultimately show ?thesis
      by (simp only: buf_ok_def b'_def dns_tmp_buf.simps DNS_QUERY_MAX_SIZE_def DNS_ANSWER_MAX_SIZE_def) simp
  qed
  ultimately show ?thesis by blast
qed

lemma dns_req_result:
  assumes "buf_ok b"
  shows "\<exists>b'. dns_server_handle_req dgram ip b =
      Some (case dgram of None \<Rightarrow> None
            | Some d \<Rightarrow> if length d < 12 then None else Some (response_bytes (take 80 d) ip), b') \<and> buf_ok b'"
proof (cases dgram)
  case None
  with assms show ?thesis by (simp add: dns_server_handle_req_def Let_def buf_ok_def)
next
  case (Some d)
  show ?thesis
  proof (cases "length d < 12")
    case True
    with assms Some show ?thesis
      by (simp add: dns_server_handle_req_def Let_def buf_ok_def memcpy_at_def DNS_QUERY_MAX_SIZE_def sizeof_dns_header_def)
  next
    case False
    then have "12 \<le> length (take 80 d)" by simp
    from dns_handle_run [OF assms this] obtain b' where
      "dns_server_handle_req dgram ip b = Some (Some (response_bytes (take 80 d) ip), b')" "buf_ok b'"
      unfolding Some DNS_QUERY_MAX_SIZE_def by blast
    with False Some show ?thesis by simp
  qed
qed

lemma dns_req_total: "buf_ok b \<Longrightarrow> \<exists>resp b'. dns_server_handle_req dgram ip b = Some (resp, b') \<and> buf_ok b'"
  using dns_req_result [of b dgram ip] by blast

section \<open>Properties\<close>

text \<open>
  C24: whatever datagram arrives, the DNS server neither reads nor writes outside of its two
  buffers and keeps them; it answers exactly the datagrams that hold a header, with sixteen bytes
  more than it has received. A datagram of more than eighty bytes is not ignored: its first
  eighty bytes are answered.
\<close>

theorem dns_req_safe:
  assumes "buf_ok b"
  shows "\<exists>b'. dns_server_handle_req dgram ip b =
      Some (case dgram of None \<Rightarrow> None
            | Some d \<Rightarrow> if length d < 12 then None else Some (response_bytes (take 80 d) ip), b') \<and> buf_ok b'"
  using assms by (rule dns_req_result)

lemma skip_print_name: "name_ok ls \<Longrightarrow> skip_name (print_name ls @ xs) = Some xs"
proof (induction ls)
  case Nil
  show ?case by (simp add: print_name_def skip_name.simps)
next
  case (Cons l ls)
  then have l: "0 < length l" "length l < 64" "name_ok ls" by (simp_all add: name_ok_def)
  then have u: "unat (of_nat (length l) :: 8 word) = length l" by (simp add: unat_of_nat)
  with l(1) have "of_nat (length l) \<noteq> (0 :: 8 word)" by (metis unat_0 less_irrefl)
  moreover have "print_name (l # ls) @ xs = of_nat (length l) # l @ print_name ls @ xs" by (simp add: print_name_def)
  ultimately show ?case using Cons.IH [OF l(3)] u l(2) by (subst \<open>print_name (l # ls) @ xs = _\<close>) (subst skip_name.simps, simp)
qed

lemma read_answer: "read_record ([0xC0, 0x0C, 0, 1, 0, 1, 0, 0, 0, 0, 0, 4] @ store32 ip) = Some (1, 1, store32 ip)"
proof -
  have "skip_name (0xC0 # 0x0C # xs) = Some xs" for xs by (subst skip_name.simps) simp
  then show ?thesis by (simp add: read_record_def be16_def store32_def)
qed

lemma first_answer_response:
  assumes "name_ok name" "length counts = 6" "length qtype = 4"
  shows "first_answer (response_bytes (print_query i1 i0 f1 f0 counts name qtype rest) ip)
    = read_record (rest @ [0xC0, 0x0C, 0, 1, 0, 1, 0, 0, 0, 0, 0, 4] @ store32 ip)"
proof -
  obtain q1 q2 q3 q4 where q: "qtype = [q1, q2, q3, q4]"
    using assms(3) by (auto simp: length_Suc_conv numeral_eq_Suc)
  have "drop 12 (print_query i1 i0 f1 f0 counts name qtype rest) = print_name name @ qtype @ rest"
    using assms(2) by (simp add: print_query_def)
  with skip_print_name [OF assms(1)] show ?thesis
    by (simp add: first_answer_def response_bytes_def print_query_def sizeof_dns_header_def q be16_def)
qed

text \<open>
  C23: a query with one question and no further records, of at most eighty bytes, is answered
  with its own identifier and question and one answer: an address record with the address of
  the access point, whatever name and type it asks for.
\<close>

theorem dns_answers_question:
  assumes "buf_ok b" "name_ok name" "length counts = 6" "length qtype = 4"
    and "query = print_query i1 i0 f1 f0 counts name qtype []" "length query \<le> DNS_QUERY_MAX_SIZE"
  shows "\<exists>resp b'. dns_server_handle_req (Some query) ip b = Some (Some resp, b')
    \<and> take 2 resp = [i1, i0] \<and> take (length query - 12) (drop 12 resp) = print_name name @ qtype
    \<and> first_answer resp = Some (1, 1, store32 ip)"
proof -
  have len: "12 \<le> length query" "length query \<le> 80"
    using assms(3,5,6) by (simp_all add: print_query_def DNS_QUERY_MAX_SIZE_def)
  with dns_req_result [OF assms(1), of "Some query" ip] obtain b' where
    "dns_server_handle_req (Some query) ip b = Some (Some (response_bytes query ip), b')" by auto
  moreover have "take 2 (response_bytes query ip) = [i1, i0]"
    "take (length query - 12) (drop 12 (response_bytes query ip)) = print_name name @ qtype"
    using assms(3) by (simp_all add: response_bytes_def assms(5) print_query_def)
  moreover have "first_answer (response_bytes query ip) = Some (1, 1, store32 ip)"
    using first_answer_response [OF assms(2-4), of i1 i0 f1 f0 "[]" ip] read_answer assms(5) by simp
  ultimately show ?thesis by blast
qed

text \<open>
  A query with a further record (the option record of the clients of today) is not answered:
  the response announces one answer, and a client finds its own record in that place.
\<close>

theorem dns_option_record_echoed:
  assumes "buf_ok b" "name_ok name" "length counts = 6" "length qtype = 4"
    and "query = print_query i1 i0 f1 f0 counts name qtype [0, 0, 41, s1, s0, t3, t2, t1, t0, 0, 0]"
    and "length query \<le> DNS_QUERY_MAX_SIZE"
  shows "\<exists>resp b'. dns_server_handle_req (Some query) ip b = Some (Some resp, b') \<and> first_answer resp = Some (41, be16 s1 s0, [])"
proof -
  have len: "12 \<le> length query" "length query \<le> 80"
    using assms(3,5,6) by (simp_all add: print_query_def DNS_QUERY_MAX_SIZE_def)
  with dns_req_result [OF assms(1), of "Some query" ip] obtain b' where
    "dns_server_handle_req (Some query) ip b = Some (Some (response_bytes query ip), b')" by auto
  moreover have "skip_name (0 # xs) = Some xs" for xs by (subst skip_name.simps) simp
  then have "first_answer (response_bytes query ip) = Some (41, be16 s1 s0, [])"
    unfolding assms(5) first_answer_response [OF assms(2-4)] by (simp add: read_record_def be16_def)
  ultimately show ?thesis by blast
qed

section \<open>Witnesses\<close>

definition dns_buf0 :: dns_tmp_buf where
  "dns_buf0 = \<lparr>db_data = replicate 81 0, db_response = replicate 96 0\<rparr>"

definition query0 :: "bytes \<Rightarrow> bytes" where
  \<comment> \<open>\<open>ab.c\<close>, type AAAA\<close>
  "query0 rest = print_query 0x12 0x34 1 0 [0, 0, 0, 0, 0, 1] [[0x61, 0x62], [0x63]] [0, 28, 0, 1] rest"

lemma dns_buf0_ok: "buf_ok dns_buf0"
  by (simp add: buf_ok_def dns_buf0_def DNS_QUERY_MAX_SIZE_def DNS_ANSWER_MAX_SIZE_def)

lemma dns_req_safe_witness:
  "\<exists>b'. dns_server_handle_req (Some (replicate 200 0)) 0x0104A8C0 dns_buf0 = Some (Some (response_bytes (replicate 80 0) 0x0104A8C0), b') \<and> buf_ok b'"
  using dns_req_safe [OF dns_buf0_ok, of "Some (replicate 200 0)" "0x0104A8C0"] by simp

lemma dns_answers_question_witness:
  "\<exists>resp b'. dns_server_handle_req (Some (query0 [])) 0x0104A8C0 dns_buf0 = Some (Some resp, b')
    \<and> take 2 resp = [0x12, 0x34] \<and> first_answer resp = Some (1, 1, store32 0x0104A8C0)"
proof -
  have "name_ok [[0x61, 0x62], [0x63]]" "length (query0 []) \<le> DNS_QUERY_MAX_SIZE"
    by (simp_all add: name_ok_def query0_def print_query_def print_name_def DNS_QUERY_MAX_SIZE_def)
  from dns_answers_question [OF dns_buf0_ok this(1) _ _ query0_def this(2), of "0x0104A8C0"] show ?thesis by auto
qed

lemma dns_option_record_echoed_witness:
  "\<exists>resp b'. dns_server_handle_req (Some (query0 [0, 0, 41, 0x10, 0, 0, 0, 0, 0, 0, 0])) 0x0104A8C0 dns_buf0 = Some (Some resp, b')
    \<and> first_answer resp = Some (41, 4096, [])"
proof -
  have "name_ok [[0x61, 0x62], [0x63]]" "length (query0 [0, 0, 41, 0x10, 0, 0, 0, 0, 0, 0, 0]) \<le> DNS_QUERY_MAX_SIZE"
    by (simp_all add: name_ok_def query0_def print_query_def print_name_def DNS_QUERY_MAX_SIZE_def)
  from dns_option_record_echoed [OF dns_buf0_ok this(1) _ _ query0_def this(2), of "0x0104A8C0"] show ?thesis
    by (simp add: be16_def)
qed

end
