(* ===== verification/CString.thy ===== *)
theory CString
  imports Prelude
begin

text \<open>
  The functions of \<^verbatim>\<open>string.h\<close>, \<^verbatim>\<open>stdio.h\<close> and \<^verbatim>\<open>stdlib.h\<close> that the sources call, on the
  content of C strings, and the same scans on raw memory, where running past the end of
  the block is a fault (\<open>None\<close>). The C functions return pointers; here they return the
  offset from the pointer they were given.
\<close>

section \<open>Comparison\<close>

definition strncmp_eq :: "cstr \<Rightarrow> cstr \<Rightarrow> nat \<Rightarrow> bool" where
  \<comment> \<open>\<open>0 == strncmp(a, b, n)\<close>: equal up to the first NUL or up to n bytes\<close>
  "strncmp_eq a b n \<longleftrightarrow> take n a = take n b"

lemma strncmp_eq_length: "strncmp_eq a b (length b) \<longleftrightarrow> prefix b a"
  by (simp add: strncmp_eq_def prefix_take_eq)

definition strnlen :: "cstr \<Rightarrow> nat \<Rightarrow> nat" where
  "strnlen s n = min (length s) n"

section \<open>Searching\<close>

fun find_idx :: "('a \<Rightarrow> bool) \<Rightarrow> 'a list \<Rightarrow> nat option" where
  \<comment> \<open>offset of the first byte that satisfies a predicate: \<open>strchr\<close>, \<open>strpbrk\<close>\<close>
  "find_idx P [] = None"
| "find_idx P (c # s) = (if P c then Some 0 else map_option Suc (find_idx P s))"

definition strchr_idx :: "cstr \<Rightarrow> char \<Rightarrow> nat option" where
  "strchr_idx s c = find_idx (\<lambda>x. x = c) s"

definition strpbrk_crlf :: "cstr \<Rightarrow> nat option" where
  "strpbrk_crlf s = find_idx is_crlf_char s"

definition strrchr_idx :: "cstr \<Rightarrow> char \<Rightarrow> nat option" where
  "strrchr_idx s c = map_option (\<lambda>i. length s - 1 - i) (find_idx (\<lambda>x. x = c) (rev s))"

fun strstr_idx :: "'a list \<Rightarrow> 'a list \<Rightarrow> nat option" where
  \<comment> \<open>\<open>strstr(haystack, needle)\<close>\<close>
  "strstr_idx [] n = (if n = [] then Some 0 else None)"
| "strstr_idx (c # h) n = (if prefix n (c # h) then Some 0 else map_option Suc (strstr_idx h n))"

definition to_lower :: "char \<Rightarrow> char" where
  "to_lower c = (if CHR ''A'' \<le> c \<and> c \<le> CHR ''Z'' then char_of (of_char c + (32::nat)) else c)"

definition strcasestr_idx :: "cstr \<Rightarrow> cstr \<Rightarrow> nat option" where
  "strcasestr_idx h n = strstr_idx (map to_lower h) (map to_lower n)"

lemma find_idx_None: "find_idx P s = None \<longleftrightarrow> (\<forall>c\<in>set s. \<not> P c)"
  by (induction s) auto

lemma find_idx_Some:
  "find_idx P s = Some i \<Longrightarrow> i < length s \<and> P (s ! i) \<and> (\<forall>j<i. \<not> P (s ! j))"
proof (induction s arbitrary: i)
  case Nil
  then show ?case by simp
next
  case (Cons c s)
  show ?case
  proof (cases "P c")
    case True
    with Cons.prems show ?thesis by simp
  next
    case False
    with Cons.prems obtain k where k: "find_idx P s = Some k" "i = Suc k" by auto
    from Cons.IH [OF k(1)] k(2) False show ?thesis
      by (auto simp: nth_Cons split: nat.splits)
  qed
qed

lemma find_idx_take: "find_idx P s = Some i \<Longrightarrow> \<forall>c\<in>set (take i s). \<not> P c"
  using find_idx_Some [of P s i] by (auto simp: in_set_conv_nth)

lemma find_idx_append:
  "\<forall>c\<in>set s. \<not> P c \<Longrightarrow> find_idx P (s @ t) = map_option ((+) (length s)) (find_idx P t)"
  by (induction s) (cases "find_idx P t"; simp)+

lemma find_idx_hit: "\<forall>c\<in>set s. \<not> P c \<Longrightarrow> P d \<Longrightarrow> find_idx P (s @ d # t) = Some (length s)"
  by (simp add: find_idx_append)

lemma find_idx_split:
  assumes "find_idx P s = Some i"
  shows "s = take i s @ s ! i # drop (Suc i) s" and "P (s ! i)"
    and "\<forall>c\<in>set (take i s). \<not> P c" and "i < length s"
  using find_idx_Some [OF assms] find_idx_take [OF assms] by (auto simp: id_take_nth_drop)

lemma strstr_idx_Some:
  "strstr_idx h n = Some i \<Longrightarrow> i \<le> length h \<and> prefix n (drop i h)"
  by (induction h arbitrary: i) (auto split: if_splits)

lemma strstr_idx_first:
  "strstr_idx h n = Some i \<Longrightarrow> j < i \<Longrightarrow> \<not> prefix n (drop j h)"
proof (induction h arbitrary: i j)
  case Nil
  then show ?case by (auto split: if_splits)
next
  case (Cons c h)
  then show ?case by (cases j) (auto split: if_splits)
qed

lemma strstr_idx_None: "strstr_idx h n = None \<Longrightarrow> \<not> prefix n (drop j h)"
proof (induction h arbitrary: j)
  case Nil
  then show ?case by (auto split: if_splits)
next
  case (Cons c h)
  then show ?case by (cases j) (auto split: if_splits)
qed

lemma strstr_idx_length: "strstr_idx h n = Some i \<Longrightarrow> i + length n \<le> length h"
  using strstr_idx_Some [of h n i] prefix_length_le [of n "drop i h"] by fastforce

lemma strstr_idx_prefix: "prefix n h \<Longrightarrow> strstr_idx h n = Some 0"
  by (cases h) auto

lemma strstr_idxI:
  assumes "prefix n (drop i h)" and "\<And>j. j < i \<Longrightarrow> \<not> prefix n (drop j h)" and "i \<le> length h"
  shows "strstr_idx h n = Some i"
proof (cases "strstr_idx h n")
  case None
  with strstr_idx_None [OF None] assms show ?thesis by blast
next
  case (Some k)
  have "k = i"
    using strstr_idx_Some [OF Some] strstr_idx_first [OF Some] assms
    by (metis linorder_neqE_nat)
  with Some show ?thesis by simp
qed

section \<open>Scans of raw memory\<close>

fun mstr :: "mem \<Rightarrow> cstr faulting" where
  \<comment> \<open>the C string that starts a block; a fault when the block holds no NUL\<close>
  "mstr [] = None"
| "mstr (c # m) = (if c = NUL then Some [] else map_option (Cons c) (mstr m))"

fun mscan :: "(mem \<Rightarrow> bool) \<Rightarrow> mem \<Rightarrow> ptr faulting" where
  \<comment> \<open>first position where a test holds: null at the NUL, a fault at the end of the block\<close>
  "mscan P [] = None"
| "mscan P (c # m) =
     (if c = NUL then Some None
      else if P (c # m) then Some (Some 0)
      else map_option (map_option Suc) (mscan P m))"

definition mread :: "mem \<Rightarrow> nat \<Rightarrow> char faulting" where
  "mread m i = (if i < length m then Some (m ! i) else None)"

definition mwrite :: "mem \<Rightarrow> nat \<Rightarrow> char \<Rightarrow> mem faulting" where
  "mwrite m i c = (if i < length m then Some (m[i := c]) else None)"

definition mstr_at :: "mem \<Rightarrow> nat \<Rightarrow> cstr faulting" where
  "mstr_at m p = mstr (drop p m)"

definition mstrstr :: "mem \<Rightarrow> nat \<Rightarrow> cstr \<Rightarrow> ptr faulting" where
  \<comment> \<open>\<open>strstr(&m[p], n)\<close> for a needle that is not empty, as a pointer into the block\<close>
  "mstrstr m p n = map_option (map_option ((+) p)) (mscan (prefix n) (drop p m))"

definition mstrchr :: "mem \<Rightarrow> nat \<Rightarrow> char \<Rightarrow> ptr faulting" where
  "mstrchr m p c = map_option (map_option ((+) p)) (mscan (\<lambda>s. prefix [c] s) (drop p m))"

lemma mstr_None: "mstr m = None \<longleftrightarrow> nul_free m"
  by (induction m) auto

lemma mstr_total: "\<not> nul_free m \<Longrightarrow> \<exists>s. mstr m = Some s"
  using mstr_None by auto

lemma mstr_append [simp]: "nul_free s \<Longrightarrow> mstr (s @ NUL # t) = Some s"
  by (induction s) auto

lemma mstr_Some: "mstr m = Some s \<Longrightarrow> nul_free s \<and> (\<exists>t. m = s @ NUL # t)"
proof (induction m arbitrary: s)
  case Nil
  then show ?case by simp
next
  case (Cons c m)
  show ?case
  proof (cases "c = NUL")
    case True
    with Cons.prems show ?thesis by simp
  next
    case False
    with Cons.prems obtain s' where s': "mstr m = Some s'" "s = c # s'" by auto
    from Cons.IH [OF s'(1)] s'(2) False show ?thesis by auto
  qed
qed

lemma mscan_total: "\<not> nul_free m \<Longrightarrow> \<exists>r. mscan P m = Some r"
  by (induction m) auto

lemma mscan_Some:
  "mscan P m = Some (Some i) \<Longrightarrow>
     i < length m \<and> P (drop i m) \<and> nul_free (take (Suc i) m) \<and> (\<forall>j<i. \<not> P (drop j m))"
proof (induction m arbitrary: i)
  case Nil
  then show ?case by simp
next
  case (Cons c m)
  show ?case
  proof (cases "c = NUL \<or> P (c # m)")
    case True
    with Cons.prems show ?thesis by (auto split: if_splits)
  next
    case False
    with Cons.prems obtain k where k: "mscan P m = Some (Some k)" "i = Suc k" by auto
    have "\<not> P (drop j (c # m))" if "j < i" for j
      using that False Cons.IH [OF k(1)] k(2) by (cases j) auto
    with Cons.IH [OF k(1)] k(2) False show ?thesis by auto
  qed
qed

lemma mscan_skip:
  assumes "nul_free s" "\<And>j. j < length s \<Longrightarrow> \<not> P (drop j s @ t)"
  shows "mscan P (s @ t) = map_option (map_option ((+) (length s))) (mscan P t)"
  using assms
proof (induction s)
  case Nil
  show ?case by (cases "mscan P t" rule: option.exhaust) (auto simp: option.map_ident fun_eq_iff
      intro!: option.map_cong0 [where g = id, simplified option.map_id0, simplified, symmetric])
next
  case (Cons c s)
  have "\<not> P (c # s @ t)" using Cons.prems(2) [of 0] by simp
  moreover have "mscan P (s @ t) = map_option (map_option ((+) (length s))) (mscan P t)"
  proof (rule Cons.IH)
    show "nul_free s" using Cons.prems(1) by simp
    fix j assume "j < length s"
    then show "\<not> P (drop j s @ t)" using Cons.prems(2) [of "Suc j"] by simp
  qed
  ultimately show ?case using Cons.prems(1)
    by (auto simp: option.map_comp comp_def intro!: option.map_cong0)
qed

lemma mscan_here: "t \<noteq> [] \<Longrightarrow> hd t \<noteq> NUL \<Longrightarrow> P t \<Longrightarrow> mscan P t = Some (Some 0)"
  by (cases t) auto

lemma mscan_char_skip:
  "nul_free s \<Longrightarrow> c \<notin> set s \<Longrightarrow>
     mscan (prefix (c # n)) (s @ t) = map_option (map_option ((+) (length s))) (mscan (prefix (c # n)) t)"
proof (rule mscan_skip)
  fix j assume "c \<notin> set s" "j < length s"
  then have "drop j s = s ! j # drop (Suc j) s" and "s ! j \<noteq> c"
    by (auto simp: Cons_nth_drop_Suc)
  then show "\<not> prefix (c # n) (drop j s @ t)" by simp
qed

lemma mstrchr_hit:
  assumes "drop p m = s @ c # t" "nul_free s" "c \<notin> set s" "c \<noteq> NUL"
  shows "mstrchr m p c = Some (Some (p + length s))"
  using assms by (simp add: mstrchr_def mscan_char_skip)

lemma mstrchr_miss:
  assumes "drop p m = s @ NUL # t" "nul_free s" "c \<notin> set s"
  shows "mstrchr m p c = Some None"
  using assms by (simp add: mstrchr_def mscan_char_skip)

lemma mwrite_at:
  assumes "m = s @ d # t" "length s = i"
  shows "mwrite m i c = Some (s @ c # t)"
  using assms by (auto simp: mwrite_def list_update_append)

lemma length_mwrite: "mwrite m i c = Some m' \<Longrightarrow> length m' = length m"
  by (auto simp: mwrite_def split: if_splits)

section \<open>Formatting\<close>

definition snprintf_s :: "nat \<Rightarrow> cstr \<Rightarrow> cstr" where
  \<comment> \<open>what \<open>snprintf(buf, n, ...)\<close> leaves in \<open>buf\<close> (\<open>0 < n\<close>) when the formatted text is s\<close>
  "snprintf_s n s = take (n - 1) s"

lemma snprintf_s_fits: "nul_free s \<Longrightarrow> 0 < n \<Longrightarrow> fits n (snprintf_s n s)"
  by (auto simp: snprintf_s_def fits_def)

lemma snprintf_s_id [simp]: "length s < n \<Longrightarrow> snprintf_s n s = s"
  by (simp add: snprintf_s_def)

lemma nul_free_snprintf_s [simp]: "nul_free s \<Longrightarrow> nul_free (snprintf_s n s)"
  by (auto simp: snprintf_s_def)

definition digit_char :: "nat \<Rightarrow> char" where
  "digit_char d = char_of (48 + d)"

fun dec_nat :: "nat \<Rightarrow> cstr" where
  \<comment> \<open>\<open>%u\<close>\<close>
  "dec_nat n = (if n < 10 then [digit_char n] else dec_nat (n div 10) @ [digit_char (n mod 10)])"

declare dec_nat.simps [simp del]

definition dec_int :: "int \<Rightarrow> cstr" where
  \<comment> \<open>\<open>%d\<close>\<close>
  "dec_int i = (if i < 0 then CHR ''-'' # dec_nat (nat (- i)) else dec_nat (nat i))"

definition hex_digit :: "nat \<Rightarrow> char" where
  "hex_digit d = (if d < 10 then char_of (48 + d) else char_of (87 + d))"

definition quoted :: "cstr \<Rightarrow> cstr" where
  "quoted s = DQ # s @ [DQ]"

lemma length_quoted [simp]: "length (quoted s) = length s + 2"
  by (simp add: quoted_def)

lemma nul_free_quoted [simp]: "nul_free (quoted s) \<longleftrightarrow> nul_free s"
  by (simp add: quoted_def)

section \<open>Reading numbers\<close>

definition is_space :: "char \<Rightarrow> bool" where
  "is_space c \<longleftrightarrow> c = SP \<or> (CHR 0x09 \<le> c \<and> c \<le> CR)"

definition is_digit :: "char \<Rightarrow> bool" where
  "is_digit c \<longleftrightarrow> CHR ''0'' \<le> c \<and> c \<le> CHR ''9''"

definition digit_val :: "char \<Rightarrow> nat" where
  "digit_val c = of_char c - 48"

definition num_of :: "cstr \<Rightarrow> nat" where
  "num_of ds = fold (\<lambda>c n. 10 * n + digit_val c) ds 0"

definition strtoul10 :: "cstr \<Rightarrow> nat" where
  \<comment> \<open>\<open>strtoul(s, NULL, 10)\<close> with a 32 bit \<open>unsigned long\<close>: blanks, one sign, the digits;
      the value saturates at \<open>ULONG_MAX\<close> and a minus sign negates it modulo \<open>2 ^ 32\<close>\<close>
  "strtoul10 s =
     (let t = dropWhile is_space s;
          neg = prefix ''-'' t;
          u = (if neg \<or> prefix ''+'' t then tl t else t);
          v = num_of (takeWhile is_digit u)
      in if 2 ^ 32 \<le> v then 2 ^ 32 - 1
         else if neg then (2 ^ 32 - v) mod 2 ^ 32 else v)"

definition strtol10 :: "cstr \<Rightarrow> int" where
  \<comment> \<open>\<open>strtol(s, NULL, 10)\<close> with a 32 bit \<open>long\<close>, saturating\<close>
  "strtol10 s =
     (let t = dropWhile is_space s;
          neg = prefix ''-'' t;
          u = (if neg \<or> prefix ''+'' t then tl t else t);
          v = int (num_of (takeWhile is_digit u))
      in if neg then max (- v) (- (2 ^ 31)) else min v (2 ^ 31 - 1))"

lemma strtoul10_bound: "strtoul10 s < 2 ^ 32"
  by (simp add: strtoul10_def Let_def)

section \<open>Unsigned subtraction\<close>

definition sub_u32 :: "nat \<Rightarrow> nat \<Rightarrow> nat" where
  \<comment> \<open>\<open>a - b\<close> on 32 bit unsigned values, which wraps\<close>
  "sub_u32 a b = (if b \<le> a then a - b else 2 ^ 32 - (b - a))"

lemma sub_u32_le [simp]: "b \<le> a \<Longrightarrow> sub_u32 a b = a - b"
  by (simp add: sub_u32_def)

end
