(* ===== verification/HttpReq.thy ===== *)
theory HttpReq
  imports CString
begin

text \<open>
  \<^verbatim>\<open>src/http_req.c\<close>: splitting a received request in place and looking up a header field.

  \<open>http_req_parse\<close> works on the memory block that holds the request: the C code writes NULs
  into it and returns pointers into it. The model returns the new block and the offsets;
  \<open>None\<close> is a read or a write outside of the block. \<open>http_req_header_get_field\<close> reads one
  C string, so its model works on the content of that string; the value pointer it returns
  is the rest of the string from that position.
\<close>

section \<open>Model\<close>

record http_req_info =
  is_success :: bool
  http_cmd :: ptr
  http_uri :: ptr
  http_uri_params :: ptr
  http_ver :: ptr
  http_header :: ptr
  http_body :: ptr

definition req_info_init :: http_req_info where
  "req_info_init =
     \<lparr>is_success = False, http_cmd = None, http_uri = None, http_uri_params = None,
      http_ver = None, http_header = None, http_body = None\<rparr>"

abbreviation two_crlf :: cstr where "two_crlf \<equiv> [CR, LF, CR, LF]"
abbreviation two_lf :: cstr where "two_lf \<equiv> [LF, LF]"
abbreviation one_crlf :: cstr where "one_crlf \<equiv> [CR, LF]"
abbreviation one_lf :: cstr where "one_lf \<equiv> [LF]"

definition parse_find_body :: "mem \<Rightarrow> (mem \<times> ptr) faulting" where
  \<comment> \<open>the blank line: cut the block after the first line end, point behind the second\<close>
  "parse_find_body m = do {
     r \<leftarrow> mstrstr m 0 two_crlf;
     case r of
       Some p \<Rightarrow> do { m1 \<leftarrow> mwrite m (p + 2) NUL; Some (m1, Some (p + 4)) }
     | None \<Rightarrow> do {
         r2 \<leftarrow> mstrstr m 0 two_lf;
         case r2 of
           Some p \<Rightarrow> do { m1 \<leftarrow> mwrite m (p + 1) NUL; Some (m1, Some (p + 2)) }
         | None \<Rightarrow> Some (m, None) } }"

definition parse_find_header :: "mem \<Rightarrow> (mem \<times> nat) faulting" where
  \<comment> \<open>the end of the request line: cut there, the header starts behind it\<close>
  "parse_find_header m = do {
     r \<leftarrow> mstrstr m 0 one_crlf;
     case r of
       Some p \<Rightarrow> do { m1 \<leftarrow> mwrite m p NUL; Some (m1, p + 2) }
     | None \<Rightarrow> do {
         r2 \<leftarrow> mstrstr m 0 one_lf;
         case r2 of
           Some p \<Rightarrow> do { m1 \<leftarrow> mwrite m p NUL; Some (m1, p + 1) }
         | None \<Rightarrow> do { s \<leftarrow> mstr_at m 0; Some (m, length s) } } }"

definition parse_rest :: "mem \<Rightarrow> nat \<Rightarrow> http_req_info \<Rightarrow> (mem \<times> http_req_info) faulting" where
  \<comment> \<open>from the URI on: the version behind the next blank, then the parameters of the URI\<close>
  "parse_rest m3 uri info2 = do {
     r2 \<leftarrow> mstrchr m3 uri SP;
     case r2 of
       None \<Rightarrow> Some (m3, info2)
     | Some p2 \<Rightarrow> do {
         m4 \<leftarrow> mwrite m3 p2 NUL;
         let info3 = info2\<lparr>http_ver := Some (p2 + 1)\<rparr>;
         r3 \<leftarrow> mstrchr m4 uri (CHR ''?'');
         case r3 of
           None \<Rightarrow> Some (m4, info3\<lparr>is_success := True\<rparr>)
         | Some p3 \<Rightarrow> do {
             m5 \<leftarrow> mwrite m4 p3 NUL;
             Some (m5, info3\<lparr>http_uri_params := Some (p3 + 1), is_success := True\<rparr>) } } }"

definition http_req_parse :: "mem \<Rightarrow> (mem \<times> http_req_info) faulting" where
  "http_req_parse m0 = do {
     (m1, body) \<leftarrow> parse_find_body m0;
     if body = None then Some (m1, req_info_init)
     else do {
       (m2, hdr) \<leftarrow> parse_find_header m1;
       let info1 = req_info_init\<lparr>http_body := body, http_header := Some hdr, http_cmd := Some 0\<rparr>;
       r1 \<leftarrow> mstrchr m2 0 SP;
       case r1 of
         None \<Rightarrow> Some (m2, info1)
       | Some p1 \<Rightarrow> do {
           m3 \<leftarrow> mwrite m2 p1 NUL;
           parse_rest m3 (p1 + 1) (info1\<lparr>http_uri := Some (p1 + 1)\<rparr>) } } }"

definition header_val_from :: "cstr \<Rightarrow> (cstr \<times> nat) option" where
  \<comment> \<open>the value that starts behind a field name: a quoted value must end with a quote just
      before the line end, and loses its quotes\<close>
  "header_val_from rest =
     (let val = dropWhile (\<lambda>c. c = SP) rest
      in if prefix [DQ] val then
           (let val1 = tl val
            in case strpbrk_crlf val1 of
                 None \<Rightarrow> None
               | Some end \<Rightarrow>
                   if end = 0 then None
                   else if val1 ! (end - 1) \<noteq> DQ then None
                   else Some (val1, end - 1))
         else
           (case strpbrk_crlf val of
              None \<Rightarrow> None
            | Some end \<Rightarrow> Some (val, end)))"

definition http_req_header_get_field :: "cstr \<Rightarrow> cstr \<Rightarrow> (cstr \<times> nat) option" where
  \<comment> \<open>the value pointer (the rest of the header from it) and its length; \<open>None\<close> is the null
      pointer, which the C code returns with length 0\<close>
  "http_req_header_get_field req_header field_name =
     (case strcasestr_idx req_header field_name of
        None \<Rightarrow> None
      | Some start \<Rightarrow> header_val_from (drop (start + length field_name) req_header))"

definition header_value :: "cstr \<Rightarrow> cstr \<Rightarrow> cstr option" where
  \<comment> \<open>the bytes of the value itself\<close>
  "header_value h f = map_option (\<lambda>(v, n). take n v) (http_req_header_get_field h f)"

text \<open>What the pointers of a parsed request designate.\<close>

record http_req_view =
  v_cmd :: cstr
  v_uri :: cstr
  v_uri_params :: "cstr option"
  v_ver :: cstr
  v_header :: cstr
  v_body :: cstr

definition ptr_str :: "mem \<Rightarrow> ptr \<Rightarrow> cstr faulting" where
  "ptr_str m p = Option.bind p (mstr_at m)"

definition ptr_str_opt :: "mem \<Rightarrow> ptr \<Rightarrow> cstr option faulting" where
  "ptr_str_opt m p = (case p of None \<Rightarrow> Some None | Some q \<Rightarrow> map_option Some (mstr_at m q))"

definition req_view :: "mem \<Rightarrow> http_req_info \<Rightarrow> http_req_view faulting" where
  "req_view m i = do {
     c \<leftarrow> ptr_str m (http_cmd i);
     u \<leftarrow> ptr_str m (http_uri i);
     ps \<leftarrow> ptr_str_opt m (http_uri_params i);
     v \<leftarrow> ptr_str m (http_ver i);
     h \<leftarrow> ptr_str m (http_header i);
     b \<leftarrow> ptr_str m (http_body i);
     Some \<lparr>v_cmd = c, v_uri = u, v_uri_params = ps, v_ver = v, v_header = h, v_body = b\<rparr> }"

section \<open>The header field lookup\<close>

lemma header_val_from_plain:
  assumes "val = dropWhile (\<lambda>c. c = SP) rest" "\<not> prefix [DQ] val" "header_val_from rest = Some (v, n)"
  shows "v = val" and "find_idx is_crlf_char val = Some n"
  using assms by (auto simp: header_val_from_def strpbrk_crlf_def Let_def split: option.splits)

lemma header_val_from_quoted:
  assumes "val = dropWhile (\<lambda>c. c = SP) rest" "prefix [DQ] val" "header_val_from rest = Some (v, n)"
  shows "v = tl val" and "find_idx is_crlf_char (tl val) = Some (Suc n)" and "v ! n = DQ"
  using assms by (auto simp: header_val_from_def strpbrk_crlf_def Let_def split: option.splits if_splits)

lemma header_val_from_shape:
  assumes "header_val_from rest = Some (v, n)"
  shows "n < length v \<and> suffix v rest \<and> (\<forall>c\<in>set (take n v). \<not> is_crlf_char c)
    \<and> (\<exists>c\<in>set (drop n v). is_crlf_char c)"
proof -
  define w where "w = dropWhile (\<lambda>c. c = SP) rest"
  have sw: "suffix w rest" unfolding w_def by (rule suffix_dropWhile)
  show ?thesis
  proof (cases "prefix [DQ] w")
    case True
    note q = header_val_from_quoted [OF w_def True assms]
    note s = find_idx_split [OF q(2)]
    have "v ! Suc n \<in> set (drop n v)"
      using s(4) q(1) by (auto simp: in_set_conv_nth intro!: exI [of _ 1])
    moreover have "set (take n v) \<subseteq> set (take (Suc n) v)"
      by (rule set_take_subset_set_take) simp
    moreover have "suffix v rest"
      using sw q(1) by (metis suffix_tl suffix_order.trans)
    ultimately show ?thesis
      using s q(1) by auto
  next
    case False
    note q = header_val_from_plain [OF w_def False assms]
    note s = find_idx_split [OF q(2)]
    have "v ! n \<in> set (drop n v)"
      using s(4) q(1) by (auto simp: in_set_conv_nth intro!: exI [of _ 0])
    with s q(1) sw show ?thesis by auto
  qed
qed

lemma get_field_shape:
  assumes "http_req_header_get_field h f = Some (v, n)"
  shows "n < length v" and "suffix v h" and "\<forall>c\<in>set (take n v). \<not> is_crlf_char c"
    and "\<exists>c\<in>set (drop n v). is_crlf_char c"
proof -
  obtain i where i: "header_val_from (drop (i + length f) h) = Some (v, n)"
    using assms by (auto simp: http_req_header_get_field_def split: option.splits)
  have "suffix (drop (i + length f) h) h" by (rule suffix_drop)
  with header_val_from_shape [OF i] show "n < length v" and "suffix v h"
    and "\<forall>c\<in>set (take n v). \<not> is_crlf_char c" and "\<exists>c\<in>set (drop n v). is_crlf_char c"
    using suffix_order.trans by blast+
qed

lemma get_field_end:
  assumes "http_req_header_get_field h f = Some (v, n)"
  shows "is_crlf_char (v ! n) \<or> v ! n = DQ"
proof -
  obtain i where i: "header_val_from (drop (i + length f) h) = Some (v, n)"
    using assms by (auto simp: http_req_header_get_field_def split: option.splits)
  let ?w = "dropWhile (\<lambda>c. c = SP) (drop (i + length f) h)"
  show ?thesis
  proof (cases "prefix [DQ] ?w")
    case True
    from header_val_from_quoted(3) [OF refl True i] show ?thesis by simp
  next
    case False
    from header_val_from_plain [OF refl False i] find_idx_split(2) [of is_crlf_char ?w n]
    show ?thesis by simp
  qed
qed

lemma get_field_prefix:
  \<comment> \<open>a scheme name without quotes and line ends at the value pointer is inside the value\<close>
  assumes "http_req_header_get_field h f = Some (v, n)" "prefix p v"
    and "\<forall>c\<in>set p. \<not> is_crlf_char c \<and> c \<noteq> DQ"
  shows "length p \<le> n \<and> take n v = p @ take (n - length p) (drop (length p) v)"
proof -
  obtain t where v: "v = p @ t" using assms(2) by (auto simp: prefix_def)
  have "length p \<le> n"
  proof (rule ccontr)
    assume "\<not> length p \<le> n"
    then have "v ! n \<in> set p" by (simp add: v nth_append)
    with get_field_end [OF assms(1)] assms(3) show False by auto
  qed
  then show ?thesis by (simp add: v)
qed

lemma suffix_nul_free: "suffix v h \<Longrightarrow> nul_free h \<Longrightarrow> nul_free v"
  by (auto simp: suffix_def)

lemma get_field_nul_free:
  "nul_free h \<Longrightarrow> http_req_header_get_field h f = Some (v, n) \<Longrightarrow> nul_free v"
  by (rule suffix_nul_free [OF get_field_shape(2)])

lemma get_field_len: "http_req_header_get_field h f = Some (v, n) \<Longrightarrow> n < length v"
  by (rule get_field_shape(1))

section \<open>Memory safety of the parser\<close>

definition terminated_at :: "mem \<Rightarrow> nat \<Rightarrow> bool" where
  \<comment> \<open>a C string starts at this offset and its NUL is inside the block\<close>
  "terminated_at m p \<longleftrightarrow> \<not> nul_free (drop p m)"

definition ptr_ok :: "mem \<Rightarrow> ptr \<Rightarrow> bool" where
  "ptr_ok m p \<longleftrightarrow> (\<forall>q. p = Some q \<longrightarrow> terminated_at m q)"

definition info_ok :: "mem \<Rightarrow> http_req_info \<Rightarrow> bool" where
  "info_ok m i \<longleftrightarrow> ptr_ok m (http_cmd i) \<and> ptr_ok m (http_uri i) \<and> ptr_ok m (http_uri_params i)
     \<and> ptr_ok m (http_ver i) \<and> ptr_ok m (http_header i) \<and> ptr_ok m (http_body i)"

lemma ptr_ok_simps [simp]: "ptr_ok m None" "ptr_ok m (Some q) \<longleftrightarrow> terminated_at m q"
  by (simp_all add: ptr_ok_def)

lemma terminated_at_iff: "terminated_at m p \<longleftrightarrow> (\<exists>i. p \<le> i \<and> i < length m \<and> m ! i = NUL)"
proof
  assume "terminated_at m p"
  then obtain j where "j < length (drop p m)" "drop p m ! j = NUL"
    by (auto simp: terminated_at_def nul_free_def in_set_conv_nth)
  then show "\<exists>i. p \<le> i \<and> i < length m \<and> m ! i = NUL"
    by (intro exI [of _ "p + j"]) auto
next
  assume "\<exists>i. p \<le> i \<and> i < length m \<and> m ! i = NUL"
  then obtain i where "p \<le> i" "i < length m" "m ! i = NUL" by blast
  then show "terminated_at m p"
    by (auto simp: terminated_at_def nul_free_def in_set_conv_nth intro!: exI [of _ "i - p"])
qed

lemma terminated_at_less: "terminated_at m p \<Longrightarrow> p < length m"
  by (auto simp: terminated_at_iff)

lemma terminated_at_le: "terminated_at m p \<Longrightarrow> q \<le> p \<Longrightarrow> terminated_at m q"
  by (meson terminated_at_iff le_trans)

lemma terminated_at_write:
  "mwrite m i NUL = Some m' \<Longrightarrow> terminated_at m p \<Longrightarrow> terminated_at m' p"
  by (auto simp: terminated_at_iff mwrite_def nth_list_update split: if_splits)

lemma info_ok_write: "mwrite m i NUL = Some m' \<Longrightarrow> info_ok m ri \<Longrightarrow> info_ok m' ri"
  unfolding info_ok_def ptr_ok_def by (blast intro: terminated_at_write)

lemma mwrite_terminated: "terminated_at m p \<Longrightarrow> q \<le> p \<Longrightarrow> \<exists>m'. mwrite m q c = Some m'"
  using terminated_at_less [of m p] by (auto simp: mwrite_def)

lemma mstr_at_terminated: "terminated_at m p \<Longrightarrow> \<exists>s. mstr_at m p = Some s"
  by (simp add: terminated_at_def mstr_at_def mstr_total)

lemma mscan_terminated:
  assumes "terminated_at m p"
  shows "\<exists>r. map_option (map_option ((+) p)) (mscan P (drop p m)) = Some r"
  using mscan_total [of "drop p m" P] assms by (auto simp: terminated_at_def)

lemma mscan_hit_split:
  assumes "mscan (prefix n) m = Some (Some i)"
  obtains t where "m = take i m @ n @ t" "nul_free (take i m)" "length (take i m) = i"
proof -
  from mscan_Some [OF assms] have pre: "i < length m" "prefix n (drop i m)" "nul_free (take (Suc i) m)" by auto
  from pre(2) obtain t where t: "drop i m = n @ t" by (auto simp: prefix_def)
  have "m = take i m @ n @ t" using t by (metis append_take_drop_id)
  moreover have "nul_free (take i m)"
    using pre(3) by (metis nul_free_take min.absorb1 take_take le_add2 plus_1_eq_Suc)
  ultimately show ?thesis using that pre(1) by simp
qed

lemma mscan_hit_before_nul:
  assumes "mscan (prefix n) m = Some (Some i)" "nul_free n" "k < length m" "m ! k = NUL"
  shows "i + length n \<le> k"
proof (rule ccontr)
  assume "\<not> i + length n \<le> k"
  then have k: "k < i + length n" by simp
  from mscan_hit_split [OF assms(1)] obtain t where t: "m = take i m @ n @ t" "nul_free (take i m)"
    "length (take i m) = i" by blast
  define a where "a = take i m @ n"
  have "m = a @ t" "nul_free a" "length a = i + length n"
    using t assms(2) by (simp_all add: a_def)
  then have "m ! k \<in> set a" using k by (simp add: nth_append)
  with \<open>nul_free a\<close> assms(4) show False by (simp add: nul_free_def)
qed

lemma mscan_behind:
  assumes "mscan (prefix n) m = Some (Some i)" "nul_free n"
  shows "terminated_at m (i + length n) \<or> nul_free m"
proof (cases "nul_free m")
  case True
  then show ?thesis ..
next
  case False
  from mscan_hit_split [OF assms(1)] obtain t where t: "m = take i m @ n @ t" "nul_free (take i m)"
    "length (take i m) = i" by blast
  then have "\<not> nul_free t" using False assms(2) by (metis nul_free_append)
  moreover have "drop (i + length n) m = t"
    using t(3) by (subst t(1)) simp
  ultimately show ?thesis by (simp add: terminated_at_def)
qed

lemma mstrstr_ok:
  assumes "terminated_at m p" "nul_free n"
  shows "\<exists>r. mstrstr m p n = Some r \<and> (\<forall>q. r = Some q \<longrightarrow> terminated_at m (q + length n))"
proof -
  obtain r where r: "mstrstr m p n = Some r"
    using mscan_terminated [OF assms(1), of "prefix n"] by (auto simp: mstrstr_def)
  have "terminated_at m (q + length n)" if rq: "r = Some q" for q
  proof -
    obtain i where i: "mscan (prefix n) (drop p m) = Some (Some i)" "q = p + i"
      using r rq by (auto simp: mstrstr_def)
    have "terminated_at (drop p m) (i + length n)"
      using mscan_behind [OF i(1) assms(2)] assms(1) by (auto simp: terminated_at_def)
    then show ?thesis by (simp add: terminated_at_def i(2) ac_simps)
  qed
  with r show ?thesis by blast
qed

lemma mstrchr_eq: "mstrchr m p c = mstrstr m p [c]"
  by (simp add: mstrchr_def mstrstr_def)

lemma mstrchr_ok:
  assumes "terminated_at m p" "c \<noteq> NUL"
  shows "\<exists>r. mstrchr m p c = Some r \<and> (\<forall>q. r = Some q \<longrightarrow> terminated_at m (Suc q))"
  using mstrstr_ok [OF assms(1), of "[c]"] assms(2) by (simp add: mstrchr_eq)

text \<open>One search-and-cut step: search a needle, write a NUL at or behind the hit.\<close>

lemma cut_ok:
  assumes "terminated_at m (q + k)" "j \<le> k"
  shows "\<exists>m'. mwrite m (q + j) NUL = Some m' \<and> length m' = length m
    \<and> terminated_at m' (q + k) \<and> (\<forall>p. terminated_at m p \<longrightarrow> terminated_at m' p)
    \<and> (\<forall>i. info_ok m i \<longrightarrow> info_ok m' i)"
  using mwrite_terminated [OF assms(1), of "q + j" NUL] assms length_mwrite terminated_at_write
    info_ok_write by fastforce

lemma parse_find_body_ok:
  assumes "terminated_at m 0"
  shows "\<exists>m' b. parse_find_body m = Some (m', b) \<and> length m' = length m \<and> terminated_at m' 0
    \<and> ptr_ok m' b"
proof -
  obtain r where r: "mstrstr m 0 two_crlf = Some r"
    "\<forall>q. r = Some q \<longrightarrow> terminated_at m (q + 4)"
    using mstrstr_ok [OF assms, of two_crlf] by (auto simp: eval_nat_numeral)
  show ?thesis
  proof (cases r)
    case (Some q)
    with r have "terminated_at m (q + 4)" by simp
    from cut_ok [OF this, of 2] assms r(1) Some show ?thesis
      by (auto simp: parse_find_body_def)
  next
    case None
    obtain r2 where r2: "mstrstr m 0 two_lf = Some r2"
      "\<forall>q. r2 = Some q \<longrightarrow> terminated_at m (q + 2)"
      using mstrstr_ok [OF assms, of two_lf] by (auto simp: eval_nat_numeral)
    show ?thesis
    proof (cases r2)
      case (Some q)
      with r2 have "terminated_at m (q + 2)" by simp
      from cut_ok [OF this, of 1] assms r(1) r2(1) None Some show ?thesis
        by (auto simp: parse_find_body_def)
    next
      case None': None
      with None r(1) r2(1) assms show ?thesis by (auto simp: parse_find_body_def)
    qed
  qed
qed

lemma parse_find_header_ok:
  assumes "terminated_at m 0"
  shows "\<exists>m' h. parse_find_header m = Some (m', h) \<and> length m' = length m \<and> terminated_at m' h
    \<and> (\<forall>p. terminated_at m p \<longrightarrow> terminated_at m' p)"
proof -
  obtain r where r: "mstrstr m 0 one_crlf = Some r"
    "\<forall>q. r = Some q \<longrightarrow> terminated_at m (q + 2)"
    using mstrstr_ok [OF assms, of one_crlf] by (auto simp: eval_nat_numeral)
  show ?thesis
  proof (cases r)
    case (Some q)
    with r have "terminated_at m (q + 2)" by simp
    from cut_ok [OF this, of 0] r(1) Some show ?thesis
      by (auto simp: parse_find_header_def)
  next
    case None
    obtain r2 where r2: "mstrstr m 0 one_lf = Some r2"
      "\<forall>q. r2 = Some q \<longrightarrow> terminated_at m (q + 1)"
      using mstrstr_ok [OF assms, of one_lf] by auto
    show ?thesis
    proof (cases r2)
      case (Some q)
      with r2 have "terminated_at m (q + 1)" by simp
      from cut_ok [OF this, of 0] r(1) r2(1) None Some show ?thesis
        by (auto simp: parse_find_header_def)
    next
      case None': None
      obtain s where s: "mstr m = Some s" using mstr_at_terminated [OF assms]
        by (auto simp: mstr_at_def)
      from mstr_Some [OF s] obtain t where "m = s @ NUL # t" by blast
      then have "terminated_at m (length s)" by (simp add: terminated_at_def)
      with None None' r(1) r2(1) s show ?thesis by (auto simp: parse_find_header_def mstr_at_def)
    qed
  qed
qed

lemma SP_not_NUL: "SP \<noteq> NUL" and QM_not_NUL: "CHR ''?'' \<noteq> NUL"
  by simp_all

lemma info_ok_init: "info_ok m req_info_init"
  by (simp add: info_ok_def req_info_init_def)

lemma parse_split_step:
  assumes "terminated_at m p" "c \<noteq> NUL"
  shows "mstrchr m p c = Some None \<or> (\<exists>q m'. mstrchr m p c = Some (Some q) \<and> mwrite m q NUL = Some m'
    \<and> length m' = length m \<and> terminated_at m' (q + 1)
    \<and> (\<forall>p. terminated_at m p \<longrightarrow> terminated_at m' p))"
proof -
  obtain r where r: "mstrchr m p c = Some r" "\<forall>q. r = Some q \<longrightarrow> terminated_at m (q + 1)"
    using mstrchr_ok [OF assms] by auto
  show ?thesis
  proof (cases r)
    case None
    with r show ?thesis by simp
  next
    case (Some q)
    with r have "terminated_at m (q + 1)" by simp
    from cut_ok [OF this, of 0] r(1) Some show ?thesis by auto
  qed
qed

lemma parse_rest_ok:
  assumes "terminated_at m uri" "info_ok m ri" "\<not> is_success ri" "http_body ri \<noteq> None"
    "http_header ri \<noteq> None" "http_cmd ri \<noteq> None" "http_uri ri = Some uri"
  shows "\<exists>m' i. parse_rest m uri ri = Some (m', i) \<and> length m' = length m \<and> info_ok m' i
    \<and> (is_success i \<longrightarrow> req_view m' i \<noteq> None)"
proof -
  have view: "req_view m' i \<noteq> None"
    if "info_ok m' i" "http_body i \<noteq> None" "http_header i \<noteq> None" "http_cmd i \<noteq> None"
      "http_uri i \<noteq> None" "http_ver i \<noteq> None" for m' i
    using that by (cases "http_uri_params i")
      (auto simp: req_view_def ptr_str_def ptr_str_opt_def info_ok_def dest!: mstr_at_terminated)
  from parse_split_step [OF assms(1) SP_not_NUL] show ?thesis
  proof (elim disjE exE conjE)
    assume "mstrchr m uri SP = Some None"
    with assms show ?thesis by (simp add: parse_rest_def)
  next
    fix p2 m4 assume 2: "mstrchr m uri SP = Some (Some p2)" "mwrite m p2 NUL = Some m4"
      "length m4 = length m" "terminated_at m4 (p2 + 1)" "\<forall>p. terminated_at m p \<longrightarrow> terminated_at m4 p"
    have uri4: "terminated_at m4 uri" using 2 assms by blast
    have ok4: "info_ok m4 ri" using info_ok_write [OF 2(2)] assms by blast
    from parse_split_step [OF uri4 QM_not_NUL] show ?thesis
    proof (elim disjE exE conjE)
      assume 3: "mstrchr m4 uri (CHR ''?'') = Some None"
      have "info_ok m4 (ri\<lparr>http_ver := Some (p2 + 1), is_success := True\<rparr>)"
        using ok4 2 by (simp add: info_ok_def)
      with 2 3 assms view show ?thesis by (auto simp: parse_rest_def)
    next
      fix p3 m5 assume 3: "mstrchr m4 uri (CHR ''?'') = Some (Some p3)" "mwrite m4 p3 NUL = Some m5"
        "length m5 = length m4" "terminated_at m5 (p3 + 1)" "\<forall>p. terminated_at m4 p \<longrightarrow> terminated_at m5 p"
      have "info_ok m5 (ri\<lparr>http_ver := Some (p2 + 1), http_uri_params := Some (p3 + 1), is_success := True\<rparr>)"
        using info_ok_write [OF 3(2) ok4] 2 3 by (simp add: info_ok_def)
      with 2 3 assms view show ?thesis by (auto simp: parse_rest_def)
    qed
  qed
qed

lemma parse_by_rest:
  assumes "parse_find_body m = Some (m1, Some b)" "parse_find_header m1 = Some (m2, h)"
    "mstrchr m2 0 SP = Some (Some p)" "mwrite m2 p NUL = Some m3"
  shows "http_req_parse m = parse_rest m3 (p + 1) (req_info_init\<lparr>http_body := Some b,
    http_header := Some h, http_cmd := Some 0, http_uri := Some (p + 1)\<rparr>)"
  using assms by (simp add: http_req_parse_def)

lemma http_req_parse_ok:
  assumes "\<not> nul_free m"
  shows "\<exists>m' i. http_req_parse m = Some (m', i) \<and> length m' = length m \<and> info_ok m' i
    \<and> (is_success i \<longrightarrow> req_view m' i \<noteq> None)"
proof -
  have t0: "terminated_at m 0" using assms by (simp add: terminated_at_def)
  obtain m1 b where b: "parse_find_body m = Some (m1, b)" "length m1 = length m"
    "terminated_at m1 0" "ptr_ok m1 b"
    using parse_find_body_ok [OF t0] by blast
  show ?thesis
  proof (cases b)
    case None
    with b info_ok_init show ?thesis by (simp add: http_req_parse_def req_info_init_def)
  next
    case (Some q)
    obtain m2 h where h: "parse_find_header m1 = Some (m2, h)" "length m2 = length m1"
      "terminated_at m2 h" "\<forall>p. terminated_at m1 p \<longrightarrow> terminated_at m2 p"
      using parse_find_header_ok [OF b(3)] by blast
    have q2: "terminated_at m2 q" "terminated_at m2 0" using b h Some by auto
    from parse_split_step [OF q2(2) SP_not_NUL] show ?thesis
    proof (elim disjE exE conjE)
      assume "mstrchr m2 0 SP = Some None"
      with b h q2 Some show ?thesis
        by (auto simp: http_req_parse_def req_info_init_def info_ok_def)
    next
      fix p m3 assume 3: "mstrchr m2 0 SP = Some (Some p)" "mwrite m2 p NUL = Some m3"
        "length m3 = length m2" "terminated_at m3 (p + 1)" "\<forall>p. terminated_at m2 p \<longrightarrow> terminated_at m3 p"
      let ?i = "req_info_init\<lparr>http_body := Some q, http_header := Some h, http_cmd := Some 0,
        http_uri := Some (p + 1)\<rparr>"
      have "info_ok m3 ?i" using 3 h q2 by (simp add: info_ok_def req_info_init_def)
      from parse_rest_ok [OF 3(4) this] obtain m' i where
        "parse_rest m3 (p + 1) ?i = Some (m', i)" "length m' = length m3" "info_ok m' i"
        "is_success i \<longrightarrow> req_view m' i \<noteq> None"
        by (auto simp: req_info_init_def)
      with parse_by_rest [OF b(1) [unfolded Some] h(1) 3(1,2)] b h 3 show ?thesis by auto
    qed
  qed
qed

text \<open>
  C12: on every block that holds a NUL, the parser reads and writes only inside the block and
  returns; every pointer it hands out designates a C string that is terminated inside the
  block, and when it reports success each of the six parts can be read.
\<close>

theorem http_req_parse_safe:
  assumes "\<not> nul_free m"
  shows "\<exists>m' i. http_req_parse m = Some (m', i) \<and> length m' = length m \<and> info_ok m' i
    \<and> (is_success i \<longrightarrow> req_view m' i \<noteq> None)"
  by (rule http_req_parse_ok [OF assms])

section \<open>Parsing a printed request\<close>

definition header_block :: "cstr list \<Rightarrow> cstr" where
  "header_block ls = concat (map (\<lambda>l. l @ crlf) ls)"

definition line_ok :: "cstr \<Rightarrow> bool" where
  "line_ok l \<longleftrightarrow> nul_free l \<and> (\<forall>c\<in>set l. \<not> is_crlf_char c)"

definition uri_text :: "cstr \<Rightarrow> cstr option \<Rightarrow> cstr" where
  "uri_text uri params = (case params of None \<Rightarrow> uri | Some q \<Rightarrow> uri @ CHR ''?'' # q)"

definition request_line :: "cstr \<Rightarrow> cstr \<Rightarrow> cstr option \<Rightarrow> cstr \<Rightarrow> cstr" where
  "request_line cmd uri params ver = cmd @ SP # uri_text uri params @ SP # ver"

definition request_text :: "cstr \<Rightarrow> cstr \<Rightarrow> cstr option \<Rightarrow> cstr \<Rightarrow> cstr list \<Rightarrow> cstr \<Rightarrow> cstr" where
  "request_text cmd uri params ver ls body =
     request_line cmd uri params ver @ crlf @ header_block ls @ crlf @ body"

definition request_ok :: "cstr \<Rightarrow> cstr \<Rightarrow> cstr option \<Rightarrow> cstr \<Rightarrow> cstr list \<Rightarrow> cstr \<Rightarrow> bool" where
  "request_ok cmd uri params ver ls body \<longleftrightarrow>
     line_ok cmd \<and> SP \<notin> set cmd \<and> line_ok uri \<and> SP \<notin> set uri \<and> CHR ''?'' \<notin> set uri
     \<and> (case params of None \<Rightarrow> True | Some q \<Rightarrow> line_ok q \<and> SP \<notin> set q) \<and> line_ok ver
     \<and> list_all (\<lambda>l. l \<noteq> [] \<and> line_ok l) ls \<and> nul_free body"

lemma line_ok_simps [simp]: "line_ok []"
  "line_ok (c # l) \<longleftrightarrow> c \<noteq> NUL \<and> \<not> is_crlf_char c \<and> line_ok l"
  "line_ok (a @ b) \<longleftrightarrow> line_ok a \<and> line_ok b"
  by (auto simp: line_ok_def)

lemma line_okD: "line_ok l \<Longrightarrow> nul_free l" "line_ok l \<Longrightarrow> CR \<notin> set l" "line_ok l \<Longrightarrow> LF \<notin> set l"
  by (auto simp: line_ok_def is_crlf_char_def)

lemma header_block_simps [simp]: "header_block [] = []"
  "header_block (l # ls) = l @ CR # LF # header_block ls"
  by (simp_all add: header_block_def crlf_def)

lemma nul_free_header_block: "list_all (\<lambda>l. l \<noteq> [] \<and> line_ok l) ls \<Longrightarrow> nul_free (header_block ls)"
  by (induction ls) (auto dest: line_okD)

lemma find_blank_line:
  assumes "line_ok l0" "list_all (\<lambda>l. l \<noteq> [] \<and> line_ok l) ls"
  shows "mscan (prefix two_crlf) (l0 @ CR # LF # header_block ls @ CR # LF # t) =
    Some (Some (length l0 + length (header_block ls)))"
  using assms
proof (induction ls arbitrary: l0)
  case Nil
  then show ?case by (simp add: mscan_char_skip line_okD)
next
  case (Cons l ls)
  from Cons.prems(2) obtain x l' where l: "l = x # l'" "x \<noteq> CR" "line_ok l"
    by (cases l) (auto simp: is_crlf_char_def)
  from Cons.IH [OF l(3)] Cons.prems(2)
  have "mscan (prefix two_crlf) (l @ CR # LF # header_block ls @ CR # LF # t) =
    Some (Some (length l + length (header_block ls)))" by simp
  with l Cons.prems(1) show ?case by (simp add: mscan_char_skip line_okD)
qed

lemma mstrstr_two_crlf:
  assumes "line_ok l0" "list_all (\<lambda>l. l \<noteq> [] \<and> line_ok l) ls"
  shows "parse_find_body (l0 @ CR # LF # header_block ls @ CR # LF # t) =
    Some (l0 @ CR # LF # header_block ls @ NUL # LF # t, Some (length l0 + length (header_block ls) + 4))"
proof -
  have "mwrite (l0 @ CR # LF # header_block ls @ CR # LF # t) (length l0 + length (header_block ls) + 2) NUL =
      Some (l0 @ CR # LF # header_block ls @ NUL # LF # t)"
    using mwrite_at [where s = "l0 @ CR # LF # header_block ls" and d = CR] by simp
  with find_blank_line [OF assms] show ?thesis
    by (simp add: parse_find_body_def mstrstr_def eval_nat_numeral)
qed

lemma find_request_line:
  assumes "line_ok l0"
  shows "parse_find_header (l0 @ CR # LF # t) = Some (l0 @ NUL # LF # t, length l0 + 2)"
proof -
  have "mscan (prefix one_crlf) (l0 @ CR # LF # t) = Some (Some (length l0))"
    using assms by (simp add: mscan_char_skip line_okD)
  moreover have "mwrite (l0 @ CR # LF # t) (length l0) NUL = Some (l0 @ NUL # LF # t)"
    by (rule mwrite_at) simp_all
  ultimately show ?thesis by (simp add: parse_find_header_def mstrstr_def)
qed

lemma mstr_at_here:
  assumes "m = a @ s @ NUL # t" "length a = p" "nul_free s"
  shows "mstr_at m p = Some s"
  using assms by (auto simp: mstr_at_def)

lemma cut_at:
  assumes "m = a @ s @ c # t" "length a = p" "nul_free s" "c \<notin> set s" "c \<noteq> NUL"
  shows "mstrchr m p c = Some (Some (p + length s))"
    and "mwrite m (p + length s) NUL = Some (a @ s @ NUL # t)"
proof -
  show "mstrchr m p c = Some (Some (p + length s))"
    by (rule mstrchr_hit) (use assms in auto)
  show "mwrite m (p + length s) NUL = Some (a @ s @ NUL # t)"
    using mwrite_at [of m "a @ s" c t "p + length s" NUL] assms by simp
qed

lemma parse_head:
  assumes "request_ok cmd uri params ver ls body"
  shows "http_req_parse (request_text cmd uri params ver ls body @ NUL # rest) =
    parse_rest (cmd @ NUL # uri_text uri params @ SP # ver @ NUL # LF # header_block ls @ NUL # LF # body @ NUL # rest)
      (length cmd + 1)
      (req_info_init\<lparr>
         http_body := Some (length (request_line cmd uri params ver) + length (header_block ls) + 4),
         http_header := Some (length (request_line cmd uri params ver) + 2),
         http_cmd := Some 0, http_uri := Some (length cmd + 1)\<rparr>)"
proof -
  let ?l0 = "request_line cmd uri params ver"
  let ?t = "header_block ls @ NUL # LF # body @ NUL # rest"
  have l0: "line_ok ?l0"
    using assms by (auto simp: request_ok_def request_line_def uri_text_def is_crlf_char_def split: option.splits)
  have ls: "list_all (\<lambda>l. l \<noteq> [] \<and> line_ok l) ls" using assms by (simp add: request_ok_def)
  have cmd: "nul_free cmd" "SP \<notin> set cmd" using assms by (auto simp: request_ok_def line_okD)
  let ?m2 = "cmd @ SP # uri_text uri params @ SP # ver @ NUL # LF # ?t"
  have "?m2 = [] @ cmd @ SP # (uri_text uri params @ SP # ver @ NUL # LF # ?t)" by simp
  from cut_at [OF this _ cmd] have c: "mstrchr ?m2 0 SP = Some (Some (length cmd))"
    "mwrite ?m2 (length cmd) NUL = Some (cmd @ NUL # uri_text uri params @ SP # ver @ NUL # LF # ?t)"
    by simp_all
  have 1: "parse_find_body (request_text cmd uri params ver ls body @ NUL # rest) =
    Some (?l0 @ CR # LF # ?t, Some (length ?l0 + length (header_block ls) + 4))"
    using mstrstr_two_crlf [OF l0 ls] by (simp add: request_text_def crlf_def)
  have 2: "parse_find_header (?l0 @ CR # LF # ?t) = Some (?m2, length ?l0 + 2)"
    using find_request_line [OF l0, of ?t] by (simp add: request_line_def)
  show ?thesis using parse_by_rest [OF 1 2 c] by simp
qed

lemma view_of_block:
  assumes "nul_free cmd" "nul_free uri" "nul_free ver" "nul_free hb" "nul_free body"
    and m: "m = cmd @ NUL # uri @ pq @ NUL # ver @ NUL # LF # hb @ NUL # LF # body @ NUL # rest"
    and pq: "pq = [] \<or> pq = NUL # ps"
    and i: "http_cmd i = Some 0" "http_uri i = Some (length cmd + 1)"
      "http_ver i = Some (length cmd + length uri + length pq + 2)"
      "http_header i = Some (length cmd + length uri + length pq + length ver + 4)"
      "http_body i = Some (length cmd + length uri + length pq + length ver + length hb + 6)"
    and p: "ptr_str_opt m (http_uri_params i) = Some params"
  shows "req_view m i = Some \<lparr>v_cmd = cmd, v_uri = uri, v_uri_params = params,
        v_ver = ver, v_header = hb, v_body = body\<rparr>"
proof -
  have "mstr_at m 0 = Some cmd"
    by (rule mstr_at_here [where a = "[]"]) (use assms in auto)
  moreover have "mstr_at m (length cmd + 1) = Some uri"
    using pq assms(2) m by (auto simp: mstr_at_def)
  moreover have "mstr_at m (length cmd + length uri + length pq + 2) = Some ver"
    by (rule mstr_at_here [where a = "cmd @ NUL # uri @ pq @ [NUL]"]) (use assms in auto)
  moreover have "mstr_at m (length cmd + length uri + length pq + length ver + 4) = Some hb"
    by (rule mstr_at_here [where a = "cmd @ NUL # uri @ pq @ NUL # ver @ [NUL, LF]"]) (use assms in auto)
  moreover have "mstr_at m (length cmd + length uri + length pq + length ver + length hb + 6) = Some body"
    by (rule mstr_at_here [where a = "cmd @ NUL # uri @ pq @ NUL # ver @ NUL # LF # hb @ [NUL, LF]"])
      (use assms in auto)
  ultimately show ?thesis using p by (simp add: req_view_def ptr_str_def i)
qed

text \<open>
  C13: parsing a well-formed request, printed with any number of header lines and an optional
  query, succeeds and yields exactly its method, URI, query, version, header block and body,
  wherever the buffer ends behind the terminating NUL.
\<close>

theorem http_req_parse_roundtrip:
  assumes "request_ok cmd uri params ver ls body"
  shows "\<exists>m' i. http_req_parse (request_text cmd uri params ver ls body @ NUL # rest) = Some (m', i)
    \<and> is_success i \<and> req_view m' i = Some \<lparr>v_cmd = cmd, v_uri = uri, v_uri_params = params,
        v_ver = ver, v_header = header_block ls, v_body = body\<rparr>"
proof -
  let ?t = "header_block ls @ NUL # LF # body @ NUL # rest"
  let ?u = "uri_text uri params"
  let ?m3 = "cmd @ NUL # ?u @ SP # ver @ NUL # LF # ?t"
  have ok: "nul_free cmd" "nul_free uri" "nul_free ver" "nul_free (header_block ls)"
    "nul_free body" "CHR ''?'' \<notin> set uri" "nul_free ?u" "SP \<notin> set ?u"
    using assms nul_free_header_block
    by (auto simp: request_ok_def uri_text_def line_okD split: option.splits)
  have "?m3 = (cmd @ [NUL]) @ ?u @ SP # (ver @ NUL # LF # ?t)" by simp
  from cut_at [OF this _ ok(7,8)]
  have 1: "mstrchr ?m3 (Suc (length cmd)) SP = Some (Some (Suc (length cmd + length ?u)))"
    "mwrite ?m3 (Suc (length cmd + length ?u)) NUL = Some (cmd @ NUL # ?u @ NUL # ver @ NUL # LF # ?t)"
    by simp_all
  show ?thesis
  proof (cases params)
    case None
    let ?m4 = "cmd @ NUL # uri @ NUL # ver @ NUL # LF # ?t"
    have q: "mstrchr ?m4 (Suc (length cmd)) (CHR ''?'') = Some None"
      by (rule mstrchr_miss [where s = uri]) (use ok in auto)
    show ?thesis
      unfolding parse_head [OF assms] using 1 q
      by (simp add: parse_rest_def uri_text_def None)
        (rule view_of_block [OF ok(1-5), where pq = "[]"],
         simp_all add: ptr_str_opt_def request_line_def uri_text_def req_info_init_def)
  next
    case (Some ps)
    let ?m4 = "cmd @ NUL # uri @ CHR ''?'' # ps @ NUL # ver @ NUL # LF # ?t"
    let ?m5 = "cmd @ NUL # uri @ NUL # ps @ NUL # ver @ NUL # LF # ?t"
    have ps: "nul_free ps" using ok(7) by (simp add: uri_text_def Some)
    have "?m4 = (cmd @ [NUL]) @ uri @ CHR ''?'' # (ps @ NUL # ver @ NUL # LF # ?t)" by simp
    from cut_at [OF this _ ok(2,6)]
    have q: "mstrchr ?m4 (Suc (length cmd)) (CHR ''?'') = Some (Some (Suc (length cmd + length uri)))"
      "mwrite ?m4 (Suc (length cmd + length uri)) NUL = Some ?m5"
      by simp_all
    have "mstr_at ?m5 (length cmd + length uri + 2) = Some ps"
      by (rule mstr_at_here [where a = "cmd @ NUL # uri @ [NUL]"]) (use ps in auto)
    then show ?thesis
      unfolding parse_head [OF assms] using 1 q
      by (simp add: parse_rest_def uri_text_def Some)
        (rule view_of_block [OF ok(1-5), where pq = "NUL # ps"],
         simp_all add: ptr_str_opt_def request_line_def uri_text_def req_info_init_def)
  qed
qed

section \<open>Looking a field up in a header block\<close>

lemma strstr_skip_line:
  assumes "strstr_idx l f = None" "f \<noteq> []" "CR \<notin> set f" "LF \<notin> set f"
  shows "strstr_idx (l @ CR # LF # t) f = map_option ((+) (length l + 2)) (strstr_idx t f)"
proof -
  have ends: "\<not> prefix f (CR # LF # t)" "\<not> prefix f (LF # t)"
    using assms(2-4) by (cases f; auto)+
  have cut: "prefix f l'" if "prefix f (l' @ CR # LF # t)" for l'
    using that assms(3) by (auto simp: prefix_append prefix_Cons)
  have "strstr_idx l f = None \<Longrightarrow> ?thesis"
  proof (induction l)
    case Nil
    with ends show ?case by (cases "strstr_idx t f") auto
  next
    case (Cons c l)
    from Cons.prems have "\<not> prefix f (c # l)" "strstr_idx l f = None" by (auto split: if_splits)
    with Cons.IH cut [of "c # l"] show ?case by (cases "strstr_idx t f") auto
  qed
  with assms(1) show ?thesis by simp
qed

lemma to_lower_crlf [simp]: "to_lower CR = CR" "to_lower LF = LF"
  by (simp_all add: to_lower_def less_eq_char_def)

lemma of_char_to_lower:
  "of_char (to_lower c) = (if 65 \<le> (of_char c :: nat) \<and> (of_char c :: nat) \<le> 90 then of_char c + 32 else of_char c :: nat)"
proof (cases "CHR ''A'' \<le> c \<and> c \<le> CHR ''Z''")
  case True
  then have "of_char c \<le> (90::nat)" by (simp add: less_eq_char_def)
  with True show ?thesis by (simp add: to_lower_def less_eq_char_def)
next
  case False
  then show ?thesis by (auto simp: to_lower_def less_eq_char_def)
qed

lemma to_lower_eq_crlf: "to_lower c = CR \<longleftrightarrow> c = CR" "to_lower c = LF \<longleftrightarrow> c = LF"
proof -
  have "to_lower c = d \<longleftrightarrow> c = d" if "of_char d < (65::nat)" for d
  proof
    assume "to_lower c = d"
    with that of_char_to_lower [of c] have "of_char c = (of_char d :: nat)" by (auto split: if_splits)
    then show "c = d" by simp
  next
    assume "c = d"
    with that show "to_lower c = d" by (simp add: to_lower_def less_eq_char_def)
  qed
  then show "to_lower c = CR \<longleftrightarrow> c = CR" "to_lower c = LF \<longleftrightarrow> c = LF" by simp_all
qed

definition names_field :: "cstr \<Rightarrow> cstr \<Rightarrow> bool" where
  \<comment> \<open>the text contains the field name, in any case\<close>
  "names_field f l \<longleftrightarrow> strcasestr_idx l f \<noteq> None"

definition field_name_ok :: "cstr \<Rightarrow> bool" where
  "field_name_ok f \<longleftrightarrow> f \<noteq> [] \<and> CR \<notin> set f \<and> LF \<notin> set f"

lemma strcasestr_skip_lines:
  assumes "field_name_ok f" "list_all (\<lambda>l. \<not> names_field f l) pre"
  shows "strcasestr_idx (header_block pre @ t) f =
    map_option ((+) (length (header_block pre))) (strcasestr_idx t f)"
  using assms(2)
proof (induction pre)
  case Nil
  show ?case by (cases "strcasestr_idx t f") auto
next
  case (Cons l pre)
  have "map to_lower f \<noteq> []" "CR \<notin> set (map to_lower f)" "LF \<notin> set (map to_lower f)"
    using assms(1) by (auto simp: field_name_ok_def to_lower_eq_crlf image_iff eq_commute [of CR] eq_commute [of LF])
  then have "strcasestr_idx (l @ CR # LF # header_block pre @ t) f =
    map_option ((+) (length l + 2)) (strcasestr_idx (header_block pre @ t) f)"
    using Cons.prems strstr_skip_line [of "map to_lower l" "map to_lower f"]
    by (simp add: strcasestr_idx_def names_field_def)
  with Cons show ?case by (cases "strcasestr_idx t f") auto
qed

lemma header_val_from_printed:
  assumes "line_ok v" "v = [] \<or> hd v \<noteq> SP \<and> hd v \<noteq> DQ"
  shows "header_val_from (replicate k SP @ v @ CR # LF # t) = Some (v @ CR # LF # t, length v)"
proof -
  have d: "dropWhile (\<lambda>c. c = SP) (replicate k SP @ v @ CR # LF # t) = v @ CR # LF # t"
    using assms(2) by (cases v; induction k) auto
  have "find_idx is_crlf_char (v @ CR # LF # t) = Some (length v)"
    by (rule find_idx_hit) (use assms(1) in \<open>auto simp: line_ok_def is_crlf_char_def\<close>)
  with d assms(2) show ?thesis
    by (cases v) (auto simp: header_val_from_def strpbrk_crlf_def)
qed

lemma header_val_from_printed_quoted:
  assumes "line_ok v"
  shows "header_val_from (replicate k SP @ DQ # v @ DQ # CR # LF # t) =
    Some (v @ DQ # CR # LF # t, length v)"
proof -
  have d: "dropWhile (\<lambda>c. c = SP) (replicate k SP @ DQ # v @ DQ # CR # LF # t) = DQ # v @ DQ # CR # LF # t"
    by (induction k) auto
  have "find_idx is_crlf_char ((v @ [DQ]) @ CR # LF # t) = Some (length (v @ [DQ]))"
    by (rule find_idx_hit) (use assms(1) in \<open>auto simp: line_ok_def is_crlf_char_def\<close>)
  with d show ?thesis
    by (auto simp: header_val_from_def strpbrk_crlf_def nth_append)
qed

text \<open>
  A field is found whatever the letter case of its name, in the first line of the header
  that contains the name; the value is the rest of that line without leading blanks, and
  without its quotes when it is quoted.
\<close>

theorem header_value_found:
  assumes "field_name_ok f" "list_all (\<lambda>l. \<not> names_field f l) pre"
    and "map to_lower f' = map to_lower f" "line_ok v" "v = [] \<or> hd v \<noteq> SP \<and> hd v \<noteq> DQ"
  shows "header_value (header_block (pre @ (f' @ replicate k SP @ v) # post)) f = Some v
    \<and> header_value (header_block (pre @ (f' @ replicate k SP @ DQ # v @ [DQ]) # post)) f = Some v"
proof -
  have *: "strcasestr_idx (header_block pre @ f' @ t) f = Some (length (header_block pre))"
    and len: "length f' = length f" for t
    using strcasestr_skip_lines [OF assms(1,2), of "f' @ t"] assms(3)
      strstr_idx_prefix [of "map to_lower f" "map to_lower (f' @ t)"]
    by (auto simp: strcasestr_idx_def dest: map_eq_imp_length_eq)
  have split: "header_block (pre @ l # post) = header_block pre @ l @ CR # LF # header_block post" for l
    by (simp add: header_block_def crlf_def)
  have "header_value (header_block (pre @ (f' @ replicate k SP @ v) # post)) f = Some v"
    using * [of "replicate k SP @ v @ CR # LF # header_block post"] len
      header_val_from_printed [OF assms(4,5), of k "header_block post"]
    by (simp add: split header_value_def http_req_header_get_field_def)
  moreover have "header_value (header_block (pre @ (f' @ replicate k SP @ DQ # v @ [DQ]) # post)) f = Some v"
    using * [of "replicate k SP @ DQ # v @ DQ # CR # LF # header_block post"] len
      header_val_from_printed_quoted [OF assms(4), of k "header_block post"]
    by (simp add: split header_value_def http_req_header_get_field_def)
  ultimately show ?thesis ..
qed

section \<open>Witnesses\<close>

lemma http_req_parse_safe_witness:
  "\<exists>m' i. http_req_parse (''GET / 1'' @ [CR, LF, CR, LF, NUL]) = Some (m', i)
    \<and> length m' = length (''GET / 1'' @ [CR, LF, CR, LF, NUL]) \<and> info_ok m' i
    \<and> (is_success i \<longrightarrow> req_view m' i \<noteq> None)"
  by (rule http_req_parse_safe) simp

lemma http_req_parse_roundtrip_witness:
  "\<exists>m' i. http_req_parse (request_text ''GET'' ''/ap.json'' (Some ''a=1'') ''HTTP/1.1''
      [''Host: h'', ''Accept: *''] ''{}'' @ NUL # ''xx'') = Some (m', i)
    \<and> is_success i \<and> req_view m' i = Some \<lparr>v_cmd = ''GET'', v_uri = ''/ap.json'',
        v_uri_params = Some ''a=1'', v_ver = ''HTTP/1.1'',
        v_header = header_block [''Host: h'', ''Accept: *''], v_body = ''{}''\<rparr>"
  using http_req_parse_roundtrip [of "''GET''" "''/ap.json''" "Some ''a=1''" "''HTTP/1.1''"
      "[''Host: h'', ''Accept: *'']" "''{}''" "''xx''"]
  by (simp add: request_ok_def is_crlf_char_def)

lemma header_value_found_witness:
  "header_value (header_block ([''Accept: *''] @ (''HOST:'' @ replicate 1 SP @ ''h'') # [''A: b''])) ''Host:'' = Some ''h''
   \<and> header_value (header_block ([''Accept: *''] @ (''HOST:'' @ replicate 1 SP @ DQ # ''h'' @ [DQ]) # [''A: b''])) ''Host:'' = Some ''h''"
proof (rule header_value_found)
  show "field_name_ok ''Host:''" by code_simp
  show "list_all (\<lambda>l. \<not> names_field ''Host:'' l) [''Accept: *'']" by code_simp
  show "map to_lower ''HOST:'' = map to_lower ''Host:''" by code_simp
  show "line_ok ''h''" by code_simp
  show "''h'' = [] \<or> hd ''h'' \<noteq> SP \<and> hd ''h'' \<noteq> DQ" by simp
qed

lemma header_lookup_not_anchored:
  \<comment> \<open>the lookup is not anchored at the start of a line: the value of another field whose
      name ends with the one asked for is returned\<close>
  "header_value (header_block [''X-Host: evil'', ''Host: real'']) ''Host:'' = Some ''evil''"
  by code_simp

end
