(* ===== verification/RecvConn.thy ===== *)
theory RecvConn
  imports HttpReq
begin

text \<open>
  \<^verbatim>\<open>src/http_server_accept_and_handle_conn.c\<close>: receiving one request from a connection.

  The receive context \<open>recv_ctx\<close> has the fields of \<open>http_server_recv_ctx_t\<close>, a count of
  the allocations made and one of the blocks in use. What lwip and the heap answer is a parameter: \<open>al k\<close> says whether
  the k-th allocation of the connection succeeds, \<open>junk\<close> gives the bytes of fresh memory,
  and the events of \<open>recv_event\<close> are the answers of \<open>netconn_recv\<close> and \<open>netbuf_data\<close>. An
  access outside of the request buffer is a fault (\<open>None\<close>).
\<close>

section \<open>Model\<close>

definition HTTP_SERVER_MAX_REQUEST_SIZE :: nat where
  "HTTP_SERVER_MAX_REQUEST_SIZE = 4 * 1024"

definition HTTP_SERVER_MAX_UNENCRYPTED_CONTENT_SIZE :: nat where
  "HTTP_SERVER_MAX_UNENCRYPTED_CONTENT_SIZE = 8 * 1024"

definition HTTP_SERVER_MAX_ENCRYPTED_CONTENT_SIZE :: nat where
  "HTTP_SERVER_MAX_ENCRYPTED_CONTENT_SIZE = (HTTP_SERVER_MAX_UNENCRYPTED_CONTENT_SIZE * 4) div 3 + 512"

record recv_ctx =
  p_req_buf :: "mem option"
  req_buf_size :: nat
  accum_len :: nat
  header_len :: nat
  content_len :: nat
  expected_len :: nat
  is_ready :: bool
  is_header_completed :: bool
  n_alloc :: nat
  n_live :: nat \<comment> \<open>heap blocks in use\<close>

definition recv_ctx_init :: recv_ctx where
  "recv_ctx_init =
     \<lparr>p_req_buf = None, req_buf_size = 0, accum_len = 0, header_len = 0, content_len = 0,
      expected_len = 0, is_ready = False, is_header_completed = False, n_alloc = 0, n_live = 0\<rparr>"

definition resize_mem :: "(nat \<Rightarrow> byte) \<Rightarrow> mem \<Rightarrow> nat \<Rightarrow> mem" where
  \<comment> \<open>\<open>realloc\<close>: the common prefix is kept, the new bytes are arbitrary\<close>
  "resize_mem junk m n = take n m @ map junk [length m..<n]"

definition mem_copy :: "mem \<Rightarrow> nat \<Rightarrow> byte list \<Rightarrow> mem faulting" where
  \<comment> \<open>\<open>memcpy(&m[off], data, length data)\<close>\<close>
  "mem_copy m off data =
     (if off + length data \<le> length m then Some (take off m @ data @ drop (off + length data) m) else None)"

definition get_http_body :: "mem \<Rightarrow> ptr faulting" where
  "get_http_body m = map_option (map_option (\<lambda>p. p + 4)) (mstrstr m 0 two_crlf)"

definition alloc_first_frame :: "(nat \<Rightarrow> bool) \<Rightarrow> (nat \<Rightarrow> byte) \<Rightarrow> nat \<Rightarrow> recv_ctx \<Rightarrow> bool \<times> recv_ctx" where
  "alloc_first_frame al junk buflen ctx0 =
     (let ctx = ctx0\<lparr>is_header_completed := False\<rparr>
      in if buflen > HTTP_SERVER_MAX_REQUEST_SIZE then (False, ctx)
         else if \<not> al (n_alloc ctx) then (False, ctx\<lparr>n_alloc := n_alloc ctx + 1\<rparr>)
         else (True, ctx\<lparr>p_req_buf := Some (map junk [0..<buflen + 1]), req_buf_size := buflen,
                         n_alloc := n_alloc ctx + 1, n_live := n_live ctx + 1\<rparr>))"

definition realloc_req_buf :: "(nat \<Rightarrow> bool) \<Rightarrow> (nat \<Rightarrow> byte) \<Rightarrow> nat \<Rightarrow> recv_ctx \<Rightarrow> bool \<times> recv_ctx" where
  \<comment> \<open>\<open>os_realloc_safe_and_clean(&p_req_buf, n)\<close>: it releases the buffer when it fails\<close>
  "realloc_req_buf al junk n ctx =
     (if al (n_alloc ctx)
      then (True, ctx\<lparr>p_req_buf := map_option (\<lambda>m. resize_mem junk m n) (p_req_buf ctx),
                      n_alloc := n_alloc ctx + 1\<rparr>)
      else (False, ctx\<lparr>p_req_buf := None, n_alloc := n_alloc ctx + 1, n_live := n_live ctx - 1\<rparr>))"

definition alloc_non_first_frame :: "(nat \<Rightarrow> bool) \<Rightarrow> (nat \<Rightarrow> byte) \<Rightarrow> nat \<Rightarrow> recv_ctx \<Rightarrow> bool \<times> recv_ctx" where
  "alloc_non_first_frame al junk buflen ctx =
     (if req_buf_size ctx = accum_len ctx then
        (let new_size = req_buf_size ctx + buflen
         in if new_size > HTTP_SERVER_MAX_REQUEST_SIZE then (False, ctx)
            else (case realloc_req_buf al junk (new_size + 1) ctx of
                    (False, ctx') \<Rightarrow> (False, ctx')
                  | (True, ctx') \<Rightarrow> (True, ctx'\<lparr>req_buf_size := req_buf_size ctx' + buflen\<rparr>)))
      else (True, ctx))"

definition handle_request_content_len ::
  "(nat \<Rightarrow> bool) \<Rightarrow> (nat \<Rightarrow> byte) \<Rightarrow> recv_ctx \<Rightarrow> cstr \<Rightarrow> bool \<times> recv_ctx" where
  "handle_request_content_len al junk ctx0 content_len_str =
     (let ctx1 = ctx0\<lparr>content_len := strtoul10 content_len_str\<rparr>
      in if content_len ctx1 > HTTP_SERVER_MAX_ENCRYPTED_CONTENT_SIZE then (False, ctx1)
         else
           (let ctx2 = ctx1\<lparr>expected_len := header_len ctx1 + content_len ctx1\<rparr>;
                ctx3 = (if accum_len ctx2 > expected_len ctx2
                        then ctx2\<lparr>accum_len := expected_len ctx2\<rparr> else ctx2)
            in if req_buf_size ctx3 \<noteq> expected_len ctx3 then
                 (case realloc_req_buf al junk (expected_len ctx3 + 1) ctx3 of
                    (False, ctx4) \<Rightarrow> (False, ctx4)
                  | (True, ctx4) \<Rightarrow> (True, ctx4\<lparr>req_buf_size := expected_len ctx4\<rparr>))
               else (True, ctx3)))"

text \<open>
  \<open>http_server_handle_received_buf\<close> in three parts, in the order of the code: store the
  fragment, look for the end of the header, then look for the length of the content.
\<close>

definition store_fragment ::
  "(nat \<Rightarrow> bool) \<Rightarrow> (nat \<Rightarrow> byte) \<Rightarrow> byte list \<Rightarrow> recv_ctx \<Rightarrow> (bool \<times> recv_ctx) faulting" where
  "store_fragment al junk data ctx0 =
     (let buflen = length data;
          (res, ctx) = (if p_req_buf ctx0 = None then alloc_first_frame al junk buflen ctx0
                        else alloc_non_first_frame al junk buflen ctx0)
      in if \<not> res then Some (False, ctx)
         else if accum_len ctx + buflen > req_buf_size ctx then Some (False, ctx)
         else do {
           m0 \<leftarrow> p_req_buf ctx;
           m1 \<leftarrow> mem_copy m0 (accum_len ctx) data;
           m2 \<leftarrow> mwrite m1 (accum_len ctx + buflen) NUL;
           Some (True, ctx\<lparr>p_req_buf := Some m2, accum_len := accum_len ctx + buflen\<rparr>) })"

definition find_header_end :: "recv_ctx \<Rightarrow> recv_ctx faulting" where
  "find_header_end ctx =
     (if is_header_completed ctx then Some ctx
      else do {
        m \<leftarrow> p_req_buf ctx;
        r \<leftarrow> get_http_body m;
        case r of
          None \<Rightarrow> Some ctx
        | Some p \<Rightarrow> Some (ctx\<lparr>is_header_completed := True, header_len := p\<rparr>) })"

definition check_content :: "(nat \<Rightarrow> bool) \<Rightarrow> (nat \<Rightarrow> byte) \<Rightarrow> recv_ctx \<Rightarrow> (bool \<times> recv_ctx) faulting" where
  "check_content al junk ctx =
     (if content_len ctx = 0 then do {
        m \<leftarrow> p_req_buf ctx;
        prev \<leftarrow> mread m (header_len ctx);
        m1 \<leftarrow> mwrite m (header_len ctx) NUL;
        hdr \<leftarrow> mstr_at m1 0;
        m2 \<leftarrow> mwrite m1 (header_len ctx) prev;
        let ctx1 = ctx\<lparr>p_req_buf := Some m2\<rparr>;
        case http_req_header_get_field hdr ''Content-Length:'' of
          Some (v, n) \<Rightarrow> do {
            s \<leftarrow> mstr_at m2 (length hdr - length v);
            let (res, ctx2) = handle_request_content_len al junk ctx1 s;
            if \<not> res then Some (False, ctx2)
            else if accum_len ctx2 < expected_len ctx2 then Some (True, ctx2)
            else Some (True, ctx2\<lparr>is_ready := True\<rparr>) }
        | None \<Rightarrow> Some (True, ctx1\<lparr>is_ready := True\<rparr>) }
      else if accum_len ctx < expected_len ctx then Some (True, ctx)
      else Some (True, ctx\<lparr>is_ready := True\<rparr>))"

definition handle_received_buf ::
  "(nat \<Rightarrow> bool) \<Rightarrow> (nat \<Rightarrow> byte) \<Rightarrow> byte list \<Rightarrow> recv_ctx \<Rightarrow> (bool \<times> recv_ctx) faulting" where
  "handle_received_buf al junk data ctx0 = do {
     (res, ctx1) \<leftarrow> store_fragment al junk data ctx0;
     if \<not> res then Some (False, ctx1)
     else do {
       ctx2 \<leftarrow> find_header_end ctx1;
       if \<not> is_header_completed ctx2 then Some (True, ctx2)
       else check_content al junk ctx2 } }"

datatype recv_event =
    RecvErr \<comment> \<open>\<open>netconn_recv\<close> fails, the receive timeout included\<close>
  | RecvBuf "byte list option list" \<comment> \<open>the parts of a netbuf; \<open>None\<close>: \<open>netbuf_data\<close> fails\<close>

fun handle_parts ::
  "(nat \<Rightarrow> bool) \<Rightarrow> (nat \<Rightarrow> byte) \<Rightarrow> byte list option list \<Rightarrow> recv_ctx \<Rightarrow> (bool \<times> recv_ctx) faulting" where
  "handle_parts al junk [] ctx = Some (True, ctx)"
| "handle_parts al junk (None # ps) ctx = Some (False, ctx)"
| "handle_parts al junk (Some data # ps) ctx = do {
     (res, ctx1) \<leftarrow> handle_received_buf al junk data ctx;
     if \<not> res then Some (False, ctx1) else handle_parts al junk ps ctx1 }"

fun recv_and_handle ::
  "(nat \<Rightarrow> bool) \<Rightarrow> (nat \<Rightarrow> byte) \<Rightarrow> recv_event \<Rightarrow> recv_ctx \<Rightarrow> (bool \<times> recv_ctx) faulting" where
  "recv_and_handle al junk RecvErr ctx = Some (False, ctx)"
| "recv_and_handle al junk (RecvBuf ps) ctx = handle_parts al junk ps ctx"

datatype recv_end = Ready | Closed | Waiting

definition timeout_ticks :: "nat \<Rightarrow> recv_ctx \<Rightarrow> nat" where
  \<comment> \<open>\<open>pdMS_TO_TICKS\<close> at a tick rate of hz\<close>
  "timeout_ticks hz ctx = (if is_header_completed ctx then 30 * 1000 * hz div 1000 else 5 * 1000 * hz div 1000)"

fun serve_loop ::
  "(nat \<Rightarrow> bool) \<Rightarrow> (nat \<Rightarrow> byte) \<Rightarrow> nat \<Rightarrow> (nat \<times> recv_event) list \<Rightarrow> recv_ctx
   \<Rightarrow> (recv_end \<times> recv_ctx) faulting" where
  \<comment> \<open>the receive loop of \<open>http_server_netconn_serve\<close> on the list of the next events, each
      with the ticks since the start of the connection when the loop gets to it; \<open>Waiting\<close> when the
      events are used up\<close>
  "serve_loop al junk hz [] ctx = Some (if is_ready ctx then Ready else Waiting, ctx)"
| "serve_loop al junk hz ((ticks, ev) # evs) ctx =
     (if is_ready ctx then Some (Ready, ctx)
      else if ticks > timeout_ticks hz ctx then Some (Closed, ctx)
      else do {
        (res, ctx1) \<leftarrow> recv_and_handle al junk ev ctx;
        if \<not> res then Some (if is_ready ctx1 then Ready else Closed, ctx1)
        else serve_loop al junk hz evs ctx1 })"

section \<open>The invariant of the receive context\<close>

definition recv_inv :: "recv_ctx \<Rightarrow> bool" where
  "recv_inv ctx \<longleftrightarrow>
     content_len ctx \<le> HTTP_SERVER_MAX_ENCRYPTED_CONTENT_SIZE
     \<and> header_len ctx \<le> HTTP_SERVER_MAX_REQUEST_SIZE
     \<and> accum_len ctx \<le> req_buf_size ctx
     \<and> req_buf_size ctx \<le> HTTP_SERVER_MAX_REQUEST_SIZE + HTTP_SERVER_MAX_ENCRYPTED_CONTENT_SIZE
     \<and> (p_req_buf ctx = None \<longrightarrow> accum_len ctx = 0 \<and> \<not> is_header_completed ctx)
     \<and> (\<forall>m. p_req_buf ctx = Some m \<longrightarrow> length m = req_buf_size ctx + 1)
     \<and> (\<not> is_header_completed ctx \<longrightarrow> req_buf_size ctx \<le> HTTP_SERVER_MAX_REQUEST_SIZE)
     \<and> (is_header_completed ctx \<longrightarrow> header_len ctx \<le> accum_len ctx)"

definition received :: "recv_ctx \<Rightarrow> byte list" where
  \<comment> \<open>the bytes of the request stored so far\<close>
  "received ctx = (case p_req_buf ctx of None \<Rightarrow> [] | Some m \<Rightarrow> take (accum_len ctx) m)"

definition terminated :: "recv_ctx \<Rightarrow> bool" where
  \<comment> \<open>the request buffer is a C string: a NUL follows the stored bytes\<close>
  "terminated ctx \<longleftrightarrow> (\<exists>m. p_req_buf ctx = Some m \<and> accum_len ctx < length m \<and> m ! accum_len ctx = NUL)"

lemma recv_inv_init: "recv_inv recv_ctx_init"
  by (simp add: recv_inv_def recv_ctx_init_def)

lemma max_sizes: "HTTP_SERVER_MAX_REQUEST_SIZE = 4096" "HTTP_SERVER_MAX_ENCRYPTED_CONTENT_SIZE = 11434"
  by (simp_all add: HTTP_SERVER_MAX_REQUEST_SIZE_def HTTP_SERVER_MAX_ENCRYPTED_CONTENT_SIZE_def
      HTTP_SERVER_MAX_UNENCRYPTED_CONTENT_SIZE_def)

lemma length_resize_mem [simp]: "length (resize_mem junk m n) = n"
  by (simp add: resize_mem_def)

lemma take_resize_mem [simp]: "k \<le> n \<Longrightarrow> k \<le> length m \<Longrightarrow> take k (resize_mem junk m n) = take k m"
  by (simp add: resize_mem_def min_def)

lemma nth_resize_mem: "k < n \<Longrightarrow> k < length m \<Longrightarrow> resize_mem junk m n ! k = m ! k"
  by (simp add: resize_mem_def nth_append)

lemma resize_mem_shrink: "n \<le> length m \<Longrightarrow> resize_mem junk m n = take n m"
  by (simp add: resize_mem_def)

text \<open>What storing a fragment leaves.\<close>

lemma alloc_ok:
  assumes "recv_inv ctx"
    and "(if p_req_buf ctx = None then alloc_first_frame al junk n ctx
          else alloc_non_first_frame al junk n ctx) = (True, ctx')"
  shows "recv_inv ctx'" and "\<exists>m. p_req_buf ctx' = Some m" and "received ctx' = received ctx"
    and "accum_len ctx' = accum_len ctx"
    and "is_header_completed ctx' = is_header_completed ctx"
  using assms
  by (auto simp: alloc_first_frame_def alloc_non_first_frame_def realloc_req_buf_def Let_def
      recv_inv_def received_def split: if_splits option.splits)

lemma mem_copy_ok:
  assumes "off + length data < length m"
  obtains m1 m2 where "mem_copy m off data = Some m1" "mwrite m1 (off + length data) NUL = Some m2"
    and "length m2 = length m" "take (off + length data) m2 = take off m @ data"
    and "m2 ! (off + length data) = NUL"
proof -
  let ?m1 = "take off m @ data @ drop (off + length data) m"
  have "mem_copy m off data = Some ?m1" using assms by (simp add: mem_copy_def)
  moreover have "mwrite ?m1 (off + length data) NUL = Some (?m1[off + length data := NUL])"
    using assms by (simp add: mwrite_def)
  moreover have "take (off + length data) (?m1[off + length data := NUL]) = take off m @ data"
    using assms by simp
  ultimately show ?thesis using assms that by (simp add: min_def)
qed

lemma store_fragment_ok:
  assumes "recv_inv ctx"
  shows "\<exists>res ctx'. store_fragment al junk data ctx = Some (res, ctx') \<and>
    (res \<longrightarrow> recv_inv ctx' \<and> terminated ctx' \<and> received ctx' = received ctx @ data
      \<and> accum_len ctx' = accum_len ctx + length data
      \<and> is_header_completed ctx' = is_header_completed ctx)"
proof -
  obtain res c where a: "(if p_req_buf ctx = None then alloc_first_frame al junk (length data) ctx
    else alloc_non_first_frame al junk (length data) ctx) = (res, c)" by (metis prod.exhaust)
  show ?thesis
  proof (cases "res \<and> accum_len c + length data \<le> req_buf_size c")
    case False
    with a show ?thesis by (auto simp: store_fragment_def Let_def)
  next
    case True
    note ok = alloc_ok [OF assms, of al junk "length data" c] a True
    obtain m where m: "p_req_buf c = Some m" using ok by auto
    have len: "length m = req_buf_size c + 1" using ok m by (auto simp: recv_inv_def)
    with True have "accum_len c + length data < length m" by simp
    from mem_copy_ok [OF this] obtain m1 m2 where w: "mem_copy m (accum_len c) data = Some m1"
      "mwrite m1 (accum_len c + length data) NUL = Some m2" "length m2 = length m"
      "take (accum_len c + length data) m2 = take (accum_len c) m @ data"
      "m2 ! (accum_len c + length data) = NUL" by blast
    let ?c = "c\<lparr>p_req_buf := Some m2, accum_len := accum_len c + length data\<rparr>"
    have st: "store_fragment al junk data ctx = Some (True, ?c)"
      using a True m w by (simp add: store_fragment_def Let_def)
    have "recv_inv c" "received c = received ctx" "accum_len c = accum_len ctx"
      "is_header_completed c = is_header_completed ctx"
      using ok by auto
    then have "recv_inv ?c" "terminated ?c" "received ?c = received ctx @ data"
      using w len m True by (auto simp: recv_inv_def terminated_def received_def)
    with st \<open>accum_len c = _\<close> \<open>is_header_completed c = _\<close> show ?thesis by auto
  qed
qed

lemma find_header_end_ok:
  assumes "recv_inv ctx" "terminated ctx"
  shows "\<exists>ctx'. find_header_end ctx = Some ctx' \<and> recv_inv ctx' \<and> p_req_buf ctx' = p_req_buf ctx
    \<and> accum_len ctx' = accum_len ctx"
proof (cases "is_header_completed ctx")
  case True
  with assms show ?thesis by (simp add: find_header_end_def)
next
  case False
  obtain m where m: "p_req_buf ctx = Some m" "accum_len ctx < length m" "m ! accum_len ctx = NUL"
    using assms(2) by (auto simp: terminated_def)
  have t0: "terminated_at m 0" using m by (auto simp: terminated_at_iff)
  have "nul_free two_crlf" by simp
  from mstrstr_ok [OF t0 this] obtain r where r: "mstrstr m 0 two_crlf = Some r" by blast
  show ?thesis
  proof (cases r)
    case None
    with r False m assms(1) show ?thesis by (simp add: find_header_end_def get_http_body_def)
  next
    case (Some q)
    have "q + 4 \<le> accum_len ctx"
    proof -
      have scan: "mscan (prefix two_crlf) m = Some (Some q)"
        using r Some by (auto simp: mstrstr_def)
      from mscan_hit_before_nul [OF this _ m(2,3)] show ?thesis by simp
    qed
    with r Some False m assms(1) show ?thesis
      by (auto simp: find_header_end_def get_http_body_def recv_inv_def max_sizes)
  qed
qed

definition keeps :: "recv_ctx \<Rightarrow> recv_ctx \<Rightarrow> bool" where
  \<comment> \<open>the stored bytes are kept and still terminated, or cut to a shorter request whose buffer
      then ends with the first of the bytes cut off\<close>
  "keeps ctx ctx' \<longleftrightarrow> accum_len ctx' \<le> accum_len ctx
     \<and> received ctx' = take (accum_len ctx') (received ctx)
     \<and> (accum_len ctx' = accum_len ctx \<longrightarrow> terminated ctx')
     \<and> (accum_len ctx' < accum_len ctx \<longrightarrow>
          p_req_buf ctx' = Some (take (accum_len ctx' + 1) (received ctx)))"

lemma keeps_refl: "recv_inv ctx \<Longrightarrow> terminated ctx \<Longrightarrow> keeps ctx ctx"
  by (auto simp: keeps_def received_def min_def recv_inv_def split: option.splits)

lemma ready_upd [simp]:
  "recv_inv (ctx\<lparr>is_ready := b\<rparr>) = recv_inv ctx" "keeps ctx0 (ctx\<lparr>is_ready := b\<rparr>) = keeps ctx0 ctx"
  by (simp_all add: recv_inv_def keeps_def received_def terminated_def cong: option.case_cong)

lemma handle_content_len_ok:
  assumes "recv_inv ctx" "terminated ctx" "is_header_completed ctx"
    and "handle_request_content_len al junk ctx s = (True, ctx')"
  shows "recv_inv ctx'" and "keeps ctx ctx'" and "accum_len ctx' \<le> expected_len ctx'"
proof -
  obtain m where m: "p_req_buf ctx = Some m" "length m = req_buf_size ctx + 1"
    "m ! accum_len ctx = NUL" "accum_len ctx \<le> req_buf_size ctx" "header_len ctx \<le> accum_len ctx"
    "header_len ctx \<le> HTTP_SERVER_MAX_REQUEST_SIZE"
    using assms(1-3) by (auto simp: terminated_def recv_inv_def)
  let ?e = "header_len ctx + strtoul10 s"
  have c: "strtoul10 s \<le> HTTP_SERVER_MAX_ENCRYPTED_CONTENT_SIZE"
    using assms(4) by (auto simp: handle_request_content_len_def Let_def split: if_splits)
  show "recv_inv ctx'" and "keeps ctx ctx'" and "accum_len ctx' \<le> expected_len ctx'"
  proof (atomize (full), cases "?e < accum_len ctx")
    case True
    have "al (n_alloc ctx)"
      using assms(4) c True m by (simp add: handle_request_content_len_def Let_def realloc_req_buf_def split: if_splits)
    then have x: "ctx' = ctx\<lparr>content_len := strtoul10 s, expected_len := ?e, accum_len := ?e,
      p_req_buf := Some (take (?e + 1) m), n_alloc := n_alloc ctx + 1, req_buf_size := ?e\<rparr>"
      using assms(4) c True m
      by (simp add: handle_request_content_len_def Let_def realloc_req_buf_def resize_mem_shrink)
    have "recv_inv ctx'" using m c assms(3) True by (simp add: x recv_inv_def)
    moreover have "keeps ctx ctx'" using m True by (simp add: x keeps_def received_def min_def)
    ultimately show "recv_inv ctx' \<and> keeps ctx ctx' \<and> accum_len ctx' \<le> expected_len ctx'"
      by (simp add: x)
  next
    case False
    show "recv_inv ctx' \<and> keeps ctx ctx' \<and> accum_len ctx' \<le> expected_len ctx'"
    proof (cases "req_buf_size ctx = ?e")
      case True
      then have x: "ctx' = ctx\<lparr>content_len := strtoul10 s, expected_len := ?e\<rparr>"
        using assms(4) c False by (simp add: handle_request_content_len_def Let_def)
      show ?thesis using m c assms(3) False True
        by (simp add: x keeps_def received_def terminated_def recv_inv_def min_def)
    next
      case size: False
      have "al (n_alloc ctx)"
        using assms(4) c False m size by (simp add: handle_request_content_len_def Let_def realloc_req_buf_def split: if_splits)
      then have x: "ctx' = ctx\<lparr>content_len := strtoul10 s, expected_len := ?e,
        p_req_buf := Some (resize_mem junk m (?e + 1)), n_alloc := n_alloc ctx + 1, req_buf_size := ?e\<rparr>"
        using assms(4) c False m size
        by (simp add: handle_request_content_len_def Let_def realloc_req_buf_def)
      show ?thesis using m c assms(3) False size
        by (simp add: x keeps_def received_def terminated_def recv_inv_def nth_resize_mem min_def)
    qed
  qed
qed

lemma mstr_length_le: "mstr m = Some s \<Longrightarrow> k < length m \<Longrightarrow> m ! k = NUL \<Longrightarrow> length s \<le> k"
proof (rule ccontr)
  assume "mstr m = Some s" "m ! k = NUL" "\<not> length s \<le> k"
  with mstr_Some [of m s] show False by (auto simp: nul_free_def nth_append in_set_conv_nth)
qed

lemma check_content_ok:
  assumes "recv_inv ctx" "terminated ctx" "is_header_completed ctx"
  shows "\<exists>res ctx'. check_content al junk ctx = Some (res, ctx') \<and> (res \<longrightarrow> recv_inv ctx' \<and> keeps ctx ctx')"
proof (cases "content_len ctx = 0")
  case False
  with keeps_refl [OF assms(1,2)] assms(1) show ?thesis by (auto simp: check_content_def)
next
  case True
  let ?h = "header_len ctx"
  obtain m where m: "p_req_buf ctx = Some m" "length m = req_buf_size ctx + 1"
    "m ! accum_len ctx = NUL" "accum_len ctx \<le> req_buf_size ctx" "?h \<le> accum_len ctx"
    using assms by (auto simp: terminated_def recv_inv_def)
  let ?m1 = "m[?h := NUL]"
  have "\<not> nul_free ?m1" using m by (auto simp: nul_free_def in_set_conv_nth intro!: exI [of _ ?h])
  then obtain hdr where hdr: "mstr ?m1 = Some hdr" using mstr_total by blast
  have hl: "length hdr \<le> ?h" by (rule mstr_length_le [OF hdr]) (use m in auto)
  have tp: "\<exists>s. mstr_at m p = Some s" if "p \<le> accum_len ctx" for p
    by (rule mstr_at_terminated) (use m that in \<open>auto simp: terminated_at_iff\<close>)
  have prog: "mread m ?h = Some (m ! ?h)" "mwrite m ?h NUL = Some ?m1" "mstr_at ?m1 0 = Some hdr"
    "mwrite ?m1 ?h (m ! ?h) = Some m"
    using m hdr by (auto simp: mread_def mwrite_def mstr_at_def)
  have same: "ctx\<lparr>p_req_buf := Some m\<rparr> = ctx" using m by simp
  show ?thesis
  proof (cases "http_req_header_get_field hdr ''Content-Length:''")
    case None
    have "check_content al junk ctx = Some (True, ctx\<lparr>p_req_buf := Some m\<rparr>\<lparr>is_ready := True\<rparr>)"
      unfolding check_content_def using True m(1) prog None by simp
    with keeps_refl [OF assms(1,2)] assms(1) show ?thesis
      unfolding same by (intro exI [of _ True] exI conjI) (assumption, simp)
  next
    case (Some vn)
    obtain v n where vn: "vn = (v, n)" by (cases vn)
    obtain s where s: "mstr_at m (length hdr - length v) = Some s" using tp hl m
      by (meson diff_le_self le_trans)
    obtain res c where c: "handle_request_content_len al junk ctx s = (res, c)" by (metis prod.exhaust)
    from c have c': "handle_request_content_len al junk (ctx\<lparr>p_req_buf := Some m\<rparr>) s = (res, c)"
      by (simp only: same)
    have run: "check_content al junk ctx = (if \<not> res then Some (False, c)
      else if accum_len c < expected_len c then Some (True, c) else Some (True, c\<lparr>is_ready := True\<rparr>))"
      unfolding check_content_def using True m(1) prog Some vn s c' by simp
    show ?thesis
    proof (cases res)
      case False
      with run show ?thesis by auto
    next
      case True': True
      with c have "handle_request_content_len al junk ctx s = (True, c)" by simp
      from handle_content_len_ok [OF assms this] have "recv_inv c" "keeps ctx c" by simp_all
      with run True' show ?thesis by auto
    qed
  qed
qed

text \<open>The size of the buffer stays bounded on the failing branches as well.\<close>

definition max_req_buf :: nat where
  "max_req_buf = HTTP_SERVER_MAX_REQUEST_SIZE + HTTP_SERVER_MAX_ENCRYPTED_CONTENT_SIZE + 1"

definition buf_bounded :: "recv_ctx \<Rightarrow> bool" where
  "buf_bounded ctx \<longleftrightarrow> (\<forall>m. p_req_buf ctx = Some m \<longrightarrow> length m \<le> max_req_buf)"

lemma recv_inv_bounded: "recv_inv ctx \<Longrightarrow> buf_bounded ctx"
  by (auto simp: recv_inv_def buf_bounded_def max_req_buf_def)

lemma store_fragment_bounded:
  assumes "recv_inv ctx" "store_fragment al junk data ctx = Some (False, ctx')"
  shows "buf_bounded ctx'"
proof -
  obtain res c where a: "(if p_req_buf ctx = None then alloc_first_frame al junk (length data) ctx
    else alloc_non_first_frame al junk (length data) ctx) = (res, c)" by (metis prod.exhaust)
  have c: "ctx' = c"
    using assms(2) a by (auto simp: store_fragment_def Let_def bind_eq_Some_conv split: if_splits)
  show ?thesis
  proof (cases res)
    case True
    from a [unfolded True [THEN eqTrueI]] have "recv_inv c" by (rule alloc_ok(1) [OF assms(1)])
    with c show ?thesis by (simp add: recv_inv_bounded)
  next
    case False
    with a recv_inv_bounded [OF assms(1)] show ?thesis
      unfolding c
      by (auto simp: alloc_first_frame_def alloc_non_first_frame_def realloc_req_buf_def Let_def
          buf_bounded_def split: if_splits)
  qed
qed

lemma check_content_bounded:
  assumes "recv_inv ctx" "check_content al junk ctx = Some (False, ctx')"
  shows "buf_bounded ctx'"
proof -
  have len: "length m' = length m" if "p_req_buf ctx = Some m" "mwrite m k c = Some m1" "mwrite m1 k d = Some m'"
    for m m' m1 k c d using length_mwrite [OF that(2)] length_mwrite [OF that(3)] by simp
  from assms(2) obtain m m1 m2 s c d where
    m: "p_req_buf ctx = Some m" "mwrite m (header_len ctx) c = Some m1" "mwrite m1 (header_len ctx) d = Some m2"
    and h: "snd (handle_request_content_len al junk (ctx\<lparr>p_req_buf := Some m2\<rparr>) s) = ctx'"
    by (auto simp: check_content_def bind_eq_Some_conv Let_def case_prod_beta split: if_splits option.splits)
  have "length m2 \<le> max_req_buf"
    using len [OF m] recv_inv_bounded [OF assms(1)] m(1) by (simp add: buf_bounded_def)
  moreover have "header_len ctx \<le> HTTP_SERVER_MAX_REQUEST_SIZE" using assms(1) by (simp add: recv_inv_def)
  ultimately show ?thesis using h
    by (auto simp: handle_request_content_len_def Let_def realloc_req_buf_def buf_bounded_def
        max_req_buf_def split: if_splits)
qed

lemma handle_received_buf_run:
  assumes "recv_inv ctx"
  obtains (failed) ctx' where "handle_received_buf al junk data ctx = Some (False, ctx')" "buf_bounded ctx'"
  | (stored) ctx1 ctx' where "handle_received_buf al junk data ctx = Some (True, ctx')" "recv_inv ctx'"
      "received ctx1 = received ctx @ data" "accum_len ctx1 = accum_len ctx + length data" "keeps ctx1 ctx'"
proof -
  obtain res c where st: "store_fragment al junk data ctx = Some (res, c)" and
    c: "res \<longrightarrow> recv_inv c \<and> terminated c \<and> received c = received ctx @ data
      \<and> accum_len c = accum_len ctx + length data"
    using store_fragment_ok [OF assms] by blast
  show ?thesis
  proof (cases res)
    case False
    with st store_fragment_bounded [OF assms, of al junk data c] show ?thesis
      by (intro failed [of c]) (auto simp: handle_received_buf_def)
  next
    case True
    with c obtain c2 where c2: "find_header_end c = Some c2" "recv_inv c2" "p_req_buf c2 = p_req_buf c"
      "accum_len c2 = accum_len c"
      using find_header_end_ok by blast
    have t2: "terminated c2" "received c2 = received c" using c2 c True by (auto simp: terminated_def received_def)
    show ?thesis
    proof (cases "is_header_completed c2")
      case False
      with st True c2 c t2 keeps_refl [OF c2(2) t2(1)] show ?thesis
        by (intro stored [of c2 c2]) (auto simp: handle_received_buf_def)
    next
      case comp: True
      obtain r c3 where c3: "check_content al junk c2 = Some (r, c3)"
        "r \<longrightarrow> recv_inv c3 \<and> keeps c2 c3"
        using check_content_ok [OF c2(2) t2(1) comp] by blast
      have run: "handle_received_buf al junk data ctx = Some (r, c3)"
        using st True c2(1) comp c3(1) by (simp add: handle_received_buf_def)
      show ?thesis
      proof (cases r)
        case False
        with run check_content_bounded [OF c2(2)] c3(1) show ?thesis by (intro failed [of c3]) auto
      next
        case r: True
        with run c3 c2 c t2 True show ?thesis by (intro stored [of c3 c2]) auto
      qed
    qed
  qed
qed

lemma handle_parts_ok:
  "recv_inv ctx \<Longrightarrow> \<exists>res ctx'. handle_parts al junk ps ctx = Some (res, ctx') \<and> buf_bounded ctx'
     \<and> (res \<longrightarrow> recv_inv ctx')"
proof (induction ps arbitrary: ctx)
  case Nil
  then show ?case by (auto simp: recv_inv_bounded)
next
  case (Cons p ps)
  show ?case
  proof (cases p)
    case None
    with Cons.prems show ?thesis by (auto simp: recv_inv_bounded)
  next
    case (Some data)
    show ?thesis
    proof (cases rule: handle_received_buf_run [OF Cons.prems, where al = al and junk = junk and data = data, case_names failed stored])
      case (failed ctx')
      with Some show ?thesis by auto
    next
      case (stored ctx1 ctx')
      with Cons.IH [OF stored(2)] Some show ?thesis by simp
    qed
  qed
qed

lemma serve_loop_ok:
  "recv_inv ctx \<Longrightarrow> \<exists>e ctx'. serve_loop al junk hz evs ctx = Some (e, ctx') \<and> buf_bounded ctx'
     \<and> (e = Waiting \<longrightarrow> recv_inv ctx') \<and> (e = Ready \<longleftrightarrow> is_ready ctx')"
proof (induction evs arbitrary: ctx)
  case Nil
  then show ?case by (auto simp: recv_inv_bounded)
next
  case (Cons tev evs)
  obtain t ev where tev: "tev = (t, ev)" by (cases tev)
  have "\<exists>res ctx'. recv_and_handle al junk ev ctx = Some (res, ctx') \<and> buf_bounded ctx' \<and> (res \<longrightarrow> recv_inv ctx')"
    using handle_parts_ok [OF Cons.prems] Cons.prems by (cases ev) (auto simp: recv_inv_bounded)
  then obtain res c where c: "recv_and_handle al junk ev ctx = Some (res, c)" "buf_bounded c" "res \<longrightarrow> recv_inv c"
    by blast
  show ?case
  proof (cases "res \<and> \<not> is_ready ctx \<and> t \<le> timeout_ticks hz ctx")
    case True
    with c Cons.IH [of c] tev show ?thesis by auto
  next
    case False
    with c Cons.prems tev show ?thesis by (cases res) (auto simp: recv_inv_bounded)
  qed
qed

lemma handle_parts_prefix:
  assumes "recv_inv ctx" "handle_parts al junk (map Some frags) ctx = Some (True, ctx')"
  shows "accum_len ctx' \<le> accum_len ctx + length (concat frags)"
    and "accum_len ctx' = accum_len ctx + length (concat frags) \<Longrightarrow> frags \<noteq> [] \<Longrightarrow>
      received ctx' = received ctx @ concat frags \<and> terminated ctx'"
  using assms
proof (atomize (full), induction frags arbitrary: ctx)
  case Nil
  then show ?case by auto
next
  case (Cons data frags)
  have "recv_inv ctx" using Cons.prems by simp
  then show ?case
  proof (cases rule: handle_received_buf_run [where al = al and junk = junk and data = data, case_names failed stored])
    case (failed c)
    with Cons.prems show ?thesis by auto
  next
    case (stored c1 c)
    then have rest: "handle_parts al junk (map Some frags) c = Some (True, ctx')" using Cons.prems by simp
    note IH = Cons.IH [OF stored(2) rest]
    have le: "accum_len c \<le> accum_len ctx + length data" using stored by (simp add: keeps_def)
    have all: "received c = received ctx @ data \<and> terminated c" if "accum_len c = accum_len ctx + length data"
    proof -
      have "length (received c1) \<le> accum_len c1" by (auto simp: received_def split: option.splits)
      with stored that show ?thesis by (simp add: keeps_def)
    qed
    show ?thesis
    proof (cases "frags = []")
      case True
      with rest all le show ?thesis by auto
    next
      case False
      with IH le all show ?thesis by auto
    qed
  qed
qed

section \<open>Properties\<close>

text \<open>
  C11: whatever the network delivers and whichever allocations fail, receiving a request never
  reads or writes outside of the request buffer, the buffer never grows over its limit, and
  the request is passed on exactly when it is complete.
\<close>

theorem recv_loop_safe:
  "\<exists>e ctx. serve_loop al junk hz evs recv_ctx_init = Some (e, ctx)
    \<and> buf_bounded ctx \<and> (e = Waiting \<longrightarrow> recv_inv ctx) \<and> (e = Ready \<longleftrightarrow> is_ready ctx)"
  by (rule serve_loop_ok [OF recv_inv_init])

text \<open>
  C36: the fragments of a request are put together in order and without loss: when all of them
  are accepted and none of their bytes was discarded, the buffer holds exactly their
  concatenation, terminated by a NUL.
\<close>

theorem recv_reassembles:
  assumes "handle_parts al junk (map Some frags) recv_ctx_init = Some (True, ctx)"
    and "accum_len ctx = length (concat frags)" and "frags \<noteq> []"
  shows "received ctx = concat frags \<and> terminated ctx"
  using handle_parts_prefix [OF recv_inv_init assms(1)] assms(2,3)
  by (simp add: recv_ctx_init_def received_def)

text \<open>
  C37: when a fragment brings more bytes than the announced content, the bytes kept are the
  right ones, but the buffer ends with the first of the discarded bytes in the place of the
  NUL: if nothing received was a NUL, no string that starts in the buffer is terminated.
\<close>

theorem recv_excess_unterminated:
  assumes "recv_inv ctx" "handle_received_buf al junk data ctx = Some (True, ctx')"
    and "accum_len ctx' < accum_len ctx + length data"
  shows "p_req_buf ctx' = Some (take (accum_len ctx' + 1) (received ctx @ data))
    \<and> (nul_free (received ctx @ data) \<longrightarrow> (\<forall>m p. p_req_buf ctx' = Some m \<longrightarrow> mstr_at m p = None))"
proof (cases rule: handle_received_buf_run [OF assms(1), where al = al and junk = junk and data = data, case_names failed stored])
  case (failed c)
  with assms(2) show ?thesis by simp
next
  case (stored c1 c)
  with assms have "p_req_buf ctx' = Some (take (accum_len ctx' + 1) (received ctx @ data))"
    by (simp add: keeps_def)
  then show ?thesis
    by (auto simp: mstr_at_def mstr_None simp del: take_append intro!: nul_free_drop nul_free_take)
qed

section \<open>Witnesses and examples\<close>

definition all_ok :: "nat \<Rightarrow> bool" where "all_ok k \<longleftrightarrow> True"
definition junk_A :: "nat \<Rightarrow> byte" where "junk_A k = CHR ''A''"

definition post_hdr :: cstr where
  "post_hdr = ''POST /x 1'' @ [CR, LF] @ ''Content-Length: 2'' @ [CR, LF, CR, LF]"

lemma recv_loop_safe_witness:
  "\<exists>e ctx. serve_loop all_ok junk_A 100 [(0, RecvBuf [Some post_hdr]), (1, RecvErr)] recv_ctx_init = Some (e, ctx)
    \<and> buf_bounded ctx \<and> (e = Waiting \<longrightarrow> recv_inv ctx) \<and> (e = Ready \<longleftrightarrow> is_ready ctx)"
  by (rule recv_loop_safe)

lemma recv_reassembles_witness:
  "\<exists>ctx. handle_parts all_ok junk_A (map Some [post_hdr, ''{}'']) recv_ctx_init = Some (True, ctx)
    \<and> received ctx = concat [post_hdr, ''{}''] \<and> terminated ctx"
proof -
  define r where "r = handle_parts all_ok junk_A (map Some [post_hdr, ''{}'']) recv_ctx_init"
  have "r \<noteq> None \<and> fst (the r) \<and> accum_len (snd (the r)) = length (concat [post_hdr, ''{}''])"
    unfolding r_def by code_simp
  then obtain ctx where c: "r = Some (True, ctx)" "accum_len ctx = length (concat [post_hdr, ''{}''])"
    by (cases r) auto
  from c(1) have run: "handle_parts all_ok junk_A (map Some [post_hdr, ''{}'']) recv_ctx_init = Some (True, ctx)"
    by (simp only: r_def)
  from recv_reassembles [OF run c(2)] run show ?thesis by blast
qed

lemma recv_excess_unterminated_witness:
  "\<exists>ctx. handle_received_buf all_ok junk_A (post_hdr @ ''{}loworld'') recv_ctx_init = Some (True, ctx)
    \<and> (\<forall>m p. p_req_buf ctx = Some m \<longrightarrow> mstr_at m p = None)"
proof -
  define r where "r = handle_received_buf all_ok junk_A (post_hdr @ ''{}loworld'') recv_ctx_init"
  have "r \<noteq> None \<and> fst (the r)
      \<and> accum_len (snd (the r)) < accum_len recv_ctx_init + length (post_hdr @ ''{}loworld'')"
    unfolding r_def by code_simp
  then obtain ctx where c: "r = Some (True, ctx)"
    "accum_len ctx < accum_len recv_ctx_init + length (post_hdr @ ''{}loworld'')"
    by (cases r) auto
  from c(1) have run: "handle_received_buf all_ok junk_A (post_hdr @ ''{}loworld'') recv_ctx_init = Some (True, ctx)"
    by (simp only: r_def)
  have "nul_free (received recv_ctx_init @ post_hdr @ ''{}loworld'')" by code_simp
  with recv_excess_unterminated [OF recv_inv_init run c(2)] run show ?thesis by blast
qed

lemma excess_body_read_faults:
  \<comment> \<open>the request line and the header of such a request are still found, the body is not a C string\<close>
  "(case handle_received_buf all_ok junk_A (post_hdr @ ''{}loworld'') recv_ctx_init of
      Some (True, ctx) \<Rightarrow>
        (case http_req_parse (the (p_req_buf ctx)) of
           Some (m, i) \<Rightarrow> is_ready ctx \<and> is_success i \<and> mstr_at m (the (http_body i)) = None
         | None \<Rightarrow> False)
    | _ \<Rightarrow> False)"
  by code_simp

lemma ready_without_buffer:
  \<comment> \<open>two parts in one netbuf: the first completes the request, growing the buffer for the second
      fails; the loop ends with the request ready and the buffer pointer null\<close>
  "(case serve_loop (\<lambda>k. k = 0) junk_A 100
           [(0, RecvBuf [Some (''GET / 1'' @ [CR, LF, CR, LF]), Some ''x''])] recv_ctx_init of
      Some (e, ctx) \<Rightarrow> e = Ready \<and> p_req_buf ctx = None
    | None \<Rightarrow> False)"
  by code_simp

end
