(* ===== verification/AuthTypes.thy ===== *)
theory AuthTypes
  imports CString
begin

text \<open>
  \<^verbatim>\<open>src/http_server_auth_type.c\<close> and \<^verbatim>\<open>src/http_server_auth.c\<close>: the kinds of authentication,
  their configuration, and the state of the authentication.

  The character arrays of the structs are C strings with the bound of the array (\<open>fits\<close>). The
  union \<open>http_server_auth_t\<close> is a datatype that records which member was written last;
  reading the other member gives the bytes of the written one, which the parameter
  \<open>reinterp\<close> converts. The two static variables are the record \<open>auth_state\<close>.
\<close>

section \<open>Authentication types\<close>

datatype auth_type =
    AUTH_ALLOW | AUTH_BASIC | AUTH_DIGEST | AUTH_RUUVI | AUTH_DENY | AUTH_DEFAULT | AUTH_BEARER

definition auth_type_from_str :: "cstr \<Rightarrow> auth_type" where
  "auth_type_from_str s =
     (if s = ''lan_auth_allow'' then AUTH_ALLOW
      else if s = ''lan_auth_basic'' then AUTH_BASIC
      else if s = ''lan_auth_digest'' then AUTH_DIGEST
      else if s = ''lan_auth_ruuvi'' then AUTH_RUUVI
      else if s = ''lan_auth_deny'' then AUTH_DENY
      else if s = ''lan_auth_default'' then AUTH_DEFAULT
      else AUTH_DENY)"

fun auth_type_to_str :: "auth_type \<Rightarrow> cstr" where
  "auth_type_to_str AUTH_ALLOW = ''lan_auth_allow''"
| "auth_type_to_str AUTH_BASIC = ''lan_auth_basic''"
| "auth_type_to_str AUTH_DIGEST = ''lan_auth_digest''"
| "auth_type_to_str AUTH_RUUVI = ''lan_auth_ruuvi''"
| "auth_type_to_str AUTH_DENY = ''lan_auth_deny''"
| "auth_type_to_str AUTH_DEFAULT = ''lan_auth_default''"
| "auth_type_to_str AUTH_BEARER = ''lan_auth_bearer''"

fun auth_type_code :: "auth_type \<Rightarrow> nat" where
  \<comment> \<open>the values of the C enumeration\<close>
  "auth_type_code AUTH_ALLOW = 0"
| "auth_type_code AUTH_BASIC = 1"
| "auth_type_code AUTH_DIGEST = 2"
| "auth_type_code AUTH_RUUVI = 3"
| "auth_type_code AUTH_DENY = 4"
| "auth_type_code AUTH_DEFAULT = 5"
| "auth_type_code AUTH_BEARER = 6"

lemma auth_type_code_inj: "auth_type_code a = auth_type_code b \<longleftrightarrow> a = b"
  by (cases a; cases b) simp_all

instantiation auth_type :: linorder
begin
definition less_eq_auth_type :: "auth_type \<Rightarrow> auth_type \<Rightarrow> bool" where
  "less_eq_auth_type a b \<longleftrightarrow> auth_type_code a \<le> auth_type_code b"
definition less_auth_type :: "auth_type \<Rightarrow> auth_type \<Rightarrow> bool" where
  "less_auth_type a b \<longleftrightarrow> auth_type_code a < auth_type_code b"
instance
  by standard (auto simp: less_eq_auth_type_def less_auth_type_def auth_type_code_inj)
end

section \<open>State\<close>

definition AUTH_USER_SIZE :: nat where "AUTH_USER_SIZE = 51"
definition AUTH_PASS_SIZE :: nat where "AUTH_PASS_SIZE = 65"
definition AUTH_API_KEY_SIZE :: nat where "AUTH_API_KEY_SIZE = 257"
definition SESSION_ID_SIZE :: nat where "SESSION_ID_SIZE = 17"
definition PREV_URL_SIZE :: nat where "PREV_URL_SIZE = 65"
definition CHALLENGE_SIZE :: nat where "CHALLENGE_SIZE = 65"
definition STA_IP_STRING_SIZE :: nat where "STA_IP_STRING_SIZE = 17"
definition MAX_NUM_SESSIONS :: nat where "MAX_NUM_SESSIONS = 4"

record auth_info =
  auth_type :: auth_type
  auth_user :: cstr
  auth_pass :: cstr
  auth_api_key :: cstr
  auth_api_key_rw :: cstr

record digest_req =
  d_username :: cstr
  d_realm :: cstr
  d_nonce :: cstr
  d_uri :: cstr
  d_response :: cstr
  d_opaque :: cstr
  d_qop :: cstr
  d_nc :: cstr
  d_cnonce :: cstr

record login_session =
  ls_challenge :: cstr
  ls_session_id :: cstr
  ls_remote_ip :: cstr

record authorized_session =
  as_session_id :: cstr
  as_remote_ip :: cstr

record auth_ruuvi =
  login_session :: login_session
  authorized_sessions :: "authorized_session list"

datatype auth_store = AuthZero | AuthDigest digest_req | AuthRuuvi auth_ruuvi

record reinterp =
  \<comment> \<open>the bytes of one member of the union, read as the other one\<close>
  ruuvi_as_digest :: "auth_ruuvi \<Rightarrow> digest_req"
  digest_as_ruuvi :: "digest_req \<Rightarrow> auth_ruuvi"

record auth_state =
  g_auth :: auth_store
  g_auth_info :: auth_info

definition digest_zero :: digest_req where
  "digest_zero = \<lparr>d_username = [], d_realm = [], d_nonce = [], d_uri = [], d_response = [],
     d_opaque = [], d_qop = [], d_nc = [], d_cnonce = []\<rparr>"

definition session_zero :: authorized_session where
  "session_zero = \<lparr>as_session_id = [], as_remote_ip = []\<rparr>"

definition ruuvi_zero :: auth_ruuvi where
  "ruuvi_zero = \<lparr>login_session = \<lparr>ls_challenge = [], ls_session_id = [], ls_remote_ip = []\<rparr>,
     authorized_sessions = replicate MAX_NUM_SESSIONS session_zero\<rparr>"

definition auth_state_init :: auth_state where
  \<comment> \<open>static storage: all zero\<close>
  "auth_state_init = \<lparr>g_auth = AuthZero,
     g_auth_info = \<lparr>auth_type = AUTH_ALLOW, auth_user = [], auth_pass = [], auth_api_key = [],
       auth_api_key_rw = []\<rparr>\<rparr>"

section \<open>Operations\<close>

definition clear_authorized_sessions :: "auth_state \<Rightarrow> auth_state" where
  "clear_authorized_sessions st = st\<lparr>g_auth := AuthZero\<rparr>"

fun digest_get_info :: "reinterp \<Rightarrow> auth_store \<Rightarrow> digest_req" where
  "digest_get_info rp AuthZero = digest_zero"
| "digest_get_info rp (AuthDigest d) = d"
| "digest_get_info rp (AuthRuuvi r) = ruuvi_as_digest rp r"

fun ruuvi_get_info :: "reinterp \<Rightarrow> auth_store \<Rightarrow> auth_ruuvi" where
  "ruuvi_get_info rp AuthZero = ruuvi_zero"
| "ruuvi_get_info rp (AuthRuuvi r) = r"
| "ruuvi_get_info rp (AuthDigest d) = digest_as_ruuvi rp d"

fun strnstr_scan :: "cstr \<Rightarrow> cstr \<Rightarrow> nat \<Rightarrow> ptr faulting" where
  \<comment> \<open>the loop of \<open>http_server_strnstr\<close> with the given number of offsets left behind the first;
      a fault when an offset behind the terminating NUL is read\<close>
  "strnstr_scan [] nd k =
     (if strncmp_eq [] nd (length nd) then Some (Some 0) else if k = 0 then Some None else None)"
| "strnstr_scan (c # h) nd k =
     (if strncmp_eq (c # h) nd (length nd) then Some (Some 0)
      else if k = 0 then Some None
      else map_option (map_option Suc) (strnstr_scan h nd (k - 1)))"

definition http_server_strnstr :: "cstr \<Rightarrow> cstr \<Rightarrow> nat \<Rightarrow> ptr faulting" where
  "http_server_strnstr haystack needle n =
     (let needle_len = strnlen needle n
      in if needle_len = 0 then Some (Some 0)
         else strnstr_scan haystack (take needle_len needle) (n - needle_len))"

definition opt_str :: "cstr option \<Rightarrow> cstr" where
  \<comment> \<open>\<open>(NULL != p) ? p->buf : ""\<close>\<close>
  "opt_str p = (case p of None \<Rightarrow> [] | Some s \<Rightarrow> s)"

definition http_server_set_auth ::
  "auth_type \<Rightarrow> cstr option \<Rightarrow> cstr option \<Rightarrow> cstr option \<Rightarrow> cstr option \<Rightarrow> auth_state \<Rightarrow> auth_state" where
  "http_server_set_auth ty user pass key key_rw st =
     (let user_safe = opt_str user;
          pass_safe = opt_str pass;
          i0 = g_auth_info st;
          (i1, f1) = (if ty \<noteq> auth_type i0 then (i0\<lparr>auth_type := ty\<rparr>, True) else (i0, False));
          (i2, f2) = (if auth_user i1 \<noteq> user_safe
                      then (i1\<lparr>auth_user := snprintf_s AUTH_USER_SIZE user_safe\<rparr>, True) else (i1, f1));
          (i3, f3) = (if auth_pass i2 \<noteq> pass_safe
                      then (i2\<lparr>auth_pass := snprintf_s AUTH_PASS_SIZE pass_safe\<rparr>, True) else (i2, f2));
          st1 = st\<lparr>g_auth_info := i3\<rparr>;
          st2 = (if f3 then clear_authorized_sessions st1 else st1)
      in st2\<lparr>g_auth_info := (g_auth_info st2)
               \<lparr>auth_api_key := snprintf_s AUTH_API_KEY_SIZE (opt_str key),
                auth_api_key_rw := snprintf_s AUTH_API_KEY_SIZE (opt_str key_rw)\<rparr>\<rparr>)"

definition add_authorized_session :: "cstr \<Rightarrow> cstr \<Rightarrow> auth_ruuvi \<Rightarrow> auth_ruuvi" where
  \<comment> \<open>shift the entries towards the end, from the last one down, then write the first\<close>
  "add_authorized_session sid ip r =
     (let shifted = fold (\<lambda>i a. a[i := a ! (i - 1)]) (rev [1..<MAX_NUM_SESSIONS]) (authorized_sessions r)
      in r\<lparr>authorized_sessions := shifted[0 := \<lparr>as_session_id = sid, as_remote_ip = ip\<rparr>]\<rparr>)"

section \<open>Well-formedness\<close>

definition session_ok :: "authorized_session \<Rightarrow> bool" where
  "session_ok s \<longleftrightarrow> fits SESSION_ID_SIZE (as_session_id s) \<and> fits STA_IP_STRING_SIZE (as_remote_ip s)"

definition login_ok :: "login_session \<Rightarrow> bool" where
  "login_ok l \<longleftrightarrow> fits CHALLENGE_SIZE (ls_challenge l) \<and> fits SESSION_ID_SIZE (ls_session_id l)
     \<and> fits STA_IP_STRING_SIZE (ls_remote_ip l)"

definition ruuvi_ok :: "auth_ruuvi \<Rightarrow> bool" where
  "ruuvi_ok r \<longleftrightarrow> length (authorized_sessions r) = MAX_NUM_SESSIONS
     \<and> list_all session_ok (authorized_sessions r) \<and> login_ok (login_session r)"

definition digest_ok :: "digest_req \<Rightarrow> bool" where
  "digest_ok d \<longleftrightarrow> fits 65 (d_username d) \<and> fits 65 (d_realm d) \<and> fits 81 (d_nonce d)
     \<and> fits 65 (d_uri d) \<and> fits 65 (d_response d) \<and> fits 81 (d_opaque d) \<and> fits 33 (d_qop d)
     \<and> fits 17 (d_nc d) \<and> fits 33 (d_cnonce d)"

definition info_wf :: "auth_info \<Rightarrow> bool" where
  "info_wf i \<longleftrightarrow> fits AUTH_USER_SIZE (auth_user i) \<and> fits AUTH_PASS_SIZE (auth_pass i)
     \<and> fits AUTH_API_KEY_SIZE (auth_api_key i) \<and> fits AUTH_API_KEY_SIZE (auth_api_key_rw i)"

definition store_tag_ok :: "auth_type \<Rightarrow> auth_store \<Rightarrow> bool" where
  \<comment> \<open>the member of the union that the current authentication type uses was written last\<close>
  "store_tag_ok ty s =
     (case s of
        AuthZero \<Rightarrow> True
      | AuthDigest d \<Rightarrow> ty = AUTH_DIGEST \<and> digest_ok d
      | AuthRuuvi r \<Rightarrow> ty \<in> {AUTH_ALLOW, AUTH_RUUVI, AUTH_DEFAULT} \<and> ruuvi_ok r)"

definition auth_wf :: "auth_state \<Rightarrow> bool" where
  "auth_wf st \<longleftrightarrow> info_wf (g_auth_info st) \<and> store_tag_ok (auth_type (g_auth_info st)) (g_auth st)"

section \<open>Lemmas\<close>

lemma auth_wf_init: "auth_wf auth_state_init"
  by (simp add: auth_wf_def auth_state_init_def info_wf_def store_tag_ok_def AUTH_USER_SIZE_def
      AUTH_PASS_SIZE_def AUTH_API_KEY_SIZE_def)

lemma ruuvi_ok_zero: "ruuvi_ok ruuvi_zero"
  by (simp add: ruuvi_ok_def ruuvi_zero_def session_ok_def session_zero_def login_ok_def
      SESSION_ID_SIZE_def STA_IP_STRING_SIZE_def CHALLENGE_SIZE_def MAX_NUM_SESSIONS_def numeral_eq_Suc)

lemma digest_ok_zero: "digest_ok digest_zero"
  by (simp add: digest_ok_def digest_zero_def)

lemma auth_wf_ruuvi: "auth_wf st \<Longrightarrow> auth_type (g_auth_info st) \<noteq> AUTH_DIGEST \<Longrightarrow>
    ruuvi_ok (ruuvi_get_info rp (g_auth st))"
  by (cases "g_auth st") (auto simp: auth_wf_def store_tag_ok_def ruuvi_ok_zero)

lemma auth_wf_digest: "auth_wf st \<Longrightarrow> auth_type (g_auth_info st) \<notin> {AUTH_ALLOW, AUTH_RUUVI, AUTH_DEFAULT} \<Longrightarrow>
    digest_ok (digest_get_info rp (g_auth st))"
  by (cases "g_auth st") (auto simp: auth_wf_def store_tag_ok_def digest_ok_zero)

lemma auth_wf_put_ruuvi [wf_intros]:
  "auth_wf st \<Longrightarrow> auth_type (g_auth_info st) \<in> {AUTH_ALLOW, AUTH_RUUVI, AUTH_DEFAULT} \<Longrightarrow> ruuvi_ok r \<Longrightarrow>
    auth_wf (st\<lparr>g_auth := AuthRuuvi r\<rparr>)"
  by (auto simp: auth_wf_def store_tag_ok_def)

lemma auth_wf_put_digest [wf_intros]:
  "auth_wf st \<Longrightarrow> auth_type (g_auth_info st) = AUTH_DIGEST \<Longrightarrow> digest_ok d \<Longrightarrow>
    auth_wf (st\<lparr>g_auth := AuthDigest d\<rparr>)"
  by (auto simp: auth_wf_def store_tag_ok_def)

lemma auth_wf_clear [wf_intros]: "auth_wf st \<Longrightarrow> auth_wf (clear_authorized_sessions st)"
  by (auto simp: auth_wf_def store_tag_ok_def clear_authorized_sessions_def)

subsection \<open>Bounded search\<close>

lemma strnstr_scan_code [code]:
  "strnstr_scan [] nd k = (if nd = [] then Some (Some 0) else if k = 0 then Some None else None)"
  "strnstr_scan (c # h) nd k =
     (if prefix nd (c # h) then Some (Some 0)
      else if k = 0 then Some None
      else map_option (map_option Suc) (strnstr_scan h nd (k - 1)))"
  by (simp_all add: strncmp_eq_length)

lemma strnstr_scan_eq:
  assumes "nd \<noteq> []" "k + length nd \<le> length h"
  shows "strnstr_scan h nd k = Some (strstr_idx (take (k + length nd) h) nd)"
  using assms
proof (induction h arbitrary: k)
  case Nil
  then show ?case by simp
next
  case (Cons c h)
  have pre: "prefix nd (take (k + length nd) (c # h)) \<longleftrightarrow> prefix nd (c # h)"
    by (simp add: prefix_take_eq min_def)
  show ?case
  proof (cases "prefix nd (c # h)")
    case True
    with pre have "strstr_idx (take (k + length nd) (c # h)) nd = Some 0"
      by (intro strstr_idx_prefix) simp
    with True show ?thesis by (simp only: strnstr_scan.simps strncmp_eq_length if_True)
  next
    case False
    show ?thesis
    proof (cases k)
      case 0
      have "strstr_idx (take (length nd) (c # h)) nd = None"
      proof (rule ccontr)
        assume "strstr_idx (take (length nd) (c # h)) nd \<noteq> None"
        then obtain i where i: "strstr_idx (take (length nd) (c # h)) nd = Some i" by blast
        from strstr_idx_length [OF i] Cons.prems 0 have "i = 0" by simp
        with strstr_idx_Some [OF i] pre False 0 show False by simp
      qed
      with False 0 Cons.prems(1) show ?thesis by (simp add: strncmp_eq_length)
    next
      case (Suc j)
      with False pre Cons show ?thesis by (simp add: strncmp_eq_length)
    qed
  qed
qed

lemma http_server_strnstr_eq:
  assumes "needle \<noteq> []" "length needle \<le> n" "n \<le> length h"
  shows "http_server_strnstr h needle n = Some (strstr_idx (take n h) needle)"
  using strnstr_scan_eq [of needle "n - length needle" h] assms
  by (simp add: http_server_strnstr_def strnlen_def)

lemma http_server_strnstr_ok:
  assumes "n \<le> length h"
  shows "\<exists>r. http_server_strnstr h needle n = Some r \<and> (\<forall>i. r = Some i \<longrightarrow> i \<le> n)"
proof (cases "strnlen needle n = 0")
  case True
  then show ?thesis by (simp add: http_server_strnstr_def)
next
  case False
  let ?nd = "take (strnlen needle n) needle"
  have nd: "?nd \<noteq> []" "length ?nd = strnlen needle n" "length ?nd \<le> n"
    using False by (auto simp: strnlen_def)
  have "http_server_strnstr h needle n = Some (strstr_idx (take n h) ?nd)"
    using strnstr_scan_eq [of ?nd "n - length ?nd" h] nd assms False
    by (simp add: http_server_strnstr_def)
  moreover have "i \<le> n" if "strstr_idx (take n h) ?nd = Some i" for i
    using strstr_idx_length [OF that] by simp
  ultimately show ?thesis by simp
qed

subsection \<open>The table of sessions\<close>

lemma four_sessions: "length a = MAX_NUM_SESSIONS \<Longrightarrow> \<exists>s0 s1 s2 s3. a = [s0, s1, s2, s3]"
  by (auto simp: MAX_NUM_SESSIONS_def numeral_eq_Suc length_Suc_conv)

lemma add_authorized_session_eq:
  assumes "length (authorized_sessions r) = MAX_NUM_SESSIONS"
  shows "authorized_sessions (add_authorized_session sid ip r) =
      take MAX_NUM_SESSIONS (\<lparr>as_session_id = sid, as_remote_ip = ip\<rparr> # authorized_sessions r)"
    and "login_session (add_authorized_session sid ip r) = login_session r"
proof -
  from four_sessions [OF assms] obtain s0 s1 s2 s3 where a: "authorized_sessions r = [s0, s1, s2, s3]"
    by blast
  show "authorized_sessions (add_authorized_session sid ip r) =
      take MAX_NUM_SESSIONS (\<lparr>as_session_id = sid, as_remote_ip = ip\<rparr> # authorized_sessions r)"
    by (simp add: add_authorized_session_def a MAX_NUM_SESSIONS_def upt_rec numeral_eq_Suc Let_def)
  show "login_session (add_authorized_session sid ip r) = login_session r"
    by (simp add: add_authorized_session_def Let_def)
qed

lemma ruuvi_ok_add [wf_intros]:
  "ruuvi_ok r \<Longrightarrow> fits SESSION_ID_SIZE sid \<Longrightarrow> fits STA_IP_STRING_SIZE ip \<Longrightarrow>
    ruuvi_ok (add_authorized_session sid ip r)"
  by (simp add: ruuvi_ok_def add_authorized_session_eq session_ok_def list_all_take)

subsection \<open>The table as a bounded log\<close>

locale bounded_log =
  \<comment> \<open>a store that keeps the most recent entries, newest first\<close>
  fixes add :: "'k \<Rightarrow> 's \<Rightarrow> 's" and entries :: "'s \<Rightarrow> 'k list" and ok :: "'s \<Rightarrow> bool" and cap :: nat
  assumes ok_add: "ok s \<Longrightarrow> ok (add k s)"
    and entries_add: "ok s \<Longrightarrow> entries (add k s) = take cap (k # entries s)"
begin

lemma ok_fold: "ok s \<Longrightarrow> ok (fold add ks s)"
  by (induction ks arbitrary: s) (auto intro: ok_add)

lemma entries_fold: "ok s \<Longrightarrow> length (entries s) \<le> cap \<Longrightarrow>
    entries (fold add ks s) = take cap (rev ks @ entries s)"
proof (induction ks arbitrary: s)
  case Nil
  then show ?case by simp
next
  case (Cons k ks)
  have "entries (fold add (k # ks) s) = take cap (rev ks @ take cap (k # entries s))"
    using Cons by (simp add: ok_add entries_add)
  also have "\<dots> = take cap (rev ks @ k # entries s)"
    by (simp add: min_def)
  finally show ?case by simp
qed

lemma only_added: "ok s \<Longrightarrow> length (entries s) \<le> cap \<Longrightarrow> k \<in> set (entries (fold add ks s)) \<Longrightarrow>
    k \<in> set ks \<or> k \<in> set (entries s)"
  by (auto simp: entries_fold dest: in_set_takeD)

lemma recent_kept: "ok s \<Longrightarrow> length (entries s) \<le> cap \<Longrightarrow> length ks < cap \<Longrightarrow>
    k \<in> set (entries (fold add ks (add k s)))"
  using entries_fold [of s "k # ks"] by (simp add: take_Cons')

end

definition add_entry :: "authorized_session \<Rightarrow> auth_ruuvi \<Rightarrow> auth_ruuvi" where
  "add_entry s = add_authorized_session (as_session_id s) (as_remote_ip s)"

definition table_ok :: "auth_ruuvi \<Rightarrow> bool" where
  "table_ok r \<longleftrightarrow> length (authorized_sessions r) = MAX_NUM_SESSIONS"

interpretation session_log: bounded_log add_entry authorized_sessions table_ok MAX_NUM_SESSIONS
proof
  fix s :: auth_ruuvi and k :: authorized_session
  assume ok: "table_ok s"
  have k: "\<lparr>as_session_id = as_session_id k, as_remote_ip = as_remote_ip k\<rparr> = k" by simp
  show "authorized_sessions (add_entry k s) = take MAX_NUM_SESSIONS (k # authorized_sessions s)"
    using ok add_authorized_session_eq(1) [of s "as_session_id k" "as_remote_ip k"]
    by (simp only: add_entry_def table_ok_def k)
  then show "table_ok (add_entry k s)" using ok by (simp add: table_ok_def)
qed

lemma set_auth_eq:
  "http_server_set_auth ty user pass key key_rw st =
    \<lparr>g_auth = (if ty = auth_type (g_auth_info st) \<and> opt_str user = auth_user (g_auth_info st)
                   \<and> opt_str pass = auth_pass (g_auth_info st)
                then g_auth st else AuthZero),
     g_auth_info = \<lparr>auth_type = ty,
       auth_user = (if opt_str user = auth_user (g_auth_info st) then opt_str user
                    else snprintf_s AUTH_USER_SIZE (opt_str user)),
       auth_pass = (if opt_str pass = auth_pass (g_auth_info st) then opt_str pass
                    else snprintf_s AUTH_PASS_SIZE (opt_str pass)),
       auth_api_key = snprintf_s AUTH_API_KEY_SIZE (opt_str key),
       auth_api_key_rw = snprintf_s AUTH_API_KEY_SIZE (opt_str key_rw)\<rparr>\<rparr>"
proof -
  obtain s i where st: "st = \<lparr>g_auth = s, g_auth_info = i\<rparr>" by (cases st)
  obtain t u p k kr where i: "i = \<lparr>auth_type = t, auth_user = u, auth_pass = p, auth_api_key = k, auth_api_key_rw = kr\<rparr>"
    by (cases i)
  show ?thesis
    by (cases "ty = t"; cases "opt_str user = u"; cases "opt_str pass = p")
      (simp_all add: st i http_server_set_auth_def Let_def clear_authorized_sessions_def)
qed

section \<open>Properties\<close>

text \<open>
  Reading back the name of an authentication type gives the type, except that the bearer
  type reads back as deny; every string that is not one of the names reads as deny.
\<close>

theorem auth_type_roundtrip:
  "auth_type_from_str (auth_type_to_str t) = (if t = AUTH_BEARER then AUTH_DENY else t)
   \<and> (auth_type_from_str s = AUTH_DENY \<or> s = auth_type_to_str (auth_type_from_str s))"
  by (cases t) (auto simp: auth_type_from_str_def)

text \<open>
  Setting the authentication stores the given credentials, and it keeps the authorised
  sessions exactly when the type, the user and the password are the ones already in force;
  otherwise every session and every pending login is forgotten.
\<close>

theorem set_auth_effect:
  assumes "fits AUTH_USER_SIZE (opt_str user)" "fits AUTH_PASS_SIZE (opt_str pass)"
    and "fits AUTH_API_KEY_SIZE (opt_str key)" "fits AUTH_API_KEY_SIZE (opt_str key_rw)"
  shows "http_server_set_auth ty user pass key key_rw st =
    \<lparr>g_auth = (if ty = auth_type (g_auth_info st) \<and> opt_str user = auth_user (g_auth_info st)
                   \<and> opt_str pass = auth_pass (g_auth_info st)
                then g_auth st else AuthZero),
     g_auth_info = \<lparr>auth_type = ty, auth_user = opt_str user, auth_pass = opt_str pass,
       auth_api_key = opt_str key, auth_api_key_rw = opt_str key_rw\<rparr>\<rparr>"
  using assms by (simp add: set_auth_eq fits_def)

text \<open>
  Setting the authentication, with whatever strings, leaves a well-formed state: every
  stored string fits its array, and the union holds no member of another authentication type.
\<close>

theorem set_auth_wf:
  assumes "auth_wf st" "nul_free (opt_str user)" "nul_free (opt_str pass)"
    "nul_free (opt_str key)" "nul_free (opt_str key_rw)"
  shows "auth_wf (http_server_set_auth ty user pass key key_rw st)"
proof -
  have "store_tag_ok ty AuthZero" by (simp add: store_tag_ok_def)
  moreover have "0 < AUTH_USER_SIZE" "0 < AUTH_PASS_SIZE" "0 < AUTH_API_KEY_SIZE"
    by (simp_all add: AUTH_USER_SIZE_def AUTH_PASS_SIZE_def AUTH_API_KEY_SIZE_def)
  ultimately show ?thesis
    using assms by (simp add: set_auth_eq auth_wf_def info_wf_def snprintf_s_fits)
qed

text \<open>
  The table of authorised sessions keeps the last four logins, newest first: after any
  sequence of logins only sessions that were added are in it, and a session is still in it as
  long as fewer than four logins followed it.
\<close>

theorem session_table_recent:
  assumes "table_ok r"
  shows "authorized_sessions (fold add_entry ks r) = take MAX_NUM_SESSIONS (rev ks @ authorized_sessions r)
    \<and> (length ks < MAX_NUM_SESSIONS \<longrightarrow> s \<in> set (authorized_sessions (fold add_entry ks (add_entry s r))))"
  using assms session_log.entries_fold [of r ks] session_log.recent_kept [of r ks s]
  by (simp add: table_ok_def)

section \<open>Witnesses\<close>

lemma set_auth_effect_witness:
  "http_server_set_auth AUTH_RUUVI (Some ''Admin'') (Some ''x'') None None auth_state_init =
    \<lparr>g_auth = AuthZero,
     g_auth_info = \<lparr>auth_type = AUTH_RUUVI, auth_user = ''Admin'', auth_pass = ''x'',
       auth_api_key = [], auth_api_key_rw = []\<rparr>\<rparr>"
  using set_auth_effect [of "Some ''Admin''" "Some ''x''" None None AUTH_RUUVI auth_state_init]
  by (simp add: opt_str_def fits_def AUTH_USER_SIZE_def AUTH_PASS_SIZE_def AUTH_API_KEY_SIZE_def
      auth_state_init_def)

lemma set_auth_wf_witness:
  "auth_wf (http_server_set_auth AUTH_DIGEST (Some ''Admin'') (Some ''x'') None None auth_state_init)"
  using set_auth_wf [of auth_state_init "Some ''Admin''" "Some ''x''" None None AUTH_DIGEST]
  by (simp add: opt_str_def auth_wf_init)

lemma session_table_recent_witness:
  "authorized_sessions (fold add_entry [session_zero] ruuvi_zero) =
     take MAX_NUM_SESSIONS (rev [session_zero] @ authorized_sessions ruuvi_zero)"
  using session_table_recent [of ruuvi_zero "[session_zero]"]
  by (simp add: table_ok_def ruuvi_zero_def)

end
