(* ===== verification/HttpResp.thy ===== *)
theory HttpResp
  imports AuthTypes
begin

text \<open>
  \<^verbatim>\<open>src/http_server_resp.c\<close> and \<^verbatim>\<open>src/wifiman_sha256.c\<close>, \<^verbatim>\<open>src/wifiman_md5.c\<close>: the responses
  of the server and the ones that ask for authentication.

  A response is a record with the fields of \<open>http_server_resp_t\<close>; its location carries the
  content. The web state \<open>web\<close> holds the static variables that the handlers write and the
  positions in the streams of random numbers and allocation answers. What the sources call
  but do not contain (mbedtls, the string buffers, cJSON, the heap, the random generator) is
  the record \<open>env\<close>; the documented behaviour of these is \<open>env_doc\<close>.
\<close>

section \<open>Responses\<close>

datatype content_type =
    TEXT_HTML | TEXT_PLAIN | TEXT_CSS | TEXT_JAVASCRIPT | IMAGE_PNG | IMAGE_SVG_XML
  | APPLICATION_JSON | APPLICATION_OCTET_STREAM

datatype content_encoding = ENC_NONE | ENC_GZIP

datatype content_location =
    NO_CONTENT
  | FLASH_MEM cstr
  | STATIC_MEM cstr
  | HEAP cstr
  | FATFS nat
  | JSON_GENERATOR "cstr list" \<comment> \<open>the chunks the generator yields\<close>

record http_resp =
  resp_code :: nat
  resp_location :: content_location
  resp_no_cache :: bool
  resp_add_date :: bool
  resp_type :: content_type
  resp_type_param :: "cstr option"
  resp_len :: nat
  resp_encoding :: content_encoding

definition resp_data_in_static_mem ::
  "content_type \<Rightarrow> cstr option \<Rightarrow> nat \<Rightarrow> content_encoding \<Rightarrow> cstr \<Rightarrow> bool \<Rightarrow> bool \<Rightarrow> http_resp" where
  "resp_data_in_static_mem ty param len enc buf no_cache add_date =
     \<lparr>resp_code = 200, resp_location = STATIC_MEM buf, resp_no_cache = no_cache, resp_add_date = add_date,
      resp_type = ty, resp_type_param = param, resp_len = len, resp_encoding = enc\<rparr>"

definition resp_data_in_flash ::
  "content_type \<Rightarrow> cstr option \<Rightarrow> nat \<Rightarrow> content_encoding \<Rightarrow> cstr \<Rightarrow> bool \<Rightarrow> http_resp" where
  "resp_data_in_flash ty param len enc buf no_cache =
     \<lparr>resp_code = 200, resp_location = FLASH_MEM buf, resp_no_cache = no_cache, resp_add_date = False,
      resp_type = ty, resp_type_param = param, resp_len = len, resp_encoding = enc\<rparr>"

definition resp_200_data_in_heap ::
  "content_type \<Rightarrow> cstr option \<Rightarrow> nat \<Rightarrow> content_encoding \<Rightarrow> cstr \<Rightarrow> bool \<Rightarrow> bool \<Rightarrow> http_resp" where
  "resp_200_data_in_heap ty param len enc buf no_cache add_date =
     \<lparr>resp_code = 200, resp_location = HEAP buf, resp_no_cache = no_cache, resp_add_date = add_date,
      resp_type = ty, resp_type_param = param, resp_len = len, resp_encoding = enc\<rparr>"

definition resp_data_from_file ::
  "nat \<Rightarrow> content_type \<Rightarrow> cstr option \<Rightarrow> nat \<Rightarrow> content_encoding \<Rightarrow> nat \<Rightarrow> bool \<Rightarrow> http_resp" where
  "resp_data_from_file code ty param len enc fd no_cache =
     \<lparr>resp_code = code, resp_location = FATFS fd, resp_no_cache = no_cache, resp_add_date = False,
      resp_type = ty, resp_type_param = param, resp_len = len, resp_encoding = enc\<rparr>"

definition resp_200_json :: "cstr \<Rightarrow> http_resp" where
  "resp_200_json s = resp_data_in_static_mem APPLICATION_JSON None (length s) ENC_NONE s True True"

definition resp_json_in_heap :: "nat \<Rightarrow> cstr \<Rightarrow> http_resp" where
  "resp_json_in_heap code s =
     \<lparr>resp_code = code, resp_location = HEAP s, resp_no_cache = True, resp_add_date = True,
      resp_type = APPLICATION_JSON, resp_type_param = None, resp_len = length s, resp_encoding = ENC_NONE\<rparr>"

definition resp_200_json_in_heap :: "cstr \<Rightarrow> http_resp" where
  "resp_200_json_in_heap s = resp_json_in_heap 200 s"

definition resp_json_generator :: "nat \<Rightarrow> cstr list \<Rightarrow> http_resp" where
  \<comment> \<open>the length is the size the generator computes for itself\<close>
  "resp_json_generator code chunks =
     \<lparr>resp_code = code, resp_location = JSON_GENERATOR chunks, resp_no_cache = True, resp_add_date = True,
      resp_type = APPLICATION_JSON, resp_type_param = None, resp_len = length (concat chunks),
      resp_encoding = ENC_NONE\<rparr>"

definition resp_text_in_heap :: "nat \<Rightarrow> cstr \<Rightarrow> http_resp" where
  "resp_text_in_heap code s =
     \<lparr>resp_code = code, resp_location = HEAP s, resp_no_cache = True, resp_add_date = True,
      resp_type = TEXT_PLAIN, resp_type_param = None, resp_len = length s, resp_encoding = ENC_NONE\<rparr>"

definition resp_err :: "nat \<Rightarrow> http_resp" where
  "resp_err code =
     \<lparr>resp_code = code, resp_location = NO_CONTENT, resp_no_cache = True, resp_add_date = True,
      resp_type = TEXT_HTML, resp_type_param = None, resp_len = 0, resp_encoding = ENC_NONE\<rparr>"

definition resp_err_json_in_static_mem :: "nat \<Rightarrow> cstr \<Rightarrow> http_resp" where
  "resp_err_json_in_static_mem code s =
     \<lparr>resp_code = code, resp_location = STATIC_MEM s, resp_no_cache = True, resp_add_date = True,
      resp_type = APPLICATION_JSON, resp_type_param = None, resp_len = length s, resp_encoding = ENC_NONE\<rparr>"

definition resp_err_json_in_heap :: "nat \<Rightarrow> cstr option \<Rightarrow> http_resp" where
  "resp_err_json_in_heap code p =
     (case p of
        None \<Rightarrow> resp_err code
      | Some s \<Rightarrow>
          \<lparr>resp_code = code, resp_location = HEAP s, resp_no_cache = True, resp_add_date = True,
           resp_type = APPLICATION_JSON, resp_type_param = None, resp_len = length s, resp_encoding = ENC_NONE\<rparr>)"

definition resp_401_json :: "cstr option \<Rightarrow> http_resp" where
  "resp_401_json p = (case p of None \<Rightarrow> resp_err 401 | Some s \<Rightarrow> resp_err_json_in_static_mem 401 s)"

definition resp_403_json :: "cstr option \<Rightarrow> http_resp" where
  "resp_403_json p = (case p of None \<Rightarrow> resp_err 403 | Some s \<Rightarrow> resp_err_json_in_static_mem 403 s)"

definition resp_content_if_in_memory :: "http_resp \<Rightarrow> cstr option \<times> nat" where
  "resp_content_if_in_memory r =
     (case resp_location r of
        FLASH_MEM s \<Rightarrow> (Some s, resp_len r)
      | STATIC_MEM s \<Rightarrow> (Some s, resp_len r)
      | HEAP s \<Rightarrow> (Some s, resp_len r)
      | _ \<Rightarrow> (None, 0))"

datatype resource = HeapBuf | FileDesc nat | JsonGen

definition resp_free :: "http_resp \<Rightarrow> resource list" where
  \<comment> \<open>what is released\<close>
  "resp_free r =
     (case resp_location r of
        HEAP s \<Rightarrow> [HeapBuf]
      | FATFS fd \<Rightarrow> [FileDesc fd]
      | JSON_GENERATOR g \<Rightarrow> [JsonGen]
      | _ \<Rightarrow> [])"

section \<open>The environment and the web state\<close>

record env =
  rng :: "nat \<Rightarrow> nat" \<comment> \<open>the k-th value of \<open>esp_random\<close>\<close>
  alloc_ok :: "nat \<Rightarrow> bool" \<comment> \<open>whether the k-th allocation succeeds\<close>
  sha256 :: "byte list list \<Rightarrow> byte list option"
    \<comment> \<open>of the parts given to \<open>mbedtls_sha256_update_ret\<close>, in order; \<open>None\<close>: one of the mbedtls calls fails\<close>
  sha256_uninit :: "byte list" \<comment> \<open>what an uninitialised digest holds\<close>
  md5 :: "byte list \<Rightarrow> byte list option"
  bin_to_hex :: "nat \<Rightarrow> byte list \<Rightarrow> cstr" \<comment> \<open>\<open>str_buf_bin_to_hex\<close> into a buffer of a size\<close>
  sb_printf :: "nat \<Rightarrow> cstr \<Rightarrow> cstr \<Rightarrow> bool \<times> cstr" \<comment> \<open>\<open>str_buf_printf\<close>: buffer size, content, formatted text\<close>
  cjson_parse :: "cstr \<Rightarrow> (cstr \<Rightarrow> cstr option option) option"
    \<comment> \<open>\<open>None\<close>: not JSON; else the item of a name, if any, and its string value, if it is a string\<close>
  reinterp :: reinterp

record web =
  w_auth :: auth_state
  w_extra :: cstr \<comment> \<open>\<open>g_http_server_extra_header_fields\<close>\<close>
  w_auth_json :: cstr \<comment> \<open>\<open>g_auth_json\<close>\<close>
  w_rng :: nat
  w_allocs :: nat
  w_live :: nat \<comment> \<open>heap blocks in use\<close>

definition EXTRA_HEADER_FIELDS_SIZE :: nat where "EXTRA_HEADER_FIELDS_SIZE = 380"
definition AUTH_JSON_BUF_SIZE :: nat where "AUTH_JSON_BUF_SIZE = 210"

definition is_hex :: "cstr \<Rightarrow> bool" where
  "is_hex s \<longleftrightarrow> (\<forall>c\<in>set s. (CHR ''0'' \<le> c \<and> c \<le> CHR ''9'') \<or> (CHR ''a'' \<le> c \<and> c \<le> CHR ''f''))"

definition env_doc :: "env \<Rightarrow> bool" where
  \<comment> \<open>documented behaviour: digests have their length, hexadecimal text fits its buffer, a text
      that fits a string buffer is appended to it\<close>
  "env_doc e \<longleftrightarrow>
     (\<forall>b d. sha256 e b = Some d \<longrightarrow> length d = 32) \<and> length (sha256_uninit e) = 32
     \<and> (\<forall>b d. md5 e b = Some d \<longrightarrow> length d = 16)
     \<and> (\<forall>n b. is_hex (bin_to_hex e n b) \<and>
          (2 * length b < n \<longrightarrow> length (bin_to_hex e n b) = 2 * length b) \<and> (0 < n \<longrightarrow> length (bin_to_hex e n b) < n))
     \<and> (\<forall>n b t. length b + length t < n \<longrightarrow> sb_printf e n b t = (True, b @ t))"

definition wifiman_sha256_hex_str :: "env \<Rightarrow> byte list \<Rightarrow> cstr" where
  "wifiman_sha256_hex_str e digest = bin_to_hex e 65 digest"

definition wifiman_sha256_calc_hex_str :: "env \<Rightarrow> byte list \<Rightarrow> cstr" where
  "wifiman_sha256_calc_hex_str e buf =
     (case sha256 e [buf] of None \<Rightarrow> [] | Some d \<Rightarrow> wifiman_sha256_hex_str e d)"

definition wifiman_md5_hex_str :: "env \<Rightarrow> byte list \<Rightarrow> cstr" where
  "wifiman_md5_hex_str e digest = bin_to_hex e 33 digest"

definition wifiman_md5_calc_hex_str :: "env \<Rightarrow> byte list \<Rightarrow> cstr" where
  "wifiman_md5_calc_hex_str e buf =
     (case md5 e buf of None \<Rightarrow> [] | Some d \<Rightarrow> wifiman_md5_hex_str e d)"

section \<open>Authentication responses\<close>

record hostinfo =
  hostname :: cstr
  fw_ver :: cstr
  nrf52_fw_ver :: cstr

definition HOSTNAME_SIZE :: nat where "HOSTNAME_SIZE = 30"
definition FW_VERSION_SIZE :: nat where "FW_VERSION_SIZE = 33"

definition get_ruuvi :: "env \<Rightarrow> web \<Rightarrow> auth_ruuvi" where
  "get_ruuvi e w = ruuvi_get_info (reinterp e) (g_auth (w_auth w))"

definition put_ruuvi :: "auth_ruuvi \<Rightarrow> web \<Rightarrow> web" where
  "put_ruuvi r w = w\<lparr>w_auth := (w_auth w)\<lparr>g_auth := AuthRuuvi r\<rparr>\<rparr>"

definition fill_buf_with_random_u8 :: "env \<Rightarrow> nat \<Rightarrow> web \<Rightarrow> byte list \<times> web" where
  "fill_buf_with_random_u8 e n w =
     (map (\<lambda>i. char_of (rng e (w_rng w + i))) [0..<n], w\<lparr>w_rng := w_rng w + n\<rparr>)"

definition ascii_upper :: cstr where
  "ascii_upper = ''ABCDEFGHIJKLMNOPQRSTUVWXYZ''"

definition random_session_id :: "env \<Rightarrow> web \<Rightarrow> cstr \<times> web" where
  "random_session_id e w =
     (map (\<lambda>i. ascii_upper ! (rng e (w_rng w + i) mod 26)) [0..<SESSION_ID_SIZE - 1],
      w\<lparr>w_rng := w_rng w + (SESSION_ID_SIZE - 1)\<rparr>)"

definition login_session_init :: "env \<Rightarrow> cstr \<Rightarrow> web \<Rightarrow> web" where
  \<comment> \<open>the result of \<open>wifiman_sha256_calc\<close> is ignored: when it fails the digest is uninitialised\<close>
  "login_session_init e remote_ip w =
     (let (challenge_random, w1) = fill_buf_with_random_u8 e 32 w;
          challenge_sha256 = (case sha256 e [challenge_random] of Some d \<Rightarrow> d | None \<Rightarrow> sha256_uninit e);
          (sid, w2) = random_session_id e w1
      in put_ruuvi ((get_ruuvi e w2)\<lparr>login_session :=
           \<lparr>ls_challenge = wifiman_sha256_hex_str e challenge_sha256, ls_session_id = sid,
            ls_remote_ip = remote_ip\<rparr>\<rparr>) w2)"

definition json_field :: "cstr \<Rightarrow> cstr \<Rightarrow> cstr" where
  "json_field k v = quoted k @ '': '' @ quoted v"

definition json_bool :: "bool \<Rightarrow> cstr" where
  "json_bool b = (if b then ''true'' else ''false'')"

definition fill_auth_json ::
  "env \<Rightarrow> hostinfo \<Rightarrow> auth_type \<Rightarrow> bool \<Rightarrow> cstr option \<Rightarrow> bool \<Rightarrow> web \<Rightarrow> cstr \<times> web" where
  "fill_auth_json e h ty lan err expose w =
     (let pr = sb_printf e AUTH_JSON_BUF_SIZE;
          r1 = pr [] (''{'' @ json_field ''gateway_name'' (hostname h));
          r2 = (if fst r1 \<and> expose
                then pr (snd r1) ('', '' @ json_field ''fw_ver'' (fw_ver h)
                                  @ '', '' @ json_field ''nrf52_fw_ver'' (nrf52_fw_ver h))
                else r1);
          r3 = (if fst r2
                then pr (snd r2) ('', '' @ json_field ''lan_auth_type'' (auth_type_to_str ty)
                                  @ '', '' @ quoted ''lan'' @ '': '' @ json_bool lan)
                else r2);
          r4 = (case err of
                  Some msg \<Rightarrow> if fst r3 then pr (snd r3) ('', '' @ json_field ''message'' msg) else r3
                | None \<Rightarrow> r3);
          r5 = (if fst r4 then pr (snd r4) ''}'' else r4);
          txt = (if fst r5 then snd r5 else ''{}'')
      in (txt, w\<lparr>w_auth_json := txt\<rparr>))"

definition set_extra :: "cstr \<Rightarrow> web \<Rightarrow> web" where
  \<comment> \<open>\<open>snprintf\<close> into the buffer of the extra header fields\<close>
  "set_extra s w = w\<lparr>w_extra := snprintf_s EXTRA_HEADER_FIELDS_SIZE s\<rparr>"

definition resp_401_auth_digest :: "env \<Rightarrow> hostinfo \<Rightarrow> web \<Rightarrow> http_resp \<times> web" where
  "resp_401_auth_digest e h w =
     (let (nonce_random, w1) = fill_buf_with_random_u8 e 32 w;
          nonce = wifiman_sha256_calc_hex_str e nonce_random
      in if nonce = [] then (resp_err 503, w1)
         else
           (let opaque = wifiman_sha256_calc_hex_str e (hostname h);
                (json, w2) = fill_auth_json e h AUTH_DIGEST True None False w1;
                w3 = set_extra (''WWW-Authenticate: Digest realm='' @ quoted (hostname h) @ '' qop='' @ quoted ''auth''
                       @ '' nonce='' @ quoted nonce @ '' opaque='' @ quoted opaque @ crlf) w2
            in (resp_401_json (Some json), w3)))"

definition prep_www_authenticate :: "hostinfo \<Rightarrow> login_session \<Rightarrow> web \<Rightarrow> web" where
  "prep_www_authenticate h l w =
     set_extra (''WWW-Authenticate: x-ruuvi-interactive realm='' @ quoted (hostname h)
       @ '' challenge='' @ quoted (ls_challenge l) @ '' session_cookie='' @ quoted ''RUUVISESSION''
       @ '' session_id='' @ quoted (ls_session_id l) @ crlf
       @ ''Set-Cookie: RUUVISESSION='' @ ls_session_id l @ crlf) w"

definition resp_401_auth_ruuvi_with_new_session_id ::
  "env \<Rightarrow> cstr \<Rightarrow> hostinfo \<Rightarrow> auth_type \<Rightarrow> cstr option \<Rightarrow> web \<Rightarrow> http_resp \<times> web" where
  "resp_401_auth_ruuvi_with_new_session_id e remote_ip h ty err w =
     (let w1 = login_session_init e remote_ip w;
          l = login_session (get_ruuvi e w1)
      in if ls_challenge l = [] then (resp_err 503, w1)
         else
           (let w2 = prep_www_authenticate h l w1;
                (json, w3) = fill_auth_json e h ty True err False w2
            in (resp_401_json (Some json), w3)))"

definition resp_401_auth_ruuvi :: "env \<Rightarrow> hostinfo \<Rightarrow> auth_type \<Rightarrow> web \<Rightarrow> http_resp \<times> web" where
  "resp_401_auth_ruuvi e h ty w =
     (let (json, w1) = fill_auth_json e h ty True None False w
      in (resp_401_json (Some json), w1))"

definition resp_200_auth_allow_with_new_session_id ::
  "env \<Rightarrow> cstr \<Rightarrow> hostinfo \<Rightarrow> web \<Rightarrow> http_resp \<times> web" where
  "resp_200_auth_allow_with_new_session_id e remote_ip h w =
     (let w1 = login_session_init e remote_ip w;
          l = login_session (get_ruuvi e w1)
      in if ls_challenge l = [] then (resp_err 503, w1)
         else
           (let w2 = prep_www_authenticate h l w1;
                w3 = put_ruuvi (add_authorized_session (ls_session_id l) remote_ip (get_ruuvi e w2)) w2;
                (json, w4) = fill_auth_json e h AUTH_ALLOW True None True w3
            in (resp_200_json json, w4)))"

definition resp_403_auth_deny :: "env \<Rightarrow> hostinfo \<Rightarrow> web \<Rightarrow> http_resp \<times> web" where
  "resp_403_auth_deny e h w =
     (let (json, w1) = fill_auth_json e h AUTH_DENY True None False w
      in (resp_403_json (Some json), w1))"

section \<open>The texts fit their buffers\<close>

definition host_ok :: "hostinfo \<Rightarrow> bool" where
  "host_ok h \<longleftrightarrow> fits HOSTNAME_SIZE (hostname h) \<and> fits FW_VERSION_SIZE (fw_ver h)
     \<and> fits FW_VERSION_SIZE (nrf52_fw_ver h)"

definition auth_json_text :: "hostinfo \<Rightarrow> auth_type \<Rightarrow> bool \<Rightarrow> cstr option \<Rightarrow> bool \<Rightarrow> cstr" where
  \<comment> \<open>the JSON object the function is meant to produce\<close>
  "auth_json_text h ty lan err expose =
     ''{'' @ json_field ''gateway_name'' (hostname h)
     @ (if expose then '', '' @ json_field ''fw_ver'' (fw_ver h) @ '', '' @ json_field ''nrf52_fw_ver'' (nrf52_fw_ver h)
        else [])
     @ '', '' @ json_field ''lan_auth_type'' (auth_type_to_str ty) @ '', '' @ quoted ''lan'' @ '': '' @ json_bool lan
     @ (case err of Some msg \<Rightarrow> '', '' @ json_field ''message'' msg | None \<Rightarrow> [])
     @ ''}''"

lemma length_auth_type_to_str: "length (auth_type_to_str ty) \<le> 16"
  by (cases ty) simp_all

lemma length_json_field [simp]: "length (json_field k v) = length k + length v + 6"
  by (simp add: json_field_def)

lemma length_json_bool: "length (json_bool b) \<le> 5"
  by (simp add: json_bool_def)

lemma auth_json_length:
  assumes "host_ok h" "\<not> expose \<or> err = None" "length (opt_str err) \<le> 22"
  shows "length (auth_json_text h ty lan err expose) < AUTH_JSON_BUF_SIZE"
  using assms length_auth_type_to_str [of ty] length_json_bool [of lan]
  by (auto simp: auth_json_text_def host_ok_def fits_def HOSTNAME_SIZE_def FW_VERSION_SIZE_def
      AUTH_JSON_BUF_SIZE_def opt_str_def split: option.splits)

lemma fill_auth_json_eq:
  assumes "env_doc e" "length (auth_json_text h ty lan err expose) < AUTH_JSON_BUF_SIZE"
  shows "fill_auth_json e h ty lan err expose w =
    (auth_json_text h ty lan err expose, w\<lparr>w_auth_json := auth_json_text h ty lan err expose\<rparr>)"
proof -
  have pr: "sb_printf e AUTH_JSON_BUF_SIZE b t = (True, b @ t)"
    if "length b + length t < AUTH_JSON_BUF_SIZE" for b t
    using assms(1) that by (simp add: env_doc_def)
  show ?thesis
    using assms(2)
    by (cases expose; cases err) (simp_all add: fill_auth_json_def auth_json_text_def Let_def pr)
qed

section \<open>The login session\<close>

definition web_wf :: "web \<Rightarrow> bool" where
  "web_wf w \<longleftrightarrow> auth_wf (w_auth w) \<and> fits EXTRA_HEADER_FIELDS_SIZE (w_extra w)"

definition auth_ty :: "web \<Rightarrow> auth_type" where
  "auth_ty w = auth_type (g_auth_info (w_auth w))"

definition ruuvi_type :: "auth_type \<Rightarrow> bool" where
  \<comment> \<open>the types whose handlers use the ruuvi member of the union\<close>
  "ruuvi_type ty \<longleftrightarrow> ty \<in> {AUTH_ALLOW, AUTH_RUUVI, AUTH_DEFAULT}"

lemma get_put_ruuvi [simp]: "get_ruuvi e (put_ruuvi r w) = r"
  by (simp add: get_ruuvi_def put_ruuvi_def)

lemma get_ruuvi_upd [simp]:
  "get_ruuvi e (w\<lparr>w_extra := x\<rparr>) = get_ruuvi e w" "get_ruuvi e (w\<lparr>w_auth_json := j\<rparr>) = get_ruuvi e w"
  "get_ruuvi e (w\<lparr>w_rng := k\<rparr>) = get_ruuvi e w" "get_ruuvi e (w\<lparr>w_allocs := k\<rparr>) = get_ruuvi e w"
  "get_ruuvi e (w\<lparr>w_live := k\<rparr>) = get_ruuvi e w" "get_ruuvi e (set_extra s w) = get_ruuvi e w"
  by (simp_all add: get_ruuvi_def set_extra_def)

lemma put_ruuvi_sel [simp]:
  "w_extra (put_ruuvi r w) = w_extra w" "g_auth_info (w_auth (put_ruuvi r w)) = g_auth_info (w_auth w)"
  "w_live (put_ruuvi r w) = w_live w" "w_allocs (put_ruuvi r w) = w_allocs w"
  by (simp_all add: put_ruuvi_def)

lemma set_extra_sel [simp]: "w_auth (set_extra s w) = w_auth w" "w_live (set_extra s w) = w_live w"
  "w_extra (set_extra s w) = snprintf_s EXTRA_HEADER_FIELDS_SIZE s"
  by (simp_all add: set_extra_def)

lemma web_wf_upd [simp]:
  "web_wf (w\<lparr>w_auth_json := j\<rparr>) = web_wf w" "web_wf (w\<lparr>w_rng := k\<rparr>) = web_wf w"
  "web_wf (w\<lparr>w_allocs := k\<rparr>) = web_wf w" "web_wf (w\<lparr>w_live := k\<rparr>) = web_wf w"
  by (simp_all add: web_wf_def)

lemma web_wf_set_extra [wf_intros]: "web_wf w \<Longrightarrow> nul_free s \<Longrightarrow> web_wf (set_extra s w)"
  by (simp add: web_wf_def snprintf_s_fits EXTRA_HEADER_FIELDS_SIZE_def)

lemma web_wf_put_ruuvi [wf_intros]:
  "web_wf w \<Longrightarrow> ruuvi_type (auth_ty w) \<Longrightarrow> ruuvi_ok r \<Longrightarrow> web_wf (put_ruuvi r w)"
  by (simp add: web_wf_def put_ruuvi_def auth_wf_put_ruuvi ruuvi_type_def auth_ty_def)

lemma web_wf_ruuvi: "web_wf w \<Longrightarrow> ruuvi_type (auth_ty w) \<Longrightarrow> ruuvi_ok (get_ruuvi e w)"
  by (auto simp: web_wf_def get_ruuvi_def ruuvi_type_def auth_ty_def intro!: auth_wf_ruuvi)

lemma ascii_upper_nth:
  assumes "k < 26"
  shows "CHR ''A'' \<le> ascii_upper ! k \<and> ascii_upper ! k \<le> CHR ''Z''"
proof -
  have "list_all (\<lambda>k. CHR ''A'' \<le> ascii_upper ! k \<and> ascii_upper ! k \<le> CHR ''Z'') [0..<26]"
    by code_simp
  with assms show ?thesis by (simp add: list_all_iff)
qed

definition upper_id :: "cstr \<Rightarrow> bool" where
  "upper_id s \<longleftrightarrow> length s = SESSION_ID_SIZE - 1 \<and> (\<forall>c\<in>set s. CHR ''A'' \<le> c \<and> c \<le> CHR ''Z'')"

lemma upper_id_fits: "upper_id s \<Longrightarrow> fits SESSION_ID_SIZE s \<and> s \<noteq> []"
  by (auto simp: upper_id_def fits_def SESSION_ID_SIZE_def nul_free_def less_eq_char_def)

lemma is_hex_nul_free: "is_hex s \<Longrightarrow> nul_free s"
  by (auto simp: is_hex_def nul_free_def less_eq_char_def)

lemma sha256_hex:
  assumes "env_doc e"
  shows "is_hex (wifiman_sha256_hex_str e d)" "length d = 32 \<Longrightarrow> length (wifiman_sha256_hex_str e d) = 64"
    and "fits CHALLENGE_SIZE (wifiman_sha256_hex_str e d)"
proof -
  from assms have h: "is_hex (bin_to_hex e 65 d)"
      "2 * length d < 65 \<longrightarrow> length (bin_to_hex e 65 d) = 2 * length d" "length (bin_to_hex e 65 d) < 65"
    unfolding env_doc_def by simp_all
  then show "is_hex (wifiman_sha256_hex_str e d)"
      "length d = 32 \<Longrightarrow> length (wifiman_sha256_hex_str e d) = 64"
      "fits CHALLENGE_SIZE (wifiman_sha256_hex_str e d)"
    by (simp_all add: wifiman_sha256_hex_str_def fits_def is_hex_nul_free CHALLENGE_SIZE_def)
qed

lemma sha256_calc_hex: "env_doc e \<Longrightarrow> is_hex (wifiman_sha256_calc_hex_str e b)
    \<and> fits CHALLENGE_SIZE (wifiman_sha256_calc_hex_str e b)"
  using sha256_hex [of e] by (auto simp: wifiman_sha256_calc_hex_str_def is_hex_def CHALLENGE_SIZE_def split: option.splits)

lemma md5_calc_hex:
  assumes "env_doc e"
  shows "is_hex (wifiman_md5_calc_hex_str e b)"
proof -
  from assms have "is_hex (bin_to_hex e 33 d)" for d unfolding env_doc_def by simp
  then show ?thesis
    by (auto simp: wifiman_md5_calc_hex_str_def wifiman_md5_hex_str_def is_hex_def split: option.splits)
qed

lemma login_session_init_eq:
  "\<exists>d sid k. login_session_init e ip w = put_ruuvi ((get_ruuvi e w)\<lparr>login_session :=
      \<lparr>ls_challenge = wifiman_sha256_hex_str e d, ls_session_id = sid, ls_remote_ip = ip\<rparr>\<rparr>) (w\<lparr>w_rng := k\<rparr>)
    \<and> upper_id sid \<and> (env_doc e \<longrightarrow> length d = 32)"
proof -
  have "upper_id (map (\<lambda>i. ascii_upper ! (rng e (p + i) mod 26)) [0..<SESSION_ID_SIZE - 1])" for p
    using ascii_upper_nth by (auto simp: upper_id_def)
  moreover have "env_doc e \<longrightarrow> length (case sha256 e [b] of Some d \<Rightarrow> d | None \<Rightarrow> sha256_uninit e) = 32" for b
    by (auto simp: env_doc_def split: option.splits)
  ultimately show ?thesis
    unfolding login_session_init_def fill_buf_with_random_u8_def
    by (intro exI conjI) (simp_all add: Let_def case_prod_beta random_session_id_def)
qed

lemma login_session_init_wf [wf_intros]:
  assumes "env_doc e" "web_wf w" "ruuvi_type (auth_ty w)" "fits STA_IP_STRING_SIZE ip"
  shows "web_wf (login_session_init e ip w)"
proof -
  from login_session_init_eq [of e ip w] obtain d sid k where
    eq: "login_session_init e ip w = put_ruuvi ((get_ruuvi e w)\<lparr>login_session :=
      \<lparr>ls_challenge = wifiman_sha256_hex_str e d, ls_session_id = sid, ls_remote_ip = ip\<rparr>\<rparr>) (w\<lparr>w_rng := k\<rparr>)"
    and sid: "upper_id sid" by blast
  have "ruuvi_ok ((get_ruuvi e w)\<lparr>login_session :=
      \<lparr>ls_challenge = wifiman_sha256_hex_str e d, ls_session_id = sid, ls_remote_ip = ip\<rparr>\<rparr>)"
    using web_wf_ruuvi [OF assms(2,3), of e] upper_id_fits [OF sid] sha256_hex(3) [OF assms(1)] assms(4)
    by (simp add: ruuvi_ok_def login_ok_def)
  then show ?thesis
    unfolding eq using assms by (intro web_wf_put_ruuvi) (simp_all add: auth_ty_def)
qed

subsection \<open>What the responses do\<close>

lemma fill_auth_json_upd: "\<exists>j. fill_auth_json e h ty lan err expose w = (j, w\<lparr>w_auth_json := j\<rparr>)"
  by (simp add: fill_auth_json_def Let_def)

lemma fill_auth_json_wf [simp]: "web_wf (snd (fill_auth_json e h ty lan err expose w)) = web_wf w"
  by (simp add: fill_auth_json_def Let_def)

lemma auth_types_kept [simp]:
  "auth_ty (put_ruuvi r w) = auth_ty w" "auth_ty (set_extra s w) = auth_ty w"
  "auth_ty (w\<lparr>w_auth_json := j\<rparr>) = auth_ty w" "auth_ty (w\<lparr>w_rng := k\<rparr>) = auth_ty w"
  "auth_ty (w\<lparr>w_allocs := k\<rparr>) = auth_ty w" "auth_ty (w\<lparr>w_live := k\<rparr>) = auth_ty w"
  by (simp_all add: auth_ty_def)

definition www_ruuvi_text :: "hostinfo \<Rightarrow> login_session \<Rightarrow> cstr" where
  "www_ruuvi_text h l =
     ''WWW-Authenticate: x-ruuvi-interactive realm='' @ quoted (hostname h)
       @ '' challenge='' @ quoted (ls_challenge l) @ '' session_cookie='' @ quoted ''RUUVISESSION''
       @ '' session_id='' @ quoted (ls_session_id l) @ crlf
       @ ''Set-Cookie: RUUVISESSION='' @ ls_session_id l @ crlf"

lemma www_ruuvi_fits:
  assumes "host_ok h" "login_ok l"
  shows "length (www_ruuvi_text h l) < EXTRA_HEADER_FIELDS_SIZE" "nul_free (www_ruuvi_text h l)"
  using assms
  by (auto simp: www_ruuvi_text_def host_ok_def login_ok_def fits_def HOSTNAME_SIZE_def
      CHALLENGE_SIZE_def SESSION_ID_SIZE_def EXTRA_HEADER_FIELDS_SIZE_def)

lemma prep_www_authenticate_eq:
  "host_ok h \<Longrightarrow> login_ok l \<Longrightarrow> prep_www_authenticate h l w = w\<lparr>w_extra := www_ruuvi_text h l\<rparr>"
  using www_ruuvi_fits(1) [of h l] by (simp add: prep_www_authenticate_def set_extra_def www_ruuvi_text_def)

lemma set_extra_wf_any: "web_wf w \<Longrightarrow> nul_free s \<Longrightarrow> web_wf (set_extra s w)"
  by (rule web_wf_set_extra)

lemma login_session_init_kept [simp]:
  "auth_ty (login_session_init e ip w) = auth_ty w" "w_live (login_session_init e ip w) = w_live w"
  "g_auth_info (w_auth (login_session_init e ip w)) = g_auth_info (w_auth w)"
  "w_extra (login_session_init e ip w) = w_extra w"
  using login_session_init_eq [of e ip w] by (auto simp: auth_ty_def)

lemma login_session_init_sessions [simp]:
  "authorized_sessions (get_ruuvi e (login_session_init e ip w)) = authorized_sessions (get_ruuvi e w)"
  using login_session_init_eq [of e ip w] by auto

lemma login_session_init_challenge:
  "env_doc e \<Longrightarrow> ls_challenge (login_session (get_ruuvi e (login_session_init e ip w))) \<noteq> []"
  using login_session_init_eq [of e ip w] sha256_hex(2) [of e] by fastforce

definition resp_ok :: "http_resp \<Rightarrow> bool" where
  \<comment> \<open>a response in memory has the length of its content\<close>
  "resp_ok r = (case resp_location r of
      STATIC_MEM s \<Rightarrow> resp_len r = length s | HEAP s \<Rightarrow> resp_len r = length s
    | FLASH_MEM s \<Rightarrow> resp_len r = length s | NO_CONTENT \<Rightarrow> resp_len r = 0
    | JSON_GENERATOR c \<Rightarrow> resp_len r = length (concat c) | FATFS fd \<Rightarrow> True)"

lemma resp_ok_simps [simp]:
  "resp_ok (resp_err code)" "resp_ok (resp_401_json p)" "resp_ok (resp_403_json p)"
  "resp_ok (resp_200_json s)" "resp_ok (resp_200_json_in_heap s)" "resp_ok (resp_json_generator code c)"
  by (auto simp: resp_ok_def resp_err_def resp_401_json_def resp_403_json_def resp_200_json_def
      resp_data_in_static_mem_def resp_200_json_in_heap_def resp_json_in_heap_def
      resp_err_json_in_static_mem_def resp_json_generator_def split: option.splits)

lemma resp_codes [simp]:
  "resp_code (resp_err code) = code" "resp_code (resp_401_json p) = 401" "resp_code (resp_403_json p) = 403"
  "resp_code (resp_200_json s) = 200" "resp_code (resp_200_json_in_heap s) = 200"
  by (auto simp: resp_err_def resp_401_json_def resp_403_json_def resp_200_json_def
      resp_data_in_static_mem_def resp_200_json_in_heap_def resp_json_in_heap_def
      resp_err_json_in_static_mem_def split: option.splits)

definition same_grants :: "env \<Rightarrow> web \<Rightarrow> web \<Rightarrow> bool" where
  \<comment> \<open>nothing was granted or revoked, no memory was kept\<close>
  "same_grants e w w' \<longleftrightarrow> g_auth_info (w_auth w') = g_auth_info (w_auth w) \<and> w_live w' = w_live w
     \<and> (ruuvi_type (auth_ty w) \<longrightarrow>
          authorized_sessions (get_ruuvi e w') = authorized_sessions (get_ruuvi e w))"

lemma same_grants_refl [simp]: "same_grants e w w"
  by (simp add: same_grants_def)

lemma same_grants_trans: "same_grants e w w' \<Longrightarrow> same_grants e w' w'' \<Longrightarrow> same_grants e w w''"
  by (simp add: same_grants_def auth_ty_def)

lemma same_grants_upd [simp]:
  "same_grants e w (set_extra s w') = same_grants e w w'"
  "same_grants e w (w'\<lparr>w_auth_json := j\<rparr>) = same_grants e w w'"
  "same_grants e w (w'\<lparr>w_rng := k\<rparr>) = same_grants e w w'"
  "same_grants e w (w'\<lparr>w_allocs := k\<rparr>) = same_grants e w w'"
  "same_grants e w (login_session_init e ip w') = same_grants e w w'"
  by (simp_all add: same_grants_def)

lemma same_grants_type: "same_grants e w w' \<Longrightarrow> auth_ty w' = auth_ty w"
  by (simp add: same_grants_def auth_ty_def)

definition asks :: "env \<Rightarrow> web \<Rightarrow> http_resp \<times> web \<Rightarrow> bool" where
  \<comment> \<open>the outcome of a request that is not let through: an error, nothing granted\<close>
  "asks e w rw \<longleftrightarrow> resp_code (fst rw) \<in> {401, 403, 500, 503} \<and> resp_ok (fst rw)
     \<and> same_grants e w (snd rw) \<and> web_wf (snd rw)"

lemma resp_401_new_session:
  assumes "env_doc e" "host_ok h" "web_wf w" "ruuvi_type (auth_ty w)" "fits STA_IP_STRING_SIZE ip"
  shows "asks e w (resp_401_auth_ruuvi_with_new_session_id e ip h ty err w)"
    and "resp_code (fst (resp_401_auth_ruuvi_with_new_session_id e ip h ty err w)) = 401"
    and "w_extra (snd (resp_401_auth_ruuvi_with_new_session_id e ip h ty err w)) =
      www_ruuvi_text h (login_session (get_ruuvi e (login_session_init e ip w)))"
proof -
  let ?w1 = "login_session_init e ip w"
  let ?l = "login_session (get_ruuvi e ?w1)"
  have wf: "web_wf ?w1" by (rule login_session_init_wf [OF assms(1,3-5)])
  with assms(4) have "ruuvi_ok (get_ruuvi e ?w1)" by (intro web_wf_ruuvi) simp_all
  then have l: "login_ok ?l" by (simp add: ruuvi_ok_def)
  obtain j where j: "fill_auth_json e h ty True err False (?w1\<lparr>w_extra := www_ruuvi_text h ?l\<rparr>) =
      (j, ?w1\<lparr>w_extra := www_ruuvi_text h ?l\<rparr>\<lparr>w_auth_json := j\<rparr>)"
    using fill_auth_json_upd by blast
  have run: "resp_401_auth_ruuvi_with_new_session_id e ip h ty err w =
      (resp_401_json (Some j), ?w1\<lparr>w_extra := www_ruuvi_text h ?l\<rparr>\<lparr>w_auth_json := j\<rparr>)"
    using login_session_init_challenge [OF assms(1), of ip w] j
    by (simp add: resp_401_auth_ruuvi_with_new_session_id_def Let_def prep_www_authenticate_eq [OF assms(2) l])
  have fits: "fits EXTRA_HEADER_FIELDS_SIZE (www_ruuvi_text h ?l)"
    using www_ruuvi_fits [OF assms(2) l] by (simp add: fits_def)
  show "asks e w (resp_401_auth_ruuvi_with_new_session_id e ip h ty err w)"
    and "resp_code (fst (resp_401_auth_ruuvi_with_new_session_id e ip h ty err w)) = 401"
    and "w_extra (snd (resp_401_auth_ruuvi_with_new_session_id e ip h ty err w)) =
      www_ruuvi_text h (login_session (get_ruuvi e (login_session_init e ip w)))"
    using wf fits by (simp_all add: run asks_def web_wf_def same_grants_def)
qed

lemma resp_401_auth_ruuvi_asks:
  "web_wf w \<Longrightarrow> asks e w (resp_401_auth_ruuvi e h ty w)"
  "resp_code (fst (resp_401_auth_ruuvi e h ty w)) = 401"
  by (auto simp: resp_401_auth_ruuvi_def asks_def fill_auth_json_def Let_def same_grants_def)

lemma resp_403_auth_deny_asks:
  "web_wf w \<Longrightarrow> asks e w (resp_403_auth_deny e h w)"
  "resp_code (fst (resp_403_auth_deny e h w)) = 403"
  by (auto simp: resp_403_auth_deny_def asks_def fill_auth_json_def Let_def same_grants_def)

lemma resp_401_auth_digest_asks:
  assumes "env_doc e" "host_ok h" "web_wf w"
  shows "asks e w (resp_401_auth_digest e h w)"
proof -
  have "nul_free (wifiman_sha256_calc_hex_str e b)" for b
    using sha256_calc_hex [OF assms(1)] by (simp add: fits_def)
  moreover have "nul_free (hostname h)" using assms(2) by (auto simp: host_ok_def)
  ultimately show ?thesis
    using assms(3)
    by (simp add: resp_401_auth_digest_def asks_def fill_auth_json_def fill_buf_with_random_u8_def Let_def
        case_prod_beta web_wf_set_extra)
qed

lemma asks_err: "web_wf w \<Longrightarrow> code \<in> {401, 403, 500, 503} \<Longrightarrow> asks e w (resp_err code, w)"
  by (simp add: asks_def)

lemma resp_200_auth_allow_wf:
  assumes "env_doc e" "host_ok h" "web_wf w" "ruuvi_type (auth_ty w)" "fits STA_IP_STRING_SIZE ip"
  shows "web_wf (snd (resp_200_auth_allow_with_new_session_id e ip h w))"
    and "resp_code (fst (resp_200_auth_allow_with_new_session_id e ip h w)) = 200"
    and "resp_ok (fst (resp_200_auth_allow_with_new_session_id e ip h w))"
    and "w_live (snd (resp_200_auth_allow_with_new_session_id e ip h w)) = w_live w"
    and "g_auth_info (w_auth (snd (resp_200_auth_allow_with_new_session_id e ip h w))) = g_auth_info (w_auth w)"
proof -
  let ?w1 = "login_session_init e ip w"
  let ?l = "login_session (get_ruuvi e ?w1)"
  have wf: "web_wf ?w1" by (rule login_session_init_wf [OF assms(1,3-5)])
  with assms(4) have r: "ruuvi_ok (get_ruuvi e ?w1)" by (intro web_wf_ruuvi) simp_all
  then have l: "login_ok ?l" by (simp add: ruuvi_ok_def)
  let ?w2 = "?w1\<lparr>w_extra := www_ruuvi_text h ?l\<rparr>"
  let ?w3 = "put_ruuvi (add_authorized_session (ls_session_id ?l) ip (get_ruuvi e ?w1)) ?w2"
  obtain j where j: "fill_auth_json e h AUTH_ALLOW True None True ?w3 = (j, ?w3\<lparr>w_auth_json := j\<rparr>)"
    using fill_auth_json_upd by blast
  have run: "resp_200_auth_allow_with_new_session_id e ip h w = (resp_200_json j, ?w3\<lparr>w_auth_json := j\<rparr>)"
    using login_session_init_challenge [OF assms(1), of ip w] j
    by (simp add: resp_200_auth_allow_with_new_session_id_def Let_def prep_www_authenticate_eq [OF assms(2) l])
  have fits: "web_wf ?w2"
    using wf www_ruuvi_fits [OF assms(2) l] by (simp add: web_wf_def fits_def)
  have "web_wf ?w3"
    by (rule web_wf_put_ruuvi [OF fits])
      (use assms(4,5) r l in \<open>auto simp: auth_ty_def login_ok_def intro!: ruuvi_ok_add\<close>)
  then show "web_wf (snd (resp_200_auth_allow_with_new_session_id e ip h w))"
    and "resp_code (fst (resp_200_auth_allow_with_new_session_id e ip h w)) = 200"
    and "resp_ok (fst (resp_200_auth_allow_with_new_session_id e ip h w))"
    and "w_live (snd (resp_200_auth_allow_with_new_session_id e ip h w)) = w_live w"
    and "g_auth_info (w_auth (snd (resp_200_auth_allow_with_new_session_id e ip h w))) = g_auth_info (w_auth w)"
    by (simp_all add: run)
qed

section \<open>Properties\<close>

text \<open>
  The JSON of an authentication response is never cut and never falls back to the empty
  object: for every host name and firmware version that fits its field and every error
  message that the handlers use, it is the complete object.
\<close>

theorem auth_json_complete:
  assumes "env_doc e" "host_ok h"
    and "err \<in> {None, Some ''The username is empty'', Some ''Incorrect username'', Some ''Incorrect password''}"
    and "\<not> expose \<or> err = None"
  shows "fill_auth_json e h ty lan err expose w =
    (auth_json_text h ty lan err expose, w\<lparr>w_auth_json := auth_json_text h ty lan err expose\<rparr>)"
proof -
  have "length (opt_str err) \<le> 22" using assms(3) by (auto simp: opt_str_def)
  from fill_auth_json_eq [OF assms(1) auth_json_length [OF assms(2,4) this]] show ?thesis .
qed

text \<open>
  A refused interactive login answers 401 with a new challenge: the header that carries
  it is never cut, it names the session id now stored (sixteen upper case letters) and its
  challenge (64 hexadecimal digits) for the address of the client, and no session was granted.
\<close>

theorem new_login_challenge:
  assumes "env_doc e" "host_ok h" "web_wf w" "ruuvi_type (auth_ty w)" "fits STA_IP_STRING_SIZE ip"
  shows "\<exists>r w' l. resp_401_auth_ruuvi_with_new_session_id e ip h ty err w = (r, w')
    \<and> resp_code r = 401 \<and> login_session (get_ruuvi e w') = l \<and> w_extra w' = www_ruuvi_text h l
    \<and> upper_id (ls_session_id l) \<and> is_hex (ls_challenge l) \<and> length (ls_challenge l) = 64
    \<and> ls_remote_ip l = ip \<and> same_grants e w w' \<and> web_wf w'"
proof -
  let ?rw = "resp_401_auth_ruuvi_with_new_session_id e ip h ty err w"
  let ?w1 = "login_session_init e ip w"
  note new = resp_401_new_session [OF assms, of ty err]
  have l: "login_session (get_ruuvi e (snd ?rw)) = login_session (get_ruuvi e ?w1)"
    using login_session_init_challenge [OF assms(1), of ip w]
    by (simp add: resp_401_auth_ruuvi_with_new_session_id_def Let_def case_prod_beta
        prep_www_authenticate_def fill_auth_json_def)
  from login_session_init_eq [of e ip w] assms(1) obtain d sid k where
    "login_session (get_ruuvi e ?w1) = \<lparr>ls_challenge = wifiman_sha256_hex_str e d, ls_session_id = sid, ls_remote_ip = ip\<rparr>"
    "upper_id sid" "length d = 32" by auto
  with sha256_hex(1,2) [OF assms(1), of d] l new show ?thesis
    by (cases ?rw) (simp add: asks_def)
qed

section \<open>A concrete environment\<close>

definition hex2 :: "byte \<Rightarrow> cstr" where
  "hex2 c = [hex_digit (of_char c div 16), hex_digit (of_char c mod 16)]"

definition env0 :: env where
  "env0 = \<lparr>rng = \<lambda>k. k, alloc_ok = \<lambda>k. True, sha256 = \<lambda>b. Some (replicate 32 CHR ''A''),
     sha256_uninit = replicate 32 CHR ''B'', md5 = \<lambda>b. Some (replicate 16 CHR ''A''),
     bin_to_hex = \<lambda>n b. take (n - 1) (concat (map hex2 b)),
     sb_printf = \<lambda>n b t. if length b + length t < n then (True, b @ t) else (False, b),
     cjson_parse = \<lambda>s. None,
     reinterp = \<lparr>ruuvi_as_digest = \<lambda>r. digest_zero, digest_as_ruuvi = \<lambda>d. ruuvi_zero\<rparr>\<rparr>"

lemma hex_digit_hex: "d < 16 \<Longrightarrow> (CHR ''0'' \<le> hex_digit d \<and> hex_digit d \<le> CHR ''9'')
    \<or> (CHR ''a'' \<le> hex_digit d \<and> hex_digit d \<le> CHR ''f'')"
proof -
  assume "d < 16"
  moreover have "list_all (\<lambda>d. (CHR ''0'' \<le> hex_digit d \<and> hex_digit d \<le> CHR ''9'')
    \<or> (CHR ''a'' \<le> hex_digit d \<and> hex_digit d \<le> CHR ''f'')) [0..<16]" by code_simp
  ultimately show ?thesis by (simp add: list_all_iff)
qed

lemma is_hex_take: "is_hex s \<Longrightarrow> is_hex (take n s)"
  by (auto simp: is_hex_def dest: in_set_takeD)

lemma env_doc_env0: "env_doc env0"
proof -
  have len: "length (concat (map hex2 b)) = 2 * length b" for b
    by (induction b) (simp_all add: hex2_def)
  have nib: "of_char c div 16 < (16::nat)" for c :: char
  proof -
    have "of_char c < (256::nat)" by simp
    then show ?thesis by (intro less_mult_imp_div_less) simp
  qed
  have hex: "is_hex (concat (map hex2 b))" for b
    using hex_digit_hex nib by (auto simp: is_hex_def hex2_def)
  have "is_hex (take n (concat (map hex2 b)))" for n b
    by (rule is_hex_take [OF hex])
  then show ?thesis
    by (auto simp: env_doc_def env0_def len)
qed

definition host0 :: hostinfo where
  "host0 = \<lparr>hostname = ''RuuviGateway'', fw_ver = ''1.0'', nrf52_fw_ver = ''2.0''\<rparr>"

definition web0 :: web where
  "web0 = \<lparr>w_auth = auth_state_init, w_extra = [], w_auth_json = [], w_rng = 0, w_allocs = 0, w_live = 0\<rparr>"

lemma concrete_ok: "host_ok host0" "web_wf web0" "auth_ty web0 = AUTH_ALLOW" "fits STA_IP_STRING_SIZE ''10.10.0.2''"
proof -
  show "web_wf web0" using auth_wf_init by (simp add: web_wf_def web0_def EXTRA_HEADER_FIELDS_SIZE_def)
  show "host_ok host0" "auth_ty web0 = AUTH_ALLOW" "fits STA_IP_STRING_SIZE ''10.10.0.2''"
    by (simp_all add: host_ok_def host0_def fits_def HOSTNAME_SIZE_def FW_VERSION_SIZE_def web0_def
        auth_ty_def auth_state_init_def STA_IP_STRING_SIZE_def)
qed

lemma auth_json_complete_witness:
  "fill_auth_json env0 host0 AUTH_RUUVI True (Some ''Incorrect password'') False web0 =
    (auth_json_text host0 AUTH_RUUVI True (Some ''Incorrect password'') False,
     web0\<lparr>w_auth_json := auth_json_text host0 AUTH_RUUVI True (Some ''Incorrect password'') False\<rparr>)"
  by (rule auth_json_complete [OF env_doc_env0 concrete_ok(1)]) simp_all

lemma new_login_challenge_witness:
  "\<exists>r w' l. resp_401_auth_ruuvi_with_new_session_id env0 ''10.10.0.2'' host0 AUTH_RUUVI None web0 = (r, w')
    \<and> resp_code r = 401 \<and> login_session (get_ruuvi env0 w') = l \<and> w_extra w' = www_ruuvi_text host0 l
    \<and> upper_id (ls_session_id l) \<and> is_hex (ls_challenge l) \<and> length (ls_challenge l) = 64
    \<and> ls_remote_ip l = ''10.10.0.2'' \<and> same_grants env0 web0 w' \<and> web_wf w'"
  by (rule new_login_challenge [OF env_doc_env0 concrete_ok(1,2) _ concrete_ok(4)])
    (simp add: concrete_ok(3) ruuvi_type_def)

end
