(* ===== verification/AuthDigest.thy ===== *)
theory AuthDigest
  imports AuthTypes
begin

text \<open>
  \<^verbatim>\<open>src/http_server_auth_digest.c\<close>: the parser of the digest authorization header.

  The header value is the rest of the header from the value on, with the length of the value,
  as the lookup of a header field returns it. The nine calls of \<open>http_server_parse_token\<close> are
  the rows of \<open>digest_fields\<close>, in the order of the code; each writes its field, and the fields
  already written stay written when a later one is missing.
\<close>

section \<open>Model\<close>

definition parse_token :: "cstr \<Rightarrow> nat \<Rightarrow> cstr \<Rightarrow> cstr \<Rightarrow> nat \<Rightarrow> cstr option faulting" where
  \<comment> \<open>the token behind the prefix and before the suffix; \<open>Some None\<close> when there is none that
      fits the buffer\<close>
  "parse_token str len pre suf buf_size = do {
     r1 \<leftarrow> http_server_strnstr str pre len;
     case r1 of
       None \<Rightarrow> Some None
     | Some i \<Rightarrow>
         let idx1 = i + length pre;
             len_diff = sub_u32 len idx1
         in if length str < idx1 then None
            else do {
              r2 \<leftarrow> http_server_strnstr (drop idx1 str) suf len_diff;
              case r2 of
                None \<Rightarrow> Some None
              | Some token_len \<Rightarrow>
                  if token_len \<ge> buf_size then Some None
                  else Some (Some (take token_len (drop idx1 str))) } }"

type_synonym digest_row = "cstr \<times> cstr \<times> nat \<times> (cstr \<Rightarrow> digest_req \<Rightarrow> digest_req)"

definition digest_fields :: "digest_row list" where
  "digest_fields =
     [(''username='' @ [DQ], [DQ], 65, \<lambda>s d. d\<lparr>d_username := s\<rparr>),
      (''realm='' @ [DQ], [DQ], 65, \<lambda>s d. d\<lparr>d_realm := s\<rparr>),
      (''nonce='' @ [DQ], [DQ], 81, \<lambda>s d. d\<lparr>d_nonce := s\<rparr>),
      (''uri='' @ [DQ], [DQ], 65, \<lambda>s d. d\<lparr>d_uri := s\<rparr>),
      (''qop='', '','', 33, \<lambda>s d. d\<lparr>d_qop := s\<rparr>),
      (''nc='', '','', 17, \<lambda>s d. d\<lparr>d_nc := s\<rparr>),
      (''cnonce='' @ [DQ], [DQ], 33, \<lambda>s d. d\<lparr>d_cnonce := s\<rparr>),
      (''response='' @ [DQ], [DQ], 65, \<lambda>s d. d\<lparr>d_response := s\<rparr>),
      (''opaque='' @ [DQ], [DQ], 81, \<lambda>s d. d\<lparr>d_opaque := s\<rparr>)]"

fun parse_fields :: "digest_row list \<Rightarrow> cstr \<Rightarrow> nat \<Rightarrow> digest_req \<Rightarrow> (bool \<times> digest_req) faulting" where
  "parse_fields [] auth len d = Some (True, d)"
| "parse_fields ((pre, suf, sz, upd) # rows) auth len d = do {
     r \<leftarrow> parse_token auth len pre suf sz;
     case r of
       None \<Rightarrow> Some (False, d)
     | Some s \<Rightarrow> parse_fields rows auth len (upd s d) }"

definition parse_digest_authorization_str :: "cstr \<Rightarrow> nat \<Rightarrow> digest_req \<Rightarrow> (bool \<times> digest_req) faulting" where
  "parse_digest_authorization_str auth len d =
     (if \<not> strncmp_eq auth ''Digest '' 7 then Some (False, d)
      else parse_fields digest_fields auth len d)"

section \<open>Lemmas\<close>

lemma strnstr_hit_long:
  assumes "http_server_strnstr h nd n = Some (Some i)" "nd \<noteq> []" "0 < n" "n \<le> length h"
    and "hd h \<noteq> hd nd"
  shows "i + length nd \<le> n \<and> take (length nd) (drop i h) = nd"
proof (cases "length nd \<le> n")
  case True
  from http_server_strnstr_eq [OF assms(2) True assms(4)] assms(1)
  have s: "strstr_idx (take n h) nd = Some i" by simp
  from strstr_idx_length [OF s] assms(4) have le: "i + length nd \<le> n" by simp
  moreover from strstr_idx_Some [OF s] have "take (length nd) (drop i (take n h)) = nd"
    by (simp add: prefix_take_eq)
  ultimately show ?thesis by (simp add: drop_take min_def split: if_splits)
next
  case False
  have "\<not> strncmp_eq h (take n nd) n"
    using assms False by (cases h; cases nd; cases n) (auto simp: strncmp_eq_def)
  then have "http_server_strnstr h nd n = Some None"
    using assms False by (cases h) (auto simp: http_server_strnstr_def strnlen_def min_def)
  with assms(1) show ?thesis by simp
qed

lemma parse_token_ok:
  assumes "0 < len" "len \<le> length str" "pre \<noteq> []" "hd str \<noteq> hd pre" "nul_free str"
  shows "\<exists>r. parse_token str len pre suf sz = Some r \<and>
    (\<forall>tok. r = Some tok \<longrightarrow> 0 < sz \<and> fits sz tok \<and>
      (\<exists>a b. str = a @ pre @ tok @ b \<and> length (a @ pre @ tok) \<le> len))"
proof -
  obtain r1 where r1: "http_server_strnstr str pre len = Some r1"
    using http_server_strnstr_ok [OF assms(2)] by blast
  show ?thesis
  proof (cases r1)
    case None
    with r1 show ?thesis by (simp add: parse_token_def)
  next
    case (Some i)
    with r1 have i: "i + length pre \<le> len" "take (length pre) (drop i str) = pre"
      using strnstr_hit_long [OF _ assms(3,1,2,4)] by auto
    let ?rest = "drop (i + length pre) str"
    let ?n = "len - (i + length pre)"
    have rest: "str = take i str @ pre @ ?rest"
      using i(2) by (metis append_take_drop_id drop_drop add.commute)
    have "?n \<le> length ?rest" using assms(2) by simp
    from http_server_strnstr_ok [OF this] obtain r2 where
      r2: "http_server_strnstr ?rest suf ?n = Some r2" "\<forall>j. r2 = Some j \<longrightarrow> j \<le> ?n" by blast
    have run: "parse_token str len pre suf sz = (case r2 of None \<Rightarrow> Some None
        | Some j \<Rightarrow> if j \<ge> sz then Some None else Some (Some (take j ?rest)))"
      using r1 Some i(1) r2(1) assms(2) by (simp add: parse_token_def Let_def)
    show ?thesis
    proof (cases r2)
      case None
      with run show ?thesis by simp
    next
      case (Some j)
      let ?tok = "take j ?rest"
      have "str = take i str @ pre @ ?tok @ drop j ?rest"
        by (subst rest) (simp only: append_take_drop_id)
      moreover have "length (take i str @ pre @ ?tok) \<le> len"
        using i(1) r2(2) Some assms(2) by simp
      moreover have "nul_free ?tok" using assms(5) by (intro nul_free_take nul_free_drop)
      ultimately have "j < sz \<longrightarrow> 0 < sz \<and> fits sz ?tok \<and>
          (\<exists>a b. str = a @ pre @ ?tok @ b \<and> length (a @ pre @ ?tok) \<le> len)"
        using r2(2) Some by (auto simp: fits_def)
      with run Some show ?thesis by auto
    qed
  qed
qed

definition row_ok :: "digest_row \<Rightarrow> bool" where
  "row_ok row = (case row of (pre, suf, sz, upd) \<Rightarrow>
     pre \<noteq> [] \<and> hd pre \<noteq> CHR ''D'' \<and> (\<forall>s d. digest_ok d \<longrightarrow> fits sz s \<longrightarrow> digest_ok (upd s d)))"

lemma digest_rows_ok: "list_all row_ok digest_fields"
  by (simp add: digest_fields_def row_ok_def digest_ok_def)

lemma parse_fields_ok:
  assumes "0 < len" "len \<le> length auth" "hd auth = CHR ''D''" "nul_free auth"
  shows "list_all row_ok rows \<Longrightarrow> digest_ok d \<Longrightarrow>
    \<exists>ok d'. parse_fields rows auth len d = Some (ok, d') \<and> digest_ok d'"
proof (induction rows arbitrary: d)
  case Nil
  then show ?case by simp
next
  case (Cons row rows)
  obtain pre suf sz upd where row: "row = (pre, suf, sz, upd)" by (cases row)
  with Cons.prems have pre: "pre \<noteq> []" "hd auth \<noteq> hd pre"
    and upd: "\<And>s. fits sz s \<Longrightarrow> digest_ok (upd s d)"
    using assms(3) by (auto simp: row_ok_def)
  from parse_token_ok [OF assms(1,2) pre assms(4), of suf sz] obtain r where
    r: "parse_token auth len pre suf sz = Some r" "\<forall>tok. r = Some tok \<longrightarrow> fits sz tok" by blast
  show ?case
  proof (cases r)
    case None
    with r Cons.prems row show ?thesis by simp
  next
    case (Some s)
    with r upd Cons.IH [of "upd s d"] Cons.prems row show ?thesis by simp
  qed
qed

lemma digest_scheme_test: "strncmp_eq auth ''Digest '' 7 \<longleftrightarrow> prefix ''Digest '' auth"
proof -
  have "length ''Digest '' = 7" by simp
  with strncmp_eq_length [of auth "''Digest ''"] show ?thesis by (simp only:)
qed

lemma parse_digest_safe_lemma:
  assumes "0 < len" "len \<le> length auth" "nul_free auth" "digest_ok d"
  shows "\<exists>ok d'. parse_digest_authorization_str auth len d = Some (ok, d') \<and> digest_ok d'
    \<and> (\<not> prefix ''Digest '' auth \<longrightarrow> \<not> ok \<and> d' = d)"
proof (cases "prefix ''Digest '' auth")
  case False
  with assms(4) show ?thesis
    unfolding parse_digest_authorization_str_def digest_scheme_test by simp
next
  case True
  then have "hd auth = CHR ''D''" by (auto simp: prefix_def)
  from parse_fields_ok [OF assms(1,2) this assms(3) digest_rows_ok assms(4)] True show ?thesis
    unfolding parse_digest_authorization_str_def digest_scheme_test by simp
qed

section \<open>Properties\<close>

text \<open>
  Parsing the value of an authorization header never reads behind it, every field it
  stores fits its array whether or not the header is complete, and a value of another scheme
  changes nothing.
\<close>

theorem parse_digest_safe:
  assumes "0 < len" "len \<le> length auth" "nul_free auth" "digest_ok d"
  shows "\<exists>ok d'. parse_digest_authorization_str auth len d = Some (ok, d') \<and> digest_ok d'
    \<and> (\<not> prefix ''Digest '' auth \<longrightarrow> \<not> ok \<and> d' = d)"
  by (rule parse_digest_safe_lemma [OF assms])

lemma parse_digest_safe_witness:
  "\<exists>ok d'. parse_digest_authorization_str ''Digest nc=1,'' 12 digest_zero = Some (ok, d') \<and> digest_ok d'
    \<and> (\<not> prefix ''Digest '' ''Digest nc=1,'' \<longrightarrow> \<not> ok \<and> d' = digest_zero)"
  by (rule parse_digest_safe) (simp_all add: digest_ok_zero)

definition digest_example :: cstr where
  "digest_example = ''Digest username='' @ quoted ''u'' @ '',realm='' @ quoted ''r'' @ '',nonce='' @ quoted ''96''
     @ '',uri='' @ quoted ''/a'' @ '',response='' @ quoted ''32'' @ '',opaque='' @ quoted ''d3''
     @ '',qop=auth,nc=01,cnonce='' @ quoted ''3e''"

lemma parse_digest_example:
  "parse_digest_authorization_str digest_example (length digest_example) digest_zero =
    Some (True, \<lparr>d_username = ''u'', d_realm = ''r'', d_nonce = ''96'', d_uri = ''/a'',
      d_response = ''32'', d_opaque = ''d3'', d_qop = ''auth'', d_nc = ''01'', d_cnonce = ''3e''\<rparr>)"
  by code_simp

lemma nonce_taken_from_cnonce:
  \<comment> \<open>the search for the nonce is not anchored: when cnonce comes first, its value is taken\<close>
  "(case parse_token (''Digest cnonce='' @ quoted ''evil'' @ '', nonce='' @ quoted ''good'') 40 (''nonce='' @ [DQ]) [DQ] 81 of
      Some (Some tok) \<Rightarrow> tok = ''evil'' | _ \<Rightarrow> False)"
  by code_simp

end
