(* ===== verification/AuthRuuvi.thy ===== *)
theory AuthRuuvi
  imports AuthTypes HttpReq
begin

text \<open>
  \<^verbatim>\<open>src/http_server_auth_ruuvi.c\<close>: cookies, and the search in the table of authorised sessions.
\<close>

section \<open>Model\<close>

abbreviation COOKIE_SESSION :: cstr where "COOKIE_SESSION \<equiv> ''RUUVISESSION''"
abbreviation COOKIE_PREV_URL :: cstr where "COOKIE_PREV_URL \<equiv> ''RUUVI_PREV_URL''"

definition cookie_pair_value :: "cstr \<Rightarrow> nat \<Rightarrow> nat \<Rightarrow> (bool \<times> cstr) faulting" where
  \<comment> \<open>the value in a pair of the given length that starts with its name\<close>
  "cookie_pair_value cbegin pair_len buf_size = do {
     r3 \<leftarrow> http_server_strnstr cbegin ''='' pair_len;
     case r3 of
       None \<Rightarrow> Some (False, [])
     | Some d \<Rightarrow>
         if d > pair_len then Some (False, [])
         else
           let cookie_len = sub_u32 pair_len (d + 1)
           in if cookie_len = 0 then Some (False, [])
              else if cookie_len \<ge> buf_size then Some (False, [])
              else Some (True, snprintf_s buf_size (take cookie_len (drop (d + 1) cbegin))) }"

definition get_cookie :: "cstr \<Rightarrow> nat \<Rightarrow> cstr \<Rightarrow> nat \<Rightarrow> (bool \<times> cstr) faulting" where
  \<comment> \<open>the result of the function and the content of the buffer\<close>
  "get_cookie cookies len name buf_size = do {
     r1 \<leftarrow> http_server_strnstr cookies name len;
     case r1 of
       None \<Rightarrow> Some (False, [])
     | Some i \<Rightarrow> do {
         let cbegin = drop i cookies;
         let len_till_eol = sub_u32 len i;
         r2 \<leftarrow> http_server_strnstr cbegin '';'' len_till_eol;
         cookie_pair_value cbegin (case r2 of None \<Rightarrow> len_till_eol | Some j \<Rightarrow> j) buf_size } }"

definition get_session_id_from_cookies :: "cstr \<Rightarrow> (bool \<times> cstr) faulting" where
  "get_session_id_from_cookies header =
     (case http_req_header_get_field header ''Cookie:'' of
        None \<Rightarrow> Some (False, [])
      | Some (cookies, len) \<Rightarrow> do {
          (ok, sid) \<leftarrow> get_cookie cookies len COOKIE_SESSION SESSION_ID_SIZE;
          Some (ok, sid) })"

definition get_prev_url_from_cookies :: "cstr \<Rightarrow> cstr faulting" where
  "get_prev_url_from_cookies header =
     (case http_req_header_get_field header ''Cookie:'' of
        None \<Rightarrow> Some []
      | Some (cookies, len) \<Rightarrow> do {
          (ok, url) \<leftarrow> get_cookie cookies len COOKIE_PREV_URL PREV_URL_SIZE;
          Some (if ok then url else []) })"

definition session_matches :: "cstr \<Rightarrow> cstr \<Rightarrow> authorized_session \<Rightarrow> bool" where
  "session_matches sid ip s \<longleftrightarrow> as_session_id s \<noteq> [] \<and> as_session_id s = sid \<and> as_remote_ip s = ip"

definition find_authorized_session :: "auth_ruuvi \<Rightarrow> cstr \<Rightarrow> cstr \<Rightarrow> nat option" where
  \<comment> \<open>the index of the first entry in use that has the session id and the address\<close>
  "find_authorized_session r sid ip = find_idx (session_matches sid ip) (authorized_sessions r)"

definition login_session_clear :: "login_session \<Rightarrow> login_session" where
  "login_session_clear l = l\<lparr>ls_session_id := [], ls_challenge := [], ls_remote_ip := []\<rparr>"

section \<open>Lemmas\<close>

lemma cookie_pair_value_ok:
  assumes "e \<le> length b" "nul_free b" "0 < bsz" "e < 2 ^ 31" "bsz < 2 ^ 31"
  shows "\<exists>ok v. cookie_pair_value b e bsz = Some (ok, v) \<and> fits bsz v
    \<and> (ok \<longrightarrow> v \<noteq> [] \<and> (\<exists>x y. b = x @ v @ y \<and> length (x @ v) \<le> e)) \<and> (\<not> ok \<longrightarrow> v = [])"
proof -
  obtain r where r: "http_server_strnstr b ''='' e = Some r" "\<forall>d. r = Some d \<longrightarrow> d \<le> e"
    using http_server_strnstr_ok [OF assms(1)] by blast
  show ?thesis
  proof (cases "\<exists>d. r = Some d \<and> sub_u32 e (d + 1) \<noteq> 0 \<and> sub_u32 e (d + 1) < bsz")
    case False
    with r assms(3) have "cookie_pair_value b e bsz = Some (False, [])"
      by (cases r) (auto simp: cookie_pair_value_def Let_def)
    with assms(3) show ?thesis by simp
  next
    case True
    then obtain d where d: "r = Some d" "sub_u32 e (d + 1) \<noteq> 0" "sub_u32 e (d + 1) < bsz" by blast
    have "d \<le> e" using d(1) r(2) by simp
    with d assms(4,5) have d1: "d + 1 \<le> e" by (auto simp: sub_u32_def split: if_splits)
    let ?v = "take (e - (d + 1)) (drop (d + 1) b)"
    have len: "length ?v = e - (d + 1)" using d1 assms(1) by simp
    have v: "fits bsz ?v" using d d1 assms(2) len by (auto simp: fits_def)
    then have "snprintf_s bsz ?v = ?v" by (simp add: fits_def)
    then have run: "cookie_pair_value b e bsz = Some (True, ?v)"
      using r d d1 by (simp add: cookie_pair_value_def Let_def)
    have "b = take (d + 1) b @ ?v @ drop (e - (d + 1)) (drop (d + 1) b)"
      by (metis append_take_drop_id)
    moreover have "length (take (d + 1) b @ ?v) \<le> e" using len d1 assms(1) by simp
    moreover have "?v \<noteq> []" using len d(2) d1 by auto
    ultimately show ?thesis using run v by blast
  qed
qed

lemma get_cookie_ok:
  assumes "len \<le> length cookies" "nul_free cookies" "0 < bsz" "len < 2 ^ 31" "bsz < 2 ^ 31"
  shows "\<exists>ok v. get_cookie cookies len name bsz = Some (ok, v) \<and> fits bsz v
    \<and> (ok \<longrightarrow> v \<noteq> [] \<and> (\<exists>a b. cookies = a @ v @ b \<and> length (a @ v) \<le> len))
    \<and> (\<not> ok \<longrightarrow> v = [])"
proof -
  obtain r1 where r1: "http_server_strnstr cookies name len = Some r1" "\<forall>i. r1 = Some i \<longrightarrow> i \<le> len"
    using http_server_strnstr_ok [OF assms(1)] by blast
  show ?thesis
  proof (cases r1)
    case None
    with r1 assms(3) show ?thesis by (simp add: get_cookie_def)
  next
    case (Some i)
    let ?b = "drop i cookies"
    have i: "i \<le> len" using r1 Some by simp
    then have n: "sub_u32 len i \<le> length ?b" "sub_u32 len i = len - i" using assms(1) by simp_all
    obtain r2 where r2: "http_server_strnstr ?b '';'' (sub_u32 len i) = Some r2"
      "\<forall>j. r2 = Some j \<longrightarrow> j \<le> sub_u32 len i"
      using http_server_strnstr_ok [OF n(1)] by blast
    define e where "e = (case r2 of None \<Rightarrow> sub_u32 len i | Some j \<Rightarrow> j)"
    have e: "e \<le> sub_u32 len i" using r2(2) by (auto simp: e_def split: option.splits)
    have run: "get_cookie cookies len name bsz = cookie_pair_value ?b e bsz"
      unfolding get_cookie_def r1(1) Some e_def by (simp only: Let_def r2(1) bind.bind_lunit option.case)
    have "e \<le> length ?b" "nul_free ?b" "e < 2 ^ 31" using e n assms by auto
    from cookie_pair_value_ok [OF this(1,2) assms(3) this(3) assms(5)] obtain ok v where
      v: "cookie_pair_value ?b e bsz = Some (ok, v)" "fits bsz v" "\<not> ok \<longrightarrow> v = []"
      "ok \<longrightarrow> v \<noteq> [] \<and> (\<exists>x y. ?b = x @ v @ y \<and> length (x @ v) \<le> e)" by blast
    have "\<exists>a b. cookies = a @ v @ b \<and> length (a @ v) \<le> len" if "ok"
    proof -
      from v(4) that obtain x y where xy: "?b = x @ v @ y" "length (x @ v) \<le> e" by blast
      have "cookies = (take i cookies @ x) @ v @ y"
        using xy(1) by (metis append.assoc append_take_drop_id)
      moreover have "length ((take i cookies @ x) @ v) \<le> len"
        using xy(2) e n(2) i assms(1) by simp
      ultimately show ?thesis by blast
    qed
    with run v show ?thesis by (intro exI [of _ ok] exI [of _ v]) simp
  qed
qed

lemma header_field_len:
  assumes "http_req_header_get_field header f = Some (v, n)"
  shows "n \<le> length v" "length v \<le> length header"
  using get_field_shape(1,2) [OF assms] by (simp_all add: suffix_length_le)

lemma get_session_id_ok:
  assumes "nul_free header" "length header < 2 ^ 31"
  shows "\<exists>ok sid. get_session_id_from_cookies header = Some (ok, sid) \<and> fits SESSION_ID_SIZE sid
    \<and> (ok \<longleftrightarrow> sid \<noteq> [])"
proof (cases "http_req_header_get_field header ''Cookie:''")
  case None
  then show ?thesis by (simp add: get_session_id_from_cookies_def SESSION_ID_SIZE_def)
next
  case (Some vn)
  obtain v n where vn: "vn = (v, n)" by (cases vn)
  note h = header_field_len [OF Some [unfolded vn]] get_field_nul_free [OF assms(1) Some [unfolded vn]]
  have "n < 2 ^ 31" "(0::nat) < SESSION_ID_SIZE" "SESSION_ID_SIZE < 2 ^ 31"
    using h assms(2) by (simp_all add: SESSION_ID_SIZE_def)
  from get_cookie_ok [OF h(1,3) this(2,1,3), of COOKIE_SESSION] Some vn show ?thesis
    by (auto simp: get_session_id_from_cookies_def)
qed

lemma get_prev_url_ok:
  assumes "nul_free header" "length header < 2 ^ 31"
  shows "\<exists>url. get_prev_url_from_cookies header = Some url \<and> fits PREV_URL_SIZE url"
proof (cases "http_req_header_get_field header ''Cookie:''")
  case None
  then show ?thesis by (simp add: get_prev_url_from_cookies_def PREV_URL_SIZE_def)
next
  case (Some vn)
  obtain v n where vn: "vn = (v, n)" by (cases vn)
  note h = header_field_len [OF Some [unfolded vn]] get_field_nul_free [OF assms(1) Some [unfolded vn]]
  have "n < 2 ^ 31" "(0::nat) < PREV_URL_SIZE" "PREV_URL_SIZE < 2 ^ 31"
    using h assms(2) by (simp_all add: PREV_URL_SIZE_def)
  from get_cookie_ok [OF h(1,3) this(2,1,3), of COOKIE_PREV_URL] Some vn show ?thesis
    by (auto simp: get_prev_url_from_cookies_def)
qed

lemma find_session_iff:
  "find_authorized_session r sid ip \<noteq> None \<longleftrightarrow>
    sid \<noteq> [] \<and> \<lparr>as_session_id = sid, as_remote_ip = ip\<rparr> \<in> set (authorized_sessions r)"
proof -
  have "session_matches sid ip s \<longleftrightarrow> sid \<noteq> [] \<and> s = \<lparr>as_session_id = sid, as_remote_ip = ip\<rparr>" for s
    by (cases s) (auto simp: session_matches_def)
  then show ?thesis by (auto simp: find_authorized_session_def find_idx_None)
qed

lemma ruuvi_ok_login_clear [wf_intros]:
  "ruuvi_ok r \<Longrightarrow> ruuvi_ok (r\<lparr>login_session := login_session_clear (login_session r)\<rparr>)"
  by (simp add: ruuvi_ok_def login_session_clear_def login_ok_def CHALLENGE_SIZE_def SESSION_ID_SIZE_def
      STA_IP_STRING_SIZE_def)

section \<open>Properties\<close>

text \<open>
  Reading the session cookie of any header terminates without reading outside of it; the
  session id fits its array and is not empty exactly when a cookie was found.
\<close>

theorem session_cookie_safe:
  assumes "nul_free header" "length header < 2 ^ 31"
  shows "\<exists>ok sid. get_session_id_from_cookies header = Some (ok, sid) \<and> fits SESSION_ID_SIZE sid
    \<and> (ok \<longleftrightarrow> sid \<noteq> [])"
  by (rule get_session_id_ok [OF assms])

text \<open>
  A request is recognised by its session exactly when its session id was granted to its
  address in one of the last logins: starting from the empty table, after any sequence of
  logins the session is found if and only if it is among the last four of them.
\<close>

theorem session_found_iff_recent:
  assumes "sid \<noteq> []"
  shows "find_authorized_session (fold add_entry ks ruuvi_zero) sid ip \<noteq> None \<longleftrightarrow>
    \<lparr>as_session_id = sid, as_remote_ip = ip\<rparr> \<in> set (take MAX_NUM_SESSIONS (rev ks))"
proof -
  have "table_ok ruuvi_zero" by (simp add: table_ok_def ruuvi_zero_def)
  then have "authorized_sessions (fold add_entry ks ruuvi_zero) =
      take MAX_NUM_SESSIONS (rev ks @ replicate MAX_NUM_SESSIONS session_zero)"
    using session_log.entries_fold [of ruuvi_zero ks] by (simp add: ruuvi_zero_def)
  with assms show ?thesis
    unfolding find_session_iff by (auto simp: session_zero_def)
qed

section \<open>Witnesses\<close>

definition cookie_header :: cstr where
  "cookie_header = ''Cookie: a=b; RUUVISESSION=ABC; c=d'' @ [CR, LF]"

lemma session_cookie_safe_witness:
  "\<exists>ok sid. get_session_id_from_cookies cookie_header = Some (ok, sid) \<and> fits SESSION_ID_SIZE sid
    \<and> (ok \<longleftrightarrow> sid \<noteq> [])"
  by (rule session_cookie_safe) code_simp+

lemma session_cookie_example:
  "get_session_id_from_cookies cookie_header = Some (True, ''ABC'')"
  by code_simp

lemma session_found_iff_recent_witness:
  "find_authorized_session (fold add_entry [\<lparr>as_session_id = ''ABC'', as_remote_ip = ''1''\<rparr>] ruuvi_zero)
     ''ABC'' ''1'' \<noteq> None \<longleftrightarrow>
   \<lparr>as_session_id = ''ABC'', as_remote_ip = ''1''\<rparr> \<in> set (take MAX_NUM_SESSIONS
     (rev [\<lparr>as_session_id = ''ABC'', as_remote_ip = ''1''\<rparr>]))"
  by (rule session_found_iff_recent) simp

end
