(* ===== verification/GetAuth.thy ===== *)
theory GetAuth
  imports HttpResp AuthDigest AuthRuuvi
begin

text \<open>
  \<^verbatim>\<open>src/http_server_handle_req_get_auth.c\<close>: GET of /auth and the check of the credentials of
  every other request.

  The handlers take the environment, the parameters of the request and the web state, and
  return the response, the new state and, where the code has it, the flag that tells whether
  a bearer token was used. A fault of a string search is \<open>None\<close>.
\<close>

declare split_paired_Ex [simp del]

section \<open>Model\<close>

record auth_param =
  ap_from_lan :: bool
  ap_check_rw :: bool
  ap_header :: cstr
  ap_remote_ip :: cstr
  ap_info :: auth_info
  ap_host :: hostinfo

definition get_auth_allow :: "env \<Rightarrow> hostinfo \<Rightarrow> bool \<Rightarrow> web \<Rightarrow> http_resp \<times> web" where
  "get_auth_allow e h lan w =
     (let (json, w1) = fill_auth_json e h AUTH_ALLOW lan None True w in (resp_200_json json, w1))"

definition resp_401_auth_basic :: "env \<Rightarrow> hostinfo \<Rightarrow> web \<Rightarrow> http_resp \<times> web" where
  "resp_401_auth_basic e h w =
     (let (json, w1) = fill_auth_json e h AUTH_BASIC True None False w;
          w2 = set_extra (''WWW-Authenticate: Basic realm='' @ quoted (hostname h) @ '', charset=''
                          @ quoted ''UTF-8'' @ crlf) w1
      in (resp_401_json (Some json), w2))"

datatype api_key = KEY_NOT_USED | KEY_ALLOWED | KEY_PROHIBITED

definition check_auth_bearer :: "cstr \<Rightarrow> bool \<Rightarrow> auth_info \<Rightarrow> api_key" where
  "check_auth_bearer header check_rw info =
     (case http_req_header_get_field header ''Authorization:'' of
        None \<Rightarrow> KEY_NOT_USED
      | Some (authorization, len) \<Rightarrow>
          if \<not> strncmp_eq authorization ''Bearer '' 7 then KEY_NOT_USED
          else
            let token = drop 7 authorization;
                token_len = sub_u32 len 7
            in if auth_api_key_rw info \<noteq> [] \<and> token_len = length (auth_api_key_rw info)
                  \<and> strncmp_eq token (auth_api_key_rw info) token_len then KEY_ALLOWED
               else if \<not> check_rw \<and> auth_api_key info \<noteq> [] \<and> token_len = length (auth_api_key info)
                  \<and> strncmp_eq token (auth_api_key info) token_len then KEY_ALLOWED
               else KEY_PROHIBITED)"

definition get_auth_basic :: "env \<Rightarrow> auth_param \<Rightarrow> web \<Rightarrow> http_resp \<times> web" where
  "get_auth_basic e prm w =
     (case http_req_header_get_field (ap_header prm) ''Authorization:'' of
        None \<Rightarrow> resp_401_auth_basic e (ap_host prm) w
      | Some (authorization, len) \<Rightarrow>
          if \<not> strncmp_eq authorization ''Basic '' 6 then resp_401_auth_basic e (ap_host prm) w
          else
            let token = drop 6 authorization;
                token_len = sub_u32 len 6
            in if token_len \<noteq> length (auth_pass (ap_info prm)) then resp_401_auth_basic e (ap_host prm) w
               else if \<not> strncmp_eq token (auth_pass (ap_info prm)) token_len
                    then resp_401_auth_basic e (ap_host prm) w
               else (let (json, w1) = fill_auth_json e (ap_host prm) AUTH_BASIC (ap_from_lan prm) None True w
                     in (resp_200_json json, w1)))"

definition heap_alloc :: "env \<Rightarrow> web \<Rightarrow> bool \<times> web" where
  "heap_alloc e w =
     (let ok = alloc_ok e (w_allocs w)
      in (ok, w\<lparr>w_allocs := w_allocs w + 1, w_live := w_live w + (if ok then 1 else 0)\<rparr>))"

definition heap_free :: "web \<Rightarrow> web" where
  "heap_free w = w\<lparr>w_live := w_live w - 1\<rparr>"

definition put_digest :: "digest_req \<Rightarrow> web \<Rightarrow> web" where
  "put_digest d w = w\<lparr>w_auth := (w_auth w)\<lparr>g_auth := AuthDigest d\<rparr>\<rparr>"

definition get_auth_digest :: "env \<Rightarrow> auth_param \<Rightarrow> web \<Rightarrow> (http_resp \<times> web) faulting" where
  "get_auth_digest e prm w =
     (case http_req_header_get_field (ap_header prm) ''Authorization:'' of
        None \<Rightarrow> Some (resp_401_auth_digest e (ap_host prm) w)
      | Some (authorization, len) \<Rightarrow> do {
          (ok, d) \<leftarrow> parse_digest_authorization_str authorization len
                      (digest_get_info (reinterp e) (g_auth (w_auth w)));
          let w1 = put_digest d w;
          if \<not> ok then Some (resp_401_auth_digest e (ap_host prm) w1)
          else if d_username d \<noteq> auth_user (ap_info prm) then Some (resp_401_auth_digest e (ap_host prm) w1)
          else
            let (ok1, w2) = heap_alloc e w1
            in if \<not> ok1 then Some (resp_err 503, w2)
               else
                 let ha2 = wifiman_md5_calc_hex_str e (''GET:'' @ d_uri d);
                     w3 = heap_free w2;
                     (ok2, w4) = heap_alloc e w3
                 in if \<not> ok2 then Some (resp_err 503, w4)
                    else
                      let txt = auth_pass (ap_info prm) @ '':'' @ d_nonce d @ '':'' @ d_nc d @ '':''
                                @ d_cnonce d @ '':'' @ d_qop d @ '':'' @ ha2;
                          response = wifiman_md5_calc_hex_str e txt;
                          w5 = heap_free w4
                      in if d_response d \<noteq> response then Some (resp_401_auth_digest e (ap_host prm) w5)
                         else
                           let (json, w6) = fill_auth_json e (ap_host prm) AUTH_DIGEST (ap_from_lan prm) None True w5
                           in Some (resp_200_json json, w6) })"

definition get_auth_ruuvi :: "env \<Rightarrow> auth_param \<Rightarrow> bool \<Rightarrow> auth_type \<Rightarrow> web \<Rightarrow> (http_resp \<times> web) faulting" where
  "get_auth_ruuvi e prm check ty w =
     (if check \<and> ty = AUTH_ALLOW then Some (get_auth_allow e (ap_host prm) (ap_from_lan prm) w)
      else do {
        (found, sid) \<leftarrow> get_session_id_from_cookies (ap_header prm);
        if \<not> found then
          Some (if ty = AUTH_ALLOW then resp_200_auth_allow_with_new_session_id e (ap_remote_ip prm) (ap_host prm) w
                else if check then resp_401_auth_ruuvi e (ap_host prm) ty w
                else resp_401_auth_ruuvi_with_new_session_id e (ap_remote_ip prm) (ap_host prm) ty None w)
        else
          case find_authorized_session (get_ruuvi e w) sid (ap_remote_ip prm) of
            None \<Rightarrow>
              Some (if check then resp_401_auth_ruuvi e (ap_host prm) ty w
                    else if ty = AUTH_ALLOW
                      then resp_200_auth_allow_with_new_session_id e (ap_remote_ip prm) (ap_host prm) w
                    else resp_401_auth_ruuvi_with_new_session_id e (ap_remote_ip prm) (ap_host prm) ty None w)
          | Some i \<Rightarrow>
              let (json, w1) = fill_auth_json e (ap_host prm) ty (ap_from_lan prm) None True w
              in Some (resp_200_json json, w1) })"

definition auth_bearer :: "env \<Rightarrow> auth_param \<Rightarrow> bool \<Rightarrow> bool \<Rightarrow> web \<Rightarrow> http_resp \<times> web" where
  "auth_bearer e prm allowed expose w =
     (let (json, w1) = fill_auth_json e (ap_host prm) AUTH_BEARER (ap_from_lan prm) None expose w
      in (if allowed then resp_200_json json else resp_401_json (Some json), w1))"

definition auth_by_type :: "env \<Rightarrow> auth_param \<Rightarrow> bool \<Rightarrow> web \<Rightarrow> (http_resp \<times> web) faulting" where
  "auth_by_type e prm check w =
     (case auth_type (ap_info prm) of
        AUTH_ALLOW \<Rightarrow> get_auth_ruuvi e prm check AUTH_ALLOW w
      | AUTH_BASIC \<Rightarrow> Some (get_auth_basic e prm w)
      | AUTH_DIGEST \<Rightarrow> get_auth_digest e prm w
      | AUTH_RUUVI \<Rightarrow> get_auth_ruuvi e prm check AUTH_RUUVI w
      | AUTH_DENY \<Rightarrow> Some (resp_403_auth_deny e (ap_host prm) w)
      | AUTH_DEFAULT \<Rightarrow> get_auth_ruuvi e prm check AUTH_DEFAULT w
      | AUTH_BEARER \<Rightarrow> Some (resp_err 500, w))"

definition get_or_check_auth ::
  "env \<Rightarrow> auth_param \<Rightarrow> bool \<Rightarrow> bool \<Rightarrow> web \<Rightarrow> (http_resp \<times> bool \<times> web) faulting" where
  \<comment> \<open>\<open>use_bearer\<close>: the pointer to the flag is not null; the flag is the second result\<close>
  "get_or_check_auth e prm check use_bearer w =
     (let by_type = map_option (\<lambda>(r, w1). (r, False, w1)) (auth_by_type e prm check w)
      in if use_bearer then
           (case check_auth_bearer (ap_header prm) (ap_check_rw prm) (ap_info prm) of
              KEY_NOT_USED \<Rightarrow> by_type
            | KEY_ALLOWED \<Rightarrow> (let (r, w1) = auth_bearer e prm True True w in Some (r, True, w1))
            | KEY_PROHIBITED \<Rightarrow> (let (r, w1) = auth_bearer e prm False False w in Some (r, True, w1)))
         else by_type)"

definition handle_req_check_auth :: "env \<Rightarrow> auth_param \<Rightarrow> web \<Rightarrow> (http_resp \<times> bool \<times> web) faulting" where
  "handle_req_check_auth e prm w =
     (if \<not> ap_from_lan prm then
        (let (r, w1) = get_auth_allow e (ap_host prm) (ap_from_lan prm) w in Some (r, False, w1))
      else get_or_check_auth e prm True True w)"

definition handle_req_get_auth :: "env \<Rightarrow> auth_param \<Rightarrow> web \<Rightarrow> (http_resp \<times> web) faulting" where
  "handle_req_get_auth e prm w =
     (if \<not> ap_from_lan prm then Some (get_auth_allow e (ap_host prm) (ap_from_lan prm) w)
      else map_option (\<lambda>(r, b, w1). (r, w1)) (get_or_check_auth e prm False False w))"

section \<open>The policy\<close>

definition bearer_grants :: "cstr \<Rightarrow> bool \<Rightarrow> auth_info \<Rightarrow> bool" where
  "bearer_grants header check_rw info \<longleftrightarrow>
     (\<exists>key. header_value header ''Authorization:'' = Some (''Bearer '' @ key) \<and> key \<noteq> []
        \<and> (key = auth_api_key_rw info \<or> \<not> check_rw \<and> key = auth_api_key info))"

definition bearer_used :: "cstr \<Rightarrow> bool" where
  "bearer_used header \<longleftrightarrow> (\<exists>key. header_value header ''Authorization:'' = Some (''Bearer '' @ key))"

definition basic_grants :: "cstr \<Rightarrow> auth_info \<Rightarrow> bool" where
  "basic_grants header info \<longleftrightarrow> header_value header ''Authorization:'' = Some (''Basic '' @ auth_pass info)"

lemma take_eq_iff: "length p \<le> length v \<Longrightarrow> take (length p) v = p \<longleftrightarrow> prefix p v"
  by (simp add: prefix_take_eq)

lemma scheme_value:
  assumes "http_req_header_get_field h f = Some (v, n)"
    and "\<forall>c\<in>set p. \<not> is_crlf_char c \<and> c \<noteq> DQ"
  shows "(\<exists>x. take n v = p @ x) \<longleftrightarrow> prefix p v"
    and "prefix p v \<Longrightarrow> take n v = p @ x \<longleftrightarrow> n - length p = length x \<and> take (length x) (drop (length p) v) = x"
proof -
  have "prefix p v" if "take n v = p @ x" for x
    using that by (metis append_eq_conv_conj append_take_drop_id prefix_append prefix_def)
  then show "(\<exists>x. take n v = p @ x) \<longleftrightarrow> prefix p v"
    using get_field_prefix [OF assms(1) _ assms(2)] by blast
  assume pre: "prefix p v"
  from get_field_prefix [OF assms(1) pre assms(2)] get_field_len [OF assms(1)]
  have n: "length p \<le> n" "take n v = p @ take (n - length p) (drop (length p) v)"
    "n - length p \<le> length (drop (length p) v)" by auto
  show "take n v = p @ x \<longleftrightarrow> n - length p = length x \<and> take (length x) (drop (length p) v) = x"
    unfolding n(2) using n(3) by auto
qed

lemma scheme_tests: "strncmp_eq a ''Bearer '' 7 \<longleftrightarrow> prefix ''Bearer '' a"
  "strncmp_eq a ''Basic '' 6 \<longleftrightarrow> prefix ''Basic '' a"
proof -
  have "length ''Bearer '' = 7" "length ''Basic '' = 6" by simp_all
  with strncmp_eq_length [of a "''Bearer ''"] strncmp_eq_length [of a "''Basic ''"]
  show "strncmp_eq a ''Bearer '' 7 \<longleftrightarrow> prefix ''Bearer '' a"
    "strncmp_eq a ''Basic '' 6 \<longleftrightarrow> prefix ''Basic '' a" by (simp_all only:)
qed

lemma token_test:
  assumes "http_req_header_get_field h f = Some (v, n)" "prefix p v"
    and "\<forall>c\<in>set p. \<not> is_crlf_char c \<and> c \<noteq> DQ"
  shows "(sub_u32 n (length p) = length key \<and> strncmp_eq (drop (length p) v) key (sub_u32 n (length p)))
    \<longleftrightarrow> take n v = p @ key"
proof -
  have "length p \<le> n" using get_field_prefix [OF assms] by blast
  then show ?thesis
    using scheme_value(2) [OF assms(1,3,2), of key] by (auto simp: strncmp_eq_def)
qed

lemma scheme_chars [simp]:
  "\<forall>c\<in>set ''Bearer ''. \<not> is_crlf_char c \<and> c \<noteq> DQ" "\<forall>c\<in>set ''Basic ''. \<not> is_crlf_char c \<and> c \<noteq> DQ"
  by (simp_all add: is_crlf_char_def)

lemma scheme_lengths: "length ''Bearer '' = 7" "length ''Basic '' = 6"
  by simp_all

lemma check_auth_bearer_spec:
  "check_auth_bearer h check_rw info =
    (if \<not> bearer_used h then KEY_NOT_USED
     else if bearer_grants h check_rw info then KEY_ALLOWED else KEY_PROHIBITED)"
proof (cases "http_req_header_get_field h ''Authorization:''")
  case None
  then show ?thesis by (simp add: check_auth_bearer_def bearer_used_def header_value_def)
next
  case (Some vn)
  obtain v n where vn: "vn = (v, n)" by (cases vn)
  note f = Some [unfolded vn]
  have used: "bearer_used h \<longleftrightarrow> prefix ''Bearer '' v"
    using scheme_value(1) [OF f scheme_chars(1)] f by (simp add: bearer_used_def header_value_def)
  show ?thesis
  proof (cases "prefix ''Bearer '' v")
    case False
    with used f show ?thesis by (simp add: check_auth_bearer_def scheme_tests)
  next
    case True
    note key = token_test [OF f True scheme_chars(1), unfolded scheme_lengths]
    have "bearer_grants h check_rw info \<longleftrightarrow>
        (auth_api_key_rw info \<noteq> [] \<and> take n v = ''Bearer '' @ auth_api_key_rw info)
        \<or> (\<not> check_rw \<and> auth_api_key info \<noteq> [] \<and> take n v = ''Bearer '' @ auth_api_key info)"
      using f by (auto simp: bearer_grants_def header_value_def)
    with used True f key [of "auth_api_key_rw info"] key [of "auth_api_key info"] show ?thesis
      by (auto simp: check_auth_bearer_def scheme_tests Let_def)
  qed
qed

section \<open>Outcomes of the handlers\<close>

definition param_ok :: "auth_param \<Rightarrow> web \<Rightarrow> bool" where
  "param_ok prm w \<longleftrightarrow> nul_free (ap_header prm) \<and> length (ap_header prm) < 2 ^ 31 \<and> host_ok (ap_host prm)
     \<and> fits STA_IP_STRING_SIZE (ap_remote_ip prm) \<and> ap_info prm = g_auth_info (w_auth w)"

definition passes :: "env \<Rightarrow> web \<Rightarrow> http_resp \<times> web \<Rightarrow> bool" where
  \<comment> \<open>the outcome of a request that is let through\<close>
  "passes e w rw \<longleftrightarrow> resp_code (fst rw) = 200 \<and> resp_ok (fst rw) \<and> same_grants e w (snd rw) \<and> web_wf (snd rw)"

lemma get_auth_allow_passes: "web_wf w \<Longrightarrow> passes e w (get_auth_allow e h lan w)"
  using fill_auth_json_upd [of e h AUTH_ALLOW lan None True w]
  by (auto simp: passes_def get_auth_allow_def)

lemma resp_401_auth_basic_asks:
  assumes "host_ok h" "web_wf w"
  shows "asks e w (resp_401_auth_basic e h w)"
proof -
  have "nul_free (hostname h)" using assms(1) by (auto simp: host_ok_def)
  then show ?thesis
    using assms(2) fill_auth_json_upd [of e h AUTH_BASIC True None False w]
    by (auto simp: resp_401_auth_basic_def asks_def web_wf_set_extra)
qed

lemma get_auth_basic_spec:
  assumes "web_wf w" "host_ok (ap_host prm)"
  shows "if basic_grants (ap_header prm) (ap_info prm) then passes e w (get_auth_basic e prm w)
    else asks e w (get_auth_basic e prm w)"
proof (cases "http_req_header_get_field (ap_header prm) ''Authorization:''")
  case None
  with assms show ?thesis
    by (simp add: get_auth_basic_def basic_grants_def header_value_def resp_401_auth_basic_asks)
next
  case (Some vn)
  obtain v n where vn: "vn = (v, n)" by (cases vn)
  note f = Some [unfolded vn]
  note ask = resp_401_auth_basic_asks [OF assms(2,1), of e]
  have ok: "passes e w (let (json, w1) = fill_auth_json e (ap_host prm) AUTH_BASIC (ap_from_lan prm) None True w
                     in (resp_200_json json, w1))"
    using fill_auth_json_upd [of e "ap_host prm" AUTH_BASIC "ap_from_lan prm" None True w] assms(1)
    by (auto simp: passes_def)
  show ?thesis
  proof (cases "prefix ''Basic '' v")
    case False
    then have "\<not> basic_grants (ap_header prm) (ap_info prm)"
      using scheme_value(1) [OF f scheme_chars(2)] f by (auto simp: basic_grants_def header_value_def)
    with False f ask show ?thesis by (simp add: get_auth_basic_def scheme_tests)
  next
    case True
    have "basic_grants (ap_header prm) (ap_info prm) \<longleftrightarrow>
        sub_u32 n 6 = length (auth_pass (ap_info prm)) \<and> strncmp_eq (drop 6 v) (auth_pass (ap_info prm)) (sub_u32 n 6)"
      using token_test [OF f True scheme_chars(2), unfolded scheme_lengths, of "auth_pass (ap_info prm)"] f
      by (simp add: basic_grants_def header_value_def)
    with True f ask ok show ?thesis by (simp add: get_auth_basic_def scheme_tests Let_def)
  qed
qed

definition digest_response :: "env \<Rightarrow> auth_info \<Rightarrow> digest_req \<Rightarrow> cstr" where
  \<comment> \<open>the response a client that knows the password computes\<close>
  "digest_response e info d =
     wifiman_md5_calc_hex_str e (auth_pass info @ '':'' @ d_nonce d @ '':'' @ d_nc d @ '':'' @ d_cnonce d
       @ '':'' @ d_qop d @ '':'' @ wifiman_md5_calc_hex_str e (''GET:'' @ d_uri d))"

definition digest_grants :: "env \<Rightarrow> auth_param \<Rightarrow> web \<Rightarrow> bool" where
  "digest_grants e prm w \<longleftrightarrow>
     (\<exists>v n d. http_req_header_get_field (ap_header prm) ''Authorization:'' = Some (v, n)
        \<and> parse_digest_authorization_str v n (digest_get_info (reinterp e) (g_auth (w_auth w))) = Some (True, d)
        \<and> d_username d = auth_user (ap_info prm) \<and> d_response d = digest_response e (ap_info prm) d)"

definition ruuvi_grants :: "env \<Rightarrow> auth_param \<Rightarrow> web \<Rightarrow> bool" where
  "ruuvi_grants e prm w \<longleftrightarrow>
     (\<exists>sid. get_session_id_from_cookies (ap_header prm) = Some (True, sid)
        \<and> find_authorized_session (get_ruuvi e w) sid (ap_remote_ip prm) \<noteq> None)"

lemma heap_alloc_simps [simp]:
  "fst (heap_alloc e w) = alloc_ok e (w_allocs w)" "web_wf (snd (heap_alloc e w)) = web_wf w"
  "web_wf (heap_free w) = web_wf w" "w_auth (snd (heap_alloc e w)) = w_auth w" "w_auth (heap_free w) = w_auth w"
  "w_allocs (heap_free w) = w_allocs w" "w_allocs (snd (heap_alloc e w)) = w_allocs w + 1"
  "w_live (snd (heap_alloc e w)) = w_live w + (if alloc_ok e (w_allocs w) then 1 else 0)"
  "w_live (heap_free w) = w_live w - 1" "w_extra (heap_free w) = w_extra w"
  "w_extra (snd (heap_alloc e w)) = w_extra w"
  by (simp_all add: heap_alloc_def heap_free_def Let_def)

lemma put_digest_wf:
  "web_wf w \<Longrightarrow> auth_ty w = AUTH_DIGEST \<Longrightarrow> digest_ok d \<Longrightarrow> web_wf (put_digest d w)"
  by (simp add: web_wf_def put_digest_def auth_wf_put_digest auth_ty_def)

lemma same_grants_other:
  "\<not> ruuvi_type (auth_ty w) \<Longrightarrow> g_auth_info (w_auth w') = g_auth_info (w_auth w) \<Longrightarrow> w_live w' = w_live w \<Longrightarrow>
    same_grants e w w'"
  by (simp add: same_grants_def)

lemma asks_mono: "asks e w' rw \<Longrightarrow> same_grants e w w' \<Longrightarrow> asks e w rw"
  by (auto simp: asks_def intro: same_grants_trans)

lemma passes_mono: "passes e w' rw \<Longrightarrow> same_grants e w w' \<Longrightarrow> passes e w rw"
  by (auto simp: passes_def intro: same_grants_trans)

lemma json_200_passes: "web_wf w \<Longrightarrow> passes e w (let (json, w1) = fill_auth_json e h ty lan None x w
      in (resp_200_json json, w1))"
  using fill_auth_json_upd [of e h ty lan None x w] by (auto simp: passes_def)

lemma parse_digest_field_ok:
  assumes "param_ok prm w" "digest_ok d0"
    and "http_req_header_get_field (ap_header prm) f = Some (v, n)"
  shows "\<exists>ok d. parse_digest_authorization_str v n d0 = Some (ok, d) \<and> digest_ok d"
proof (cases "prefix ''Digest '' v")
  case True
  have "\<forall>c\<in>set ''Digest ''. \<not> is_crlf_char c \<and> c \<noteq> DQ" by (simp add: is_crlf_char_def)
  from get_field_prefix [OF assms(3) True this] have n: "0 < n" by simp
  have "nul_free v" using assms(1) get_field_nul_free [OF _ assms(3)] by (simp add: param_ok_def)
  from parse_digest_safe_lemma [OF n less_imp_le [OF get_field_len [OF assms(3)]] this assms(2)] show ?thesis by blast
next
  case False
  with assms(2) show ?thesis by (simp add: parse_digest_authorization_str_def digest_scheme_test)
qed

lemma get_auth_digest_spec:
  assumes "env_doc e" "web_wf w" "param_ok prm w" "auth_ty w = AUTH_DIGEST"
  shows "\<exists>rw. get_auth_digest e prm w = Some rw \<and>
    (if digest_grants e prm w \<and> alloc_ok e (w_allocs w) \<and> alloc_ok e (w_allocs w + 1)
     then passes e w rw else asks e w rw)"
proof (cases "http_req_header_get_field (ap_header prm) ''Authorization:''")
  case None
  with assms show ?thesis
    by (auto simp: get_auth_digest_def digest_grants_def param_ok_def intro: resp_401_auth_digest_asks)
next
  case (Some vn)
  obtain v n where vn: "vn = (v, n)" by (cases vn)
  let ?d0 = "digest_get_info (reinterp e) (g_auth (w_auth w))"
  have d0: "digest_ok ?d0"
    using assms(2,4) by (auto simp: web_wf_def auth_ty_def intro!: auth_wf_digest)
  obtain ok d where p: "parse_digest_authorization_str v n ?d0 = Some (ok, d)" "digest_ok d"
    using parse_digest_field_ok [OF assms(3) d0 Some [unfolded vn]] by blast
  let ?w1 = "put_digest d w"
  have w1: "web_wf ?w1" "same_grants e w ?w1" "host_ok (ap_host prm)" "w_allocs ?w1 = w_allocs w"
    using put_digest_wf [OF assms(2,4) p(2)] assms(3,4)
    by (auto simp: param_ok_def put_digest_def ruuvi_type_def intro!: same_grants_other)
  have ask: "asks e w (resp_401_auth_digest e (ap_host prm) w')" "asks e w (resp_err 503, w')"
    if "web_wf w'" "same_grants e w w'" for w'
    using asks_mono [OF resp_401_auth_digest_asks [OF assms(1) w1(3) that(1)] that(2)]
      asks_mono [OF asks_err [OF that(1)] that(2)] by simp_all
  have g: "digest_grants e prm w \<longleftrightarrow> ok \<and> d_username d = auth_user (ap_info prm)
      \<and> d_response d = digest_response e (ap_info prm) d"
    using Some vn p(1) by (auto simp: digest_grants_def)
  show ?thesis
  proof (cases "ok \<and> d_username d = auth_user (ap_info prm)")
    case False
    with Some vn p(1) g ask(1) [OF w1(1,2)] show ?thesis by (auto simp: get_auth_digest_def Let_def)
  next
    case True
    let ?w2 = "snd (heap_alloc e ?w1)"
    let ?w4 = "snd (heap_alloc e (heap_free ?w2))"
    have wf: "web_wf ?w2" "web_wf ?w4" "web_wf (heap_free ?w4)" using w1 by simp_all
    have sg: "\<not> alloc_ok e (w_allocs w) \<longrightarrow> same_grants e w ?w2"
      "alloc_ok e (w_allocs w) \<and> \<not> alloc_ok e (w_allocs w + 1) \<longrightarrow> same_grants e w ?w4"
      "alloc_ok e (w_allocs w) \<and> alloc_ok e (w_allocs w + 1) \<longrightarrow> same_grants e w (heap_free ?w4)"
      using w1(2,4) assms(4) by (auto simp: same_grants_def ruuvi_type_def)
    show ?thesis
      using True Some vn p(1) g w1(4) ask(2) [OF wf(1)] ask(2) [OF wf(2)] ask(1) [OF wf(3)] sg
        passes_mono [OF json_200_passes [OF wf(3), of e "ap_host prm" AUTH_DIGEST "ap_from_lan prm" True]]
      by (auto simp: get_auth_digest_def Let_def case_prod_beta digest_response_def)
  qed
qed

lemma session_id_read:
  assumes "param_ok prm w"
  obtains ok sid where "get_session_id_from_cookies (ap_header prm) = Some (ok, sid)"
    "fits SESSION_ID_SIZE sid"
proof -
  have "nul_free (ap_header prm)" "length (ap_header prm) < 2 ^ 31" using assms by (simp_all add: param_ok_def)
  from get_session_id_ok [OF this] that show ?thesis by blast
qed

lemma get_auth_ruuvi_spec:
  assumes "env_doc e" "web_wf w" "param_ok prm w" "ruuvi_type (auth_ty w)" "ty = AUTH_ALLOW \<longrightarrow> check"
  shows "\<exists>rw. get_auth_ruuvi e prm check ty w = Some rw \<and>
    (if ty = AUTH_ALLOW \<or> ruuvi_grants e prm w then passes e w rw else asks e w rw)"
proof (cases "ty = AUTH_ALLOW")
  case True
  with assms(2,5) show ?thesis by (simp add: get_auth_ruuvi_def get_auth_allow_passes)
next
  case False
  obtain ok sid where sid: "get_session_id_from_cookies (ap_header prm) = Some (ok, sid)"
    using session_id_read [OF assms(3)] by blast
  have h: "host_ok (ap_host prm)" "fits STA_IP_STRING_SIZE (ap_remote_ip prm)"
    using assms(3) by (auto simp: param_ok_def)
  have ask: "asks e w (if check then resp_401_auth_ruuvi e (ap_host prm) ty w
      else resp_401_auth_ruuvi_with_new_session_id e (ap_remote_ip prm) (ap_host prm) ty None w)"
    using resp_401_auth_ruuvi_asks(1) [OF assms(2)] resp_401_new_session(1) [OF assms(1) h(1) assms(2,4) h(2)]
    by simp
  have g: "ruuvi_grants e prm w \<longleftrightarrow> ok \<and> find_authorized_session (get_ruuvi e w) sid (ap_remote_ip prm) \<noteq> None"
    using sid by (auto simp: ruuvi_grants_def)
  show ?thesis
  proof (cases "ruuvi_grants e prm w")
    case False
    with \<open>ty \<noteq> AUTH_ALLOW\<close> sid g ask show ?thesis
      by (auto simp: get_auth_ruuvi_def split: option.splits)
  next
    case True
    with \<open>ty \<noteq> AUTH_ALLOW\<close> sid g json_200_passes [OF assms(2), of e "ap_host prm" ty "ap_from_lan prm" True]
    show ?thesis by (auto simp: get_auth_ruuvi_def Let_def case_prod_beta)
  qed
qed

lemma get_auth_ruuvi_allow:
  assumes "env_doc e" "web_wf w" "param_ok prm w" "auth_ty w = AUTH_ALLOW"
  shows "\<exists>rw. get_auth_ruuvi e prm check AUTH_ALLOW w = Some rw \<and> web_wf (snd rw) \<and> resp_ok (fst rw)
    \<and> w_live (snd rw) = w_live w \<and> g_auth_info (w_auth (snd rw)) = g_auth_info (w_auth w)
    \<and> resp_code (fst rw) \<in> {200, 401}"
proof -
  obtain ok sid where sid: "get_session_id_from_cookies (ap_header prm) = Some (ok, sid)"
    using session_id_read [OF assms(3)] by blast
  have h: "host_ok (ap_host prm)" "fits STA_IP_STRING_SIZE (ap_remote_ip prm)" "ruuvi_type (auth_ty w)"
    using assms(3,4) by (auto simp: param_ok_def ruuvi_type_def)
  note allow = resp_200_auth_allow_wf [OF assms(1) h(1) assms(2) h(3,2)]
  note ask = resp_401_auth_ruuvi_asks(1) [OF assms(2), of e "ap_host prm" AUTH_ALLOW]
    resp_401_auth_ruuvi_asks(2) [of e "ap_host prm" AUTH_ALLOW w]
  note pass = json_200_passes [OF assms(2), of e "ap_host prm" AUTH_ALLOW "ap_from_lan prm" True]
  note pass2 = get_auth_allow_passes [OF assms(2), of e "ap_host prm" "ap_from_lan prm"]
  show ?thesis
    using sid allow ask pass pass2
    by (cases check; cases ok; cases "find_authorized_session (get_ruuvi e w) sid (ap_remote_ip prm)")
      (auto simp: get_auth_ruuvi_def Let_def case_prod_beta asks_def passes_def same_grants_def)
qed

definition type_grants :: "env \<Rightarrow> auth_param \<Rightarrow> web \<Rightarrow> bool" where
  \<comment> \<open>what the configured authentication type asks for\<close>
  "type_grants e prm w =
     (case auth_type (ap_info prm) of
        AUTH_ALLOW \<Rightarrow> True
      | AUTH_BASIC \<Rightarrow> basic_grants (ap_header prm) (ap_info prm)
      | AUTH_DIGEST \<Rightarrow> digest_grants e prm w \<and> alloc_ok e (w_allocs w) \<and> alloc_ok e (w_allocs w + 1)
      | AUTH_RUUVI \<Rightarrow> ruuvi_grants e prm w
      | AUTH_DENY \<Rightarrow> False
      | AUTH_DEFAULT \<Rightarrow> ruuvi_grants e prm w
      | AUTH_BEARER \<Rightarrow> False)"

lemma auth_by_type_spec:
  assumes "env_doc e" "web_wf w" "param_ok prm w"
  shows "\<exists>rw. auth_by_type e prm True w = Some rw \<and>
    (if type_grants e prm w then passes e w rw else asks e w rw)"
proof -
  have ty: "auth_ty w = auth_type (ap_info prm)" and h: "host_ok (ap_host prm)"
    using assms(3) by (simp_all add: param_ok_def auth_ty_def)
  show ?thesis
  proof (cases "auth_type (ap_info prm)")
    case AUTH_BASIC
    with get_auth_basic_spec [OF assms(2) h, of e] show ?thesis by (simp add: auth_by_type_def type_grants_def)
  next
    case AUTH_DIGEST
    with get_auth_digest_spec [OF assms] ty show ?thesis by (simp add: auth_by_type_def type_grants_def)
  next
    case AUTH_DENY
    with resp_403_auth_deny_asks(1) [OF assms(2), of e "ap_host prm"] show ?thesis
      by (simp add: auth_by_type_def type_grants_def)
  next
    case AUTH_BEARER
    with asks_err [OF assms(2), of 500] show ?thesis by (simp add: auth_by_type_def type_grants_def)
  next
    case AUTH_ALLOW
    with get_auth_ruuvi_spec [OF assms, of AUTH_ALLOW True] ty show ?thesis
      by (simp add: auth_by_type_def type_grants_def ruuvi_type_def)
  next
    case AUTH_RUUVI
    with get_auth_ruuvi_spec [OF assms, of AUTH_RUUVI True] ty show ?thesis
      by (simp add: auth_by_type_def type_grants_def ruuvi_type_def)
  next
    case AUTH_DEFAULT
    with get_auth_ruuvi_spec [OF assms, of AUTH_DEFAULT True] ty show ?thesis
      by (simp add: auth_by_type_def type_grants_def ruuvi_type_def)
  qed
qed

definition granted :: "env \<Rightarrow> auth_param \<Rightarrow> web \<Rightarrow> bool" where
  \<comment> \<open>the access policy: the access point side is trusted, a bearer token decides alone when
      there is one, else the credentials of the configured type decide\<close>
  "granted e prm w \<longleftrightarrow>
     (if \<not> ap_from_lan prm then True
      else if bearer_used (ap_header prm) then bearer_grants (ap_header prm) (ap_check_rw prm) (ap_info prm)
      else type_grants e prm w)"

lemma auth_bearer_spec:
  "web_wf w \<Longrightarrow> passes e w (auth_bearer e prm True x w)" "web_wf w \<Longrightarrow> asks e w (auth_bearer e prm False x w)"
  using fill_auth_json_upd [of e "ap_host prm" AUTH_BEARER "ap_from_lan prm" None x w]
  by (auto simp: passes_def asks_def auth_bearer_def)

lemma check_auth_spec:
  assumes "env_doc e" "web_wf w" "param_ok prm w"
  shows "\<exists>r b w'. handle_req_check_auth e prm w = Some (r, b, w') \<and>
    (if granted e prm w then passes e w (r, w') else asks e w (r, w')) \<and>
    (b \<longleftrightarrow> ap_from_lan prm \<and> bearer_used (ap_header prm))"
proof -
  obtain rw where t: "auth_by_type e prm True w = Some rw"
    "if type_grants e prm w then passes e w rw else asks e w rw"
    using auth_by_type_spec [OF assms] by blast
  note a = get_auth_allow_passes [OF assms(2), of e "ap_host prm" False]
  note b = auth_bearer_spec [OF assms(2), of e prm]
  show ?thesis
    using t a b
    by (cases "ap_from_lan prm"; cases rw)
      (auto simp: handle_req_check_auth_def get_or_check_auth_def check_auth_bearer_spec granted_def
        Let_def case_prod_beta)
qed

lemma get_auth_wf:
  assumes "env_doc e" "web_wf w" "param_ok prm w"
  shows "\<exists>r w'. handle_req_get_auth e prm w = Some (r, w') \<and> web_wf w' \<and> resp_ok r
    \<and> w_live w' = w_live w \<and> g_auth_info (w_auth w') = g_auth_info (w_auth w)
    \<and> (auth_ty w \<noteq> AUTH_ALLOW \<longrightarrow> same_grants e w w')"
proof -
  have ty: "auth_ty w = auth_type (ap_info prm)" and h: "host_ok (ap_host prm)"
    using assms(3) by (simp_all add: param_ok_def auth_ty_def)
  have "\<exists>rw. auth_by_type e prm False w = Some rw \<and> web_wf (snd rw) \<and> resp_ok (fst rw)
    \<and> w_live (snd rw) = w_live w \<and> g_auth_info (w_auth (snd rw)) = g_auth_info (w_auth w)
    \<and> (auth_ty w \<noteq> AUTH_ALLOW \<longrightarrow> same_grants e w (snd rw))"
  proof (cases "auth_type (ap_info prm) = AUTH_ALLOW")
    case True
    with get_auth_ruuvi_allow [OF assms, of False] ty show ?thesis by (auto simp: auth_by_type_def)
  next
    case False
    have "\<exists>rw. auth_by_type e prm False w = Some rw \<and> (passes e w rw \<or> asks e w rw)"
    proof (cases "ruuvi_type (auth_ty w)")
      case True
      with False ty get_auth_ruuvi_spec [OF assms True, of "auth_type (ap_info prm)" False] show ?thesis
        by (auto simp: auth_by_type_def ruuvi_type_def split: if_splits)
    next
      case other: False
      obtain rw where "auth_by_type e prm True w = Some rw" "passes e w rw \<or> asks e w rw"
        using auth_by_type_spec [OF assms] by metis
      moreover have "auth_by_type e prm False w = auth_by_type e prm True w"
        using other ty by (cases "auth_type (ap_info prm)") (simp_all add: auth_by_type_def ruuvi_type_def)
      ultimately show ?thesis by auto
    qed
    then show ?thesis by (auto simp: passes_def asks_def same_grants_def)
  qed
  then obtain rw where rw: "auth_by_type e prm False w = Some rw" "web_wf (snd rw)" "resp_ok (fst rw)"
    "w_live (snd rw) = w_live w" "g_auth_info (w_auth (snd rw)) = g_auth_info (w_auth w)"
    "auth_ty w \<noteq> AUTH_ALLOW \<longrightarrow> same_grants e w (snd rw)" by blast
  have "passes e w (get_auth_allow e (ap_host prm) False w)" by (rule get_auth_allow_passes [OF assms(2)])
  with rw show ?thesis
    by (cases "ap_from_lan prm"; cases rw; cases "get_auth_allow e (ap_host prm) False w")
      (auto simp: handle_req_get_auth_def get_or_check_auth_def passes_def same_grants_def)
qed

section \<open>Properties\<close>

text \<open>
  C5: the check of the credentials lets a request through, with status 200, exactly when the
  access policy grants it; it always returns, it keeps the state well formed, and whatever
  its answer it grants and revokes nothing and keeps no memory.
\<close>

theorem check_auth_policy:
  assumes "env_doc e" "web_wf w" "param_ok prm w"
  shows "\<exists>r b w'. handle_req_check_auth e prm w = Some (r, b, w') \<and> (resp_code r = 200 \<longleftrightarrow> granted e prm w)
    \<and> web_wf w' \<and> same_grants e w w' \<and> resp_ok r"
proof -
  obtain r b w' where "handle_req_check_auth e prm w = Some (r, b, w')"
    "if granted e prm w then passes e w (r, w') else asks e w (r, w')"
    using check_auth_spec [OF assms] by blast
  then show ?thesis by (auto simp: passes_def asks_def split: if_splits)
qed

text \<open>
  A bearer token of a client on the LAN decides alone: with the read-only key a request
  that needs write access is refused with 401 whatever session or password comes with it.
\<close>

theorem read_only_key_refused:
  assumes "ap_from_lan prm" "ap_check_rw prm"
    and "header_value (ap_header prm) ''Authorization:'' = Some (''Bearer '' @ key)" "key \<noteq> auth_api_key_rw (ap_info prm)"
  shows "\<exists>r w'. handle_req_check_auth e prm w = Some (r, True, w') \<and> resp_code r = 401"
proof -
  have "bearer_used (ap_header prm)" "\<not> bearer_grants (ap_header prm) (ap_check_rw prm) (ap_info prm)"
    using assms(2-4) by (auto simp: bearer_used_def bearer_grants_def)
  with assms(1) show ?thesis
    by (auto simp: handle_req_check_auth_def get_or_check_auth_def check_auth_bearer_spec Let_def
        auth_bearer_def fill_auth_json_def)
qed

text \<open>
  GET of /auth always answers, keeps the state well formed and, unless the type is the
  one that admits everybody, grants no session.
\<close>

theorem get_auth_safe:
  assumes "env_doc e" "web_wf w" "param_ok prm w"
  shows "\<exists>r w'. handle_req_get_auth e prm w = Some (r, w') \<and> web_wf w' \<and> resp_ok r
    \<and> w_live w' = w_live w \<and> g_auth_info (w_auth w') = g_auth_info (w_auth w)
    \<and> (auth_ty w \<noteq> AUTH_ALLOW \<longrightarrow> same_grants e w w')"
  by (rule get_auth_wf [OF assms])

section \<open>Witnesses\<close>

definition bearer_header :: cstr where
  "bearer_header = ''Authorization: Bearer ro'' @ [CR, LF]"

definition prm0 :: auth_param where
  "prm0 = \<lparr>ap_from_lan = True, ap_check_rw = True, ap_header = bearer_header, ap_remote_ip = ''10.10.0.2'',
     ap_info = g_auth_info auth_state_init, ap_host = host0\<rparr>"

lemma param_ok_prm0: "param_ok prm0 web0"
proof -
  have "nul_free bearer_header" "length bearer_header < 2 ^ 31"
    by (simp_all add: bearer_header_def)
  then show ?thesis
    by (simp add: param_ok_def prm0_def concrete_ok web0_def)
qed

lemma check_auth_policy_witness:
  "\<exists>r b w'. handle_req_check_auth env0 prm0 web0 = Some (r, b, w') \<and> (resp_code r = 200 \<longleftrightarrow> granted env0 prm0 web0)
    \<and> web_wf w' \<and> same_grants env0 web0 w' \<and> resp_ok r"
  by (rule check_auth_policy [OF env_doc_env0 concrete_ok(2) param_ok_prm0])

lemma read_only_key_refused_witness:
  "\<exists>r w'. handle_req_check_auth env0 prm0 web0 = Some (r, True, w') \<and> resp_code r = 401"
proof (rule read_only_key_refused)
  show "ap_from_lan prm0" "ap_check_rw prm0" by (simp_all add: prm0_def)
  show "header_value (ap_header prm0) ''Authorization:'' = Some (''Bearer '' @ ''ro'')" by code_simp
  show "''ro'' \<noteq> auth_api_key_rw (ap_info prm0)" by (simp add: prm0_def auth_state_init_def)
qed

lemma get_auth_safe_witness:
  "\<exists>r w'. handle_req_get_auth env0 prm0 web0 = Some (r, w') \<and> web_wf w' \<and> resp_ok r
    \<and> w_live w' = w_live web0 \<and> g_auth_info (w_auth w') = g_auth_info (w_auth web0)
    \<and> (auth_ty web0 \<noteq> AUTH_ALLOW \<longrightarrow> same_grants env0 web0 w')"
  by (rule get_auth_safe [OF env_doc_env0 concrete_ok(2) param_ok_prm0])

end
