(* ===== verification/PostAuth.thy ===== *)
theory PostAuth
  imports GetAuth
begin

text \<open>
  \<^verbatim>\<open>src/http_server_handle_req_post_auth.c\<close> and \<^verbatim>\<open>src/http_server_handle_req_delete_auth.c\<close>:
  login and logout.

  The parsed JSON body is the lookup function of \<open>cjson_parse\<close>. Heap blocks are counted in
  \<open>w_live\<close>, so that a path that forgets one shows; the tree of a JSON text counts as one block.
\<close>

section \<open>Model\<close>

type_synonym cjson = "cstr \<Rightarrow> cstr option option"

definition json_parse :: "env \<Rightarrow> cstr \<Rightarrow> web \<Rightarrow> cjson option \<times> web" where
  \<comment> \<open>\<open>cJSON_Parse\<close>: the tree, if there is one, is on the heap\<close>
  "json_parse e s w =
     (case cjson_parse e s of
        None \<Rightarrow> (None, w)
      | Some root \<Rightarrow> (Some root, w\<lparr>w_live := w_live w + 1\<rparr>))"

definition json_delete :: "web \<Rightarrow> web" where
  \<comment> \<open>\<open>cJSON_Delete\<close>\<close>
  "json_delete w = heap_free w"

definition json_get_string_val :: "cjson \<Rightarrow> cstr \<Rightarrow> nat \<Rightarrow> bool \<times> cstr" where
  \<comment> \<open>the result and the content of the buffer, which is not empty in size\<close>
  "json_get_string_val root name buf_len =
     (case root name of
        None \<Rightarrow> (False, [])
      | Some None \<Rightarrow> (False, [])
      | Some (Some s) \<Rightarrow> (True, snprintf_s buf_len s))"

record auth_req =
  rq_username :: cstr
  rq_password :: cstr

definition json_ruuvi_auth_parse :: "cjson \<Rightarrow> auth_req \<Rightarrow> bool \<times> auth_req" where
  "json_ruuvi_auth_parse root rq =
     (let (ok1, u) = json_get_string_val root ''login'' AUTH_USER_SIZE;
          rq1 = rq\<lparr>rq_username := u\<rparr>
      in if \<not> ok1 then (False, rq1)
         else
           let (ok2, p) = json_get_string_val root ''password'' AUTH_PASS_SIZE;
               rq2 = rq1\<lparr>rq_password := p\<rparr>
           in (ok2, rq2))"

definition json_ruuvi_auth_parse_http_body :: "env \<Rightarrow> cstr \<Rightarrow> auth_req \<Rightarrow> web \<Rightarrow> (bool \<times> auth_req) \<times> web" where
  "json_ruuvi_auth_parse_http_body e body rq w =
     (case json_parse e body w of
        (None, w) \<Rightarrow> ((False, rq), w)
      | (Some root, w) \<Rightarrow> let ret = json_ruuvi_auth_parse root rq in (ret, json_delete w))"

definition gen_hashed_password :: "env \<Rightarrow> cstr \<Rightarrow> cstr \<Rightarrow> cstr option" where
  \<comment> \<open>a digest in three updates; \<open>Digests\<close> has its calls into mbedtls one by one\<close>
  "gen_hashed_password e challenge password =
     map_option (wifiman_sha256_hex_str e) (sha256 e [challenge, '':'', password])"

definition check_login_session ::
  "env \<Rightarrow> login_session \<Rightarrow> cstr \<Rightarrow> cstr \<Rightarrow> hostinfo \<Rightarrow> auth_type \<Rightarrow> web \<Rightarrow> (http_resp \<times> web) option" where
  \<comment> \<open>\<open>Some\<close>: the answer of a request that does not belong to the pending login\<close>
  "check_login_session e l sid ip h ty w =
     (let refuse = resp_401_auth_ruuvi_with_new_session_id e ip h ty None w
      in if ls_session_id l = [] then Some refuse
         else if ls_session_id l \<noteq> sid then Some refuse
         else if ls_remote_ip l \<noteq> ip then Some refuse
         else None)"

definition post_auth_check_auth ::
  "env \<Rightarrow> auth_type \<Rightarrow> cstr \<Rightarrow> cstr \<Rightarrow> auth_info \<Rightarrow> hostinfo \<Rightarrow> web \<Rightarrow> http_resp \<times> web" where
  "post_auth_check_auth e ty ip body info h w =
     (let refuse = (\<lambda>msg w. resp_401_auth_ruuvi_with_new_session_id e ip h ty msg w);
          ((ok, rq), w) = json_ruuvi_auth_parse_http_body e body \<lparr>rq_username = [], rq_password = []\<rparr> w
      in if \<not> ok then refuse None w
         else if rq_username rq = [] then refuse (Some ''The username is empty'') w
         else if auth_user info \<noteq> rq_username rq then refuse (Some ''Incorrect username'') w
         else
           let (ok1, w1) = heap_alloc e w
           in if \<not> ok1 then (resp_err 500, w1)
              else
                case gen_hashed_password e (ls_challenge (login_session (get_ruuvi e w1))) (auth_pass info) of
                  None \<Rightarrow> refuse None (heap_free w1)
                | Some hash \<Rightarrow>
                    if hash \<noteq> rq_password rq then refuse (Some ''Incorrect password'') (heap_free w1)
                    else (resp_200_json ''{}'', heap_free w1))"

definition prev_url_text :: "cstr \<Rightarrow> cstr" where
  "prev_url_text url = ''Ruuvi-prev-url: '' @ url @ crlf
     @ ''Set-Cookie: RUUVI_PREV_URL=; Max-Age=-1; Expires=Thu, 01 Jan 1970 00:00:00 GMT'' @ crlf"

definition handle_req_post_auth ::
  "env \<Rightarrow> bool \<Rightarrow> cstr \<Rightarrow> cstr \<Rightarrow> cstr \<Rightarrow> auth_info \<Rightarrow> hostinfo \<Rightarrow> web \<Rightarrow> (http_resp \<times> web) faulting" where
  "handle_req_post_auth e lan header ip body info h w =
     (if \<not> lan then
        (let (json, w1) = fill_auth_json e h (auth_type info) lan None True w in Some (resp_200_json json, w1))
      else if auth_type info \<noteq> AUTH_RUUVI \<and> auth_type info \<noteq> AUTH_DEFAULT then Some (resp_err 503, w)
      else do {
        (found, sid) \<leftarrow> get_session_id_from_cookies header;
        if \<not> found then Some (resp_401_auth_ruuvi_with_new_session_id e ip h (auth_type info) None w)
        else do {
          prev_url \<leftarrow> get_prev_url_from_cookies header;
          case check_login_session e (login_session (get_ruuvi e w)) sid ip h (auth_type info) w of
            Some refused \<Rightarrow> Some refused
          | None \<Rightarrow>
              let (ok, w1) = heap_alloc e w
              in if \<not> ok then Some (resp_err 500, w1)
                 else
                   let (resp, w2) = post_auth_check_auth e (auth_type info) ip body info h w1
                   in if resp_code resp \<noteq> 200 then Some (resp, w2)
                      else
                        let w3 = heap_free w2;
                            r1 = add_authorized_session sid ip (get_ruuvi e w3);
                            r2 = r1\<lparr>login_session := login_session_clear (login_session r1)\<rparr>;
                            w4 = put_ruuvi r2 w3;
                            w5 = (if prev_url \<noteq> [] then set_extra (prev_url_text prev_url) w4 else w4);
                            (json, w6) = fill_auth_json e h (auth_type info) lan None True w5
                        in Some (resp_200_json json, w6) } })"

definition handle_req_delete_auth ::
  "env \<Rightarrow> cstr \<Rightarrow> cstr \<Rightarrow> auth_info \<Rightarrow> hostinfo \<Rightarrow> web \<Rightarrow> (http_resp \<times> web) faulting" where
  "handle_req_delete_auth e header ip info h w =
     (let refuse = resp_401_auth_ruuvi e h (if auth_type info = AUTH_DEFAULT then AUTH_DEFAULT else AUTH_RUUVI) w
      in if auth_type info \<noteq> AUTH_RUUVI \<and> auth_type info \<noteq> AUTH_DEFAULT then Some (resp_err 503, w)
         else do {
           (found, sid) \<leftarrow> get_session_id_from_cookies header;
           if \<not> found then Some refuse
           else
             let r = get_ruuvi e w
             in case find_authorized_session r sid ip of
                  None \<Rightarrow> Some refuse
                | Some i \<Rightarrow>
                    Some (resp_200_json ''{}'',
                      put_ruuvi (r\<lparr>authorized_sessions := (authorized_sessions r)
                        [i := (authorized_sessions r ! i)\<lparr>as_session_id := []\<rparr>]\<rparr>) w) })"

section \<open>The login policy\<close>

definition login_session_grants :: "login_session \<Rightarrow> cstr \<Rightarrow> cstr \<Rightarrow> bool" where
  "login_session_grants l sid ip \<longleftrightarrow> ls_session_id l \<noteq> [] \<and> ls_session_id l = sid \<and> ls_remote_ip l = ip"

definition login_body_grants :: "env \<Rightarrow> cstr \<Rightarrow> auth_info \<Rightarrow> login_session \<Rightarrow> bool" where
  \<comment> \<open>the body names the user and carries the digest of the pending challenge and the password\<close>
  "login_body_grants e body info l \<longleftrightarrow>
     (\<exists>root user pass. cjson_parse e body = Some root \<and> root ''login'' = Some (Some user)
        \<and> root ''password'' = Some (Some pass)
        \<and> snprintf_s AUTH_USER_SIZE user \<noteq> [] \<and> auth_user info = snprintf_s AUTH_USER_SIZE user
        \<and> gen_hashed_password e (ls_challenge l) (auth_pass info) = Some (snprintf_s AUTH_PASS_SIZE pass))"

definition login_grants :: "env \<Rightarrow> cstr \<Rightarrow> cstr \<Rightarrow> cstr \<Rightarrow> auth_info \<Rightarrow> web \<Rightarrow> bool" where
  "login_grants e header ip body info w \<longleftrightarrow>
     (\<exists>sid. get_session_id_from_cookies header = Some (True, sid)
        \<and> login_session_grants (login_session (get_ruuvi e w)) sid ip
        \<and> login_body_grants e body info (login_session (get_ruuvi e w)))"

lemma json_parse_freed: "json_parse e s w = (Some root, w') \<Longrightarrow> json_delete w' = w"
  by (auto simp: json_parse_def json_delete_def heap_free_def split: option.splits)

lemma parse_body_web: "snd (json_ruuvi_auth_parse_http_body e body rq w) = w"
  using json_parse_freed [of e body w]
  by (auto simp: json_ruuvi_auth_parse_http_body_def json_parse_def split: option.splits)

lemma parse_body_spec:
  "fst (json_ruuvi_auth_parse_http_body e body rq w) = (True, rq') \<longleftrightarrow>
    (\<exists>root user pass. cjson_parse e body = Some root \<and> root ''login'' = Some (Some user)
        \<and> root ''password'' = Some (Some pass)
        \<and> rq' = rq\<lparr>rq_username := snprintf_s AUTH_USER_SIZE user, rq_password := snprintf_s AUTH_PASS_SIZE pass\<rparr>)"
  by (auto simp: json_ruuvi_auth_parse_http_body_def json_parse_def json_ruuvi_auth_parse_def json_get_string_val_def
      Let_def split: option.splits if_splits)

lemma check_login_session_spec:
  "check_login_session e l sid ip h ty w =
    (if login_session_grants l sid ip then None
     else Some (resp_401_auth_ruuvi_with_new_session_id e ip h ty None w))"
  by (simp add: check_login_session_def login_session_grants_def Let_def)

lemma get_ruuvi_heap [simp]: "get_ruuvi e (snd (heap_alloc e' w)) = get_ruuvi e w"
  "get_ruuvi e (heap_free w) = get_ruuvi e w" "auth_ty (snd (heap_alloc e' w)) = auth_ty w"
  "auth_ty (heap_free w) = auth_ty w"
  by (simp_all add: get_ruuvi_def auth_ty_def)

lemma heap_cycle_same: "alloc_ok e (w_allocs w) \<Longrightarrow> same_grants e w (heap_free (snd (heap_alloc e w)))"
  by (simp add: same_grants_def)

lemma heap_failed_same: "\<not> alloc_ok e (w_allocs w) \<Longrightarrow> same_grants e w (snd (heap_alloc e w))"
  by (simp add: same_grants_def)

lemma post_check_spec:
  assumes "env_doc e" "host_ok h" "web_wf w" "ruuvi_type (auth_ty w)" "fits STA_IP_STRING_SIZE ip"
  shows "if login_body_grants e body info (login_session (get_ruuvi e w)) \<and> alloc_ok e (w_allocs w)
    then post_auth_check_auth e ty ip body info h w = (resp_200_json ''{}'', heap_free (snd (heap_alloc e w)))
    else asks e w (post_auth_check_auth e ty ip body info h w)"
proof -
  let ?rq0 = "\<lparr>rq_username = [], rq_password = []\<rparr>"
  let ?refuse = "\<lambda>msg w. resp_401_auth_ruuvi_with_new_session_id e ip h ty msg w"
  let ?w1 = "snd (heap_alloc e w)"
  have ask: "asks e w (?refuse msg w)" for msg
    by (rule resp_401_new_session(1) [OF assms])
  have ask2: "asks e w (?refuse msg (heap_free ?w1))" if "alloc_ok e (w_allocs w)" for msg
    using resp_401_new_session(1) [OF assms(1,2), of "heap_free ?w1" ip ty msg] assms(3-5)
      heap_cycle_same [of e w] that by (auto intro: asks_mono)
  have ask3: "asks e w (resp_err 500, ?w1)" if "\<not> alloc_ok e (w_allocs w)"
    using asks_mono [OF asks_err [of ?w1 500 e]] heap_failed_same [OF that] assms(3) by simp
  obtain ok rq where p1: "fst (json_ruuvi_auth_parse_http_body e body ?rq0 w) = (ok, rq)" by (metis prod.exhaust)
  then have p: "json_ruuvi_auth_parse_http_body e body ?rq0 w = ((ok, rq), w)"
    using parse_body_web [of e body ?rq0 w] by (metis prod.collapse)
  have g: "login_body_grants e body info (login_session (get_ruuvi e w)) \<longleftrightarrow> ok \<and> rq_username rq \<noteq> []
      \<and> auth_user info = rq_username rq
      \<and> gen_hashed_password e (ls_challenge (login_session (get_ruuvi e w))) (auth_pass info) = Some (rq_password rq)"
  proof (cases ok)
    case True
    with p1 parse_body_spec [of e body ?rq0 w rq] obtain root user pass where
      "cjson_parse e body = Some root" "root ''login'' = Some (Some user)" "root ''password'' = Some (Some pass)"
      "rq = \<lparr>rq_username = snprintf_s AUTH_USER_SIZE user, rq_password = snprintf_s AUTH_PASS_SIZE pass\<rparr>" by auto
    with True show ?thesis by (simp add: login_body_grants_def)
  next
    case False
    with p1 parse_body_spec [of e body ?rq0 w] show ?thesis by (auto simp: login_body_grants_def)
  qed
  show ?thesis
    using p g ask ask2 ask3
    by (cases "ok \<and> rq_username rq \<noteq> [] \<and> auth_user info = rq_username rq"; cases "alloc_ok e (w_allocs w)")
      (auto simp: post_auth_check_auth_def Let_def case_prod_beta split: option.splits)
qed

lemma prev_url_text_ok: "fits PREV_URL_SIZE url \<Longrightarrow>
    nul_free (prev_url_text url) \<and> length (prev_url_text url) < EXTRA_HEADER_FIELDS_SIZE"
  by (simp add: prev_url_text_def fits_def PREV_URL_SIZE_def EXTRA_HEADER_FIELDS_SIZE_def)

lemma post_auth_lan_granted:
  assumes "env_doc e" "web_wf w" "host_ok h" "nul_free header" "length header < 2 ^ 31"
    and "fits STA_IP_STRING_SIZE ip" "info = g_auth_info (w_auth w)" "auth_ty w \<in> {AUTH_RUUVI, AUTH_DEFAULT}"
    and ok: "alloc_ok e (w_allocs w)" "alloc_ok e (w_allocs w + 1)"
    and "login_grants e header ip body info w"
  shows "\<exists>r w' sid. handle_req_post_auth e True header ip body info h w = Some (r, w') \<and> web_wf w' \<and> resp_ok r
    \<and> g_auth_info (w_auth w') = g_auth_info (w_auth w) \<and> resp_code r = 200 \<and> w_live w' = w_live w
    \<and> get_session_id_from_cookies header = Some (True, sid)
    \<and> authorized_sessions (get_ruuvi e w') = take MAX_NUM_SESSIONS
        (\<lparr>as_session_id = sid, as_remote_ip = ip\<rparr> # authorized_sessions (get_ruuvi e w))
    \<and> ls_session_id (login_session (get_ruuvi e w')) = []"
proof -
  have rt: "ruuvi_type (auth_ty w)" using assms(8) by (auto simp: ruuvi_type_def)
  have ty: "\<not> (auth_type info \<noteq> AUTH_RUUVI \<and> auth_type info \<noteq> AUTH_DEFAULT)"
    using assms(7,8) by (auto simp: auth_ty_def)
  obtain found sid where sid: "get_session_id_from_cookies header = Some (found, sid)" "fits SESSION_ID_SIZE sid"
    using get_session_id_ok [OF assms(4,5)] by blast
  obtain url where url: "get_prev_url_from_cookies header = Some url" "fits PREV_URL_SIZE url"
    using get_prev_url_ok [OF assms(4,5)] by blast
  let ?l = "login_session (get_ruuvi e w)"
  have True: "found" "login_session_grants ?l sid ip" and grants: "login_body_grants e body info ?l"
    using assms(11) sid by (auto simp: login_grants_def)
  let ?w1 = "snd (heap_alloc e w)"
  let ?chk = "post_auth_check_auth e (auth_type info) ip body info h ?w1"
  have w1: "web_wf ?w1" "ruuvi_type (auth_ty ?w1)" using assms(2) rt by simp_all
  note chk = post_check_spec [OF assms(1,3) w1 assms(6), of body info "auth_type info"]
  let ?w3 = "heap_free (heap_free (snd (heap_alloc e ?w1)))"
  have c: "?chk = (resp_200_json ''{}'', heap_free (snd (heap_alloc e ?w1)))"
    using chk grants ok by simp
  define r2 where "r2 = (add_authorized_session sid ip (get_ruuvi e w))
    \<lparr>login_session := login_session_clear (login_session (add_authorized_session sid ip (get_ruuvi e w)))\<rparr>"
  have r: "ruuvi_ok (get_ruuvi e w)" by (rule web_wf_ruuvi [OF assms(2) rt])
  then have r2: "ruuvi_ok r2"
    unfolding r2_def by (intro ruuvi_ok_login_clear ruuvi_ok_add sid(2) assms(6))
  define w5 where "w5 = (if url \<noteq> [] then set_extra (prev_url_text url) (put_ruuvi r2 ?w3) else put_ruuvi r2 ?w3)"
  have w4: "web_wf (put_ruuvi r2 ?w3)"
    by (rule web_wf_put_ruuvi) (use assms(2) rt r2 in simp_all)
  then have w5: "web_wf w5"
    using prev_url_text_ok [OF url(2)] by (simp add: w5_def web_wf_set_extra)
  obtain j where j: "fill_auth_json e h (auth_type info) True None True w5 = (j, w5\<lparr>w_auth_json := j\<rparr>)"
    using fill_auth_json_upd by blast
  have run: "handle_req_post_auth e True header ip body info h w = Some (resp_200_json j, w5\<lparr>w_auth_json := j\<rparr>)"
    using True sid url ty ok c j
    by (cases "url = []")
      (auto simp: handle_req_post_auth_def check_login_session_spec Let_def case_prod_beta w5_def r2_def)
  have "get_ruuvi e w5 = r2" "w_live w5 = w_live w" "g_auth_info (w_auth w5) = g_auth_info (w_auth w)" using ok by (simp_all add: w5_def)
  moreover have "authorized_sessions r2 = take MAX_NUM_SESSIONS
      (\<lparr>as_session_id = sid, as_remote_ip = ip\<rparr> # authorized_sessions (get_ruuvi e w))"
    using r by (simp add: r2_def add_authorized_session_eq ruuvi_ok_def)
  moreover have "ls_session_id (login_session r2) = []"
    by (simp add: r2_def login_session_clear_def)
  ultimately show ?thesis using run w5 sid True by simp
qed

lemma post_auth_lan:
  assumes "env_doc e" "web_wf w" "host_ok h" "nul_free header" "length header < 2 ^ 31"
    and "fits STA_IP_STRING_SIZE ip" "info = g_auth_info (w_auth w)" "auth_ty w \<in> {AUTH_RUUVI, AUTH_DEFAULT}"
    and ok: "alloc_ok e (w_allocs w)" "alloc_ok e (w_allocs w + 1)"
  shows "\<exists>r w'. handle_req_post_auth e True header ip body info h w = Some (r, w') \<and> web_wf w' \<and> resp_ok r
    \<and> g_auth_info (w_auth w') = g_auth_info (w_auth w)
    \<and> (if login_grants e header ip body info w
       then resp_code r = 200 \<and> w_live w' = w_live w
          \<and> (\<exists>sid. get_session_id_from_cookies header = Some (True, sid)
               \<and> authorized_sessions (get_ruuvi e w') = take MAX_NUM_SESSIONS
                   (\<lparr>as_session_id = sid, as_remote_ip = ip\<rparr> # authorized_sessions (get_ruuvi e w)))
          \<and> ls_session_id (login_session (get_ruuvi e w')) = []
       else resp_code r \<noteq> 200
          \<and> authorized_sessions (get_ruuvi e w') = authorized_sessions (get_ruuvi e w)
          \<and> w_live w' = w_live w + (if \<exists>sid. get_session_id_from_cookies header = Some (True, sid)
                \<and> login_session_grants (login_session (get_ruuvi e w)) sid ip then 1 else 0))"
proof -
  have rt: "ruuvi_type (auth_ty w)" using assms(8) by (auto simp: ruuvi_type_def)
  have ty: "\<not> (auth_type info \<noteq> AUTH_RUUVI \<and> auth_type info \<noteq> AUTH_DEFAULT)"
    using assms(7,8) by (auto simp: auth_ty_def)
  obtain found sid where sid: "get_session_id_from_cookies header = Some (found, sid)" "fits SESSION_ID_SIZE sid"
    using get_session_id_ok [OF assms(4,5)] by blast
  obtain url where url: "get_prev_url_from_cookies header = Some url" "fits PREV_URL_SIZE url"
    using get_prev_url_ok [OF assms(4,5)] by blast
  let ?ask = "resp_401_auth_ruuvi_with_new_session_id e ip h (auth_type info) None w"
  have ask: "asks e w ?ask" by (rule resp_401_new_session(1) [OF assms(1,3,2) rt assms(6)])
  let ?l = "login_session (get_ruuvi e w)"
  show ?thesis
  proof (cases "found \<and> login_session_grants ?l sid ip")
    case False
    then have "\<not> login_grants e header ip body info w" using sid by (auto simp: login_grants_def)
    with False sid url ty ask rt show ?thesis
      by (cases ?ask) (auto simp: handle_req_post_auth_def check_login_session_spec asks_def same_grants_def)
  next
    case True
    let ?w1 = "snd (heap_alloc e w)"
    let ?chk = "post_auth_check_auth e (auth_type info) ip body info h ?w1"
    have w1: "web_wf ?w1" "ruuvi_type (auth_ty ?w1)" using assms(2) rt by simp_all
    note chk = post_check_spec [OF assms(1,3) w1 assms(6), of body info "auth_type info"]
    have g: "login_grants e header ip body info w \<longleftrightarrow> login_body_grants e body info ?l"
      using True sid by (auto simp: login_grants_def)
    show ?thesis
    proof (cases "login_body_grants e body info ?l")
      case False
      with chk ok have ask1: "asks e ?w1 ?chk" by simp
      then have "resp_code (fst ?chk) \<noteq> 200" by (auto simp: asks_def)
      then have "handle_req_post_auth e True header ip body info h w = Some ?chk"
        using True sid url ty ok by (auto simp: handle_req_post_auth_def check_login_session_spec Let_def case_prod_beta)
      with ask1 g False True sid ok rt show ?thesis
        by (cases ?chk) (auto simp: asks_def same_grants_def)
    next
      case grants: True
      from post_auth_lan_granted [OF assms, of body] g grants show ?thesis by fastforce
    qed
  qed
qed

section \<open>Logout\<close>

lemma find_idx_update_other:
  assumes "\<not> P (xs ! i)" "\<not> P y" "i < length xs"
  shows "find_idx P (xs[i := y]) = find_idx P xs"
  using assms
proof (induction xs arbitrary: i)
  case Nil
  then show ?case by simp
next
  case (Cons x xs)
  then show ?case by (cases i) auto
qed

lemma delete_auth_run:
  assumes "web_wf w" "nul_free header" "length header < 2 ^ 31" "ruuvi_type (auth_ty w)"
    and "info = g_auth_info (w_auth w)"
  obtains (refused) r w' where "handle_req_delete_auth e header ip info h w = Some (r, w')"
      "resp_code r \<in> {401, 503}" "same_grants e w w'" "web_wf w'" "resp_ok r"
  | (deleted) sid i where "get_session_id_from_cookies header = Some (True, sid)"
      "find_authorized_session (get_ruuvi e w) sid ip = Some i"
      "handle_req_delete_auth e header ip info h w = Some (resp_200_json ''{}'',
         put_ruuvi ((get_ruuvi e w)\<lparr>authorized_sessions := (authorized_sessions (get_ruuvi e w))
           [i := (authorized_sessions (get_ruuvi e w) ! i)\<lparr>as_session_id := []\<rparr>]\<rparr>) w)"
      "i < length (authorized_sessions (get_ruuvi e w))"
      "session_matches sid ip (authorized_sessions (get_ruuvi e w) ! i)"
proof -
  obtain found sid where sid: "get_session_id_from_cookies header = Some (found, sid)"
    using get_session_id_ok [OF assms(2,3)] by blast
  have ask: "asks e w (resp_401_auth_ruuvi e h ty w)" for ty
    by (rule resp_401_auth_ruuvi_asks(1) [OF assms(1)])
  consider "auth_type info \<noteq> AUTH_RUUVI \<and> auth_type info \<noteq> AUTH_DEFAULT"
    | "auth_type info = AUTH_RUUVI \<or> auth_type info = AUTH_DEFAULT"
      "\<not> (found \<and> find_authorized_session (get_ruuvi e w) sid ip \<noteq> None)"
    | i where "auth_type info = AUTH_RUUVI \<or> auth_type info = AUTH_DEFAULT" "found"
      "find_authorized_session (get_ruuvi e w) sid ip = Some i" by blast
  then show ?thesis
  proof cases
    case 1
    with assms(1) show ?thesis
      by (intro refused [of "resp_err 503" w]) (simp_all add: handle_req_delete_auth_def)
  next
    case 2
    define ty where "ty = (if auth_type info = AUTH_DEFAULT then AUTH_DEFAULT else AUTH_RUUVI)"
    obtain r w' where rw: "resp_401_auth_ruuvi e h ty w = (r, w')" by (metis prod.exhaust)
    have "handle_req_delete_auth e header ip info h w = Some (r, w')"
      using 2 sid rw by (auto simp: handle_req_delete_auth_def ty_def Let_def split: option.splits if_splits)
    moreover have "resp_code r = 401" using resp_401_auth_ruuvi_asks(2) [of e h ty w] rw by simp
    moreover have "asks e w (r, w')" using ask [of ty] rw by simp
    ultimately show ?thesis by (intro refused [of r w']) (simp_all add: asks_def)
  next
    case 3
    from find_idx_Some [of "session_matches sid ip" "authorized_sessions (get_ruuvi e w)" i] 3(3)
    have i: "i < length (authorized_sessions (get_ruuvi e w))"
      "session_matches sid ip (authorized_sessions (get_ruuvi e w) ! i)"
      by (simp_all add: find_authorized_session_def)
    have "handle_req_delete_auth e header ip info h w = Some (resp_200_json ''{}'',
         put_ruuvi ((get_ruuvi e w)\<lparr>authorized_sessions := (authorized_sessions (get_ruuvi e w))
           [i := (authorized_sessions (get_ruuvi e w) ! i)\<lparr>as_session_id := []\<rparr>]\<rparr>) w)"
      using 3 sid by (auto simp: handle_req_delete_auth_def Let_def)
    with 3 sid i show ?thesis by (intro deleted [of sid i]) auto
  qed
qed

lemma session_gone:
  assumes "i < length a" "session_matches sid ip (a ! i)"
    and "\<forall>j<length a. j \<noteq> i \<longrightarrow> \<not> session_matches sid ip (a ! j)"
  shows "find_idx (session_matches sid ip) (a[i := (a ! i)\<lparr>as_session_id := []\<rparr>]) = None"
  unfolding find_idx_None
proof
  fix s assume "s \<in> set (a[i := (a ! i)\<lparr>as_session_id := []\<rparr>])"
  then obtain j where j: "j < length a" "s = a[i := (a ! i)\<lparr>as_session_id := []\<rparr>] ! j"
    by (auto simp: in_set_conv_nth)
  with assms show "\<not> session_matches sid ip s"
    by (cases "j = i") (auto simp: session_matches_def)
qed

section \<open>Properties\<close>

text \<open>
  C6: a login from the LAN succeeds exactly when the request carries the session id of the
  pending login from the address it was given to, and a body with the user name and the
  digest of the pending challenge and the password. It then grants that session to that
  address and forgets the pending login; otherwise nothing is granted.
\<close>

theorem login_policy:
  assumes "env_doc e" "web_wf w" "host_ok h" "nul_free header" "length header < 2 ^ 31"
    and "fits STA_IP_STRING_SIZE ip" "info = g_auth_info (w_auth w)" "auth_ty w \<in> {AUTH_RUUVI, AUTH_DEFAULT}"
    and "alloc_ok e (w_allocs w)" "alloc_ok e (w_allocs w + 1)"
  shows "\<exists>r w'. handle_req_post_auth e True header ip body info h w = Some (r, w') \<and> web_wf w'
    \<and> (resp_code r = 200 \<longleftrightarrow> login_grants e header ip body info w)
    \<and> (if login_grants e header ip body info w
       then \<exists>sid. get_session_id_from_cookies header = Some (True, sid)
            \<and> authorized_sessions (get_ruuvi e w') = take MAX_NUM_SESSIONS
                (\<lparr>as_session_id = sid, as_remote_ip = ip\<rparr> # authorized_sessions (get_ruuvi e w))
            \<and> ls_session_id (login_session (get_ruuvi e w')) = []
       else authorized_sessions (get_ruuvi e w') = authorized_sessions (get_ruuvi e w))"
  using post_auth_lan [OF assms, of body] by (auto split: if_splits)

text \<open>
  A login that reaches the check of its body and fails there loses a heap block: the
  block for the credentials is allocated and never released on that path.
\<close>

theorem refused_login_leaks:
  assumes "env_doc e" "web_wf w" "host_ok h" "nul_free header" "length header < 2 ^ 31"
    and "fits STA_IP_STRING_SIZE ip" "info = g_auth_info (w_auth w)" "auth_ty w \<in> {AUTH_RUUVI, AUTH_DEFAULT}"
    and "alloc_ok e (w_allocs w)" "alloc_ok e (w_allocs w + 1)"
    and "get_session_id_from_cookies header = Some (True, sid)"
    and "login_session_grants (login_session (get_ruuvi e w)) sid ip"
    and "\<not> login_body_grants e body info (login_session (get_ruuvi e w))"
  shows "\<exists>r w'. handle_req_post_auth e True header ip body info h w = Some (r, w') \<and> w_live w' = w_live w + 1"
proof -
  have "\<not> login_grants e header ip body info w" using assms(13) by (auto simp: login_grants_def)
  with post_auth_lan [OF assms(1-10), of body] assms(11,12) show ?thesis by auto
qed

text \<open>
  A logout answers in every case; when the request carries a session that was granted to
  its address, and only once, that session is not recognised any more, and every other
  session is recognised exactly as before.
\<close>

theorem logout_revokes:
  assumes "web_wf w" "nul_free header" "length header < 2 ^ 31" "auth_ty w \<in> {AUTH_RUUVI, AUTH_DEFAULT}"
    and "info = g_auth_info (w_auth w)" "get_session_id_from_cookies header = Some (True, sid)"
    and "length (filter (session_matches sid ip) (authorized_sessions (get_ruuvi e w))) = 1"
  shows "\<exists>r w'. handle_req_delete_auth e header ip info h w = Some (r, w') \<and> resp_code r = 200 \<and> web_wf w'
    \<and> find_authorized_session (get_ruuvi e w') sid ip = None
    \<and> (\<forall>sid' ip'. (sid', ip') \<noteq> (sid, ip) \<longrightarrow>
         find_authorized_session (get_ruuvi e w') sid' ip' = find_authorized_session (get_ruuvi e w) sid' ip')"
proof -
  let ?a = "authorized_sessions (get_ruuvi e w)"
  have rt: "ruuvi_type (auth_ty w)" using assms(4) by (auto simp: ruuvi_type_def)
  have "filter (session_matches sid ip) ?a \<noteq> []" using assms(7) by auto
  then have "\<exists>s\<in>set ?a. session_matches sid ip s" by (simp add: filter_empty_conv)
  then obtain i0 where i0: "find_authorized_session (get_ruuvi e w) sid ip = Some i0"
    unfolding find_authorized_session_def using find_idx_None by fastforce
  show ?thesis
  proof (cases rule: delete_auth_run [OF assms(1-3) rt assms(5), where e = e and ip = ip and h = h, case_names refused deleted])
    case (refused r w')
    with assms(4-6) i0 show ?thesis by (auto simp: handle_req_delete_auth_def auth_ty_def Let_def)
  next
    case (deleted sid' i)
    then have sid': "sid' = sid" using assms(6) by simp
    let ?a' = "?a[i := (?a ! i)\<lparr>as_session_id := []\<rparr>]"
    let ?w' = "put_ruuvi ((get_ruuvi e w)\<lparr>authorized_sessions := ?a'\<rparr>) w"
    have once: "\<not> session_matches sid ip (?a ! j)" if "j < length ?a" "j \<noteq> i" for j
    proof
      assume m: "session_matches sid ip (?a ! j)"
      have "{i, j} \<subseteq> {k. k < length ?a \<and> session_matches sid ip (?a ! k)}"
        using that m deleted sid' by auto
      then have "card {i, j} \<le> card {k. k < length ?a \<and> session_matches sid ip (?a ! k)}"
        by (intro card_mono) auto
      with that assms(7) show False by (simp add: length_filter_conv_card)
    qed
    have gone: "find_idx (session_matches sid ip) ?a' = None"
      by (rule session_gone) (use deleted sid' once in auto)
    have other: "find_idx (session_matches s' p') ?a' = find_idx (session_matches s' p') ?a"
      if "(s', p') \<noteq> (sid, ip)" for s' p'
      by (rule find_idx_update_other) (use that deleted sid' in \<open>auto simp: session_matches_def\<close>)
    have "ruuvi_ok (get_ruuvi e w)" by (rule web_wf_ruuvi [OF assms(1) rt])
    then have "ruuvi_ok ((get_ruuvi e w)\<lparr>authorized_sessions := ?a'\<rparr>)"
      using deleted(4) by (auto simp: ruuvi_ok_def list_all_length nth_list_update session_ok_def SESSION_ID_SIZE_def)
    then have "web_wf ?w'" by (rule web_wf_put_ruuvi [OF assms(1) rt])
    with deleted(3) gone other show ?thesis by (auto simp: find_authorized_session_def)
  qed
qed

section \<open>Witnesses\<close>

definition login_header :: cstr where
  "login_header = ''Cookie: RUUVISESSION=ABC'' @ [CR, LF]"

definition ruuvi1 :: auth_ruuvi where
  "ruuvi1 = \<lparr>login_session = \<lparr>ls_challenge = ''aa'', ls_session_id = ''ABC'', ls_remote_ip = ''10.10.0.2''\<rparr>,
     authorized_sessions = [\<lparr>as_session_id = ''ABC'', as_remote_ip = ''10.10.0.2''\<rparr>,
       session_zero, session_zero, session_zero]\<rparr>"

definition web1 :: web where
  "web1 = web0\<lparr>w_auth := \<lparr>g_auth = AuthRuuvi ruuvi1, g_auth_info = \<lparr>auth_type = AUTH_RUUVI,
     auth_user = ''Admin'', auth_pass = ''pw'', auth_api_key = [], auth_api_key_rw = []\<rparr>\<rparr>\<rparr>"

definition env1 :: env where
  "env1 = env0\<lparr>cjson_parse := \<lambda>s. Some (\<lambda>n. if n = ''login'' then Some (Some ''Admin'')
     else if n = ''password'' then Some (Some (concat (replicate 32 ''41''))) else None)\<rparr>"

lemma env_doc_env1: "env_doc env1"
  using env_doc_env0 by (simp add: env_doc_def env1_def)

lemma web1_ok: "web_wf web1" "auth_ty web1 \<in> {AUTH_RUUVI, AUTH_DEFAULT}" "get_ruuvi e web1 = ruuvi1"
  "w_allocs web1 = 0"
proof -
  have "ruuvi_ok ruuvi1"
    by (simp add: ruuvi_ok_def ruuvi1_def session_ok_def session_zero_def login_ok_def fits_def
        SESSION_ID_SIZE_def STA_IP_STRING_SIZE_def CHALLENGE_SIZE_def MAX_NUM_SESSIONS_def)
  then show "web_wf web1"
    by (simp add: web_wf_def web1_def web0_def auth_wf_def info_wf_def store_tag_ok_def fits_def
        AUTH_USER_SIZE_def AUTH_PASS_SIZE_def AUTH_API_KEY_SIZE_def EXTRA_HEADER_FIELDS_SIZE_def)
  show "auth_ty web1 \<in> {AUTH_RUUVI, AUTH_DEFAULT}" "get_ruuvi e web1 = ruuvi1" "w_allocs web1 = 0"
    by (simp_all add: auth_ty_def web1_def get_ruuvi_def web0_def)
qed

lemma login_header_ok: "nul_free login_header" "length login_header < 2 ^ 31"
  "get_session_id_from_cookies login_header = Some (True, ''ABC'')"
proof -
  show "nul_free login_header" "length login_header < 2 ^ 31" by (simp_all add: login_header_def)
  show "get_session_id_from_cookies login_header = Some (True, ''ABC'')" by code_simp
qed

lemma login_policy_witness:
  "\<exists>r w'. handle_req_post_auth env1 True login_header ''10.10.0.2'' ''{}'' (g_auth_info (w_auth web1)) host0 web1 = Some (r, w')
    \<and> web_wf w'
    \<and> (resp_code r = 200 \<longleftrightarrow> login_grants env1 login_header ''10.10.0.2'' ''{}'' (g_auth_info (w_auth web1)) web1)
    \<and> (if login_grants env1 login_header ''10.10.0.2'' ''{}'' (g_auth_info (w_auth web1)) web1
       then \<exists>sid. get_session_id_from_cookies login_header = Some (True, sid)
            \<and> authorized_sessions (get_ruuvi env1 w') = take MAX_NUM_SESSIONS
                (\<lparr>as_session_id = sid, as_remote_ip = ''10.10.0.2''\<rparr> # authorized_sessions (get_ruuvi env1 web1))
            \<and> ls_session_id (login_session (get_ruuvi env1 w')) = []
       else authorized_sessions (get_ruuvi env1 w') = authorized_sessions (get_ruuvi env1 web1))"
  by (rule login_policy [OF env_doc_env1 web1_ok(1) concrete_ok(1) login_header_ok(1,2) concrete_ok(4) refl web1_ok(2)])
    (simp_all add: env1_def env0_def)

lemma login_policy_example:
  \<comment> \<open>the policy grants this login\<close>
  "login_grants env1 login_header ''10.10.0.2'' ''{}'' (g_auth_info (w_auth web1)) web1"
proof -
  have "concat (map hex2 (replicate 32 CHR ''A'')) = concat (replicate 32 ''41'')" by code_simp
  then have "gen_hashed_password env1 ''aa'' ''pw'' = Some (snprintf_s AUTH_PASS_SIZE (concat (replicate 32 ''41'')))"
    by (simp add: gen_hashed_password_def env1_def env0_def wifiman_sha256_hex_str_def AUTH_PASS_SIZE_def
        snprintf_s_def)
  moreover have "ls_challenge (login_session ruuvi1) = ''aa''" "auth_pass (g_auth_info (w_auth web1)) = ''pw''"
    "auth_user (g_auth_info (w_auth web1)) = ''Admin''" by (simp_all add: ruuvi1_def web1_def)
  ultimately have "login_body_grants env1 ''{}'' (g_auth_info (w_auth web1)) (login_session ruuvi1)"
    unfolding login_body_grants_def
    by (intro exI [of _ "the (cjson_parse env1 ''{}'')"] exI [of _ "''Admin''"] exI [of _ "concat (replicate 32 ''41'')"])
      (simp add: env1_def AUTH_USER_SIZE_def)
  then show ?thesis
    using login_header_ok(3) by (simp add: login_grants_def web1_ok(3) login_session_grants_def ruuvi1_def)
qed

lemma refused_login_leaks_witness:
  "\<exists>r w'. handle_req_post_auth env0 True login_header ''10.10.0.2'' ''x'' (g_auth_info (w_auth web1)) host0 web1 = Some (r, w')
    \<and> w_live w' = w_live web1 + 1"
  by (rule refused_login_leaks [OF env_doc_env0 web1_ok(1) concrete_ok(1) login_header_ok(1,2) concrete_ok(4) refl
        web1_ok(2) _ _ login_header_ok(3)])
    (simp_all add: env0_def web1_ok login_session_grants_def ruuvi1_def login_body_grants_def)

lemma logout_revokes_witness:
  "\<exists>r w'. handle_req_delete_auth env0 login_header ''10.10.0.2'' (g_auth_info (w_auth web1)) host0 web1 = Some (r, w')
    \<and> resp_code r = 200 \<and> web_wf w'
    \<and> find_authorized_session (get_ruuvi env0 w') ''ABC'' ''10.10.0.2'' = None
    \<and> (\<forall>sid' ip'. (sid', ip') \<noteq> (''ABC'', ''10.10.0.2'') \<longrightarrow>
         find_authorized_session (get_ruuvi env0 w') sid' ip' = find_authorized_session (get_ruuvi env0 web1) sid' ip')"
  by (rule logout_revokes [OF web1_ok(1) login_header_ok(1,2) web1_ok(2) refl login_header_ok(3)])
    (simp add: web1_ok(3) ruuvi1_def session_matches_def session_zero_def)

end
