(* ===== verification/Ecdh.thy ===== *)
theory Ecdh
  imports GetAuth
begin

text \<open>
  \<^verbatim>\<open>src/http_server_ecdh.c\<close>: the key exchange with a client and the decryption of its requests.

  The primitives of mbedtls are the record \<open>crypto\<close>: base64, AES in CBC mode, the digest with
  its return codes ignored (as the source calls it), and the steps of the key exchange, which
  depend on the serial number of the context. An index outside of a buffer is a fault.
\<close>

section \<open>Model\<close>

definition ECDH_AES_BLOCK_SIZE :: nat where "ECDH_AES_BLOCK_SIZE = 16"
definition ECDH_SHA256_SIZE :: nat where "ECDH_SHA256_SIZE = 32"
definition ECDH_MAX_ENCRYPTED_LEN :: nat where "ECDH_MAX_ENCRYPTED_LEN = 20 * 1024"
definition ECDH_MPI_SIZE :: nat where "ECDH_MPI_SIZE = 32"
definition ECDH_PUB_KEY_SIZE :: nat where "ECDH_PUB_KEY_SIZE = 1 + 2 * ECDH_MPI_SIZE"
definition ECDH_HANDSHAKE_OFFSET :: nat where "ECDH_HANDSHAKE_OFFSET = 4"
definition ECDH_PUB_KEY_B64_SIZE :: nat where
  "ECDH_PUB_KEY_B64_SIZE = (ECDH_PUB_KEY_SIZE div 3 + (if ECDH_PUB_KEY_SIZE mod 3 \<noteq> 0 then 1 else 0)) * 4 + 1"

record crypto =
  b64_decode :: "nat \<Rightarrow> cstr \<Rightarrow> byte list option" \<comment> \<open>into a buffer of the given size\<close>
  b64_decoded_len :: "cstr \<Rightarrow> nat"
  b64_encode :: "nat \<Rightarrow> byte list \<Rightarrow> cstr option"
  fresh :: "nat \<Rightarrow> nat \<Rightarrow> byte" \<comment> \<open>the bytes of the block of the k-th allocation before they are written\<close>
  aes_cbc_decrypt :: "byte list \<Rightarrow> byte list \<Rightarrow> byte list \<Rightarrow> byte list" \<comment> \<open>key, IV, content\<close>
  sha256_raw :: "byte list \<Rightarrow> byte list"
  ecdh_setup :: "nat \<Rightarrow> bool"
  ecdh_make_params :: "nat \<Rightarrow> byte list option" \<comment> \<open>the handshake message\<close>
  ecdh_read_public :: "nat \<Rightarrow> byte list \<Rightarrow> bool"
  ecdh_calc_secret :: "nat \<Rightarrow> byte list \<Rightarrow> byte list option"

record ecdh_state =
  ecdh_ctx :: nat \<comment> \<open>serial number of \<open>g_http_server_ecdh_ctx\<close>\<close>
  ecdh_aes_key :: "byte list"

definition ecdh_state_init :: ecdh_state where
  "ecdh_state_init = \<lparr>ecdh_ctx = 0, ecdh_aes_key = replicate 32 NUL\<rparr>"

definition b64_encode_pub_key :: "crypto \<Rightarrow> byte list \<Rightarrow> cstr option" where
  "b64_encode_pub_key c pub =
     (case b64_encode c ECDH_PUB_KEY_B64_SIZE pub of
        None \<Rightarrow> None
      | Some s \<Rightarrow> if ECDH_PUB_KEY_B64_SIZE - 1 \<noteq> length s then None else Some s)"

definition b64_decode_exact :: "crypto \<Rightarrow> nat \<Rightarrow> cstr \<Rightarrow> byte list option" where
  \<comment> \<open>decode into an array that must be filled completely: the IV and the hash\<close>
  "b64_decode_exact c n s =
     (case b64_decode c n s of
        None \<Rightarrow> None
      | Some b \<Rightarrow> if n \<noteq> length b then None else Some b)"

definition b64_decode_pub_key_add_prefix_len :: "crypto \<Rightarrow> cstr \<Rightarrow> byte list option" where
  "b64_decode_pub_key_add_prefix_len c s =
     (case b64_decode c ECDH_PUB_KEY_SIZE s of
        None \<Rightarrow> None
      | Some b \<Rightarrow> if ECDH_PUB_KEY_SIZE \<noteq> length b then None else Some (char_of (length b) # b))"

definition ecdh_b64_decode :: "env \<Rightarrow> crypto \<Rightarrow> cstr \<Rightarrow> web \<Rightarrow> byte list option \<times> web" where
  "ecdh_b64_decode e c s w =
     (let olen = b64_decoded_len c s
      in if olen > ECDH_MAX_ENCRYPTED_LEN then (None, w)
         else
           let (ok, w1) = heap_alloc e w
           in if \<not> ok then (None, w1)
              else
                case b64_decode c olen s of
                  None \<Rightarrow> (None, heap_free w1)
                | Some b \<Rightarrow> (Some (b @ map (fresh c (w_allocs w)) [length b..<olen]), w1))"

definition ecdh_handshake_internal :: "crypto \<Rightarrow> cstr \<Rightarrow> ecdh_state \<Rightarrow> cstr option \<times> ecdh_state" where
  \<comment> \<open>the public key of the server, and the state with the key of the session\<close>
  "ecdh_handshake_internal c pub_key_b64_cli st =
     (case b64_decode_pub_key_add_prefix_len c pub_key_b64_cli of
        None \<Rightarrow> (None, st)
      | Some cli \<Rightarrow>
          let st1 = st\<lparr>ecdh_ctx := ecdh_ctx st + 1\<rparr>;
              k = ecdh_ctx st1
          in if \<not> ecdh_setup c k then (None, st1)
             else
               case ecdh_make_params c k of
                 None \<Rightarrow> (None, st1)
               | Some msg \<Rightarrow>
                   if length msg \<noteq> ECDH_HANDSHAKE_OFFSET + ECDH_PUB_KEY_SIZE then (None, st1)
                   else
                     let srv = take ECDH_PUB_KEY_SIZE (drop ECDH_HANDSHAKE_OFFSET msg)
                     in case b64_encode_pub_key c srv of
                          None \<Rightarrow> (None, st1)
                        | Some srv_b64 \<Rightarrow>
                            if \<not> ecdh_read_public c k cli then (None, st1)
                            else
                              case ecdh_calc_secret c k cli of
                                None \<Rightarrow> (None, st1)
                              | Some secret \<Rightarrow>
                                  if length secret \<noteq> ECDH_MPI_SIZE then (None, st1)
                                  else (Some srv_b64, st1\<lparr>ecdh_aes_key := sha256_raw c secret\<rparr>))"

definition ecdh_handshake ::
  "env \<Rightarrow> crypto \<Rightarrow> cstr \<Rightarrow> ecdh_state \<Rightarrow> web \<Rightarrow> cstr option \<times> ecdh_state \<times> web" where
  "ecdh_handshake e c pub_key_b64_cli st w =
     (let (ok, w1) = heap_alloc e w
      in if \<not> ok then (None, st, w1)
         else
           let (res, st1) = ecdh_handshake_internal c pub_key_b64_cli st
           in (res, st1, heap_free w1))"

definition ecdh_aes_decrypt :: "crypto \<Rightarrow> byte list \<Rightarrow> byte list \<Rightarrow> byte list \<Rightarrow> byte list option faulting" where
  \<comment> \<open>the content without its padding, whose length is the last byte\<close>
  "ecdh_aes_decrypt c key encrypted iv =
     (let dec = aes_cbc_decrypt c key iv encrypted
      in if encrypted = [] then None
         else do {
           last_byte \<leftarrow> mread dec (length encrypted - 1);
           let pad_len = of_char last_byte;
           if pad_len > ECDH_AES_BLOCK_SIZE then Some None
           else if pad_len > length encrypted then Some None
           else Some (Some (take (length encrypted - pad_len) dec)) })"

record encrypted_req =
  enc_encrypted :: cstr
  enc_iv :: cstr
  enc_hash :: cstr

definition ecdh_decrypt ::
  "env \<Rightarrow> crypto \<Rightarrow> byte list \<Rightarrow> encrypted_req \<Rightarrow> web \<Rightarrow> (cstr option \<times> web) faulting" where
  \<comment> \<open>the new string, if the request is accepted\<close>
  "ecdh_decrypt e c key req w =
     (case b64_decode_exact c ECDH_AES_BLOCK_SIZE (enc_iv req) of
        None \<Rightarrow> Some (None, w)
      | Some iv \<Rightarrow>
          case b64_decode_exact c ECDH_SHA256_SIZE (enc_hash req) of
            None \<Rightarrow> Some (None, w)
          | Some hash \<Rightarrow>
              case ecdh_b64_decode e c (enc_encrypted req) w of
                (None, w1) \<Rightarrow> Some (None, w1)
              | (Some encrypted, w1) \<Rightarrow>
                  if length encrypted mod ECDH_AES_BLOCK_SIZE \<noteq> 0 then Some (None, heap_free w1)
                  else
                    let (ok, w2) = heap_alloc e w1
                    in if \<not> ok then Some (None, heap_free w2)
                       else do {
                         dec \<leftarrow> ecdh_aes_decrypt c key encrypted iv;
                         case dec of
                           None \<Rightarrow> Some (None, heap_free (heap_free w2))
                         | Some plain \<Rightarrow>
                             let w3 = heap_free w2
                             in if sha256_raw c plain \<noteq> hash then Some (None, heap_free w3)
                                else
                                  let (ok3, w4) = heap_alloc e w3;
                                      w5 = heap_free w4
                                  in Some (if ok3 then Some (takeWhile (\<lambda>ch. ch \<noteq> NUL) plain) else None, w5) })"

section \<open>Lemmas\<close>

definition crypto_doc :: "crypto \<Rightarrow> bool" where
  \<comment> \<open>documented: decoding stays inside the buffer it is given, base64 is text, CBC keeps the length,
      a digest has 32 bytes\<close>
  "crypto_doc c \<longleftrightarrow>
     (\<forall>n s b. b64_decode c n s = Some b \<longrightarrow> length b \<le> n)
     \<and> (\<forall>n b s. b64_encode c n b = Some s \<longrightarrow> nul_free s)
     \<and> (\<forall>k iv b. length (aes_cbc_decrypt c k iv b) = length b) \<and> (\<forall>b. length (sha256_raw c b) = 32)"

lemma aes_decrypt_total:
  assumes "crypto_doc c" "encrypted \<noteq> []"
  shows "\<exists>r. ecdh_aes_decrypt c key encrypted iv = Some r"
proof -
  have "length (aes_cbc_decrypt c key iv encrypted) = length encrypted"
    using assms(1) by (simp add: crypto_doc_def)
  with assms(2) show ?thesis by (simp add: ecdh_aes_decrypt_def mread_def Let_def)
qed

lemma aes_decrypt_padded:
  assumes "crypto_doc c" "aes_cbc_decrypt c key iv encrypted = plain @ replicate k (char_of k)"
    and "0 < k" "k \<le> ECDH_AES_BLOCK_SIZE"
  shows "ecdh_aes_decrypt c key encrypted iv = Some (Some plain)"
proof -
  have len: "length encrypted = length plain + k"
    using assms(1,2) by (metis crypto_doc_def length_append length_replicate)
  have "(plain @ replicate k (char_of k)) ! (length plain + k - 1) = char_of k"
    using nth_append_length_plus [of plain "replicate k (char_of k)" "k - 1"] assms(3) by simp
  moreover have "of_char (char_of k :: char) = k" using assms(4) by (simp add: ECDH_AES_BLOCK_SIZE_def)
  moreover have "encrypted \<noteq> []" using len assms(3) by auto
  ultimately show ?thesis
    using assms(2-4) len by (simp add: ecdh_aes_decrypt_def mread_def Let_def)
qed

lemma aes_decrypt_empty: "ecdh_aes_decrypt c key [] iv = None"
  by (simp add: ecdh_aes_decrypt_def)

lemma fst_heap_alloc: "fst (heap_alloc e w) = alloc_ok e (w_allocs w)"
  by (simp add: heap_alloc_def Let_def)

lemma heap_simps:
  "w_live (snd (heap_alloc e w)) = w_live w + (if alloc_ok e (w_allocs w) then 1 else 0)"
  "w_auth (snd (heap_alloc e w)) = w_auth w" "w_extra (snd (heap_alloc e w)) = w_extra w"
  "w_allocs (snd (heap_alloc e w)) = w_allocs w + 1"
  "w_live (heap_free w) = w_live w - 1" "w_auth (heap_free w) = w_auth w" "w_extra (heap_free w) = w_extra w"
  "w_allocs (heap_free w) = w_allocs w"
  by (simp_all add: heap_alloc_def heap_free_def Let_def)

definition b64_block :: "crypto \<Rightarrow> nat \<Rightarrow> cstr \<Rightarrow> byte list option" where
  \<comment> \<open>the block of the k-th allocation after the text was decoded into it\<close>
  "b64_block c k s = map_option (\<lambda>b. b @ map (fresh c k) [length b..<b64_decoded_len c s])
     (b64_decode c (b64_decoded_len c s) s)"

lemma b64_block_length: "crypto_doc c \<Longrightarrow> b64_block c k s = Some b \<Longrightarrow> length b = b64_decoded_len c s"
  by (auto simp: b64_block_def crypto_doc_def)

lemma b64_decode_run:
  "ecdh_b64_decode e c s w =
     (if b64_decoded_len c s > ECDH_MAX_ENCRYPTED_LEN then (None, w)
      else if \<not> alloc_ok e (w_allocs w) then (None, snd (heap_alloc e w))
      else case b64_block c (w_allocs w) s of
             None \<Rightarrow> (None, heap_free (snd (heap_alloc e w)))
           | Some b \<Rightarrow> (Some b, snd (heap_alloc e w)))"
  by (simp add: ecdh_b64_decode_def b64_block_def Let_def case_prod_beta fst_heap_alloc split: option.splits)

definition accepted_plain :: "crypto \<Rightarrow> byte list \<Rightarrow> nat \<Rightarrow> encrypted_req \<Rightarrow> cstr option" where
  \<comment> \<open>the text of a request, decrypted with the key: its digest is the one the request names\<close>
  "accepted_plain c key k req = do {
     iv \<leftarrow> b64_decode_exact c ECDH_AES_BLOCK_SIZE (enc_iv req);
     hash \<leftarrow> b64_decode_exact c ECDH_SHA256_SIZE (enc_hash req);
     enc \<leftarrow> b64_block c k (enc_encrypted req);
     dec \<leftarrow> ecdh_aes_decrypt c key enc iv;
     plain \<leftarrow> dec;
     if sha256_raw c plain = hash then Some (takeWhile (\<lambda>ch. ch \<noteq> NUL) plain) else None }"

definition empty_secret :: "crypto \<Rightarrow> encrypted_req \<Rightarrow> bool" where
  \<comment> \<open>the initial vector and the digest of the request are in order, but its content decodes to no byte\<close>
  "empty_secret c req \<longleftrightarrow> b64_decode_exact c ECDH_AES_BLOCK_SIZE (enc_iv req) \<noteq> None
     \<and> b64_decode_exact c ECDH_SHA256_SIZE (enc_hash req) \<noteq> None
     \<and> b64_decoded_len c (enc_encrypted req) = 0 \<and> b64_decode c 0 (enc_encrypted req) \<noteq> None"

definition reads_before_block :: "env \<Rightarrow> crypto \<Rightarrow> encrypted_req \<Rightarrow> web \<Rightarrow> bool" where
  \<comment> \<open>and both blocks for it are handed out: the length of its padding is read in front of the second\<close>
  "reads_before_block e c req w \<longleftrightarrow> empty_secret c req \<and> alloc_ok e (w_allocs w) \<and> alloc_ok e (w_allocs w + 1)"

definition decrypted :: "crypto \<Rightarrow> byte list \<Rightarrow> encrypted_req \<Rightarrow> web \<Rightarrow> cstr option \<Rightarrow> web \<Rightarrow> bool" where
  \<comment> \<open>the text, if there is one, is the one of the request and the only new block\<close>
  "decrypted c key req w r w' \<longleftrightarrow> w_live w' = w_live w + (if r = None then 0 else 1)
     \<and> w_auth w' = w_auth w \<and> w_extra w' = w_extra w \<and> (\<forall>s. r = Some s \<longrightarrow> accepted_plain c key (w_allocs w) req = Some s)"

lemma not_before_block:
  "b64_decode_exact c ECDH_AES_BLOCK_SIZE (enc_iv req) = None \<Longrightarrow> \<not> reads_before_block e c req w"
  "b64_decode_exact c ECDH_SHA256_SIZE (enc_hash req) = None \<Longrightarrow> \<not> reads_before_block e c req w"
  "b64_block c k (enc_encrypted req) = None \<Longrightarrow> \<not> reads_before_block e c req w"
  "\<not> alloc_ok e (w_allocs w) \<Longrightarrow> \<not> reads_before_block e c req w"
  "\<not> alloc_ok e (w_allocs w + 1) \<Longrightarrow> \<not> reads_before_block e c req w"
  "b64_decoded_len c (enc_encrypted req) \<noteq> 0 \<Longrightarrow> \<not> reads_before_block e c req w"
  by (auto simp: reads_before_block_def empty_secret_def b64_block_def)

lemma ecdh_decrypt_content:
  \<comment> \<open>with blocks for the content and the text\<close>
  assumes "crypto_doc c" "b64_decode_exact c ECDH_AES_BLOCK_SIZE (enc_iv req) = Some iv"
    and "b64_decode_exact c ECDH_SHA256_SIZE (enc_hash req) = Some hash"
    and "b64_block c (w_allocs w) (enc_encrypted req) = Some enc" "length enc mod ECDH_AES_BLOCK_SIZE = 0"
    and "length enc \<le> ECDH_MAX_ENCRYPTED_LEN" "alloc_ok e (w_allocs w)" "alloc_ok e (w_allocs w + 1)"
  shows "if enc = [] then ecdh_decrypt e c key req w = None
    else \<exists>r w'. ecdh_decrypt e c key req w = Some (r, w') \<and> decrypted c key req w r w'"
proof -
  let ?w2 = "snd (heap_alloc e (snd (heap_alloc e w)))"
  let ?w3 = "snd (heap_alloc e (heap_free ?w2))"
  have len: "b64_decoded_len c (enc_encrypted req) = length enc" using b64_block_length [OF assms(1,4)] by simp
  have run: "ecdh_decrypt e c key req w = Option.bind (ecdh_aes_decrypt c key enc iv) (\<lambda>dec. case dec of
             None \<Rightarrow> Some (None, heap_free (heap_free ?w2))
           | Some plain \<Rightarrow>
               if sha256_raw c plain \<noteq> hash then Some (None, heap_free (heap_free ?w2))
               else if alloc_ok e (w_allocs (heap_free ?w2))
                 then Some (Some (takeWhile (\<lambda>ch. ch \<noteq> NUL) plain), heap_free ?w3)
               else Some (None, heap_free ?w3))"
    using assms(2-8) len
    by (cases "ecdh_aes_decrypt c key enc iv"; cases "the (ecdh_aes_decrypt c key enc iv)")
      (simp_all add: ecdh_decrypt_def b64_decode_run fst_heap_alloc heap_simps Let_def case_prod_beta)
  show ?thesis
  proof (cases "enc = []")
    case True
    with run show ?thesis by (simp add: aes_decrypt_empty)
  next
    case False
    then obtain dec where dec: "ecdh_aes_decrypt c key enc iv = Some dec" using aes_decrypt_total [OF assms(1)] by blast
    have "accepted_plain c key (w_allocs w) req = Some (takeWhile (\<lambda>ch. ch \<noteq> NUL) plain)"
      if "dec = Some plain" "sha256_raw c plain = hash" for plain
      using that assms(2-4) dec by (simp add: accepted_plain_def)
    with False run dec assms(7,8) show ?thesis
      by (auto simp: decrypted_def heap_simps split: option.splits)
  qed
qed

lemma ecdh_decrypt_run:
  assumes "crypto_doc c"
  shows "case ecdh_decrypt e c key req w of
      None \<Rightarrow> reads_before_block e c req w
    | Some (r, w') \<Rightarrow> \<not> reads_before_block e c req w \<and> decrypted c key req w r w'"
proof (cases "b64_decode_exact c ECDH_AES_BLOCK_SIZE (enc_iv req)")
  case None
  with not_before_block(1) [OF None] show ?thesis by (simp add: ecdh_decrypt_def decrypted_def)
next
  case (Some iv)
  note iv = this
  show ?thesis
  proof (cases "b64_decode_exact c ECDH_SHA256_SIZE (enc_hash req)")
    case None
    with iv not_before_block(2) [OF None] show ?thesis by (simp add: ecdh_decrypt_def decrypted_def)
  next
    case (Some hash)
    note hash = this
    show ?thesis
    proof (cases "b64_block c (w_allocs w) (enc_encrypted req)")
      case None
      with iv hash not_before_block(3) [OF None] show ?thesis
        by (simp add: ecdh_decrypt_def b64_decode_run heap_simps decrypted_def)
    next
      case (Some enc)
      have len: "length enc = b64_decoded_len c (enc_encrypted req)" by (rule b64_block_length [OF assms Some])
      show ?thesis
      proof (cases "length enc mod ECDH_AES_BLOCK_SIZE = 0 \<and> length enc \<le> ECDH_MAX_ENCRYPTED_LEN
          \<and> alloc_ok e (w_allocs w) \<and> alloc_ok e (w_allocs w + 1)")
        case True
        with ecdh_decrypt_content [OF assms iv hash Some, where e = e and key = key] len not_before_block(6) [of c req e w]
          iv hash Some show ?thesis
          by (auto simp: reads_before_block_def empty_secret_def b64_block_def split: if_splits)
      next
        case False
        have "\<not> reads_before_block e c req w"
          using False len by (auto simp: reads_before_block_def empty_secret_def)
        with False iv hash Some len show ?thesis
          by (auto simp: ecdh_decrypt_def b64_decode_run fst_heap_alloc heap_simps decrypted_def Let_def case_prod_beta)
      qed
    qed
  qed
qed

lemma decrypt_complete_run:
  assumes "crypto_doc c" "nul_free plain" "0 < k" "k \<le> ECDH_AES_BLOCK_SIZE"
    and "b64_decode_exact c ECDH_AES_BLOCK_SIZE (enc_iv req) = Some iv"
    and "b64_decode_exact c ECDH_SHA256_SIZE (enc_hash req) = Some (sha256_raw c plain)"
    and "b64_decode c (b64_decoded_len c (enc_encrypted req)) (enc_encrypted req) = Some enc"
    and "length enc = b64_decoded_len c (enc_encrypted req)"
    and "length enc \<le> ECDH_MAX_ENCRYPTED_LEN" "length enc mod ECDH_AES_BLOCK_SIZE = 0"
    and "aes_cbc_decrypt c key iv enc = plain @ replicate k (char_of k)"
    and "\<forall>i<3. alloc_ok e (w_allocs w + i)"
  shows "\<exists>w'. ecdh_decrypt e c key req w = Some (Some plain, w') \<and> w_auth w' = w_auth w \<and> w_live w' = w_live w + 1"
proof -
  have block: "b64_block c j (enc_encrypted req) = Some enc" for j
    using assms(7,8) by (simp add: b64_block_def)
  note dec = aes_decrypt_padded [OF assms(1,11,3,4)]
  have al: "alloc_ok e (w_allocs w)" "alloc_ok e (Suc (w_allocs w))" "alloc_ok e (Suc (Suc (w_allocs w)))"
    using assms(12) [rule_format, of 0] assms(12) [rule_format, of 1] assms(12) [rule_format, of 2] by simp_all
  show ?thesis
    using assms(2,5,6,8-10) dec al block
    by (simp add: ecdh_decrypt_def b64_decode_run heap_simps fst_heap_alloc Let_def case_prod_beta)
qed

section \<open>Properties\<close>

text \<open>
  C26: Decrypting a request returns, except in exactly one case, a defect: when initial vector and
  digest are in order and the content decodes to no byte, it reads in front of its buffer.
  When it returns, it accepts only a text that has the digest the request names, and keeps one heap
  block, the accepted text, and none when the request is refused.
\<close>

theorem decrypt_sound:
  assumes "crypto_doc c"
  shows "(ecdh_decrypt e c key req w = None \<longleftrightarrow> empty_secret c req \<and> alloc_ok e (w_allocs w) \<and> alloc_ok e (w_allocs w + 1))
    \<and> (\<forall>r w'. ecdh_decrypt e c key req w = Some (r, w') \<longrightarrow>
         w_live w' = w_live w + (if r = None then 0 else 1) \<and> w_auth w' = w_auth w
         \<and> (\<forall>s. r = Some s \<longrightarrow> (\<exists>plain. b64_decode_exact c ECDH_SHA256_SIZE (enc_hash req) = Some (sha256_raw c plain)
               \<and> s = takeWhile (\<lambda>ch. ch \<noteq> NUL) plain)))"
proof (intro conjI allI impI)
  note run = ecdh_decrypt_run [OF assms, where e = e and key = key and req = req and w = w]
  show "ecdh_decrypt e c key req w = None \<longleftrightarrow> empty_secret c req \<and> alloc_ok e (w_allocs w) \<and> alloc_ok e (w_allocs w + 1)"
    using run by (auto simp: reads_before_block_def split: option.splits prod.splits)
  fix r w'
  assume "ecdh_decrypt e c key req w = Some (r, w')"
  with run have d: "decrypted c key req w r w'" by simp
  then show "w_live w' = w_live w + (if r = None then 0 else 1)" "w_auth w' = w_auth w" by (simp_all add: decrypted_def)
  fix s
  assume "r = Some s"
  with d show "\<exists>plain. b64_decode_exact c ECDH_SHA256_SIZE (enc_hash req) = Some (sha256_raw c plain)
      \<and> s = takeWhile (\<lambda>ch. ch \<noteq> NUL) plain"
    by (auto simp: decrypted_def accepted_plain_def split: if_splits elim!: option_bind_SomeE)
qed

text \<open>
  C27: what a client encrypts is decrypted: when the content is the padded text encrypted under
  the session key, in base64 whose probed length is the decoded one, and the digest is the one
  of the text, the request is accepted with it.
\<close>

theorem decrypt_complete:
  assumes "crypto_doc c" "nul_free plain" "0 < k" "k \<le> ECDH_AES_BLOCK_SIZE"
    and "b64_decode_exact c ECDH_AES_BLOCK_SIZE (enc_iv req) = Some iv"
    and "b64_decode_exact c ECDH_SHA256_SIZE (enc_hash req) = Some (sha256_raw c plain)"
    and "b64_decode c (b64_decoded_len c (enc_encrypted req)) (enc_encrypted req) = Some enc"
    and "length enc = b64_decoded_len c (enc_encrypted req)"
    and "length enc \<le> ECDH_MAX_ENCRYPTED_LEN" "length enc mod ECDH_AES_BLOCK_SIZE = 0"
    and "aes_cbc_decrypt c key iv enc = plain @ replicate k (char_of k)"
    and "\<forall>i<3. alloc_ok e (w_allocs w + i)"
  shows "\<exists>w'. ecdh_decrypt e c key req w = Some (Some plain, w')"
  using decrypt_complete_run [OF assms] by blast

section \<open>Witnesses and examples\<close>

definition crypto0 :: crypto where
  \<comment> \<open>base64 and the cipher are the identity, the digest is constant\<close>
  "crypto0 = \<lparr>b64_decode = \<lambda>n s. if length s \<le> n then Some s else None, b64_decoded_len = length,
     b64_encode = \<lambda>n s. Some (map (\<lambda>ch. if ch = NUL then CHR ''A'' else ch) s), fresh = \<lambda>k i. CHR ''f'',
     aes_cbc_decrypt = \<lambda>k iv b. b, sha256_raw = \<lambda>b. replicate 32 CHR ''h'',
     ecdh_setup = \<lambda>k. True, ecdh_make_params = \<lambda>k. Some (replicate 69 CHR ''p''),
     ecdh_read_public = \<lambda>k b. True, ecdh_calc_secret = \<lambda>k b. Some (replicate 32 CHR ''s'')\<rparr>"

lemma crypto_doc_crypto0: "crypto_doc crypto0"
  by (auto simp: crypto_doc_def crypto0_def nul_free_def split: if_splits)

definition req0 :: encrypted_req where
  "req0 = \<lparr>enc_encrypted = ''{}'' @ replicate 14 (char_of (14 :: nat)), enc_iv = replicate 16 CHR ''i'',
     enc_hash = replicate 32 CHR ''h''\<rparr>"

lemma decrypt_sound_witness:
  "\<exists>r w'. ecdh_decrypt env0 crypto0 [] req0 web0 = Some (r, w')
    \<and> w_live w' = w_live web0 + (if r = None then 0 else 1) \<and> w_auth w' = w_auth web0"
proof -
  have "\<not> empty_secret crypto0 req0" by (simp add: empty_secret_def crypto0_def req0_def)
  with decrypt_sound [OF crypto_doc_crypto0, where e = env0 and key = "[]" and req = req0 and w = web0] show ?thesis by auto
qed

lemma decrypt_complete_witness:
  "\<exists>w'. ecdh_decrypt env0 crypto0 [] req0 web0 = Some (Some ''{}'', w')"
  by (rule decrypt_complete [OF crypto_doc_crypto0, where k = 14])
    (simp_all add: crypto0_def req0_def b64_decode_exact_def ECDH_AES_BLOCK_SIZE_def ECDH_SHA256_SIZE_def
      ECDH_MAX_ENCRYPTED_LEN_def env0_def)

lemma empty_content_reads_before_buffer:
  \<comment> \<open>with an empty content the last byte is read at index -1, when the heap hands out a block of no bytes\<close>
  "ecdh_decrypt env0 crypto0 [] (req0\<lparr>enc_encrypted := []\<rparr>) web0 = None"
  by (simp add: ecdh_decrypt_def ecdh_b64_decode_def crypto0_def req0_def b64_decode_exact_def
      ECDH_AES_BLOCK_SIZE_def ECDH_SHA256_SIZE_def env0_def heap_alloc_def Let_def ecdh_aes_decrypt_def)

end
