(* ===== verification/HandleReq.thy ===== *)
theory HandleReq
  imports RecvConn PostAuth Ecdh
begin

text \<open>
  \<^verbatim>\<open>src/http_server_handle_req.c\<close>: the dispatch of a parsed request to its handler.

  The state \<open>server\<close> is the web state, the state of the key exchange, the timestamp of the last
  request and the list of the calls made into the other parts of the program, oldest first:
  the callbacks of the application and the commands to the Wi-Fi manager, the DNS server and
  the configuration. What these answer is the record \<open>app\<close>.
\<close>

section \<open>Model\<close>

datatype action =
    ActScan
  | ActStatusRequested \<comment> \<open>\<open>wifi_manager_cb_on_request_status_json\<close>\<close>
  | ActDnsServerStop
  | ActDisableWps
  | ActReasonUserDisconnect
  | ActDisconnectEth
  | ActDisconnectWifi
  | ActConnectEth
  | ActSetSsidPassword cstr "cstr option"
  | ActNetworkInfoClear
  | ActConnectAsync
  | ActEnableWps
  | ActFreeResp resource
  | CbGet cstr "cstr option" bool \<comment> \<open>file, parameters, access from LAN\<close>
  | CbPost cstr "cstr option" cstr bool \<comment> \<open>file, parameters, body, access from LAN\<close>
  | CbDelete cstr "cstr option" bool

record server =
  sv_web :: web
  sv_ecdh :: ecdh_state
  sv_timestamp :: int \<comment> \<open>\<open>g_http_server_request_timestamp\<close>\<close>
  sv_acts :: "action list"

record app =
  app_host :: hostinfo
  app_saved_ssid :: cstr
  app_eth_connected :: bool
  app_scan_json :: "cstr option"
  app_status_json :: "cstr option" \<comment> \<open>\<open>None\<close>: the network information stays locked for 500 ms\<close>
  app_cb_get :: "cstr \<Rightarrow> cstr option \<Rightarrow> bool \<Rightarrow> http_resp"
  app_cb_post :: "cstr \<Rightarrow> cstr option \<Rightarrow> cstr \<Rightarrow> bool \<Rightarrow> http_resp"
  app_cb_delete :: "cstr \<Rightarrow> cstr option \<Rightarrow> bool \<Rightarrow> http_resp"

record req_param =
  rp_req :: http_req_view
  rp_remote_ip :: cstr
  rp_info :: auth_info
  rp_lan :: bool

type_synonym handled = "(http_resp \<times> server) faulting"

definition act :: "action list \<Rightarrow> server \<Rightarrow> server" where
  "act xs s = s\<lparr>sv_acts := sv_acts s @ xs\<rparr>"

definition on_web :: "(web \<Rightarrow> (http_resp \<times> web) faulting) \<Rightarrow> server \<Rightarrow> handled" where
  "on_web f s = map_option (\<lambda>(r, w). (r, s\<lparr>sv_web := w\<rparr>)) (f (sv_web s))"

definition auth_param_of :: "app \<Rightarrow> req_param \<Rightarrow> bool \<Rightarrow> auth_param" where
  "auth_param_of a q rw =
     \<lparr>ap_from_lan = rp_lan q, ap_check_rw = rw, ap_header = v_header (rp_req q), ap_remote_ip = rp_remote_ip q,
      ap_info = rp_info q, ap_host = app_host a\<rparr>"

definition gated ::
  "(http_resp \<times> bool \<times> web) faulting \<Rightarrow> server \<Rightarrow> (server \<Rightarrow> handled) \<Rightarrow> handled" where
  \<comment> \<open>the check of the credentials in front of the handlers of POST and DELETE\<close>
  "gated checked s handler = do {
     (r, bearer, w1) \<leftarrow> checked;
     if resp_code r \<noteq> 200 then Some (r, s\<lparr>sv_web := w1\<rparr>) else handler (s\<lparr>sv_web := w1\<rparr>) }"

subsection \<open>GET\<close>

definition get_needs_auth :: "cstr \<Rightarrow> bool" where
  \<comment> \<open>a file without an extension, or a JSON file\<close>
  "get_needs_auth file =
     (case strrchr_idx file (CHR ''.'') of None \<Rightarrow> True | Some i \<Rightarrow> drop i file = ''.json'')"

definition prev_url_cookie :: "cstr \<Rightarrow> cstr" where
  "prev_url_cookie file = ''Set-Cookie: RUUVI_PREV_URL=/'' @ file"

definition get_check_auth :: "env \<Rightarrow> app \<Rightarrow> cstr \<Rightarrow> req_param \<Rightarrow> server \<Rightarrow> (http_resp option \<times> server) faulting" where
  \<comment> \<open>the answer of a refused request, if it is refused\<close>
  "get_check_auth e a file q s = do {
     (r, bearer, w1) \<leftarrow> handle_req_check_auth e (auth_param_of a q (file = ''ap.json'')) (sv_web s);
     if \<not> bearer \<and> resp_code r = 401
        \<and> (auth_type (rp_info q) = AUTH_RUUVI \<or> auth_type (rp_info q) = AUTH_DEFAULT) then
       let w2 = (if file \<noteq> ''ap.json'' \<and> file \<noteq> ''status.json'' then set_extra (prev_url_cookie file) w1 else w1)
       in Some (Some (resp_err 302), s\<lparr>sv_web := w2\<rparr>)
     else if resp_code r \<noteq> 200 then Some (Some r, s\<lparr>sv_web := w1\<rparr>)
     else Some (None, s\<lparr>sv_web := w1\<rparr>) }"

definition get_content :: "app \<Rightarrow> cstr \<Rightarrow> req_param \<Rightarrow> server \<Rightarrow> http_resp \<times> server" where
  "get_content a file q s =
     (if file = ''ap.json'' then
        (case app_scan_json a of
           None \<Rightarrow> (resp_err 503, act [ActScan] s)
         | Some json \<Rightarrow> (resp_200_json_in_heap json, act [ActScan] s))
      else if file = ''status.json'' then
        (case app_status_json a of
           None \<Rightarrow> (resp_err 503, act [ActStatusRequested] s)
         | Some json \<Rightarrow> (resp_200_json json, act [ActStatusRequested] s))
      else (app_cb_get a file (v_uri_params (rp_req q)) (rp_lan q),
            act [CbGet file (v_uri_params (rp_req q)) (rp_lan q)] s))"

definition handle_req_get :: "env \<Rightarrow> app \<Rightarrow> cstr \<Rightarrow> req_param \<Rightarrow> server \<Rightarrow> handled" where
  "handle_req_get e a file_unchecked q s =
     (let timestamp = (case http_req_header_get_field (v_header (rp_req q)) ''X-Request-Timestamp:'' of
                         None \<Rightarrow> 0
                       | Some (p, len) \<Rightarrow> strtol10 p);
          s1 = s\<lparr>sv_timestamp := timestamp\<rparr>;
          file = (if file_unchecked = [] then ''index.html'' else file_unchecked)
      in if file = ''auth'' then on_web (handle_req_get_auth e (auth_param_of a q False)) s1
         else if get_needs_auth file then do {
           (refused, s2) \<leftarrow> get_check_auth e a file q s1;
           Some (case refused of Some r \<Rightarrow> (r, s2) | None \<Rightarrow> get_content a file q s2) }
         else Some (get_content a file q s1))"

subsection \<open>DELETE\<close>

definition delete_connect_json :: "app \<Rightarrow> req_param \<Rightarrow> server \<Rightarrow> http_resp \<times> server" where
  "delete_connect_json a q s =
     (if rp_lan q then (resp_err 403, s)
      else (resp_200_json ''{}'',
            act [ActDnsServerStop, ActDisableWps, ActReasonUserDisconnect,
                 if app_eth_connected a then ActDisconnectEth else ActDisconnectWifi] s))"

definition handle_req_delete :: "env \<Rightarrow> app \<Rightarrow> cstr \<Rightarrow> req_param \<Rightarrow> server \<Rightarrow> handled" where
  "handle_req_delete e a file q s =
     gated (handle_req_check_auth e (auth_param_of a q True) (sv_web s)) s (\<lambda>s1.
       if file = ''auth'' then
         on_web (handle_req_delete_auth e (v_header (rp_req q)) (rp_remote_ip q) (rp_info q) (app_host a)) s1
       else if file = ''connect.json'' then Some (delete_connect_json a q s1)
       else Some (app_cb_delete a file (v_uri_params (rp_req q)) (rp_lan q),
                  act [CbDelete file (v_uri_params (rp_req q)) (rp_lan q)] s1))"

subsection \<open>POST\<close>

definition MAX_SSID_SIZE :: nat where "MAX_SSID_SIZE = 32"
definition MAX_PASSWORD_SIZE :: nat where "MAX_PASSWORD_SIZE = 64"

record wifi_ssid_password =
  is_ssid_null :: bool
  is_password_null :: bool
  wsp_ssid :: cstr
  wsp_password :: cstr

definition parse_cjson_wifi_ssid_password :: "cjson \<Rightarrow> wifi_ssid_password option" where
  "parse_cjson_wifi_ssid_password root =
     (case root ''ssid'' of
        None \<Rightarrow> None
      | Some p_ssid \<Rightarrow>
          case root ''password'' of
            None \<Rightarrow> None
          | Some p_password \<Rightarrow>
              (let too_long = (\<lambda>p size. case p of None \<Rightarrow> False | Some t \<Rightarrow> length t \<ge> size);
                   text = (\<lambda>p size. case p of None \<Rightarrow> [] | Some t \<Rightarrow> snprintf_s size t)
               in if too_long p_ssid MAX_SSID_SIZE then None
                  else if too_long p_password MAX_PASSWORD_SIZE then None
                  else Some \<lparr>is_ssid_null = (p_ssid = None), is_password_null = (p_password = None),
                             wsp_ssid = text p_ssid MAX_SSID_SIZE,
                             wsp_password = text p_password MAX_PASSWORD_SIZE\<rparr>))"

definition parse_json_wifi_ssid_password :: "env \<Rightarrow> cstr \<Rightarrow> web \<Rightarrow> wifi_ssid_password option \<times> web" where
  "parse_json_wifi_ssid_password e json w =
     (case json_parse e json w of
        (None, w) \<Rightarrow> (None, w)
      | (Some root, w) \<Rightarrow> let ret = parse_cjson_wifi_ssid_password root in (ret, json_delete w))"

definition on_json :: "(web \<Rightarrow> 'r \<times> web) \<Rightarrow> server \<Rightarrow> 'r \<times> server" where
  "on_json f s = (let (r, w) = f (sv_web s) in (r, s\<lparr>sv_web := w\<rparr>))"

definition post_connect_json :: "env \<Rightarrow> app \<Rightarrow> cstr \<Rightarrow> server \<Rightarrow> http_resp \<times> server" where
  "post_connect_json e a body s =
     (case on_json (parse_json_wifi_ssid_password e body) s of
        (None, s) \<Rightarrow> (resp_err 400, s)
      | (Some info, s) \<Rightarrow>
          if is_ssid_null info \<and> is_password_null info then (resp_200_json ''{}'', act [ActConnectEth] s)
          else if is_ssid_null info then (resp_err 400, s)
          else
            let s1 = (if is_password_null info then
                        if app_saved_ssid a = wsp_ssid info then s
                        else act [ActSetSsidPassword (wsp_ssid info) None] s
                      else act [ActSetSsidPassword (wsp_ssid info) (Some (wsp_password info))] s)
            in (resp_200_json ''{}'', act [ActNetworkInfoClear, ActConnectAsync] s1))"

definition post_connect_wps :: "server \<Rightarrow> http_resp \<times> server" where
  "post_connect_wps s = (resp_200_json ''{}'', act [ActEnableWps] s)"

definition handle_req_post :: "env \<Rightarrow> app \<Rightarrow> cstr \<Rightarrow> req_param \<Rightarrow> cstr \<Rightarrow> server \<Rightarrow> handled" where
  "handle_req_post e a file q body s =
     (if file = ''auth'' then
        on_web (handle_req_post_auth e (rp_lan q) (v_header (rp_req q)) (rp_remote_ip q) body (rp_info q) (app_host a)) s
      else gated (handle_req_check_auth e (auth_param_of a q True) (sv_web s)) s (\<lambda>s1.
        Some (
          if file = ''connect.json'' then if rp_lan q then (resp_err 403, s1) else post_connect_json e a body s1
          else if file = ''connect_wps'' then if rp_lan q then (resp_err 403, s1) else post_connect_wps s1
          else (app_cb_post a file (v_uri_params (rp_req q)) body (rp_lan q),
                act [CbPost file (v_uri_params (rp_req q)) body (rp_lan q)] s1))))"

subsection \<open>Encryption\<close>

definition handle_ruuvi_ecdh_pub_key ::
  "env \<Rightarrow> crypto \<Rightarrow> cstr \<Rightarrow> nat \<Rightarrow> server \<Rightarrow> cstr option \<times> server" where
  "handle_ruuvi_ecdh_pub_key e c key len s =
     (if len \<ge> ECDH_PUB_KEY_B64_SIZE then (None, s)
      else
        let (res, st, w) = ecdh_handshake e c (take len key) (sv_ecdh s) (sv_web s)
        in (res, s\<lparr>sv_ecdh := st, sv_web := w\<rparr>))"

definition append_extra :: "cstr \<Rightarrow> web \<Rightarrow> web" where
  "append_extra t w =
     w\<lparr>w_extra := w_extra w @ snprintf_s (EXTRA_HEADER_FIELDS_SIZE - length (w_extra w)) t\<rparr>"

definition handle_req_get_with_ecdh_key :: "env \<Rightarrow> crypto \<Rightarrow> app \<Rightarrow> cstr \<Rightarrow> req_param \<Rightarrow> server \<Rightarrow> handled" where
  "handle_req_get_with_ecdh_key e c a path q s = do {
     (resp, s1) \<leftarrow> handle_req_get e a path q s;
     case http_req_header_get_field (v_header (rp_req q)) ''Ruuvi-Ecdh-Pub-Key:'' of
       None \<Rightarrow> Some (resp, s1)
     | Some (key, len) \<Rightarrow>
         (case handle_ruuvi_ecdh_pub_key e c key len s1 of
            (None, s2) \<Rightarrow> Some (resp_err 500, act (map ActFreeResp (resp_free resp)) s2)
          | (Some srv_key, s2) \<Rightarrow>
              Some (resp, s2\<lparr>sv_web := append_extra (''Ruuvi-Ecdh-Pub-Key: '' @ srv_key @ crlf) (sv_web s2)\<rparr>)) }"

definition parse_encrypted_req :: "cjson \<Rightarrow> encrypted_req option" where
  "parse_encrypted_req root =
     (case (Option.bind (root ''encrypted'') id, Option.bind (root ''iv'') id, Option.bind (root ''hash'') id) of
        (Some encrypted, Some iv, Some hash) \<Rightarrow>
          Some \<lparr>enc_encrypted = encrypted, enc_iv = iv, enc_hash = hash\<rparr>
      | _ \<Rightarrow> None)"

definition http_server_decrypt :: "env \<Rightarrow> crypto \<Rightarrow> byte list \<Rightarrow> cstr \<Rightarrow> web \<Rightarrow> (cstr option \<times> web) faulting" where
  "http_server_decrypt e c key body w =
     (case json_parse e body w of
        (None, w) \<Rightarrow> Some (None, w)
      | (Some root, w) \<Rightarrow>
          case parse_encrypted_req root of
            None \<Rightarrow> Some (None, json_delete w)
          | Some enc_req \<Rightarrow> do {
              (res, w) \<leftarrow> ecdh_decrypt e c key enc_req w;
              Some (res, json_delete w) })"

definition http_server_decrypt_by_params ::
  "env \<Rightarrow> crypto \<Rightarrow> byte list \<Rightarrow> cstr \<Rightarrow> cstr \<Rightarrow> cstr \<Rightarrow> web \<Rightarrow> (cstr option \<times> web) faulting" where
  "http_server_decrypt_by_params e c key encrypted iv hash w =
     ecdh_decrypt e c key \<lparr>enc_encrypted = encrypted, enc_iv = iv, enc_hash = hash\<rparr> w"

definition flag_encrypted :: "req_param \<Rightarrow> bool" where
  "flag_encrypted q =
     (case http_req_header_get_field (v_header (rp_req q)) ''Ruuvi-Ecdh-Encrypted:'' of
        None \<Rightarrow> False
      | Some (p, len) \<Rightarrow> strncmp_eq p ''true'' len)"

definition handle_req_post_with_ecdh_key :: "env \<Rightarrow> crypto \<Rightarrow> app \<Rightarrow> cstr \<Rightarrow> req_param \<Rightarrow> server \<Rightarrow> handled" where
  "handle_req_post_with_ecdh_key e c a path q s =
     (let body = v_body (rp_req q)
      in if flag_encrypted q then do {
           (res, w1) \<leftarrow> http_server_decrypt e c (ecdh_aes_key (sv_ecdh s)) body (sv_web s);
           let s1 = s\<lparr>sv_web := w1\<rparr>;
           case res of
             None \<Rightarrow> Some (resp_err 400, s1)
           | Some plain \<Rightarrow>
               if length plain > HTTP_SERVER_MAX_UNENCRYPTED_CONTENT_SIZE
               then Some (resp_err 400, s1\<lparr>sv_web := heap_free w1\<rparr>)
               else map_option (\<lambda>(r, s2). (r, s2\<lparr>sv_web := heap_free (sv_web s2)\<rparr>)) (handle_req_post e a path q plain s1) }
         else if length body > HTTP_SERVER_MAX_UNENCRYPTED_CONTENT_SIZE then Some (resp_err 400, s)
         else handle_req_post e a path q body s)"

definition req_path :: "req_param \<Rightarrow> cstr" where
  "req_path q = (let p = v_uri (rp_req q) in if prefix ''/'' p then tl p else p)"

definition handle_req :: "env \<Rightarrow> crypto \<Rightarrow> app \<Rightarrow> req_param \<Rightarrow> server \<Rightarrow> handled" where
  "handle_req e c a q s =
     (let s1 = s\<lparr>sv_web := (sv_web s)\<lparr>w_extra := []\<rparr>\<rparr>;
          path = req_path q;
          cmd = v_cmd (rp_req q)
      in if cmd = ''GET'' then handle_req_get_with_ecdh_key e c a path q s1
         else if cmd = ''DELETE'' then handle_req_delete e a path q s1
         else if cmd = ''POST'' then handle_req_post_with_ecdh_key e c a path q s1
         else Some (resp_err 400, s1))"

lemma on_json_parsed [simp]:
  "on_json (parse_json_wifi_ssid_password e body) s = (Option.bind (cjson_parse e body) parse_cjson_wifi_ssid_password, s)"
  using json_parse_freed [of e body "sv_web s"]
  by (auto simp: on_json_def parse_json_wifi_ssid_password_def json_parse_def split: option.splits)

section \<open>The policy without the heap\<close>

definition entitled :: "env \<Rightarrow> auth_param \<Rightarrow> web \<Rightarrow> bool" where
  \<comment> \<open>the access policy, whatever the heap answers\<close>
  "entitled e prm w \<longleftrightarrow>
     (if \<not> ap_from_lan prm then True
      else if bearer_used (ap_header prm) then bearer_grants (ap_header prm) (ap_check_rw prm) (ap_info prm)
      else case auth_type (ap_info prm) of
        AUTH_ALLOW \<Rightarrow> True
      | AUTH_BASIC \<Rightarrow> basic_grants (ap_header prm) (ap_info prm)
      | AUTH_DIGEST \<Rightarrow> digest_grants e prm w
      | AUTH_RUUVI \<Rightarrow> ruuvi_grants e prm w
      | AUTH_DEFAULT \<Rightarrow> ruuvi_grants e prm w
      | AUTH_DENY \<Rightarrow> False
      | AUTH_BEARER \<Rightarrow> False)"

lemma granted_entitled: "granted e prm w \<Longrightarrow> entitled e prm w"
  by (cases "auth_type (ap_info prm)")
    (simp_all add: granted_def entitled_def type_grants_def split: if_splits)

lemma entitled_cong:
  assumes "w_auth w' = w_auth w"
  shows "entitled e prm w' = entitled e prm w"
proof -
  have "get_ruuvi e w' = get_ruuvi e w" using assms by (simp add: get_ruuvi_def)
  then have "digest_grants e prm w' = digest_grants e prm w" "ruuvi_grants e prm w' = ruuvi_grants e prm w"
    using assms by (simp_all add: digest_grants_def ruuvi_grants_def)
  then show ?thesis by (cases "auth_type (ap_info prm)") (simp_all add: entitled_def)
qed

section \<open>The gate\<close>

text \<open>
  The contract of a check of credentials: it answers, it keeps a relation on the state, and
  it answers 200 only to a request that its policy admits. A handler behind it runs only then.
\<close>

locale access_gate =
  fixes check :: "'p \<Rightarrow> web \<Rightarrow> (http_resp \<times> bool \<times> web) option"
    and ready :: "'p \<Rightarrow> web \<Rightarrow> bool"
    and admits :: "'p \<Rightarrow> web \<Rightarrow> bool"
    and keeps :: "web \<Rightarrow> web \<Rightarrow> bool"
  assumes check_answers: "ready p w \<Longrightarrow>
      \<exists>r b w'. check p w = Some (r, b, w') \<and> keeps w w' \<and> (resp_code r = 200 \<longrightarrow> admits p w)"
begin

lemma answers:
  assumes "ready p w"
  obtains r b w' where "check p w = Some (r, b, w')" "keeps w w'" "resp_code r = 200 \<longrightarrow> admits p w"
  using check_answers [OF assms] by blast

lemma gated_rule:
  assumes "ready p (sv_web s)"
    and "\<And>r w'. keeps (sv_web s) w' \<Longrightarrow> resp_code r \<noteq> 200 \<Longrightarrow> P (Some (r, s\<lparr>sv_web := w'\<rparr>))"
    and "\<And>w'. keeps (sv_web s) w' \<Longrightarrow> admits p (sv_web s) \<Longrightarrow> P (handler (s\<lparr>sv_web := w'\<rparr>))"
  shows "P (gated (check p (sv_web s)) s handler)"
proof -
  from answers [OF assms(1)] obtain r b w' where c: "check p (sv_web s) = Some (r, b, w')"
    "keeps (sv_web s) w'" "resp_code r = 200 \<longrightarrow> admits p (sv_web s)" .
  with assms(2) [OF c(2), of r] assms(3) [OF c(2)] show ?thesis
    by (cases "resp_code r = 200") (simp_all add: gated_def)
qed

lemma not_admitted_is_inert:
  assumes "ready p (sv_web s)" "\<not> admits p (sv_web s)"
  shows "\<exists>r w'. gated (check p (sv_web s)) s handler = Some (r, s\<lparr>sv_web := w'\<rparr>) \<and> resp_code r \<noteq> 200"
  by (rule gated_rule [OF assms(1)]) (use assms(2) in auto)

end

definition gate_ready :: "env \<Rightarrow> auth_param \<Rightarrow> web \<Rightarrow> bool" where
  "gate_ready e prm w \<longleftrightarrow> env_doc e \<and> web_wf w \<and> param_ok prm w"

definition gate_keeps :: "env \<Rightarrow> web \<Rightarrow> web \<Rightarrow> bool" where
  "gate_keeps e w w' \<longleftrightarrow> same_grants e w w' \<and> web_wf w'"

interpretation gate: access_gate "handle_req_check_auth e" "gate_ready e" "entitled e" "gate_keeps e"
proof
  fix prm w
  assume "gate_ready e prm w"
  then obtain r b w' where "handle_req_check_auth e prm w = Some (r, b, w')"
    "if granted e prm w then passes e w (r, w') else asks e w (r, w')"
    unfolding gate_ready_def using check_auth_spec by blast
  then show "\<exists>r b w'. handle_req_check_auth e prm w = Some (r, b, w') \<and> gate_keeps e w w'
      \<and> (resp_code r = 200 \<longrightarrow> entitled e prm w)"
    using granted_entitled [of e prm w]
    by (auto simp: passes_def asks_def gate_keeps_def split: if_splits)
qed

section \<open>What a request may do\<close>

definition login_request :: "req_param \<Rightarrow> bool" where
  "login_request q \<longleftrightarrow> v_cmd (rp_req q) = ''POST'' \<and> req_path q = ''auth'' \<and> rp_lan q"

definition logs_in :: "env \<Rightarrow> req_param \<Rightarrow> cstr option \<Rightarrow> web \<Rightarrow> authorized_session \<Rightarrow> bool" where
  \<comment> \<open>the request, with the plain text b of its body, is a login that succeeds, and this is its session\<close>
  "logs_in e q b w x \<longleftrightarrow> login_request q
     \<and> get_session_id_from_cookies (v_header (rp_req q)) = Some (True, as_session_id x)
     \<and> as_remote_ip x = rp_remote_ip q
     \<and> (\<exists>body. b = Some body \<and> login_grants e (v_header (rp_req q)) (rp_remote_ip q) body (rp_info q) w)"

definition web_effect :: "env \<Rightarrow> req_param \<Rightarrow> cstr option \<Rightarrow> web \<Rightarrow> web \<Rightarrow> bool" where
  "web_effect e q b w w' \<longleftrightarrow> web_wf w' \<and> g_auth_info (w_auth w') = g_auth_info (w_auth w)
     \<and> (w_live w' = w_live w \<or> login_request q \<and> w_live w' = w_live w + 1)
     \<and> (auth_ty w \<in> {AUTH_RUUVI, AUTH_DEFAULT} \<longrightarrow>
          (\<forall>x\<in>set (authorized_sessions (get_ruuvi e w')). as_session_id x \<noteq> [] \<longrightarrow>
             x \<in> set (authorized_sessions (get_ruuvi e w)) \<or> logs_in e q b w x))"

definition act_ok :: "env \<Rightarrow> app \<Rightarrow> req_param \<Rightarrow> web \<Rightarrow> action \<Rightarrow> bool" where
  \<comment> \<open>what the policy asks for an action\<close>
  "act_ok e a q w x =
     (case x of
        ActScan \<Rightarrow> entitled e (auth_param_of a q True) w
      | ActStatusRequested \<Rightarrow> entitled e (auth_param_of a q False) w
      | ActFreeResp r \<Rightarrow> True
      | CbGet file ps lan \<Rightarrow> get_needs_auth file \<longrightarrow> entitled e (auth_param_of a q False) w
      | CbPost file ps body lan \<Rightarrow> entitled e (auth_param_of a q True) w
          \<and> length body \<le> HTTP_SERVER_MAX_UNENCRYPTED_CONTENT_SIZE
      | CbDelete file ps lan \<Rightarrow> entitled e (auth_param_of a q True) w
      | _ \<Rightarrow> \<not> rp_lan q)"

definition effect :: "env \<Rightarrow> app \<Rightarrow> req_param \<Rightarrow> cstr option \<Rightarrow> server \<Rightarrow> server \<Rightarrow> bool" where
  "effect e a q b s s' \<longleftrightarrow> web_effect e q b (sv_web s) (sv_web s')
     \<and> (\<exists>new. sv_acts s' = sv_acts s @ new \<and> (\<forall>x\<in>set new. act_ok e a q (sv_web s) x))"

definition handles :: "env \<Rightarrow> app \<Rightarrow> req_param \<Rightarrow> cstr option \<Rightarrow> server \<Rightarrow> handled \<Rightarrow> bool" where
  "handles e a q b s m \<longleftrightarrow> (\<exists>r s'. m = Some (r, s') \<and> effect e a q b s s')"

lemma get_ruuvi_cong: "w_auth w' = w_auth w \<Longrightarrow> get_ruuvi e w' = get_ruuvi e w"
  by (simp add: get_ruuvi_def)

lemma act_ok_cong: "w_auth w' = w_auth w \<Longrightarrow> act_ok e a q w' x = act_ok e a q w x"
  by (cases x) (simp_all add: act_ok_def entitled_cong [of w' w])

lemma logs_in_cong: "w_auth w' = w_auth w \<Longrightarrow> logs_in e q b w' x = logs_in e q b w x"
  by (simp add: logs_in_def login_grants_def get_ruuvi_cong [of w' w])

lemma web_effect_same: "same_grants e w w' \<Longrightarrow> web_wf w' \<Longrightarrow> web_effect e q b w w'"
  by (auto simp: web_effect_def same_grants_def ruuvi_type_def)

lemma web_effect_cong:
  assumes "w_auth v = w_auth w" "w_live v = w_live w"
  shows "web_effect e q b v w' = web_effect e q b w w'"
  using assms logs_in_cong [OF assms(1), of e q] get_ruuvi_cong [OF assms(1), of e]
  by (simp add: web_effect_def auth_ty_def)

lemma web_effect_upd:
  assumes "web_effect e q b w w1" "w_auth w2 = w_auth w1" "w_live w2 = w_live w1" "web_wf w2"
  shows "web_effect e q b w w2"
  using assms get_ruuvi_cong [OF assms(2), of e] by (simp add: web_effect_def)

lemma web_effect_before:
  assumes "same_grants e w w1" "web_effect e q b w1 w'" "\<not> login_request q"
  shows "web_effect e q b w w'"
  using assms by (auto simp: web_effect_def same_grants_def ruuvi_type_def logs_in_def auth_ty_def)

lemma handlesI: "m = Some (r, s') \<Longrightarrow> effect e a q b s s' \<Longrightarrow> handles e a q b s m"
  by (simp add: handles_def)

lemma effect_same:
  "same_grants e (sv_web s) w' \<Longrightarrow> web_wf w' \<Longrightarrow> effect e a q b s (s\<lparr>sv_web := w'\<rparr>)"
  by (simp add: effect_def web_effect_same)

lemma effect_acts:
  assumes "same_grants e (sv_web s) w'" "web_wf w'" "\<forall>x\<in>set new. act_ok e a q (sv_web s) x"
    and "sv_web s' = w'" "sv_acts s' = sv_acts s @ new"
  shows "effect e a q b s s'"
  using assms by (simp add: effect_def web_effect_same)

section \<open>The handlers\<close>

lemma post_auth_effect_oom:
  \<comment> \<open>a login from the LAN without memory for its blocks\<close>
  assumes "gate_ready e (auth_param_of a q rw) w" "login_request q" "rp_lan q"
    and "auth_type (rp_info q) = AUTH_RUUVI \<or> auth_type (rp_info q) = AUTH_DEFAULT"
    and oom: "\<not> alloc_ok e (w_allocs w) \<or> \<not> alloc_ok e (w_allocs w + 1)"
  shows "\<exists>r w'. handle_req_post_auth e True (v_header (rp_req q)) (rp_remote_ip q) body (rp_info q)
      (app_host a) w = Some (r, w') \<and> web_effect e q (Some body) w w'"
proof -
  let ?h = "v_header (rp_req q)"
  let ?ip = "rp_remote_ip q"
  have p: "env_doc e" "web_wf w" "host_ok (app_host a)" "nul_free ?h" "length ?h < 2 ^ 31"
    "fits STA_IP_STRING_SIZE ?ip" "rp_info q = g_auth_info (w_auth w)"
    using assms(1) by (simp_all add: gate_ready_def param_ok_def auth_param_of_def)
  have rt: "ruuvi_type (auth_ty w)" using assms(4) p(7) by (auto simp: auth_ty_def ruuvi_type_def)
  let ?w1 = "snd (heap_alloc e w)"
  let ?ask = "\<lambda>w. resp_401_auth_ruuvi_with_new_session_id e ?ip (app_host a) (auth_type (rp_info q)) None w"
  let ?chk = "post_auth_check_auth e (auth_type (rp_info q)) ?ip body (rp_info q) (app_host a) ?w1"
  obtain found sid url where sid: "get_session_id_from_cookies ?h = Some (found, sid)"
    "get_prev_url_from_cookies ?h = Some url"
    using get_session_id_ok [OF p(4,5)] get_prev_url_ok [OF p(4,5)] by blast
  have ask: "asks e w (?ask w)" by (rule resp_401_new_session(1) [OF p(1,3,2) rt p(6)])
  consider (none) "\<not> (found \<and> login_session_grants (login_session (get_ruuvi e w)) sid ?ip)"
    | (first) "found \<and> login_session_grants (login_session (get_ruuvi e w)) sid ?ip" "\<not> alloc_ok e (w_allocs w)"
    | (second) "found \<and> login_session_grants (login_session (get_ruuvi e w)) sid ?ip" "alloc_ok e (w_allocs w)" by blast
  then show ?thesis
  proof cases
    case none
    then have "handle_req_post_auth e True ?h ?ip body (rp_info q) (app_host a) w = Some (?ask w)"
      using sid assms(4) by (auto simp: handle_req_post_auth_def check_login_session_spec)
    with ask show ?thesis by (cases "?ask w") (auto simp: asks_def intro!: web_effect_same)
  next
    case first
    then have "handle_req_post_auth e True ?h ?ip body (rp_info q) (app_host a) w = Some (resp_err 500, ?w1)"
      using sid assms(4) by (auto simp: handle_req_post_auth_def check_login_session_spec Let_def case_prod_beta)
    with heap_failed_same [OF first(2)] p(2) show ?thesis by (auto intro!: web_effect_same)
  next
    case second
    with oom post_check_spec [OF p(1,3), of ?w1 ?ip body "rp_info q" "auth_type (rp_info q)"] p(2,6) rt
    have c: "asks e ?w1 ?chk" by simp
    then have "resp_code (fst ?chk) \<noteq> 200" by (auto simp: asks_def)
    then have "handle_req_post_auth e True ?h ?ip body (rp_info q) (app_host a) w = Some ?chk"
      using second sid assms(4) by (auto simp: handle_req_post_auth_def check_login_session_spec Let_def case_prod_beta)
    with c second rt assms(2) show ?thesis
      by (cases ?chk) (auto simp: asks_def same_grants_def web_effect_def)
  qed
qed

lemma post_auth_effect:
  assumes "gate_ready e (auth_param_of a q rw) w" "login_request q \<longleftrightarrow> rp_lan q"
  shows "\<exists>r w'. handle_req_post_auth e (rp_lan q) (v_header (rp_req q)) (rp_remote_ip q) body (rp_info q)
      (app_host a) w = Some (r, w') \<and> web_effect e q (Some body) w w'"
proof (cases "rp_lan q \<and> (auth_type (rp_info q) = AUTH_RUUVI \<or> auth_type (rp_info q) = AUTH_DEFAULT)")
  case False
  with assms(1) fill_auth_json_upd [of e "app_host a" "auth_type (rp_info q)" "rp_lan q" None True w] show ?thesis
    by (cases "rp_lan q") (auto simp: handle_req_post_auth_def gate_ready_def intro!: web_effect_same)
next
  case True
  let ?h = "v_header (rp_req q)"
  let ?ip = "rp_remote_ip q"
  have p: "env_doc e" "web_wf w" "host_ok (app_host a)" "nul_free ?h" "length ?h < 2 ^ 31"
    "fits STA_IP_STRING_SIZE ?ip" "rp_info q = g_auth_info (w_auth w)"
    using assms(1) by (simp_all add: gate_ready_def param_ok_def auth_param_of_def)
  have ty: "auth_ty w \<in> {AUTH_RUUVI, AUTH_DEFAULT}" using True p(7) by (auto simp: auth_ty_def)
  show ?thesis
  proof (cases "alloc_ok e (w_allocs w) \<and> alloc_ok e (w_allocs w + 1)")
    case False
    with post_auth_effect_oom [OF assms(1)] assms(2) \<open>rp_lan q \<and> _\<close> show ?thesis by simp
  next
    case True
    then have ok: "alloc_ok e (w_allocs w)" "alloc_ok e (w_allocs w + 1)" by simp_all
    obtain r w' where run: "handle_req_post_auth e True ?h ?ip body (rp_info q) (app_host a) w = Some (r, w')"
      "web_wf w'" "g_auth_info (w_auth w') = g_auth_info (w_auth w)" and w': "if login_grants e ?h ?ip body (rp_info q) w
       then resp_code r = 200 \<and> w_live w' = w_live w
          \<and> (\<exists>sid. get_session_id_from_cookies ?h = Some (True, sid)
               \<and> authorized_sessions (get_ruuvi e w') = take MAX_NUM_SESSIONS
                   (\<lparr>as_session_id = sid, as_remote_ip = ?ip\<rparr> # authorized_sessions (get_ruuvi e w)))
          \<and> ls_session_id (login_session (get_ruuvi e w')) = []
       else resp_code r \<noteq> 200
          \<and> authorized_sessions (get_ruuvi e w') = authorized_sessions (get_ruuvi e w)
          \<and> w_live w' = w_live w + (if \<exists>sid. get_session_id_from_cookies ?h = Some (True, sid)
                \<and> login_session_grants (login_session (get_ruuvi e w)) sid ?ip then 1 else 0)"
      using post_auth_lan [OF p ty ok, of body] by blast
    have "x \<in> set (authorized_sessions (get_ruuvi e w)) \<or> logs_in e q (Some body) w x"
      if "x \<in> set (authorized_sessions (get_ruuvi e w'))" for x
    proof (cases "login_grants e ?h ?ip body (rp_info q) w")
      case False
      with w' that show ?thesis by simp
    next
      case True
      with w' obtain sid where "get_session_id_from_cookies ?h = Some (True, sid)"
        "authorized_sessions (get_ruuvi e w') = take MAX_NUM_SESSIONS
           (\<lparr>as_session_id = sid, as_remote_ip = ?ip\<rparr> # authorized_sessions (get_ruuvi e w))" by auto
      with that True assms(2) \<open>rp_lan q \<and> _\<close> show ?thesis
        by (auto simp: logs_in_def dest!: in_set_takeD)
    qed
    then show ?thesis
      using run w' assms(2) \<open>rp_lan q \<and> _\<close> by (auto simp: web_effect_def split: if_splits)
  qed
qed

lemma get_auth_effect:
  assumes "gate_ready e (auth_param_of a q rw) w"
  shows "\<exists>r w'. handle_req_get_auth e (auth_param_of a q rw) w = Some (r, w') \<and> web_effect e q b w w'"
proof -
  obtain r w' where run: "handle_req_get_auth e (auth_param_of a q rw) w = Some (r, w')" "web_wf w'"
    "w_live w' = w_live w" "g_auth_info (w_auth w') = g_auth_info (w_auth w)"
    "auth_ty w \<noteq> AUTH_ALLOW \<longrightarrow> same_grants e w w'"
    using assms unfolding gate_ready_def by (elim conjE) (use get_auth_wf in blast)
  then have "web_effect e q b w w'"
    by (cases "auth_ty w = AUTH_ALLOW") (simp add: web_effect_def, simp add: web_effect_same)
  with run(1) show ?thesis by blast
qed

lemma delete_auth_effect:
  assumes "gate_ready e (auth_param_of a q rw) w"
  shows "\<exists>r w'. handle_req_delete_auth e (v_header (rp_req q)) (rp_remote_ip q) (rp_info q) (app_host a) w = Some (r, w')
    \<and> web_effect e q b w w'"
proof (cases "ruuvi_type (auth_ty w)")
  case True
  have p: "web_wf w" "nul_free (v_header (rp_req q))" "length (v_header (rp_req q)) < 2 ^ 31"
    "rp_info q = g_auth_info (w_auth w)"
    using assms by (simp_all add: gate_ready_def param_ok_def auth_param_of_def)
  show ?thesis
  proof (cases rule: delete_auth_run [OF p(1-3) True p(4), where e = e and ip = "rp_remote_ip q" and h = "app_host a",
        case_names refused deleted])
    case (refused r w')
    then show ?thesis by (auto intro: web_effect_same)
  next
    case (deleted sid i)
    let ?a = "authorized_sessions (get_ruuvi e w)"
    let ?r = "(get_ruuvi e w)\<lparr>authorized_sessions := ?a[i := (?a ! i)\<lparr>as_session_id := []\<rparr>]\<rparr>"
    have "ruuvi_ok (get_ruuvi e w)" by (rule web_wf_ruuvi [OF p(1) True])
    then have "ruuvi_ok ?r"
      using deleted(4) by (auto simp: ruuvi_ok_def list_all_length nth_list_update session_ok_def SESSION_ID_SIZE_def)
    then have "web_wf (put_ruuvi ?r w)" by (rule web_wf_put_ruuvi [OF p(1) True])
    moreover have "x \<in> set ?a" if "x \<in> set (authorized_sessions ?r)" "as_session_id x \<noteq> []" for x
      using that by (auto dest: set_update_subset_insert [THEN subsetD])
    ultimately have "web_effect e q b w (put_ruuvi ?r w)" by (auto simp: web_effect_def)
    with deleted(3) show ?thesis by blast
  qed
next
  case False
  with assms have "auth_type (rp_info q) \<noteq> AUTH_RUUVI" "auth_type (rp_info q) \<noteq> AUTH_DEFAULT" "web_wf w"
    by (auto simp: gate_ready_def param_ok_def auth_param_of_def auth_ty_def ruuvi_type_def)
  then show ?thesis by (simp add: handle_req_delete_auth_def web_effect_same)
qed

lemma on_web_handles:
  assumes "\<exists>r w'. f (sv_web s) = Some (r, w') \<and> web_effect e q b (sv_web s) w'"
  shows "handles e a q b s (on_web f s)"
  using assms by (auto simp: handles_def on_web_def effect_def)

lemma get_check_auth_run:
  assumes "gate_ready e (auth_param_of a q (file = ''ap.json'')) (sv_web s)" "nul_free file"
  shows "\<exists>refused s2. get_check_auth e a file q s = Some (refused, s2)
    \<and> same_grants e (sv_web s) (sv_web s2) \<and> web_wf (sv_web s2) \<and> sv_acts s2 = sv_acts s
    \<and> (refused = None \<longrightarrow> entitled e (auth_param_of a q (file = ''ap.json'')) (sv_web s))"
proof -
  from gate.answers [OF assms(1)] obtain r b w' where
    c: "handle_req_check_auth e (auth_param_of a q (file = ''ap.json'')) (sv_web s) = Some (r, b, w')"
    "gate_keeps e (sv_web s) w'"
    "resp_code r = 200 \<longrightarrow> entitled e (auth_param_of a q (file = ''ap.json'')) (sv_web s)" .
  have "nul_free (prev_url_cookie file)" using assms(2) by (simp add: prev_url_cookie_def)
  with c show ?thesis
    by (auto simp: get_check_auth_def gate_keeps_def web_wf_set_extra Let_def)
qed

lemma needs_auth_names: "get_needs_auth ''ap.json''" "get_needs_auth ''status.json''"
  by code_simp+

lemma get_content_effect:
  assumes "same_grants e (sv_web s) (sv_web s2)" "web_wf (sv_web s2)" "sv_acts s2 = sv_acts s"
    and "get_needs_auth file \<longrightarrow> entitled e (auth_param_of a q (file = ''ap.json'')) (sv_web s)"
  shows "effect e a q b s (snd (get_content a file q s2))"
  using assms needs_auth_names
  by (auto simp: get_content_def effect_def act_def act_ok_def web_effect_same split: option.splits)

lemma gate_ready_rw: "gate_ready e (auth_param_of a q rw) w \<Longrightarrow> gate_ready e (auth_param_of a q rw') w"
  by (simp add: gate_ready_def param_ok_def auth_param_of_def)

lemma gate_ready_cong: "w_auth w' = w_auth w \<Longrightarrow> web_wf w' \<Longrightarrow>
    gate_ready e (auth_param_of a q rw) w \<Longrightarrow> gate_ready e (auth_param_of a q rw') w'"
  by (simp add: gate_ready_def param_ok_def auth_param_of_def)

lemma get_handles:
  assumes "gate_ready e (auth_param_of a q True) (sv_web s)" "nul_free path"
  shows "handles e a q b s (handle_req_get e a path q s)"
proof -
  define ts where "ts = (case http_req_header_get_field (v_header (rp_req q)) ''X-Request-Timestamp:'' of
                         None \<Rightarrow> 0 | Some (p, len) \<Rightarrow> strtol10 p)"
  define fl where "fl = (if path = [] then ''index.html'' else path)"
  let ?s1 = "s\<lparr>sv_timestamp := ts\<rparr>"
  have fl: "nul_free fl" using assms(2) by (simp add: fl_def)
  note ready = gate_ready_rw [OF assms(1)]
  have run: "handle_req_get e a path q s =
      (if fl = ''auth'' then on_web (handle_req_get_auth e (auth_param_of a q False)) ?s1
       else if get_needs_auth fl then do {
           (refused, s2) \<leftarrow> get_check_auth e a fl q ?s1;
           Some (case refused of Some r \<Rightarrow> (r, s2) | None \<Rightarrow> get_content a fl q s2) }
       else Some (get_content a fl q ?s1))"
    unfolding handle_req_get_def Let_def ts_def [symmetric] fl_def [symmetric] by (rule refl)
  have up: "handles e a q b s m" if "handles e a q b ?s1 m" for m
    using that by (simp add: handles_def effect_def)
  show ?thesis
  proof (cases "fl = ''auth''")
    case True
    have "handles e a q b ?s1 (on_web (handle_req_get_auth e (auth_param_of a q False)) ?s1)"
      by (rule on_web_handles) (use get_auth_effect [OF ready] in simp)
    with True run up show ?thesis by simp
  next
    case False
    show ?thesis
    proof (cases "get_needs_auth fl")
      case True
      obtain refused s2 where c: "get_check_auth e a fl q ?s1 = Some (refused, s2)"
        "same_grants e (sv_web s) (sv_web s2)" "web_wf (sv_web s2)" "sv_acts s2 = sv_acts s"
        "refused = None \<longrightarrow> entitled e (auth_param_of a q (fl = ''ap.json'')) (sv_web s)"
        using get_check_auth_run [where e = e and a = a and q = q and s = ?s1 and ?file = fl]
          ready [of "fl = ''ap.json''"] fl by auto
      show ?thesis
      proof (cases refused)
        case None
        with c get_content_effect [OF c(2-4), where a = a and q = q and ?file = fl] False True run show ?thesis
          by (cases "get_content a fl q s2") (auto simp: handles_def)
      next
        case (Some r)
        with c False True run show ?thesis by (auto simp: handles_def effect_def web_effect_same)
      qed
    next
      case no_auth: False
      have "web_wf (sv_web s)" using assms(1) by (simp add: gate_ready_def)
      with get_content_effect [where e = e and s = s and ?s2.0 = ?s1 and ?file = fl and a = a and q = q] no_auth False run show ?thesis
        by (cases "get_content a fl q ?s1") (auto simp: handles_def)
    qed
  qed
qed

lemma delete_handles:
  assumes "gate_ready e (auth_param_of a q True) (sv_web s)" "\<not> login_request q"
  shows "handles e a q b s (handle_req_delete e a path q s)"
  unfolding handle_req_delete_def
proof (rule gate.gated_rule [OF assms(1)])
  fix r w' assume "gate_keeps e (sv_web s) w'"
  then show "handles e a q b s (Some (r, s\<lparr>sv_web := w'\<rparr>))"
    by (simp add: handles_def effect_same gate_keeps_def)
next
  fix w' assume k: "gate_keeps e (sv_web s) w'" and ent: "entitled e (auth_param_of a q True) (sv_web s)"
  then have wf: "same_grants e (sv_web s) w'" "web_wf w'" by (simp_all add: gate_keeps_def)
  let ?s1 = "s\<lparr>sv_web := w'\<rparr>"
  have "gate_ready e (auth_param_of a q True) w'"
    using assms(1) wf by (simp add: gate_ready_def param_ok_def auth_param_of_def same_grants_def)
  from delete_auth_effect [OF this] obtain r w2 where
    "handle_req_delete_auth e (v_header (rp_req q)) (rp_remote_ip q) (rp_info q) (app_host a) w' = Some (r, w2)"
    "web_effect e q b w' w2" by blast
  with wf(1) assms(2) have logout: "handles e a q b s (on_web (handle_req_delete_auth e (v_header (rp_req q))
      (rp_remote_ip q) (rp_info q) (app_host a)) ?s1)"
    by (auto simp: handles_def on_web_def effect_def intro: web_effect_before)
  show "handles e a q b s (if path = ''auth'' then on_web (handle_req_delete_auth e (v_header (rp_req q))
        (rp_remote_ip q) (rp_info q) (app_host a)) ?s1
      else if path = ''connect.json'' then Some (delete_connect_json a q ?s1)
      else Some (app_cb_delete a path (v_uri_params (rp_req q)) (rp_lan q),
             act [CbDelete path (v_uri_params (rp_req q)) (rp_lan q)] ?s1))"
    using logout wf ent
    by (auto simp: handles_def delete_connect_json_def effect_def act_def act_ok_def web_effect_same)
qed

lemma post_connect_effect:
  assumes "same_grants e (sv_web s) (sv_web s1)" "web_wf (sv_web s1)" "sv_acts s1 = sv_acts s" "\<not> rp_lan q"
  shows "effect e a q b s (snd (post_connect_json e a body s1))" "effect e a q b s (snd (post_connect_wps s1))"
  using assms
  by (auto simp: post_connect_json_def post_connect_wps_def effect_def act_def act_ok_def web_effect_same Let_def
      split: option.splits)

lemma post_handles:
  assumes "gate_ready e (auth_param_of a q True) (sv_web s)"
    and "v_cmd (rp_req q) = ''POST''" "path = req_path q"
    and "length body \<le> HTTP_SERVER_MAX_UNENCRYPTED_CONTENT_SIZE"
  shows "handles e a q (Some body) s (handle_req_post e a path q body s)"
proof (cases "path = ''auth''")
  case True
  with assms(2,3) have "login_request q \<longleftrightarrow> rp_lan q" by (simp add: login_request_def)
  from post_auth_effect [OF assms(1) this] True show ?thesis
    by (simp add: handle_req_post_def on_web_handles)
next
  case False
  show ?thesis
    unfolding handle_req_post_def if_not_P [OF False]
  proof (rule gate.gated_rule [OF assms(1)])
    fix r w' assume "gate_keeps e (sv_web s) w'"
    then show "handles e a q (Some body) s (Some (r, s\<lparr>sv_web := w'\<rparr>))"
      by (simp add: handles_def effect_same gate_keeps_def)
  next
    fix w' assume k: "gate_keeps e (sv_web s) w'" and ent: "entitled e (auth_param_of a q True) (sv_web s)"
    then have wf: "same_grants e (sv_web s) w'" "web_wf w'" by (simp_all add: gate_keeps_def)
    let ?s1 = "s\<lparr>sv_web := w'\<rparr>"
    have refused: "effect e a q (Some body) s ?s1" using wf by (rule effect_same)
    have posted: "effect e a q (Some body) s (act [CbPost path (v_uri_params (rp_req q)) body (rp_lan q)] ?s1)"
      using wf ent assms(4) by (simp add: effect_def act_def act_ok_def web_effect_same)
    note cfg = post_connect_effect(1) [where s = s and ?s1.0 = ?s1 and e = e and q = q and a = a and body = body]
      post_connect_effect(2) [where s = s and ?s1.0 = ?s1 and e = e and q = q and a = a]
    show "handles e a q (Some body) s (Some (
          if path = ''connect.json'' then if rp_lan q then (resp_err 403, ?s1) else post_connect_json e a body ?s1
          else if path = ''connect_wps'' then if rp_lan q then (resp_err 403, ?s1) else post_connect_wps ?s1
          else (app_cb_post a path (v_uri_params (rp_req q)) body (rp_lan q),
                act [CbPost path (v_uri_params (rp_req q)) body (rp_lan q)] ?s1)))"
      using refused posted cfg wf
      by (cases "post_connect_json e a body ?s1"; cases "post_connect_wps ?s1") (auto simp: handles_def)
  qed
qed

section \<open>Encrypted requests\<close>

lemma handshake_effect:
  assumes "crypto_doc c" "ecdh_handshake e c k st w = (res, st', w')"
  shows "w_auth w' = w_auth w" "w_live w' = w_live w" "web_wf w' = web_wf w"
    and "res = Some srv \<Longrightarrow> nul_free srv"
proof -
  have "w' = snd (heap_alloc e w) \<and> \<not> alloc_ok e (w_allocs w) \<or>
      w' = heap_free (snd (heap_alloc e w)) \<and> alloc_ok e (w_allocs w)"
    using assms(2) by (auto simp: ecdh_handshake_def Let_def case_prod_beta split: if_splits)
  then show "w_auth w' = w_auth w" "w_live w' = w_live w" "web_wf w' = web_wf w" by auto
  assume "res = Some srv"
  with assms(2) have "fst (ecdh_handshake_internal c k st) = Some srv"
    by (auto simp: ecdh_handshake_def Let_def case_prod_beta split: if_splits)
  then show "nul_free srv"
    using assms(1)
    by (auto simp: ecdh_handshake_internal_def b64_encode_pub_key_def crypto_doc_def Let_def
        split: option.splits if_splits)
qed

lemma append_extra_wf:
  assumes "web_wf w" "nul_free t"
  shows "web_wf (append_extra t w)"
proof -
  have x: "fits EXTRA_HEADER_FIELDS_SIZE (w_extra w)" using assms(1) by (simp add: web_wf_def)
  then have "fits (EXTRA_HEADER_FIELDS_SIZE - length (w_extra w))
      (snprintf_s (EXTRA_HEADER_FIELDS_SIZE - length (w_extra w)) t)"
    by (intro snprintf_s_fits assms(2)) (auto simp: fits_def)
  with x have "fits EXTRA_HEADER_FIELDS_SIZE (w_extra (append_extra t w))"
    by (auto simp: fits_def append_extra_def)
  with assms(1) show ?thesis by (simp add: web_wf_def append_extra_def)
qed

lemma pub_key_effect:
  assumes "crypto_doc c" "handle_ruuvi_ecdh_pub_key e c k n s = (res, s')"
  shows "w_auth (sv_web s') = w_auth (sv_web s)" "w_live (sv_web s') = w_live (sv_web s)"
    and "web_wf (sv_web s') = web_wf (sv_web s)" "sv_acts s' = sv_acts s" "res = Some srv \<Longrightarrow> nul_free srv"
proof -
  obtain r st w where h: "ecdh_handshake e c (take n k) (sv_ecdh s) (sv_web s) = (r, st, w)"
    by (metis prod.exhaust)
  note eff = handshake_effect [OF assms(1) h]
  show "w_auth (sv_web s') = w_auth (sv_web s)" "w_live (sv_web s') = w_live (sv_web s)"
    "web_wf (sv_web s') = web_wf (sv_web s)" "sv_acts s' = sv_acts s"
    using assms(2) h eff(1-3) by (auto simp: handle_ruuvi_ecdh_pub_key_def split: if_splits)
  show "res = Some srv \<Longrightarrow> nul_free srv"
    using assms(2) h eff(4) by (auto simp: handle_ruuvi_ecdh_pub_key_def split: if_splits)
qed

lemma effect_upd:
  assumes "effect e a q b s s1" "w_auth (sv_web s2) = w_auth (sv_web s1)" "w_live (sv_web s2) = w_live (sv_web s1)"
    and "web_wf (sv_web s2)" "sv_acts s2 = sv_acts s1 @ map ActFreeResp rs"
  shows "effect e a q b s s2"
proof -
  obtain new where new: "sv_acts s1 = sv_acts s @ new" "\<forall>x\<in>set new. act_ok e a q (sv_web s) x"
    using assms(1) by (auto simp: effect_def)
  have "web_effect e q b (sv_web s) (sv_web s2)"
    by (rule web_effect_upd [OF _ assms(2-4)]) (use assms(1) in \<open>simp add: effect_def\<close>)
  moreover have "sv_acts s2 = sv_acts s @ (new @ map ActFreeResp rs)" using assms(5) new(1) by simp
  moreover have "\<forall>x\<in>set (new @ map ActFreeResp rs). act_ok e a q (sv_web s) x"
    using new(2) by (auto simp: act_ok_def)
  ultimately show ?thesis unfolding effect_def by blast
qed

lemma get_ecdh_handles:
  assumes "gate_ready e (auth_param_of a q True) (sv_web s)" "nul_free path" "crypto_doc c"
  shows "handles e a q b s (handle_req_get_with_ecdh_key e c a path q s)"
proof -
  obtain r s1 where g: "handle_req_get e a path q s = Some (r, s1)" "effect e a q b s s1"
    using get_handles [OF assms(1,2), where b = b] by (auto simp: handles_def)
  have wf: "web_wf (sv_web s1)" using g(2) by (simp add: effect_def web_effect_def)
  show ?thesis
  proof (cases "http_req_header_get_field (v_header (rp_req q)) ''Ruuvi-Ecdh-Pub-Key:''")
    case None
    with g show ?thesis by (simp add: handle_req_get_with_ecdh_key_def handles_def)
  next
    case (Some kn)
    obtain k n where kn: "kn = (k, n)" by (cases kn)
    obtain res s2 where p: "handle_ruuvi_ecdh_pub_key e c k n s1 = (res, s2)" by (metis prod.exhaust)
    note eff = pub_key_effect [OF assms(3) p]
    show ?thesis
    proof (cases res)
      case None
      have "effect e a q b s (act (map ActFreeResp (resp_free r)) s2)"
        by (rule effect_upd [OF g(2)]) (use eff wf in \<open>simp_all add: act_def\<close>)
      with None Some kn p g(1) show ?thesis by (simp add: handle_req_get_with_ecdh_key_def handles_def)
    next
      case (Some srv)
      let ?t = "''Ruuvi-Ecdh-Pub-Key: '' @ srv @ crlf"
      have "nul_free ?t" using eff(5) [OF Some] by simp
      then have "web_wf (append_extra ?t (sv_web s2))" using eff(3) wf by (intro append_extra_wf) simp_all
      then have "effect e a q b s (s2\<lparr>sv_web := append_extra ?t (sv_web s2)\<rparr>)"
        by (intro effect_upd [OF g(2), where rs = "[]"]) (use eff in \<open>simp_all add: append_extra_def\<close>)
      with Some \<open>http_req_header_get_field _ _ = Some kn\<close> kn p g(1) show ?thesis
        by (simp add: handle_req_get_with_ecdh_key_def handles_def)
    qed
  qed
qed

definition secret_of :: "env \<Rightarrow> cstr \<Rightarrow> encrypted_req option" where
  "secret_of e body = Option.bind (cjson_parse e body) parse_encrypted_req"

definition plain_body :: "env \<Rightarrow> crypto \<Rightarrow> req_param \<Rightarrow> server \<Rightarrow> cstr option" where
  \<comment> \<open>the text of the body: as it was sent, or decrypted with the key of the server, if that succeeds\<close>
  "plain_body e c q s =
     (if flag_encrypted q
      then Option.bind (secret_of e (v_body (rp_req q))) (accepted_plain c (ecdh_aes_key (sv_ecdh s)) (w_allocs (sv_web s)))
      else Some (v_body (rp_req q)))"

definition reads_before_buffer :: "env \<Rightarrow> crypto \<Rightarrow> req_param \<Rightarrow> server \<Rightarrow> bool" where
  \<comment> \<open>the defect of the decryption: an encrypted POST whose content is empty\<close>
  "reads_before_buffer e c q s \<longleftrightarrow> v_cmd (rp_req q) = ''POST'' \<and> flag_encrypted q
     \<and> (\<exists>req. secret_of e (v_body (rp_req q)) = Some req \<and> reads_before_block e c req (sv_web s))"

definition logged_in :: "env \<Rightarrow> crypto \<Rightarrow> req_param \<Rightarrow> server \<Rightarrow> authorized_session \<Rightarrow> bool" where
  \<comment> \<open>the request is a login whose own body carries the right credentials, and this is its session\<close>
  "logged_in e c q s x \<longleftrightarrow> logs_in e q (plain_body e c q s) (sv_web s) x"

lemma server_decrypt_run:
  assumes "crypto_doc c" "web_wf w"
  shows "case http_server_decrypt e c key body w of
      None \<Rightarrow> \<exists>req. secret_of e body = Some req \<and> reads_before_block e c req w
    | Some (r, w') \<Rightarrow> (\<forall>req. secret_of e body = Some req \<longrightarrow> \<not> reads_before_block e c req w)
        \<and> w_live w' = w_live w + (if r = None then 0 else 1) \<and> w_auth w' = w_auth w \<and> web_wf w'
        \<and> (\<forall>t. r = Some t \<longrightarrow> Option.bind (secret_of e body) (accepted_plain c key (w_allocs w)) = Some t)"
proof (cases "secret_of e body")
  case None
  with assms(2) show ?thesis
    by (auto simp: http_server_decrypt_def secret_of_def json_parse_def json_delete_def web_wf_def split: option.splits)
next
  case (Some req)
  let ?w1 = "w\<lparr>w_live := w_live w + 1\<rparr>"
  obtain root where root: "cjson_parse e body = Some root" "parse_encrypted_req root = Some req"
    using Some by (auto simp: secret_of_def elim!: option_bind_SomeE)
  then have d: "http_server_decrypt e c key body w = map_option (\<lambda>(r, w). (r, json_delete w)) (ecdh_decrypt e c key req ?w1)"
    by (cases "ecdh_decrypt e c key req ?w1") (auto simp: http_server_decrypt_def json_parse_def)
  have "reads_before_block e c req ?w1 = reads_before_block e c req w" by (simp add: reads_before_block_def)
  with ecdh_decrypt_run [OF assms(1), where e = e and key = key and req = req and w = ?w1] Some d assms(2) show ?thesis
    by (auto simp: decrypted_def json_delete_def web_wf_def split: option.splits)
qed

lemma decrypted_handles:
  assumes "gate_ready e (auth_param_of a q True) (sv_web s)" "flag_encrypted q"
    and "v_cmd (rp_req q) = ''POST''" "path = req_path q"
    and d: "http_server_decrypt e c (ecdh_aes_key (sv_ecdh s)) (v_body (rp_req q)) (sv_web s) = Some (res, w1)"
      "w_live w1 = w_live (sv_web s) + (if res = None then 0 else 1)" "w_auth w1 = w_auth (sv_web s)" "web_wf w1"
    and b: "\<And>t. res = Some t \<Longrightarrow> b = Some t"
  shows "handles e a q b s (handle_req_post_with_ecdh_key e c a path q s)"
proof -
  let ?s1 = "s\<lparr>sv_web := w1\<rparr>"
  have refused: "effect e a q b s s" using effect_same [of e s "sv_web s"] assms(1) by (simp add: gate_ready_def)
  show ?thesis
  proof (cases res)
    case None
    with d have "effect e a q b s ?s1" by (intro effect_upd [OF refused, where rs = "[]"]) simp_all
    with None d(1) assms(2) show ?thesis by (simp add: handle_req_post_with_ecdh_key_def handles_def)
  next
    case (Some plain)
    note bp = b [OF Some]
    show ?thesis
    proof (cases "length plain > HTTP_SERVER_MAX_UNENCRYPTED_CONTENT_SIZE")
      case True
      have "effect e a q b s (s\<lparr>sv_web := heap_free w1\<rparr>)"
        by (rule effect_upd [OF refused, where rs = "[]"]) (use d Some in simp_all)
      with True Some d(1) assms(2) show ?thesis
        by (simp add: handle_req_post_with_ecdh_key_def handles_def)
    next
      case False
      have "gate_ready e (auth_param_of a q True) (sv_web ?s1)"
        using gate_ready_cong [OF d(3,4)] assms(1) by simp
      from post_handles [OF this assms(3,4), of plain] False obtain r s2 where
        p: "handle_req_post e a path q plain ?s1 = Some (r, s2)" "effect e a q b ?s1 s2"
        by (auto simp: handles_def bp)
      have "effect e a q b s (s2\<lparr>sv_web := heap_free (sv_web s2)\<rparr>)"
        using p(2) d(2,3) Some logs_in_cong [OF d(3), of e q b] get_ruuvi_cong [OF d(3), of e]
          act_ok_cong [OF d(3), of e a q] get_ruuvi_cong [of "heap_free (sv_web s2)" "sv_web s2" e]
        by (auto simp: effect_def web_effect_def auth_ty_def)
      with p(1) False Some d(1) assms(2) show ?thesis
        by (simp add: handle_req_post_with_ecdh_key_def handles_def)
    qed
  qed
qed

lemma post_ecdh_handles:
  assumes "gate_ready e (auth_param_of a q True) (sv_web s)" "crypto_doc c"
    and "v_cmd (rp_req q) = ''POST''" "path = req_path q"
  shows "if reads_before_buffer e c q s then handle_req_post_with_ecdh_key e c a path q s = None
    else handles e a q (plain_body e c q s) s (handle_req_post_with_ecdh_key e c a path q s)"
proof -
  have wf: "web_wf (sv_web s)" using assms(1) by (simp add: gate_ready_def)
  have refused: "effect e a q b s s" for b using effect_same [of e s "sv_web s"] wf by simp
  show ?thesis
  proof (cases "flag_encrypted q")
    case False
    with refused post_handles [OF assms(1,3,4), of "v_body (rp_req q)"] show ?thesis
      by (cases "length (v_body (rp_req q)) > HTTP_SERVER_MAX_UNENCRYPTED_CONTENT_SIZE")
        (simp_all add: handle_req_post_with_ecdh_key_def handles_def plain_body_def reads_before_buffer_def Let_def)
  next
    case True
    let ?d = "http_server_decrypt e c (ecdh_aes_key (sv_ecdh s)) (v_body (rp_req q)) (sv_web s)"
    note run = server_decrypt_run [OF assms(2) wf, where e = e and key = "ecdh_aes_key (sv_ecdh s)" and body = "v_body (rp_req q)"]
    show ?thesis
    proof (cases ?d)
      case None
      with run True assms(3) show ?thesis
        by (simp add: reads_before_buffer_def handle_req_post_with_ecdh_key_def)
    next
      case (Some rw)
      obtain res w1 where rw: "rw = (res, w1)" by (cases rw)
      from run Some rw True have d: "?d = Some (res, w1)" "\<not> reads_before_buffer e c q s"
        "w_live w1 = w_live (sv_web s) + (if res = None then 0 else 1)" "w_auth w1 = w_auth (sv_web s)" "web_wf w1"
        "\<And>t. res = Some t \<Longrightarrow> plain_body e c q s = Some t"
        by (auto simp: reads_before_buffer_def plain_body_def)
      have "handles e a q (plain_body e c q s) s (handle_req_post_with_ecdh_key e c a path q s)"
        by (rule decrypted_handles [OF assms(1) True assms(3,4) d(1) d(3-6)])
      with d(2) show ?thesis by simp
    qed
  qed
qed

definition req_ready :: "env \<Rightarrow> crypto \<Rightarrow> app \<Rightarrow> req_param \<Rightarrow> server \<Rightarrow> bool" where
  \<comment> \<open>the documented behaviour of the libraries, a parsed request and the current credentials\<close>
  "req_ready e c a q s \<longleftrightarrow> env_doc e \<and> crypto_doc c \<and> web_wf (sv_web s)
     \<and> param_ok (auth_param_of a q True) (sv_web s) \<and> nul_free (v_uri (rp_req q))"

lemma handle_req_handles:
  assumes "req_ready e c a q s"
  shows "if reads_before_buffer e c q s then handle_req e c a q s = None
    else handles e a q (plain_body e c q s) s (handle_req e c a q s)"
proof -
  let ?w = "(sv_web s)\<lparr>w_extra := []\<rparr>"
  let ?s1 = "s\<lparr>sv_web := ?w\<rparr>"
  let ?b = "plain_body e c q s"
  have wf: "web_wf ?w"
    using assms by (simp add: req_ready_def web_wf_def EXTRA_HEADER_FIELDS_SIZE_def)
  have ready: "gate_ready e (auth_param_of a q True) (sv_web ?s1)"
    using assms wf by (simp add: req_ready_def gate_ready_def param_ok_def auth_param_of_def)
  have path: "nul_free (req_path q)"
    using assms by (auto simp: req_ready_def req_path_def Let_def)
  have c: "crypto_doc c" using assms by (simp add: req_ready_def)
  have same: "plain_body e c q ?s1 = ?b" "reads_before_buffer e c q ?s1 = reads_before_buffer e c q s"
    by (simp_all add: plain_body_def reads_before_buffer_def reads_before_block_def)
  have "if reads_before_buffer e c q s then handle_req e c a q s = None
    else handles e a q ?b ?s1 (handle_req e c a q s)"
  proof -
    consider "v_cmd (rp_req q) = ''GET''" | "v_cmd (rp_req q) = ''DELETE''" | "v_cmd (rp_req q) = ''POST''"
      | "v_cmd (rp_req q) \<notin> {''GET'', ''DELETE'', ''POST''}" by blast
    then show ?thesis
    proof cases
      case 1
      with get_ecdh_handles [OF ready path c] show ?thesis by (simp add: handle_req_def reads_before_buffer_def Let_def)
    next
      case 2
      then have "\<not> login_request q" by (simp add: login_request_def)
      with 2 delete_handles [OF ready] show ?thesis by (simp add: handle_req_def reads_before_buffer_def Let_def)
    next
      case 3
      with post_ecdh_handles [OF ready c 3 refl, unfolded same] show ?thesis by (simp add: handle_req_def Let_def)
    next
      case 4
      with wf effect_same [of e ?s1 ?w a q] show ?thesis
        by (simp add: handle_req_def handles_def reads_before_buffer_def)
    qed
  qed
  moreover have "web_effect e q ?b ?w w' = web_effect e q ?b (sv_web s) w'" for w'
    by (rule web_effect_cong) simp_all
  moreover have "act_ok e a q ?w x = act_ok e a q (sv_web s) x" for x
    by (rule act_ok_cong) simp
  ultimately show ?thesis by (simp add: handles_def effect_def split: if_splits)
qed

lemma handle_req_cases:
  assumes "req_ready e c a q s"
  obtains (fault) "reads_before_buffer e c q s" "handle_req e c a q s = None"
  | (handled) r s' where "\<not> reads_before_buffer e c q s" "handle_req e c a q s = Some (r, s')"
      "effect e a q (plain_body e c q s) s s'"
  using handle_req_handles [OF assms] by (auto simp: handles_def split: if_splits)

section \<open>Single requests\<close>

lemma check_auth_ap_side:
  "\<not> ap_from_lan prm \<Longrightarrow>
    \<exists>json. handle_req_check_auth e prm w = Some (resp_200_json json, False, w\<lparr>w_auth_json := json\<rparr>)"
  using fill_auth_json_upd [of e "ap_host prm" AUTH_ALLOW False None True w]
  by (auto simp: handle_req_check_auth_def get_auth_allow_def)

definition connect_actions :: "app \<Rightarrow> cjson \<Rightarrow> action list option" where
  \<comment> \<open>what the body of a connection request asks for; \<open>None\<close>: it is not valid\<close>
  "connect_actions a root =
     (case (root ''ssid'', root ''password'') of
        (Some None, Some None) \<Rightarrow> Some [ActConnectEth]
      | (Some (Some ssid), Some None) \<Rightarrow>
          if length ssid < MAX_SSID_SIZE
          then Some ((if app_saved_ssid a = ssid then [] else [ActSetSsidPassword ssid None])
                     @ [ActNetworkInfoClear, ActConnectAsync])
          else None
      | (Some (Some ssid), Some (Some password)) \<Rightarrow>
          if length ssid < MAX_SSID_SIZE \<and> length password < MAX_PASSWORD_SIZE
          then Some [ActSetSsidPassword ssid (Some password), ActNetworkInfoClear, ActConnectAsync]
          else None
      | _ \<Rightarrow> None)"

lemma post_connect_json_run:
  "post_connect_json e a body s =
    (case Option.bind (cjson_parse e body) (connect_actions a) of
       None \<Rightarrow> (resp_err 400, s)
     | Some xs \<Rightarrow> (resp_200_json ''{}'', act xs s))"
proof (cases "cjson_parse e body")
  case None
  then show ?thesis by (simp add: post_connect_json_def)
next
  case (Some root)
  have "not_less": "\<not> n \<le> k \<longleftrightarrow> k < n" for n k :: nat by auto
  show ?thesis
    using Some
    by (cases "root ''ssid''"; cases "root ''password''"; cases "the (root ''ssid'')"; cases "the (root ''password'')")
      (simp_all add: post_connect_json_def parse_cjson_wifi_ssid_password_def
        connect_actions_def act_def Let_def not_less)
qed

lemma ruuvi_refused:
  assumes "param_ok prm w" "ap_from_lan prm" "\<not> bearer_used (ap_header prm)"
    and "auth_type (ap_info prm) \<in> {AUTH_RUUVI, AUTH_DEFAULT}" "\<not> ruuvi_grants e prm w"
  shows "\<exists>r w'. handle_req_check_auth e prm w = Some (r, False, w') \<and> resp_code r = 401 \<and> w_auth w' = w_auth w"
proof -
  obtain ok sid where sid: "get_session_id_from_cookies (ap_header prm) = Some (ok, sid)"
    using session_id_read [OF assms(1)] by blast
  have ask: "\<exists>r w'. resp_401_auth_ruuvi e (ap_host prm) ty w = (r, w') \<and> resp_code r = 401 \<and> w_auth w' = w_auth w"
    for ty by (simp add: resp_401_auth_ruuvi_def fill_auth_json_def Let_def)
  with sid assms(2-5) ask [of AUTH_RUUVI] ask [of AUTH_DEFAULT] show ?thesis
    by (auto simp: handle_req_check_auth_def get_or_check_auth_def check_auth_bearer_spec auth_by_type_def
        get_auth_ruuvi_def ruuvi_grants_def split: option.splits)
qed

lemma no_line_end: "LF \<notin> set t \<Longrightarrow> \<not> suffix crlf t"
  by (auto simp: suffix_def crlf_def)

lemma redirect_run:
  assumes "param_ok (auth_param_of a q False) (sv_web s)" "rp_lan q" "\<not> bearer_used (v_header (rp_req q))"
    and "auth_type (rp_info q) \<in> {AUTH_RUUVI, AUTH_DEFAULT}"
    and "\<not> ruuvi_grants e (auth_param_of a q False) (sv_web s)"
    and "path \<notin> {[], ''auth'', ''ap.json'', ''status.json''}" "get_needs_auth path"
  shows "\<exists>s'. handle_req_get e a path q s = Some (resp_err 302, s')
    \<and> w_extra (sv_web s') = snprintf_s EXTRA_HEADER_FIELDS_SIZE (prev_url_cookie path) \<and> sv_acts s' = sv_acts s"
proof -
  obtain r w' where c: "handle_req_check_auth e (auth_param_of a q False) (sv_web s) = Some (r, False, w')"
    "resp_code r = 401"
    using ruuvi_refused [OF assms(1), of e] assms(2-5) by (auto simp: auth_param_of_def)
  have "auth_type (rp_info q) = AUTH_RUUVI \<or> auth_type (rp_info q) = AUTH_DEFAULT" using assms(4) by simp
  with c assms(6,7) show ?thesis
    by (simp add: handle_req_get_def get_check_auth_def set_extra_def Let_def)
qed

section \<open>Properties\<close>

text \<open>
  C4: A request has no answer in exactly one case, a defect: an encrypted POST whose content decodes
  to no byte, for which the server reads in front of a buffer. Every other request is answered,
  and every call that it makes into the application is admitted
  by the access policy: a scan, the status, a JSON file or a file without extension, any POST
  and any DELETE need credentials that the policy accepts, with write access for the scan,
  for POST and for DELETE; and no body handed to the application is longer than 8 KiB.
\<close>

theorem request_authorized:
  assumes "req_ready e c a q s"
  shows "(handle_req e c a q s = None \<longleftrightarrow> reads_before_buffer e c q s)
    \<and> (\<forall>r s'. handle_req e c a q s = Some (r, s') \<longrightarrow> (\<exists>new. sv_acts s' = sv_acts s @ new \<and> (\<forall>x\<in>set new.
     case x of
        ActScan \<Rightarrow> entitled e (auth_param_of a q True) (sv_web s)
      | ActStatusRequested \<Rightarrow> entitled e (auth_param_of a q False) (sv_web s)
      | CbGet file ps lan \<Rightarrow> get_needs_auth file \<longrightarrow> entitled e (auth_param_of a q False) (sv_web s)
      | CbPost file ps body lan \<Rightarrow> entitled e (auth_param_of a q True) (sv_web s) \<and> length body \<le> 8192
      | CbDelete file ps lan \<Rightarrow> entitled e (auth_param_of a q True) (sv_web s)
      | _ \<Rightarrow> True)))"
proof (cases rule: handle_req_cases [OF assms, case_names fault handled])
  case fault
  then show ?thesis by simp
next
  case (handled r s')
  then obtain new where "sv_acts s' = sv_acts s @ new" "\<forall>x\<in>set new. act_ok e a q (sv_web s) x"
    by (auto simp: effect_def)
  moreover have "act_ok e a q w x \<Longrightarrow> case x of
        ActScan \<Rightarrow> entitled e (auth_param_of a q True) w
      | ActStatusRequested \<Rightarrow> entitled e (auth_param_of a q False) w
      | CbGet file ps lan \<Rightarrow> get_needs_auth file \<longrightarrow> entitled e (auth_param_of a q False) w
      | CbPost file ps body lan \<Rightarrow> entitled e (auth_param_of a q True) w \<and> length body \<le> 8192
      | CbDelete file ps lan \<Rightarrow> entitled e (auth_param_of a q True) w
      | _ \<Rightarrow> True" for w x
    by (cases x) (simp_all add: act_ok_def HTTP_SERVER_MAX_UNENCRYPTED_CONTENT_SIZE_def)
  ultimately show ?thesis using handled(1,2) by fastforce
qed

definition wifi_command :: "action \<Rightarrow> bool" where
  "wifi_command x =
     (case x of
        ActDnsServerStop \<Rightarrow> True | ActDisableWps \<Rightarrow> True | ActReasonUserDisconnect \<Rightarrow> True
      | ActDisconnectEth \<Rightarrow> True | ActDisconnectWifi \<Rightarrow> True | ActConnectEth \<Rightarrow> True
      | ActSetSsidPassword ssid pw \<Rightarrow> True | ActNetworkInfoClear \<Rightarrow> True | ActConnectAsync \<Rightarrow> True
      | ActEnableWps \<Rightarrow> True | _ \<Rightarrow> False)"

text \<open>
  C7: no request from the LAN, whatever its credentials, connects or disconnects the gateway,
  changes its Wi-Fi credentials, or starts or stops WPS or the DNS server. (The request
  without an answer is the one of \<open>reads_before_buffer\<close>.)
\<close>

theorem lan_never_commands_wifi:
  assumes "req_ready e c a q s" "rp_lan q"
  shows "case handle_req e c a q s of
      None \<Rightarrow> reads_before_buffer e c q s
    | Some (r, s') \<Rightarrow> \<exists>new. sv_acts s' = sv_acts s @ new \<and> list_all (\<lambda>x. \<not> wifi_command x) new"
proof -
  have "act_ok e a q w x \<Longrightarrow> \<not> wifi_command x" for w x
    using assms(2) by (cases x) (simp_all add: act_ok_def wifi_command_def)
  then show ?thesis
    by (cases rule: handle_req_cases [OF assms(1)]) (auto simp: effect_def list_all_iff)
qed

text \<open>
  C14: A request leaves the web state well formed and the stored credentials as they are; when
  the interactive authentication is on, every session in the table afterwards was there before
  or is the one of this request, a POST to /auth from the LAN with the cookie of the pending
  session, from the address that session was given to, whose own body (decrypted, when it is encrypted)
  names the user and carries the digest of the pending challenge and the password; and only a login
  request can keep heap memory, one block at most. (The request without an answer is the one of
  \<open>reads_before_buffer\<close>.)
\<close>

theorem sessions_only_by_login:
  assumes "req_ready e c a q s"
  shows "case handle_req e c a q s of
      None \<Rightarrow> reads_before_buffer e c q s
    | Some (r, s') \<Rightarrow> web_wf (sv_web s')
    \<and> g_auth_info (w_auth (sv_web s')) = g_auth_info (w_auth (sv_web s))
    \<and> (auth_ty (sv_web s) \<in> {AUTH_RUUVI, AUTH_DEFAULT} \<longrightarrow>
         (\<forall>x\<in>set (authorized_sessions (get_ruuvi e (sv_web s'))). as_session_id x \<noteq> [] \<longrightarrow>
            x \<in> set (authorized_sessions (get_ruuvi e (sv_web s))) \<or> logged_in e c q s x))
    \<and> (w_live (sv_web s') = w_live (sv_web s) \<or> login_request q \<and> w_live (sv_web s') = w_live (sv_web s) + 1)"
  by (cases rule: handle_req_cases [OF assms]) (auto simp: effect_def web_effect_def logged_in_def)

text \<open>
  The body of a login is pinned: a request with a body that does not grant it is no login, whatever its
  header says.
\<close>

lemma login_needs_body:
  assumes "logged_in e c q s x"
  obtains body where "plain_body e c q s = Some body"
    "login_body_grants e body (rp_info q) (login_session (get_ruuvi e (sv_web s)))"
    "login_session_grants (login_session (get_ruuvi e (sv_web s))) (as_session_id x) (as_remote_ip x)"
  using assms by (auto simp: logged_in_def logs_in_def login_grants_def)

lemma connect_request_run:
  assumes "\<not> rp_lan q" "v_cmd (rp_req q) = ''POST''" "req_path q = ''connect.json''" "\<not> flag_encrypted q"
    and "length (v_body (rp_req q)) \<le> 8192"
  shows "\<exists>w. handle_req e c a q s = Some (post_connect_json e a (v_body (rp_req q)) (s\<lparr>sv_web := w\<rparr>))"
proof -
  let ?s1 = "s\<lparr>sv_web := (sv_web s)\<lparr>w_extra := []\<rparr>\<rparr>"
  obtain json w where c: "handle_req_check_auth e (auth_param_of a q True) (sv_web ?s1) = Some (resp_200_json json, False, w)"
    using check_auth_ap_side [of "auth_param_of a q True" e "sv_web ?s1"] assms(1) by (auto simp: auth_param_of_def)
  have "handle_req e c a q s = Some (post_connect_json e a (v_body (rp_req q)) (?s1\<lparr>sv_web := w\<rparr>))"
    using c assms
    by (simp add: handle_req_def handle_req_post_with_ecdh_key_def handle_req_post_def gated_def Let_def
        HTTP_SERVER_MAX_UNENCRYPTED_CONTENT_SIZE_def)
  then show ?thesis by auto
qed

lemma disconnect_request_run:
  assumes "\<not> rp_lan q" "v_cmd (rp_req q) = ''DELETE''" "req_path q = ''connect.json''"
  shows "\<exists>w. handle_req e c a q s = Some (delete_connect_json a q (s\<lparr>sv_web := w\<rparr>))"
proof -
  let ?s1 = "s\<lparr>sv_web := (sv_web s)\<lparr>w_extra := []\<rparr>\<rparr>"
  obtain json w where c: "handle_req_check_auth e (auth_param_of a q True) (sv_web ?s1) = Some (resp_200_json json, False, w)"
    using check_auth_ap_side [of "auth_param_of a q True" e "sv_web ?s1"] assms(1) by (auto simp: auth_param_of_def)
  have "handle_req e c a q s = Some (delete_connect_json a q (?s1\<lparr>sv_web := w\<rparr>))"
    using c assms by (simp add: handle_req_def handle_req_delete_def gated_def Let_def)
  then show ?thesis by auto
qed

text \<open>
  A plain connection request from the access point side does exactly what its body asks
  for: with a network name and a password that fit their fields it stores them and connects,
  with a null password it reconnects, or connects without one to a new network, with both null
  it selects Ethernet; any other body is answered 400 and nothing is done.
\<close>

theorem connect_request_effect:
  assumes "\<not> rp_lan q" "v_cmd (rp_req q) = ''POST''" "req_path q = ''connect.json''" "\<not> flag_encrypted q"
    and "length (v_body (rp_req q)) \<le> 8192"
  shows "\<exists>r s'. handle_req e c a q s = Some (r, s')
    \<and> (case Option.bind (cjson_parse e (v_body (rp_req q))) (connect_actions a) of
         None \<Rightarrow> resp_code r = 400 \<and> sv_acts s' = sv_acts s
       | Some xs \<Rightarrow> resp_code r = 200 \<and> sv_acts s' = sv_acts s @ xs)"
proof -
  from connect_request_run [OF assms] obtain w where
    "handle_req e c a q s = Some (post_connect_json e a (v_body (rp_req q)) (s\<lparr>sv_web := w\<rparr>))" by blast
  then show ?thesis by (simp add: post_connect_json_run act_def split: option.splits)
qed

definition encrypts :: "crypto \<Rightarrow> byte list \<Rightarrow> encrypted_req \<Rightarrow> cstr \<Rightarrow> bool" where
  \<comment> \<open>the request carries the padded text under the session key, and its digest\<close>
  "encrypts c key req plain \<longleftrightarrow>
     (\<exists>iv enc k. 0 < k \<and> k \<le> ECDH_AES_BLOCK_SIZE
        \<and> b64_decode_exact c ECDH_AES_BLOCK_SIZE (enc_iv req) = Some iv
        \<and> b64_decode_exact c ECDH_SHA256_SIZE (enc_hash req) = Some (sha256_raw c plain)
        \<and> b64_decode c (b64_decoded_len c (enc_encrypted req)) (enc_encrypted req) = Some enc
        \<and> length enc = b64_decoded_len c (enc_encrypted req)
        \<and> length enc \<le> ECDH_MAX_ENCRYPTED_LEN \<and> length enc mod ECDH_AES_BLOCK_SIZE = 0
        \<and> aes_cbc_decrypt c key iv enc = plain @ replicate k (char_of k))"

text \<open>
  C25: an encrypted POST is handled exactly as the POST of its plain text, and the heap block
  of the plain text is released afterwards.
\<close>

theorem encrypted_post_same:
  assumes "crypto_doc c" "v_cmd (rp_req q) = ''POST''" "flag_encrypted q"
    and "cjson_parse e (v_body (rp_req q)) = Some root" "parse_encrypted_req root = Some req"
    and "encrypts c (ecdh_aes_key (sv_ecdh s)) req plain" "nul_free plain" "length plain \<le> 8192"
    and "\<forall>i<3. alloc_ok e (w_allocs (sv_web s) + i)"
  shows "\<exists>w. w_auth w = w_auth (sv_web s) \<and> w_live w = w_live (sv_web s) + 1
    \<and> handle_req e c a q s = map_option (\<lambda>(r, s2). (r, s2\<lparr>sv_web := heap_free (sv_web s2)\<rparr>))
        (handle_req_post e a (req_path q) q plain (s\<lparr>sv_web := w\<rparr>))"
proof -
  let ?w = "(sv_web s)\<lparr>w_extra := []\<rparr>"
  let ?w1 = "?w\<lparr>w_live := w_live ?w + 1\<rparr>"
  have "\<forall>i<3. alloc_ok e (w_allocs ?w1 + i)" using assms(9) by simp
  note al = this
  obtain iv enc k where "0 < k" "k \<le> ECDH_AES_BLOCK_SIZE"
    "b64_decode_exact c ECDH_AES_BLOCK_SIZE (enc_iv req) = Some iv"
    "b64_decode_exact c ECDH_SHA256_SIZE (enc_hash req) = Some (sha256_raw c plain)"
    "b64_decode c (b64_decoded_len c (enc_encrypted req)) (enc_encrypted req) = Some enc"
    "length enc = b64_decoded_len c (enc_encrypted req)"
    "length enc \<le> ECDH_MAX_ENCRYPTED_LEN" "length enc mod ECDH_AES_BLOCK_SIZE = 0"
    "aes_cbc_decrypt c (ecdh_aes_key (sv_ecdh s)) iv enc = plain @ replicate k (char_of k)"
    using assms(6) unfolding encrypts_def by (elim exE conjE)
  from decrypt_complete_run [OF assms(1,7) this al] obtain w where w: "ecdh_decrypt e c (ecdh_aes_key (sv_ecdh s)) req ?w1 = Some (Some plain, w)"
    "w_auth w = w_auth ?w1" "w_live w = w_live ?w1 + 1"
    by (elim exE conjE)
  then have "http_server_decrypt e c (ecdh_aes_key (sv_ecdh s)) (v_body (rp_req q)) ?w = Some (Some plain, json_delete w)"
    using assms(4,5) by (simp add: http_server_decrypt_def json_parse_def)
  then have "handle_req e c a q s = map_option (\<lambda>(r, s2). (r, s2\<lparr>sv_web := heap_free (sv_web s2)\<rparr>))
        (handle_req_post e a (req_path q) q plain (s\<lparr>sv_web := json_delete w\<rparr>))"
    using assms(2,3,8)
    by (simp add: handle_req_def handle_req_post_with_ecdh_key_def Let_def HTTP_SERVER_MAX_UNENCRYPTED_CONTENT_SIZE_def)
  with w(2,3) show ?thesis by (intro exI [of _ "json_delete w"]) (simp add: json_delete_def)
qed

text \<open>
  A client on the LAN without a session that asks for a file without an extension is
  redirected to the login with a cookie that remembers the file, but the header line of the
  cookie has no line end: what is appended to the header fields continues that line.
\<close>

theorem redirect_cookie_unterminated:
  assumes "param_ok (auth_param_of a q False) (sv_web s)" "rp_lan q" "\<not> bearer_used (v_header (rp_req q))"
    and "auth_type (rp_info q) \<in> {AUTH_RUUVI, AUTH_DEFAULT}"
    and "\<not> ruuvi_grants e (auth_param_of a q False) (sv_web s)"
    and "v_cmd (rp_req q) = ''GET''" "get_needs_auth (req_path q)"
    and "req_path q \<notin> {[], ''auth'', ''ap.json'', ''status.json''}" "line_ok (req_path q)"
    and "http_req_header_get_field (v_header (rp_req q)) ''Ruuvi-Ecdh-Pub-Key:'' = None"
  shows "\<exists>s'. handle_req e c a q s = Some (resp_err 302, s')
    \<and> w_extra (sv_web s') = take 379 (''Set-Cookie: RUUVI_PREV_URL=/'' @ req_path q) \<and> \<not> suffix crlf (w_extra (sv_web s'))
    \<and> sv_acts s' = sv_acts s"
proof -
  let ?s1 = "s\<lparr>sv_web := (sv_web s)\<lparr>w_extra := []\<rparr>\<rparr>"
  have "param_ok (auth_param_of a q False) (sv_web ?s1)"
    "\<not> ruuvi_grants e (auth_param_of a q False) (sv_web ?s1)"
    using assms(1,5) by (simp_all add: param_ok_def ruuvi_grants_def get_ruuvi_def)
  from redirect_run [OF this(1) assms(2-4) this(2) assms(8,7)] obtain s' where
    g: "handle_req_get e a (req_path q) q ?s1 = Some (resp_err 302, s')"
    "w_extra (sv_web s') = snprintf_s EXTRA_HEADER_FIELDS_SIZE (prev_url_cookie (req_path q))"
    "sv_acts s' = sv_acts s" by auto
  let ?t = "''Set-Cookie: RUUVI_PREV_URL=/'' @ req_path q"
  have x: "w_extra (sv_web s') = take 379 ?t"
    using g(2) by (simp add: snprintf_s_def EXTRA_HEADER_FIELDS_SIZE_def prev_url_cookie_def)
  have "LF \<notin> set ?t" using assms(9) by (auto simp: line_ok_def is_crlf_char_def)
  then have "LF \<notin> set (take 379 ?t)" by (metis in_set_takeD)
  then have "\<not> suffix crlf (take 379 ?t)" by (rule no_line_end)
  with g x assms(6,10) show ?thesis
    by (simp add: handle_req_def handle_req_get_with_ecdh_key_def)
qed

section \<open>Witnesses\<close>

definition app0 :: app where
  "app0 = \<lparr>app_host = host0, app_saved_ssid = ''home'', app_eth_connected = False, app_scan_json = Some ''[]'',
     app_status_json = Some ''{}'', app_cb_get = \<lambda>f p l. resp_err 404, app_cb_post = \<lambda>f p b l. resp_200_json b,
     app_cb_delete = \<lambda>f p l. resp_err 404\<rparr>"

definition server1 :: server where
  \<comment> \<open>one client, with the session ABC\<close>
  "server1 = \<lparr>sv_web = web1, sv_ecdh = ecdh_state_init, sv_timestamp = 0, sv_acts = []\<rparr>"

definition request :: "cstr \<Rightarrow> cstr \<Rightarrow> cstr \<Rightarrow> cstr \<Rightarrow> bool \<Rightarrow> req_param" where
  "request cmd uri header body lan =
     \<lparr>rp_req = \<lparr>v_cmd = cmd, v_uri = uri, v_uri_params = None, v_ver = ''HTTP/1.1'', v_header = header, v_body = body\<rparr>,
      rp_remote_ip = ''10.10.0.2'', rp_info = g_auth_info (w_auth web1), rp_lan = lan\<rparr>"

lemma request_ready:
  assumes "nul_free uri" "nul_free header" "length header < 2 ^ 31" "env_doc e"
  shows "req_ready e crypto0 app0 (request cmd uri header body lan) server1"
  using assms web1_ok(1) concrete_ok(1,4) crypto_doc_crypto0
  by (simp add: req_ready_def request_def app0_def server1_def param_ok_def auth_param_of_def)

lemmas request_ready0 = request_ready [where e = env0, OF _ login_header_ok(1,2) env_doc_env0]

lemma plain_request: "flag_encrypted (request cmd uri login_header body lan) = False"
proof -
  have "http_req_header_get_field login_header ''Ruuvi-Ecdh-Encrypted:'' = None" by code_simp
  then show ?thesis by (simp add: flag_encrypted_def request_def)
qed

lemma plain_answered: "\<not> reads_before_buffer e c (request cmd uri login_header body lan) s"
  by (simp add: reads_before_buffer_def plain_request)

lemma request_authorized_witness:
  "\<exists>r s' new. handle_req env0 crypto0 app0 (request ''POST'' ''/data'' login_header ''x'' True) server1 = Some (r, s')
    \<and> sv_acts s' = sv_acts server1 @ new"
  using request_authorized [OF request_ready0, of "''/data''" "''POST''" "''x''" True]
    plain_answered [of env0 crypto0 "''POST''" "''/data''" "''x''" True server1]
  by (cases "handle_req env0 crypto0 app0 (request ''POST'' ''/data'' login_header ''x'' True) server1") auto

lemma lan_never_commands_wifi_witness:
  "\<exists>r s' new. handle_req env0 crypto0 app0 (request ''DELETE'' ''/connect.json'' login_header ''x'' True) server1 = Some (r, s')
    \<and> sv_acts s' = sv_acts server1 @ new \<and> list_all (\<lambda>x. \<not> wifi_command x) new"
proof -
  have "rp_lan (request ''DELETE'' ''/connect.json'' login_header ''x'' True)" by (simp add: request_def)
  from lan_never_commands_wifi [OF request_ready0 this] plain_answered show ?thesis
    by (auto split: option.splits)
qed

lemma sessions_only_by_login_witness:
  "\<exists>r s'. handle_req env0 crypto0 app0 (request ''POST'' ''/auth'' login_header ''x'' True) server1 = Some (r, s')
    \<and> web_wf (sv_web s')
    \<and> (\<forall>x\<in>set (authorized_sessions (get_ruuvi env0 (sv_web s'))). as_session_id x \<noteq> [] \<longrightarrow>
            x \<in> set (authorized_sessions (get_ruuvi env0 (sv_web server1)))
            \<or> logged_in env0 crypto0 (request ''POST'' ''/auth'' login_header ''x'' True) server1 x)"
proof -
  have "auth_ty (sv_web server1) \<in> {AUTH_RUUVI, AUTH_DEFAULT}" using web1_ok(2) by (simp add: server1_def)
  with sessions_only_by_login [OF request_ready0, of "''/auth''" "''POST''" "''x''" True] plain_answered show ?thesis
    by (auto split: option.splits)
qed

lemma wrong_body_is_no_login:
  \<comment> \<open>the pending session and its cookie are not enough\<close>
  "\<not> logged_in env0 crypto0 (request ''POST'' ''/auth'' login_header ''x'' True) server1 x"
  by (auto simp: logged_in_def logs_in_def plain_body_def plain_request login_grants_def login_body_grants_def env0_def request_def)

definition secret_header :: cstr where "secret_header = ''Ruuvi-Ecdh-Encrypted: true'' @ [CR, LF]"

definition env_secret :: env where
  \<comment> \<open>a body with an initial vector, a digest, and an empty content\<close>
  "env_secret = env0\<lparr>cjson_parse := \<lambda>s. Some (\<lambda>n. if n = ''encrypted'' then Some (Some [])
     else if n = ''iv'' then Some (Some (replicate 16 CHR ''i''))
     else if n = ''hash'' then Some (Some (replicate 32 CHR ''h'')) else None)\<rparr>"

lemma empty_content_unanswered:
  \<comment> \<open>the request without an answer exists\<close>
  "reads_before_buffer env_secret crypto0 (request ''POST'' ''/auth'' secret_header ''{}'' True) server1"
  "handle_req env_secret crypto0 app0 (request ''POST'' ''/auth'' secret_header ''{}'' True) server1 = None"
proof -
  let ?q = "request ''POST'' ''/auth'' secret_header ''{}'' True"
  have h: "nul_free secret_header" "length secret_header < 2 ^ 31" by (simp_all add: secret_header_def)
  have "http_req_header_get_field secret_header ''Ruuvi-Ecdh-Encrypted:'' = Some (''true'' @ [CR, LF], 4)" by code_simp
  then have "flag_encrypted ?q" by (simp add: flag_encrypted_def request_def strncmp_eq_def)
  then show f: "reads_before_buffer env_secret crypto0 ?q server1"
    by (simp add: reads_before_buffer_def request_def secret_of_def env_secret_def parse_encrypted_req_def
        reads_before_block_def empty_secret_def crypto0_def b64_decode_exact_def ECDH_AES_BLOCK_SIZE_def
        ECDH_SHA256_SIZE_def env0_def)
  have "env_doc env_secret" using env_doc_env0 by (simp add: env_doc_def env_secret_def)
  then have "req_ready env_secret crypto0 app0 ?q server1" by (intro request_ready h) simp_all
  with request_authorized f show "handle_req env_secret crypto0 app0 ?q server1 = None" by blast
qed

definition env_wifi :: env where
  "env_wifi = env0\<lparr>cjson_parse := \<lambda>s. Some (\<lambda>n. if n = ''ssid'' then Some (Some ''work'')
     else if n = ''password'' then Some (Some ''secret'') else None)\<rparr>"

lemma connect_request_effect_witness:
  "\<exists>r s'. handle_req env_wifi crypto0 app0 (request ''POST'' ''/connect.json'' [] ''{}'' False) server1 = Some (r, s')
    \<and> (case Option.bind (cjson_parse env_wifi (v_body (rp_req (request ''POST'' ''/connect.json'' [] ''{}'' False))))
          (connect_actions app0) of
         None \<Rightarrow> resp_code r = 400 \<and> sv_acts s' = sv_acts server1
       | Some xs \<Rightarrow> resp_code r = 200 \<and> sv_acts s' = sv_acts server1 @ xs)"
proof (rule connect_request_effect)
  show "\<not> flag_encrypted (request ''POST'' ''/connect.json'' [] ''{}'' False)" by code_simp
qed (simp_all add: request_def req_path_def)

lemma connect_request_example:
  "Option.bind (cjson_parse env_wifi ''{}'') (connect_actions app0) =
    Some [ActSetSsidPassword ''work'' (Some ''secret''), ActNetworkInfoClear, ActConnectAsync]"
  by (simp add: env_wifi_def connect_actions_def MAX_SSID_SIZE_def MAX_PASSWORD_SIZE_def)

definition encrypted_header :: cstr where
  "encrypted_header = ''Ruuvi-Ecdh-Encrypted: true'' @ [CR, LF]"

definition env_enc :: env where
  "env_enc = env0\<lparr>cjson_parse := \<lambda>s. Some (\<lambda>n. if n = ''encrypted'' then Some (Some (enc_encrypted req0))
     else if n = ''iv'' then Some (Some (enc_iv req0)) else if n = ''hash'' then Some (Some (enc_hash req0)) else None)\<rparr>"

lemma encrypted_post_same_witness:
  "\<exists>w. w_auth w = w_auth (sv_web server1) \<and> w_live w = w_live (sv_web server1) + 1
    \<and> handle_req env_enc crypto0 app0 (request ''POST'' ''/data'' encrypted_header ''{}'' True) server1 =
        map_option (\<lambda>(r, s2). (r, s2\<lparr>sv_web := heap_free (sv_web s2)\<rparr>))
        (handle_req_post env_enc app0 (req_path (request ''POST'' ''/data'' encrypted_header ''{}'' True))
          (request ''POST'' ''/data'' encrypted_header ''{}'' True) ''{}'' (server1\<lparr>sv_web := w\<rparr>))"
proof (rule encrypted_post_same [OF crypto_doc_crypto0])
  show "flag_encrypted (request ''POST'' ''/data'' encrypted_header ''{}'' True)" by code_simp
  show "cjson_parse env_enc (v_body (rp_req (request ''POST'' ''/data'' encrypted_header ''{}'' True))) =
    Some (the (cjson_parse env_enc ''{}''))" by (simp add: env_enc_def request_def)
  show "parse_encrypted_req (the (cjson_parse env_enc ''{}'')) = Some req0"
    by (simp add: env_enc_def parse_encrypted_req_def)
  have "aes_cbc_decrypt crypto0 k iv (enc_encrypted req0) = ''{}'' @ replicate 14 (char_of (14::nat))" for k iv
    by (simp add: crypto0_def req0_def)
  then show "encrypts crypto0 (ecdh_aes_key (sv_ecdh server1)) req0 ''{}''"
    unfolding encrypts_def
    by (intro exI [of _ "replicate 16 CHR ''i''"] exI [of _ "enc_encrypted req0"] exI [of _ "14::nat"])
      (simp add: crypto0_def req0_def b64_decode_exact_def ECDH_AES_BLOCK_SIZE_def ECDH_SHA256_SIZE_def
        ECDH_MAX_ENCRYPTED_LEN_def)
qed (simp_all add: request_def env_enc_def env0_def)

definition other_header :: cstr where
  "other_header = ''Host: gw'' @ [CR, LF]"

lemma other_header_facts:
  "header_value other_header ''Authorization:'' = None" "get_session_id_from_cookies other_header = Some (False, [])"
  "http_req_header_get_field other_header ''Ruuvi-Ecdh-Pub-Key:'' = None" "get_needs_auth ''foo''"
  by code_simp+

lemma redirect_cookie_unterminated_witness:
  "\<exists>s'. handle_req env0 crypto0 app0 (request ''GET'' ''/foo'' other_header [] True) server1 = Some (resp_err 302, s')
    \<and> w_extra (sv_web s') = take 379 (''Set-Cookie: RUUVI_PREV_URL=/'' @ req_path (request ''GET'' ''/foo'' other_header [] True))
    \<and> \<not> suffix crlf (w_extra (sv_web s')) \<and> sv_acts s' = sv_acts server1"
proof (rule redirect_cookie_unterminated)
  show "param_ok (auth_param_of app0 (request ''GET'' ''/foo'' other_header [] True) False) (sv_web server1)"
    using concrete_ok(1,4)
    by (simp add: param_ok_def auth_param_of_def request_def app0_def server1_def other_header_def)
  show "\<not> bearer_used (v_header (rp_req (request ''GET'' ''/foo'' other_header [] True)))"
    by (simp add: request_def bearer_used_def other_header_facts)
  show "\<not> ruuvi_grants env0 (auth_param_of app0 (request ''GET'' ''/foo'' other_header [] True) False) (sv_web server1)"
    by (simp add: request_def ruuvi_grants_def auth_param_of_def other_header_facts)
  show "auth_type (rp_info (request ''GET'' ''/foo'' other_header [] True)) \<in> {AUTH_RUUVI, AUTH_DEFAULT}"
    using web1_ok(2) by (simp add: request_def auth_ty_def)
qed (simp_all add: request_def req_path_def other_header_facts line_ok_def is_crlf_char_def)

lemma empty_encrypted_flag_is_true:
  \<comment> \<open>the value is compared up to its own length: an empty value, or any beginning of true, counts as true\<close>
  "flag_encrypted (request ''POST'' ''/data'' (''Ruuvi-Ecdh-Encrypted: '' @ [CR, LF]) ''{}'' True)"
  "flag_encrypted (request ''POST'' ''/data'' (''Ruuvi-Ecdh-Encrypted: t'' @ [CR, LF]) ''{}'' True)"
  by code_simp+

end
