(* ===== verification/NetconnResp.thy ===== *)
theory NetconnResp
  imports HandleReq
begin

text \<open>
  \<^verbatim>\<open>src/http_server_netconn_resp.c\<close>: the response on the wire.

  The network, the clock, the files and the generator of JSON are the record \<open>net\<close>; each call
  of \<open>netconn_write_partly\<close> has a serial number, so that it can answer differently every time.
  The state \<open>netst\<close> holds what the client was sent, the number of calls and the web state,
  whose heap the printing uses. The loop that writes a buffer may run for ever on a network
  that always asks to try again: it is a partial function, whose value is then \<open>None\<close>. A content
  length behind the end of the content is a read outside of it, also \<open>None\<close>.
\<close>

section \<open>Model\<close>

datatype lwip_err =
    ERR_OK | ERR_MEM | ERR_BUF | ERR_TIMEOUT | ERR_RTE | ERR_INPROGRESS | ERR_VAL | ERR_WOULDBLOCK
  | ERR_USE | ERR_ALREADY | ERR_ISCONN | ERR_CONN | ERR_IF | ERR_ABRT | ERR_RST | ERR_CLSD | ERR_ARG
  | ERR_OTHER int

definition conv_lwip_err_to_str :: "lwip_err \<Rightarrow> cstr" where
  "conv_lwip_err_to_str err =
     (case err of
        ERR_OK \<Rightarrow> ''No error''
      | ERR_MEM \<Rightarrow> ''Out of memory error''
      | ERR_BUF \<Rightarrow> ''Buffer error''
      | ERR_TIMEOUT \<Rightarrow> ''Timeout''
      | ERR_RTE \<Rightarrow> ''Routing problem''
      | ERR_INPROGRESS \<Rightarrow> ''Operation in progress''
      | ERR_VAL \<Rightarrow> ''Illegal value''
      | ERR_WOULDBLOCK \<Rightarrow> ''Operation would block''
      | ERR_USE \<Rightarrow> ''Address in use''
      | ERR_ALREADY \<Rightarrow> ''Already connecting''
      | ERR_ISCONN \<Rightarrow> ''Conn already established''
      | ERR_CONN \<Rightarrow> ''Not connected''
      | ERR_IF \<Rightarrow> ''Low-level netif error''
      | ERR_ABRT \<Rightarrow> ''Connection aborted''
      | ERR_RST \<Rightarrow> ''Connection reset''
      | ERR_CLSD \<Rightarrow> ''Connection closed''
      | ERR_ARG \<Rightarrow> ''Illegal argument''
      | ERR_OTHER n \<Rightarrow> ''Unknown error'')"

record net =
  write_partly :: "nat \<Rightarrow> bool \<Rightarrow> bool \<Rightarrow> nat \<Rightarrow> lwip_err \<times> nat"
    \<comment> \<open>call, copy flag, more flag, number of bytes; the bytes written\<close>
  tick_at :: "nat \<Rightarrow> 32 word" \<comment> \<open>\<open>xTaskGetTickCount\<close> after that many calls\<close>
  send_timeout :: nat
  ms_to_ticks :: "nat \<Rightarrow> 32 word"
  read_file :: "nat \<Rightarrow> nat \<Rightarrow> nat \<Rightarrow> byte list option" \<comment> \<open>file, position, number of bytes; \<open>None\<close>: error\<close>
  gen_error :: "nat \<Rightarrow> bool" \<comment> \<open>whether the generator fails on the k-th chunk\<close>
  date_header :: cstr \<comment> \<open>the header line that \<open>strftime\<close> makes of the time\<close>
  ap_ip_str :: cstr

record netst =
  ns_sent :: cstr
  ns_calls :: nat
  ns_web :: web

partial_function (option) write_loop ::
  "net \<Rightarrow> bool \<Rightarrow> bool \<Rightarrow> 32 word \<Rightarrow> 32 word \<Rightarrow> cstr \<Rightarrow> nat \<Rightarrow> netst \<Rightarrow> (bool \<times> netst) option" where
  "write_loop n copy flag_more tick_start max_ticks buf offset st =
     (let (err, written) = write_partly n (ns_calls st) copy flag_more (length buf - offset);
          st1 = st\<lparr>ns_calls := ns_calls st + 1\<rparr>
      in if err \<noteq> ERR_OK \<and> err \<noteq> ERR_WOULDBLOCK then Some (False, st1)
         else
           let st2 = st1\<lparr>ns_sent := ns_sent st1 @ take written (drop offset buf)\<rparr>;
               offset1 = offset + written
           in if max_ticks \<noteq> 0 \<and> tick_at n (ns_calls st2) - tick_start > max_ticks then Some (False, st2)
              else if offset1 \<noteq> length buf then write_loop n copy flag_more tick_start max_ticks buf offset1 st2
              else Some (True, st2))"

declare write_loop.simps [code]

definition netconn_write :: "net \<Rightarrow> bool \<Rightarrow> bool \<Rightarrow> cstr \<Rightarrow> netst \<Rightarrow> (bool \<times> netst) option" where
  "netconn_write n copy flag_more buf st =
     (let max_ticks = (if send_timeout n \<noteq> 0 then ms_to_ticks n (send_timeout n) else 0)
      in write_loop n copy flag_more (tick_at n (ns_calls st)) max_ticks buf 0 st)"

definition netconn_printf :: "env \<Rightarrow> net \<Rightarrow> bool \<Rightarrow> cstr \<Rightarrow> netst \<Rightarrow> (bool \<times> netst) option" where
  \<comment> \<open>the text is formatted into a heap block\<close>
  "netconn_printf e n flag_more s st =
     (let (ok, w) = heap_alloc e (ns_web st);
          st1 = st\<lparr>ns_web := w\<rparr>
      in if \<not> ok then Some (False, st1)
         else do {
           (res, st2) \<leftarrow> netconn_write n True flag_more s st1;
           Some (res, st2\<lparr>ns_web := heap_free (ns_web st2)\<rparr>) })"

definition content_type_str :: "content_type \<Rightarrow> cstr" where
  "content_type_str t =
     (case t of
        TEXT_HTML \<Rightarrow> ''text/html''
      | TEXT_PLAIN \<Rightarrow> ''text/plain''
      | TEXT_CSS \<Rightarrow> ''text/css''
      | TEXT_JAVASCRIPT \<Rightarrow> ''text/javascript''
      | IMAGE_PNG \<Rightarrow> ''image/png''
      | IMAGE_SVG_XML \<Rightarrow> ''image/svg+xml''
      | APPLICATION_JSON \<Rightarrow> ''application/json''
      | APPLICATION_OCTET_STREAM \<Rightarrow> ''application/octet-stream'')"

definition content_type_is_textual :: "content_type \<Rightarrow> bool" where
  "content_type_is_textual t =
     (case t of
        TEXT_HTML \<Rightarrow> True | TEXT_PLAIN \<Rightarrow> True | TEXT_CSS \<Rightarrow> True | TEXT_JAVASCRIPT \<Rightarrow> True
      | APPLICATION_JSON \<Rightarrow> True
      | IMAGE_PNG \<Rightarrow> False | IMAGE_SVG_XML \<Rightarrow> False | APPLICATION_OCTET_STREAM \<Rightarrow> False)"

definition content_encoding_str :: "http_resp \<Rightarrow> cstr" where
  "content_encoding_str r =
     (case resp_encoding r of ENC_NONE \<Rightarrow> [] | ENC_GZIP \<Rightarrow> ''Content-Encoding: gzip'' @ crlf)"

definition cache_control_str :: "http_resp \<Rightarrow> cstr" where
  "cache_control_str r =
     (if resp_no_cache r
      then ''Cache-Control: no-store, no-cache, must-revalidate, max-age=0'' @ crlf @ ''Pragma: no-cache'' @ crlf
      else [])"

definition gen_header_date_str :: "net \<Rightarrow> bool \<Rightarrow> cstr" where
  "gen_header_date_str n flag_gen_date = (if flag_gen_date then date_header n else [])"

definition TX_CHUNK_SIZE :: nat where "TX_CHUNK_SIZE = 1536"
definition SIZE_MAX :: nat where "SIZE_MAX = 2 ^ 32 - 1"

definition write_content_from_flash :: "net \<Rightarrow> http_resp \<Rightarrow> cstr \<Rightarrow> netst \<Rightarrow> netst option" where
  "write_content_from_flash n r buf st =
     (if length buf < resp_len r then None
      else map_option snd (netconn_write n False False (take (resp_len r) buf) st))"

definition write_content_from_static_mem :: "net \<Rightarrow> http_resp \<Rightarrow> cstr \<Rightarrow> netst \<Rightarrow> netst option" where
  "write_content_from_static_mem n r buf st =
     (if length buf < resp_len r then None
      else map_option snd (netconn_write n False False (take (resp_len r) buf) st))"

definition write_content_from_heap :: "net \<Rightarrow> http_resp \<Rightarrow> cstr \<Rightarrow> netst \<Rightarrow> netst option" where
  "write_content_from_heap n r buf st =
     (if length buf < resp_len r then None
      else map_option snd (netconn_write n True False (take (resp_len r) buf) st))"

function fatfs_loop :: "net \<Rightarrow> nat \<Rightarrow> nat \<Rightarrow> nat \<Rightarrow> netst \<Rightarrow> netst option" where
  \<comment> \<open>file, position, remaining length\<close>
  "fatfs_loop n fd pos rem_len st =
     (if rem_len = 0 then Some st
      else
        let num_bytes = (if rem_len \<le> TX_CHUNK_SIZE then rem_len else TX_CHUNK_SIZE);
            last_block = (num_bytes = rem_len)
        in case read_file n fd pos num_bytes of
             None \<Rightarrow> Some st
           | Some data \<Rightarrow>
               if length data \<noteq> num_bytes then Some st
               else
                 (case netconn_write n True (\<not> last_block) data st of
                    None \<Rightarrow> None
                  | Some (res, st1) \<Rightarrow>
                      if \<not> res then Some st1 else fatfs_loop n fd (pos + num_bytes) (rem_len - num_bytes) st1))"
  by pat_completeness auto

termination fatfs_loop
  by (relation "measure (\<lambda>(n, fd, pos, rem_len, st). rem_len)") (auto simp: TX_CHUNK_SIZE_def)

declare fatfs_loop.simps [simp del]

definition write_content_from_fatfs :: "env \<Rightarrow> net \<Rightarrow> http_resp \<Rightarrow> nat \<Rightarrow> netst \<Rightarrow> netst option" where
  "write_content_from_fatfs e n r fd st =
     (let (ok, w) = heap_alloc e (ns_web st);
          st1 = st\<lparr>ns_web := w\<rparr>
      in if \<not> ok then Some st1
         else map_option (\<lambda>st2. st2\<lparr>ns_web := heap_free (ns_web st2)\<rparr>) (fatfs_loop n fd 0 (resp_len r) st1))"

fun json_gen_loop :: "net \<Rightarrow> http_resp \<Rightarrow> cstr list \<Rightarrow> nat \<Rightarrow> nat \<Rightarrow> netst \<Rightarrow> netst option" where
  \<comment> \<open>the chunks to come, the number of the next chunk, the bytes so far\<close>
  "json_gen_loop n r [] k bytes_cnt st = Some st"
| "json_gen_loop n r (chunk # chunks) k bytes_cnt st =
     (if gen_error n k then Some st
      else if chunk = [] then Some st
      else
        let bytes_cnt1 = bytes_cnt + length chunk
        in case netconn_write n True (bytes_cnt1 < resp_len r) chunk st of
             None \<Rightarrow> None
           | Some (res, st1) \<Rightarrow> if \<not> res then Some st1 else json_gen_loop n r chunks (k + 1) bytes_cnt1 st1)"

definition write_content :: "env \<Rightarrow> net \<Rightarrow> http_resp \<Rightarrow> netst \<Rightarrow> netst option" where
  "write_content e n r st =
     (case resp_location r of
        NO_CONTENT \<Rightarrow> Some st
      | FLASH_MEM buf \<Rightarrow> write_content_from_flash n r buf st
      | STATIC_MEM buf \<Rightarrow> write_content_from_static_mem n r buf st
      | HEAP buf \<Rightarrow> write_content_from_heap n r buf st
      | FATFS fd \<Rightarrow> write_content_from_fatfs e n r fd st
      | JSON_GENERATOR chunks \<Rightarrow> json_gen_loop n r chunks 0 0 st)"

definition header_text :: "net \<Rightarrow> http_resp \<Rightarrow> cstr option \<Rightarrow> nat \<Rightarrow> cstr \<Rightarrow> cstr" where
  "header_text n r extra code status_msg =
     (let use_param = (resp_type_param r \<noteq> None \<and> resp_type_param r \<noteq> Some []);
          content_len_buf = (if resp_len r \<noteq> SIZE_MAX
                             then snprintf_s 64 (''Content-Length: '' @ dec_nat (resp_len r) @ crlf) else [])
      in ''HTTP/1.0 '' @ dec_nat code @ '' '' @ status_msg @ crlf
         @ ''Server: Ruuvi Gateway'' @ crlf
         @ gen_header_date_str n True
         @ ''Content-type: '' @ content_type_str (resp_type r)
         @ (if content_type_is_textual (resp_type r) then ''; charset=utf-8'' else [])
         @ (if use_param then ''; '' else [])
         @ (if use_param then the (resp_type_param r) else []) @ crlf
         @ content_len_buf
         @ (case extra of Some x \<Rightarrow> x | None \<Rightarrow> [])
         @ content_encoding_str r
         @ cache_control_str r
         @ crlf)"

definition resp_with_content :: "env \<Rightarrow> net \<Rightarrow> http_resp \<Rightarrow> cstr option \<Rightarrow> nat \<Rightarrow> cstr \<Rightarrow> netst \<Rightarrow> netst option" where
  \<comment> \<open>the content is written even when the header was not\<close>
  "resp_with_content e n r extra code status_msg st = do {
     (ok, st1) \<leftarrow> netconn_printf e n True (header_text n r extra code status_msg) st;
     write_content e n r st1 }"

definition resp_without_content :: "env \<Rightarrow> net \<Rightarrow> nat \<Rightarrow> cstr \<Rightarrow> netst \<Rightarrow> netst option" where
  "resp_without_content e n code status_msg st =
     map_option snd (netconn_printf e n False
       (''HTTP/1.0 '' @ dec_nat code @ '' '' @ status_msg @ crlf
        @ ''Server: Ruuvi Gateway'' @ crlf
        @ ''Content-type: '' @ content_type_str APPLICATION_JSON @ ''; charset=utf-8'' @ crlf
        @ ''Content-Length: '' @ dec_nat (length ''{}'') @ crlf
        @ crlf
        @ ''{}'') st)"

definition netconn_resp_200 :: "env \<Rightarrow> net \<Rightarrow> http_resp \<Rightarrow> cstr option \<Rightarrow> netst \<Rightarrow> netst option" where
  "netconn_resp_200 e n r extra st = resp_with_content e n r extra 200 ''OK'' st"

definition netconn_resp_302 :: "env \<Rightarrow> net \<Rightarrow> netst \<Rightarrow> netst option" where
  "netconn_resp_302 e n st =
     map_option snd (netconn_printf e n False
       (''HTTP/1.0 302 Found'' @ crlf @ ''Server: Ruuvi Gateway'' @ crlf
        @ ''Location: http://'' @ ap_ip_str n @ ''/'' @ crlf @ crlf) st)"

definition netconn_resp_301_auth_html :: "env \<Rightarrow> net \<Rightarrow> cstr \<Rightarrow> cstr option \<Rightarrow> netst \<Rightarrow> netst option" where
  "netconn_resp_301_auth_html e n host extra st =
     map_option snd (netconn_printf e n False
       (''HTTP/1.0 301 Moved Permanently'' @ crlf @ ''Server: Ruuvi Gateway'' @ crlf
        @ ''Location: http://'' @ host @ ''/#auth'' @ crlf
        @ (case extra of Some x \<Rightarrow> x | None \<Rightarrow> []) @ crlf) st)"

definition redirect_text :: "cstr \<Rightarrow> cstr option \<Rightarrow> cstr" where
  "redirect_text host extra =
     ''HTTP/1.0 302 Found'' @ crlf @ ''Server: Ruuvi Gateway'' @ crlf
     @ ''Location: http://'' @ host @ ''/#auth'' @ crlf
     @ (case extra of Some x \<Rightarrow> x | None \<Rightarrow> []) @ crlf"

definition netconn_resp_302_auth_html :: "env \<Rightarrow> net \<Rightarrow> cstr \<Rightarrow> cstr option \<Rightarrow> netst \<Rightarrow> netst option" where
  "netconn_resp_302_auth_html e n host extra st =
     map_option snd (netconn_printf e n False (redirect_text host extra) st)"

definition resp_with_code :: "env \<Rightarrow> net \<Rightarrow> http_resp option \<Rightarrow> nat \<Rightarrow> cstr \<Rightarrow> netst \<Rightarrow> netst option" where
  "resp_with_code e n p_resp code status_msg st =
     (case p_resp of
        None \<Rightarrow> resp_without_content e n code status_msg st
      | Some r \<Rightarrow>
          if resp_len r = 0 then resp_without_content e n code status_msg st
          else resp_with_content e n r None code status_msg st)"

definition netconn_resp_400_with_param :: "env \<Rightarrow> net \<Rightarrow> http_resp option \<Rightarrow> netst \<Rightarrow> netst option" where
  "netconn_resp_400_with_param e n p_resp st = resp_with_code e n p_resp 400 ''Bad Request'' st"

definition netconn_resp_400 :: "env \<Rightarrow> net \<Rightarrow> netst \<Rightarrow> netst option" where
  "netconn_resp_400 e n st = netconn_resp_400_with_param e n None st"

definition netconn_resp_401 :: "env \<Rightarrow> net \<Rightarrow> http_resp \<Rightarrow> cstr option \<Rightarrow> netst \<Rightarrow> netst option" where
  "netconn_resp_401 e n r extra st = resp_with_content e n r extra 401 ''Unauthorized'' st"

definition netconn_resp_403 :: "env \<Rightarrow> net \<Rightarrow> http_resp \<Rightarrow> cstr option \<Rightarrow> netst \<Rightarrow> netst option" where
  "netconn_resp_403 e n r extra st = resp_with_content e n r extra 403 ''Forbidden'' st"

definition netconn_resp_404 :: "env \<Rightarrow> net \<Rightarrow> http_resp \<Rightarrow> netst \<Rightarrow> netst option" where
  "netconn_resp_404 e n r st = resp_with_code e n (Some r) 404 ''Not Found'' st"

definition netconn_resp_409 :: "env \<Rightarrow> net \<Rightarrow> http_resp \<Rightarrow> netst \<Rightarrow> netst option" where
  "netconn_resp_409 e n r st = resp_with_code e n (Some r) 409 ''Conflict'' st"

definition netconn_resp_429 :: "env \<Rightarrow> net \<Rightarrow> http_resp \<Rightarrow> netst \<Rightarrow> netst option" where
  "netconn_resp_429 e n r st = resp_with_code e n (Some r) 429 ''Too Many Requests'' st"

definition netconn_resp_500_with_param :: "env \<Rightarrow> net \<Rightarrow> http_resp option \<Rightarrow> netst \<Rightarrow> netst option" where
  "netconn_resp_500_with_param e n p_resp st = resp_with_code e n p_resp 500 ''Internal Server Error'' st"

definition netconn_resp_500 :: "env \<Rightarrow> net \<Rightarrow> netst \<Rightarrow> netst option" where
  "netconn_resp_500 e n st = netconn_resp_500_with_param e n None st"

definition netconn_resp_502_with_param :: "env \<Rightarrow> net \<Rightarrow> http_resp option \<Rightarrow> netst \<Rightarrow> netst option" where
  "netconn_resp_502_with_param e n p_resp st = resp_with_code e n p_resp 502 ''Bad Gateway'' st"

definition netconn_resp_502 :: "env \<Rightarrow> net \<Rightarrow> netst \<Rightarrow> netst option" where
  "netconn_resp_502 e n st = netconn_resp_502_with_param e n None st"

definition netconn_resp_503_with_param :: "env \<Rightarrow> net \<Rightarrow> http_resp option \<Rightarrow> netst \<Rightarrow> netst option" where
  "netconn_resp_503_with_param e n p_resp st = resp_with_code e n p_resp 503 ''Service Unavailable'' st"

definition netconn_resp_503 :: "env \<Rightarrow> net \<Rightarrow> netst \<Rightarrow> netst option" where
  "netconn_resp_503 e n st = netconn_resp_503_with_param e n None st"

definition netconn_resp_504_with_param :: "env \<Rightarrow> net \<Rightarrow> http_resp option \<Rightarrow> netst \<Rightarrow> netst option" where
  "netconn_resp_504_with_param e n p_resp st = resp_with_code e n p_resp 504 ''Gateway timeout'' st"

definition netconn_resp_504 :: "env \<Rightarrow> net \<Rightarrow> netst \<Rightarrow> netst option" where
  "netconn_resp_504 e n st = netconn_resp_504_with_param e n None st"

definition resp_without_free :: "env \<Rightarrow> net \<Rightarrow> http_resp \<Rightarrow> cstr \<Rightarrow> netst \<Rightarrow> netst option" where
  \<comment> \<open>the extra header fields are the ones of the web state\<close>
  "resp_without_free e n r0 host st =
     (let r = (if resp_code r0 = 206 then r0\<lparr>resp_code := 200\<rparr> else r0);
          extra = Some (w_extra (ns_web st));
          code = resp_code r
      in if code = 200 \<or> code = 299 then netconn_resp_200 e n r extra st
         else if code = 301 then netconn_resp_301_auth_html e n host extra st
         else if code = 302 then netconn_resp_302_auth_html e n host extra st
         else if code = 400 then netconn_resp_400_with_param e n (Some r) st
         else if code = 401 then netconn_resp_401 e n r extra st
         else if code = 403 then netconn_resp_403 e n r extra st
         else if code = 404 then netconn_resp_404 e n r st
         else if code = 409 then netconn_resp_409 e n r st
         else if code = 429 then netconn_resp_429 e n r st
         else if code = 500 then netconn_resp_500_with_param e n (Some r) st
         else if code = 502 then netconn_resp_502_with_param e n (Some r) st
         else if code = 503 then netconn_resp_503_with_param e n (Some r) st
         else if code = 504 then netconn_resp_504_with_param e n (Some r) st
         else \<comment> \<open>in a release build; a debug build stops at an assertion\<close>
           netconn_resp_503_with_param e n (Some r) st)"

definition netconn_resp :: "env \<Rightarrow> net \<Rightarrow> http_resp \<Rightarrow> cstr \<Rightarrow> netst \<Rightarrow> (resource list \<times> netst) option" where
  \<comment> \<open>what the response owned is released, and the state\<close>
  "netconn_resp e n r host st = map_option (Pair (resp_free r)) (resp_without_free e n r host st)"

lemmas response_simps [simp] =
  netconn_resp_400_with_param_def netconn_resp_401_def netconn_resp_403_def
  netconn_resp_404_def netconn_resp_409_def netconn_resp_429_def
  netconn_resp_500_with_param_def netconn_resp_502_with_param_def netconn_resp_503_with_param_def
  netconn_resp_504_with_param_def

section \<open>Writing a buffer\<close>

definition net_doc :: "net \<Rightarrow> bool" where
  \<comment> \<open>documented: no more bytes are written than were given\<close>
  "net_doc n \<longleftrightarrow> (\<forall>k c m len. snd (write_partly n k c m len) \<le> len)"

lemma write_loop_prefix:
  assumes "write_loop n c m t0 mx buf offset st = Some y" "net_doc n" "offset \<le> length buf"
  shows "\<exists>k. ns_sent (snd y) = ns_sent st @ take k (drop offset buf) \<and> (fst y \<longrightarrow> k = length buf - offset)
    \<and> ns_web (snd y) = ns_web st"
  using assms
proof (induction rule: write_loop.raw_induct [rotated, consumes 1, case_names 1])
  case (1 write_loop n c m t0 mx buf offset st y)
  obtain err w where w: "write_partly n (ns_calls st) c m (length buf - offset) = (err, w)" by (metis prod.exhaust)
  have le: "w \<le> length buf - offset" using "1.prems"(1) w by (metis net_doc_def snd_conv)
  let ?st1 = "st\<lparr>ns_calls := ns_calls st + 1\<rparr>"
  let ?st2 = "?st1\<lparr>ns_sent := ns_sent ?st1 @ take w (drop offset buf)\<rparr>"
  have e: "(if err \<noteq> ERR_OK \<and> err \<noteq> ERR_WOULDBLOCK then Some (False, ?st1)
      else if mx \<noteq> 0 \<and> tick_at n (ns_calls ?st2) - t0 > mx then Some (False, ?st2)
      else if offset + w \<noteq> length buf then write_loop n c m t0 mx buf (offset + w) ?st2
      else Some (True, ?st2)) = Some y"
    using "1.hyps" unfolding Let_def w prod.case .
  consider "y = (False, ?st1)" | "y = (False, ?st2)" | "y = (True, ?st2)" "offset + w = length buf"
    | "write_loop n c m t0 mx buf (offset + w) ?st2 = Some y"
    using e by (metis option.inject)
  then show ?case
  proof cases
    case 1
    then show ?thesis by (auto intro: exI [of _ 0])
  next
    case 2
    then show ?thesis by auto
  next
    case 3
    then show ?thesis by (auto intro: exI [of _ w])
  next
    case 4
    have "offset + w \<le> length buf" using le "1.prems"(2) by simp
    from "1.IH" [OF 4 "1.prems"(1) this] obtain k where
      "ns_sent (snd y) = ns_sent ?st2 @ take k (drop (offset + w) buf)" "fst y \<longrightarrow> k = length buf - (offset + w)"
      "ns_web (snd y) = ns_web ?st2" by auto
    moreover have "take (w + k) (drop offset buf) = take w (drop offset buf) @ take k (drop (offset + w) buf)"
      by (simp only: take_add drop_drop add.commute [of w offset])
    ultimately show ?thesis
      using le \<open>offset + w \<le> length buf\<close> by (intro exI [of _ "w + k"]) auto
  qed
qed

lemma write_loop_returns:
  assumes "mx \<noteq> 0" "tick_at n (ns_calls st + d + 1) - t0 > mx"
  shows "write_loop n c m t0 mx buf offset st \<noteq> None"
  using assms(2)
proof (induction d arbitrary: offset st)
  case 0
  with assms(1) show ?case by (subst write_loop.simps) (simp add: Let_def case_prod_beta)
next
  case (Suc d)
  let ?w = "snd (write_partly n (ns_calls st) c m (length buf - offset))"
  let ?st2 = "st\<lparr>ns_calls := ns_calls st + 1, ns_sent := ns_sent st @ take ?w (drop offset buf)\<rparr>"
  have "write_loop n c m t0 mx buf (offset + ?w) ?st2 \<noteq> None"
    using Suc.prems by (intro Suc.IH) simp
  with assms(1) show ?case by (subst write_loop.simps) (simp add: Let_def case_prod_beta)
qed

definition healthy :: "net \<Rightarrow> bool" where
  \<comment> \<open>every call writes something, and the time does not run out\<close>
  "healthy n \<longleftrightarrow> (\<forall>k c m len. fst (write_partly n k c m len) = ERR_OK \<and> snd (write_partly n k c m len) \<le> len
      \<and> (0 < len \<longrightarrow> 0 < snd (write_partly n k c m len)))
     \<and> (send_timeout n = 0 \<or> (\<forall>i j. tick_at n j - tick_at n i \<le> ms_to_ticks n (send_timeout n)))"

lemma write_loop_healthy:
  assumes "healthy n" "mx = 0 \<or> (\<forall>j. tick_at n j - t0 \<le> mx)" "offset \<le> length buf"
  shows "\<exists>st'. write_loop n c m t0 mx buf offset st = Some (True, st')
    \<and> ns_sent st' = ns_sent st @ drop offset buf \<and> ns_web st' = ns_web st"
  using assms(3)
proof (induction "length buf - offset" arbitrary: offset st rule: less_induct)
  case less
  obtain w where w: "write_partly n (ns_calls st) c m (length buf - offset) = (ERR_OK, w)"
    "w \<le> length buf - offset" "offset < length buf \<longrightarrow> 0 < w"
    using assms(1) less.prems unfolding healthy_def by (metis prod.collapse zero_less_diff)
  let ?st2 = "st\<lparr>ns_calls := ns_calls st + 1, ns_sent := ns_sent st @ take w (drop offset buf)\<rparr>"
  have no_timeout: "\<not> (mx \<noteq> 0 \<and> tick_at n j - t0 > mx)" for j using assms(2) by (auto simp: not_less)
  show ?case
  proof (cases "offset + w = length buf")
    case True
    then have "take w (drop offset buf) = drop offset buf" by simp
    with True w no_timeout show ?thesis by (subst write_loop.simps) (simp add: Let_def)
  next
    case False
    have "length buf - (offset + w) < length buf - offset" "offset + w \<le> length buf"
      using False w less.prems by auto
    from less.hyps [OF this, of ?st2] obtain st' where
      r: "write_loop n c m t0 mx buf (offset + w) ?st2 = Some (True, st')"
      "ns_sent st' = ns_sent ?st2 @ drop (offset + w) buf" "ns_web st' = ns_web ?st2" by blast
    have "take w (drop offset buf) @ drop (offset + w) buf = drop offset buf"
      by (metis append_take_drop_id drop_drop add.commute)
    with r False w no_timeout show ?thesis
      by (subst write_loop.simps) (simp add: Let_def)
  qed
qed

lemma netconn_write_healthy:
  assumes "healthy n"
  shows "\<exists>st'. netconn_write n c m buf st = Some (True, st') \<and> ns_sent st' = ns_sent st @ buf
    \<and> ns_web st' = ns_web st"
  using write_loop_healthy [OF assms, of _ _ 0 buf c m st] assms
  by (auto simp: netconn_write_def Let_def healthy_def)

section \<open>Responses on a healthy network\<close>

lemma printf_healthy:
  assumes "healthy n" "alloc_ok e (w_allocs (ns_web st))"
  shows "\<exists>st'. netconn_printf e n m s st = Some (True, st') \<and> ns_sent st' = ns_sent st @ s
    \<and> ns_web st' = heap_free (snd (heap_alloc e (ns_web st)))"
proof -
  let ?st1 = "st\<lparr>ns_web := snd (heap_alloc e (ns_web st))\<rparr>"
  obtain st2 where "netconn_write n True m s ?st1 = Some (True, st2)" "ns_sent st2 = ns_sent st @ s"
    "ns_web st2 = snd (heap_alloc e (ns_web st))"
    using netconn_write_healthy [OF assms(1), of True m s ?st1] by auto
  with assms(2) show ?thesis by (simp add: netconn_printf_def Let_def case_prod_beta)
qed

definition content_is :: "net \<Rightarrow> http_resp \<Rightarrow> cstr \<Rightarrow> bool" where
  \<comment> \<open>the content that a response announces and can deliver\<close>
  "content_is n r body \<longleftrightarrow> resp_len r = length body \<and>
     (case resp_location r of
        NO_CONTENT \<Rightarrow> body = []
      | FLASH_MEM s \<Rightarrow> s = body
      | STATIC_MEM s \<Rightarrow> s = body
      | HEAP s \<Rightarrow> s = body
      | FATFS fd \<Rightarrow> \<forall>pos k. pos + k \<le> length body \<longrightarrow> read_file n fd pos k = Some (take k (drop pos body))
      | JSON_GENERATOR chunks \<Rightarrow> concat chunks = body \<and> (\<forall>ch\<in>set chunks. ch \<noteq> []) \<and> (\<forall>k. \<not> gen_error n k))"

lemma fatfs_healthy:
  assumes "healthy n" "\<forall>pos k. pos + k \<le> length body \<longrightarrow> read_file n fd pos k = Some (take k (drop pos body))"
    and "pos + rem_len = length body"
  shows "\<exists>st'. fatfs_loop n fd pos rem_len st = Some st' \<and> ns_sent st' = ns_sent st @ drop pos body
    \<and> ns_web st' = ns_web st"
  using assms(3)
proof (induction rem_len arbitrary: pos st rule: less_induct)
  case (less rem_len)
  show ?case
  proof (cases "rem_len = 0")
    case True
    with less.prems show ?thesis by (simp add: fatfs_loop.simps)
  next
    case False
    define num where "num = (if rem_len \<le> TX_CHUNK_SIZE then rem_len else TX_CHUNK_SIZE)"
    have num: "0 < num" "num \<le> rem_len" using False by (simp_all add: num_def TX_CHUNK_SIZE_def)
    let ?data = "take num (drop pos body)"
    have data: "read_file n fd pos num = Some ?data" "length ?data = num"
      using assms(2) less.prems num(2) by simp_all
    obtain st1 where w: "netconn_write n True (\<not> num = rem_len) ?data st = Some (True, st1)"
      "ns_sent st1 = ns_sent st @ ?data" "ns_web st1 = ns_web st"
      using netconn_write_healthy [OF assms(1)] by blast
    have "rem_len - num < rem_len" "pos + num + (rem_len - num) = length body"
      using num less.prems by simp_all
    from less.IH [OF this, of st1] obtain st' where
      r: "fatfs_loop n fd (pos + num) (rem_len - num) st1 = Some st'"
      "ns_sent st' = ns_sent st1 @ drop (pos + num) body" "ns_web st' = ns_web st1" by blast
    have "?data @ drop (pos + num) body = drop pos body"
      by (metis append_take_drop_id drop_drop add.commute)
    moreover have "fatfs_loop n fd pos rem_len st = Some st'"
      using False data w(1) r(1) by (subst fatfs_loop.simps) (simp add: num_def [symmetric] Let_def)
    ultimately show ?thesis using r w by simp
  qed
qed

lemma json_gen_healthy:
  assumes "healthy n" "\<forall>k. \<not> gen_error n k" "\<forall>ch\<in>set chunks. ch \<noteq> []"
  shows "\<exists>st'. json_gen_loop n r chunks k cnt st = Some st' \<and> ns_sent st' = ns_sent st @ concat chunks
    \<and> ns_web st' = ns_web st"
  using assms(3)
proof (induction chunks arbitrary: k cnt st)
  case Nil
  then show ?case by simp
next
  case (Cons ch chunks)
  obtain st1 where w: "netconn_write n True (cnt + length ch < resp_len r) ch st = Some (True, st1)"
    "ns_sent st1 = ns_sent st @ ch" "ns_web st1 = ns_web st"
    using netconn_write_healthy [OF assms(1)] by blast
  from Cons.prems Cons.IH [of "k + 1" "cnt + length ch" st1] obtain st' where
    "json_gen_loop n r chunks (k + 1) (cnt + length ch) st1 = Some st'"
    "ns_sent st' = ns_sent st1 @ concat chunks" "ns_web st' = ns_web st1" by auto
  with w Cons.prems assms(2) show ?case by simp
qed

lemma write_content_healthy:
  assumes "healthy n" "\<forall>k. alloc_ok e k" "content_is n r body"
  shows "\<exists>st'. write_content e n r st = Some st' \<and> ns_sent st' = ns_sent st @ body
    \<and> w_live (ns_web st') = w_live (ns_web st)"
proof (cases "resp_location r")
  case (FATFS fd)
  let ?st1 = "st\<lparr>ns_web := snd (heap_alloc e (ns_web st))\<rparr>"
  obtain st' where "fatfs_loop n fd 0 (resp_len r) ?st1 = Some st'" "ns_sent st' = ns_sent st @ body"
    "ns_web st' = snd (heap_alloc e (ns_web st))"
    using fatfs_healthy [OF assms(1), of body fd 0 "resp_len r" ?st1] assms(3) FATFS by (auto simp: content_is_def)
  with FATFS assms(2) show ?thesis
    by (simp add: write_content_def write_content_from_fatfs_def Let_def case_prod_beta)
next
  case (JSON_GENERATOR chunks)
  with assms(3) json_gen_healthy [OF assms(1), of chunks r 0 0 st] show ?thesis
    by (auto simp: write_content_def content_is_def)
next
  case NO_CONTENT
  with assms(3) show ?thesis by (simp add: write_content_def content_is_def)
next
  case (FLASH_MEM s)
  with assms(3) netconn_write_healthy [OF assms(1), of False False body st] show ?thesis
    by (auto simp: write_content_def content_is_def write_content_from_flash_def)
next
  case (STATIC_MEM s)
  with assms(3) netconn_write_healthy [OF assms(1), of False False body st] show ?thesis
    by (auto simp: write_content_def content_is_def write_content_from_static_mem_def)
next
  case (HEAP s)
  with assms(3) netconn_write_healthy [OF assms(1), of True False body st] show ?thesis
    by (auto simp: write_content_def content_is_def write_content_from_heap_def)
qed

section \<open>The header\<close>

definition content_type_line :: "http_resp \<Rightarrow> cstr" where
  "content_type_line r = ''Content-type: '' @ content_type_str (resp_type r)
     @ (if content_type_is_textual (resp_type r) then ''; charset=utf-8'' else [])
     @ (if resp_type_param r \<noteq> None \<and> resp_type_param r \<noteq> Some [] then ''; '' @ the (resp_type_param r) else [])"

definition header_lines :: "cstr \<Rightarrow> http_resp \<Rightarrow> cstr list \<Rightarrow> nat \<Rightarrow> cstr \<Rightarrow> cstr list" where
  \<comment> \<open>the lines of the header, with the line of the date and the extra lines\<close>
  "header_lines date r xs code msg =
     [''HTTP/1.0 '' @ dec_nat code @ '' '' @ msg, ''Server: Ruuvi Gateway'', date, content_type_line r,
      ''Content-Length: '' @ dec_nat (resp_len r)] @ xs
     @ (case resp_encoding r of ENC_NONE \<Rightarrow> [] | ENC_GZIP \<Rightarrow> [''Content-Encoding: gzip''])
     @ (if resp_no_cache r
        then [''Cache-Control: no-store, no-cache, must-revalidate, max-age=0'', ''Pragma: no-cache''] else [])"

lemma length_dec_nat: "n < 10 ^ k \<Longrightarrow> 0 < k \<Longrightarrow> length (dec_nat n) \<le> k"
proof (induction n arbitrary: k rule: dec_nat.induct)
  case (1 n)
  show ?case
  proof (cases "n < 10")
    case True
    with "1.prems" show ?thesis by (simp add: dec_nat.simps)
  next
    case False
    then obtain k' where k: "k = Suc k'" "0 < k'"
      using "1.prems" by (cases k; cases "k - 1") auto
    then have "n div 10 < 10 ^ k'" using "1.prems" by auto
    from "1.IH" [OF False this k(2)] False k(1) show ?thesis by (simp add: dec_nat.simps)
  qed
qed

lemma line_ok_dec_nat: "line_ok (dec_nat n)"
proof (induction n rule: dec_nat.induct)
  case (1 n)
  have "line_ok [digit_char d]" if "d < 10" for d
  proof -
    have "list_all (\<lambda>d. line_ok [digit_char d]) [0..<10]" by code_simp
    with that show ?thesis by (simp add: list_all_iff)
  qed
  then have d: "line_ok [digit_char (n mod 10)]" "n < 10 \<Longrightarrow> line_ok [digit_char n]" by simp_all
  show ?case
    using d "1.IH" by (cases "n < 10") (auto simp: dec_nat.simps [of n] line_ok_def)
qed

lemma line_ok_append: "line_ok (s @ t) \<longleftrightarrow> line_ok s \<and> line_ok t"
  by (auto simp: line_ok_def)

lemma header_block_append: "header_block (xs @ ys) = header_block xs @ header_block ys"
  by (simp add: header_block_def)

lemma header_text_lines:
  assumes "date_header n = date @ crlf" "extra = None \<and> xs = [] \<or> extra = Some (header_block xs)"
    and "resp_len r < SIZE_MAX"
  shows "header_text n r extra code msg = header_block (header_lines date r xs code msg) @ crlf"
proof -
  have "resp_len r < 10 ^ 10" using assms(3) by (simp add: SIZE_MAX_def)
  from length_dec_nat [OF this] have "length (''Content-Length: '' @ dec_nat (resp_len r) @ crlf) < 64" by simp
  then have len: "snprintf_s 64 (''Content-Length: '' @ dec_nat (resp_len r) @ crlf) =
      ''Content-Length: '' @ dec_nat (resp_len r) @ crlf" by (rule snprintf_s_id)
  have x: "(case extra of Some x \<Rightarrow> x | None \<Rightarrow> []) = header_block xs" using assms(2) by auto
  have enc: "content_encoding_str r = header_block
      (case resp_encoding r of ENC_NONE \<Rightarrow> [] | ENC_GZIP \<Rightarrow> [''Content-Encoding: gzip''])"
    by (simp add: content_encoding_str_def crlf_def split: content_encoding.splits)
  have cache: "cache_control_str r = header_block (if resp_no_cache r
        then [''Cache-Control: no-store, no-cache, must-revalidate, max-age=0'', ''Pragma: no-cache''] else [])"
    by (simp add: cache_control_str_def crlf_def)
  have ty: "''Content-type: '' @ content_type_str (resp_type r)
      @ (if content_type_is_textual (resp_type r) then ''; charset=utf-8'' else [])
      @ (if p then ''; '' else []) @ (if p then v else []) @ t
    = (''Content-type: '' @ content_type_str (resp_type r)
      @ (if content_type_is_textual (resp_type r) then ''; charset=utf-8'' else [])
      @ (if p then ''; '' @ v else [])) @ t" for p v t by simp
  have "resp_len r \<noteq> SIZE_MAX" using assms(3) by simp
  then show ?thesis
    unfolding header_text_def Let_def len x enc cache ty header_lines_def header_block_append
      content_type_line_def [symmetric]
    using assms(1) by (simp add: gen_header_date_str_def crlf_def)
qed

definition header_ok :: "cstr list \<Rightarrow> bool" where
  "header_ok ls \<longleftrightarrow> list_all (\<lambda>l. l \<noteq> [] \<and> line_ok l) ls"

definition sent_response :: "netst \<Rightarrow> netst \<Rightarrow> cstr list \<Rightarrow> cstr \<Rightarrow> bool" where
  \<comment> \<open>header lines, a blank line, and a body of the announced length; the heap as before\<close>
  "sent_response st st' ls body \<longleftrightarrow> ns_sent st' = ns_sent st @ header_block ls @ crlf @ body \<and> header_ok ls
     \<and> ''Content-Length: '' @ dec_nat (length body) \<in> set ls \<and> w_live (ns_web st') = w_live (ns_web st)"

lemma content_type_str_ok: "line_ok (content_type_str t)"
  by (cases t) (simp_all add: content_type_str_def line_ok_def is_crlf_char_def)

lemma header_lines_ok:
  assumes "line_ok date" "date \<noteq> []" "header_ok xs" "line_ok msg" "\<forall>p. resp_type_param r = Some p \<longrightarrow> line_ok p"
  shows "header_ok (header_lines date r xs code msg)"
proof -
  have const: "line_ok ''HTTP/1.0 ''" "line_ok '' ''" "line_ok ''Server: Ruuvi Gateway''" "line_ok ''Content-type: ''"
    "line_ok ''; charset=utf-8''" "line_ok ''; ''" "line_ok ''Content-Length: ''" "line_ok ''Content-Encoding: gzip''"
    "line_ok ''Cache-Control: no-store, no-cache, must-revalidate, max-age=0''" "line_ok ''Pragma: no-cache''" "line_ok []"
    by (simp_all add: line_ok_def is_crlf_char_def)
  have "line_ok (''HTTP/1.0 '' @ dec_nat code @ '' '' @ msg)"
    using const assms(4) line_ok_dec_nat by (simp only: line_ok_append)
  moreover have "line_ok (''Content-Length: '' @ dec_nat (resp_len r))"
    using const line_ok_dec_nat by (simp only: line_ok_append)
  moreover have "line_ok (content_type_line r)"
    unfolding content_type_line_def line_ok_append
    using const content_type_str_ok assms(5) by (auto simp: line_ok_append simp del: append_Cons)
  moreover have "content_type_line r \<noteq> []" by (simp add: content_type_line_def)
  ultimately show ?thesis
    using assms(1-3) const
    by (cases "resp_encoding r") (simp_all add: header_lines_def header_ok_def)
qed

lemma with_content_healthy:
  assumes "healthy n" "\<forall>k. alloc_ok e k" "content_is n r body" "length body < SIZE_MAX"
    and "date_header n = date @ crlf" "line_ok date" "date \<noteq> []" "\<forall>p. resp_type_param r = Some p \<longrightarrow> line_ok p"
    and "extra = None \<and> xs = [] \<or> extra = Some (header_block xs)" "header_ok xs" "line_ok msg"
  shows "\<exists>st'. resp_with_content e n r extra code msg st = Some st'
    \<and> sent_response st st' (header_lines date r xs code msg) body"
proof -
  have len: "resp_len r = length body" using assms(3) by (simp add: content_is_def)
  note t = header_text_lines [OF assms(5,9), of r code msg]
  obtain st1 where p: "netconn_printf e n True (header_text n r extra code msg) st = Some (True, st1)"
    "ns_sent st1 = ns_sent st @ header_text n r extra code msg" "ns_web st1 = heap_free (snd (heap_alloc e (ns_web st)))"
    using printf_healthy [OF assms(1)] assms(2) by blast
  obtain st' where w: "write_content e n r st1 = Some st'" "ns_sent st' = ns_sent st1 @ body"
    "w_live (ns_web st') = w_live (ns_web st1)"
    using write_content_healthy [OF assms(1-3)] by blast
  have "''Content-Length: '' @ dec_nat (length body) \<in> set (header_lines date r xs code msg)"
    using len by (simp add: header_lines_def)
  moreover have "header_ok (header_lines date r xs code msg)"
    by (rule header_lines_ok [OF assms(6,7,10,11,8)])
  ultimately show ?thesis
    using p w t assms(2,4) len by (simp add: resp_with_content_def sent_response_def)
qed

definition empty_lines :: "nat \<Rightarrow> cstr \<Rightarrow> cstr list" where
  "empty_lines code msg = [''HTTP/1.0 '' @ dec_nat code @ '' '' @ msg, ''Server: Ruuvi Gateway'',
     ''Content-type: application/json; charset=utf-8'', ''Content-Length: '' @ dec_nat 2]"

lemma without_content_healthy:
  assumes "healthy n" "\<forall>k. alloc_ok e k" "line_ok msg"
  shows "\<exists>st'. resp_without_content e n code msg st = Some st' \<and> sent_response st st' (empty_lines code msg) ''{}''"
proof -
  have const: "line_ok ''HTTP/1.0 ''" "line_ok '' ''" "line_ok ''Server: Ruuvi Gateway''"
    "line_ok ''Content-type: application/json; charset=utf-8''" "line_ok ''Content-Length: ''"
    by (simp_all add: line_ok_def is_crlf_char_def)
  have "line_ok (''HTTP/1.0 '' @ dec_nat code @ '' '' @ msg)" "line_ok (''Content-Length: '' @ dec_nat 2)"
    using const assms(3) line_ok_dec_nat by (simp_all only: line_ok_append)
  with const have "header_ok (empty_lines code msg)"
    by (simp add: empty_lines_def header_ok_def)
  then have ok: "header_ok (empty_lines code msg)" .
  let ?t = "header_block (empty_lines code msg) @ crlf @ ''{}''"
  obtain st' where p: "netconn_printf e n False ?t st = Some (True, st')" "ns_sent st' = ns_sent st @ ?t"
    "ns_web st' = heap_free (snd (heap_alloc e (ns_web st)))"
    using printf_healthy [OF assms(1)] assms(2) by blast
  have "resp_without_content e n code msg st = map_option snd (netconn_printf e n False ?t st)"
    by (simp add: resp_without_content_def empty_lines_def content_type_str_def crlf_def numeral_2_eq_2)
  moreover have "''Content-Length: '' @ dec_nat (length ''{}'') \<in> set (empty_lines code msg)"
    by (simp add: empty_lines_def numeral_2_eq_2)
  ultimately show ?thesis using p ok assms(2) by (simp add: sent_response_def)
qed

lemma with_code_healthy:
  assumes "healthy n" "\<forall>k. alloc_ok e k" "content_is n r body" "length body < SIZE_MAX"
    and "date_header n = date @ crlf" "line_ok date" "date \<noteq> []" "\<forall>p. resp_type_param r = Some p \<longrightarrow> line_ok p"
    and "line_ok msg"
  shows "\<exists>st' ls. resp_with_code e n (Some r) code msg st = Some st'
    \<and> sent_response st st' ls (if body = [] then ''{}'' else body)"
proof (cases "body = []")
  case True
  with without_content_healthy [OF assms(1,2,9), of code st] assms(3) show ?thesis
    by (auto simp: resp_with_code_def content_is_def)
next
  case False
  with with_content_healthy [OF assms(1-8) _ _ assms(9), of None "[]" code st] assms(3) show ?thesis
    by (auto simp: resp_with_code_def content_is_def header_ok_def)
qed

lemma crlf_in_header_block:
  assumes "header_ok ls"
  shows "\<not> prefix (crlf @ crlf) (drop j (header_block ls))"
  using assms
proof (induction ls arbitrary: j)
  case Nil
  then show ?case by (simp add: crlf_def)
next
  case (Cons l ls)
  then have l: "l \<noteq> []" "line_ok l" and ls: "header_ok ls" by (simp_all add: header_ok_def)
  consider "j < length l" | "j = length l" | "j = length l + 1" | "j \<ge> length l + 2" by linarith
  then show ?case
  proof cases
    case 1
    then have "drop j (header_block (l # ls)) = l ! j # drop (Suc j) l @ CR # LF # header_block ls"
      by (simp add: Cons_nth_drop_Suc [symmetric])
    moreover have "l ! j \<noteq> CR" using l(2) 1 by (auto simp: line_ok_def is_crlf_char_def)
    ultimately show ?thesis by (simp add: crlf_def)
  next
    case 2
    have "\<not> prefix [CR, LF] (header_block ls)"
    proof (cases ls)
      case (Cons l' ls')
      with ls have "l' \<noteq> []" "line_ok l'" by (simp_all add: header_ok_def)
      with Cons show ?thesis by (cases l') (auto simp: line_ok_def is_crlf_char_def)
    qed simp
    with 2 show ?thesis by (simp add: crlf_def)
  next
    case 3
    then show ?thesis by (simp add: crlf_def)
  next
    case 4
    then have "drop j (header_block (l # ls)) = drop (j - length l - 2) (header_block ls)"
      by (simp add: numeral_2_eq_2 drop_Cons' diff_diff_eq)
    with Cons.IH [OF ls] show ?thesis by simp
  qed
qed

section \<open>Properties\<close>

text \<open>
  Writing a buffer always returns once the clock has passed the send timeout, even if the
  network never accepts a byte; what the client was sent is a beginning of the buffer, and the
  whole buffer when the result is success.
\<close>

theorem write_returns_prefix:
  assumes "net_doc n" "send_timeout n \<noteq> 0" "ms_to_ticks n (send_timeout n) \<noteq> 0"
    and "tick_at n (ns_calls st + d + 1) - tick_at n (ns_calls st) > ms_to_ticks n (send_timeout n)"
  shows "\<exists>res st' k. netconn_write n c m buf st = Some (res, st') \<and> ns_sent st' = ns_sent st @ take k buf
    \<and> (res \<longrightarrow> take k buf = buf) \<and> ns_web st' = ns_web st"
proof -
  obtain y where y: "write_loop n c m (tick_at n (ns_calls st)) (ms_to_ticks n (send_timeout n)) buf 0 st = Some y"
    using write_loop_returns [OF assms(3,4)] by blast
  from write_loop_prefix [OF this assms(1)] obtain k where
    "ns_sent (snd y) = ns_sent st @ take k buf" "fst y \<longrightarrow> k = length buf" "ns_web (snd y) = ns_web st" by auto
  with y assms(2) show ?thesis
    by (intro exI [of _ "fst y"] exI [of _ "snd y"] exI [of _ k]) (simp add: netconn_write_def)
qed

lemma response_sent:
  assumes "healthy n" "\<forall>k. alloc_ok e k" "content_is n r body" "length body < SIZE_MAX"
    and "date_header n = date @ crlf" "line_ok date" "date \<noteq> []" "\<forall>p. resp_type_param r = Some p \<longrightarrow> line_ok p"
    and "w_extra (ns_web st) = header_block xs" "header_ok xs" "resp_code r \<notin> {301, 302}"
  shows "\<exists>st' ls. netconn_resp e n r host st = Some (resp_free r, st')
    \<and> sent_response st st' ls (if body = [] \<and> resp_code r \<notin> {200, 206, 299, 401, 403} then ''{}'' else body)
    \<and> (resp_code r \<in> {200, 206, 299, 401, 403} \<longrightarrow> set xs \<subseteq> set ls)"
proof -
  let ?r = "if resp_code r = 206 then r\<lparr>resp_code := 200\<rparr> else r"
  have c: "content_is n ?r body" using assms(3) by (simp add: content_is_def)
  have p: "\<forall>p. resp_type_param ?r = Some p \<longrightarrow> line_ok p" using assms(8) by simp
  have const: "line_ok ''OK''" "line_ok ''Unauthorized''" "line_ok ''Forbidden''" "line_ok ''Bad Request''"
    "line_ok ''Not Found''" "line_ok ''Conflict''" "line_ok ''Too Many Requests''" "line_ok ''Internal Server Error''"
    "line_ok ''Bad Gateway''" "line_ok ''Service Unavailable''" "line_ok ''Gateway timeout''"
    by (simp_all add: line_ok_def is_crlf_char_def)
  note full = with_content_healthy [OF assms(1,2) c assms(4-7) p _ assms(10), where extra = "Some (w_extra (ns_web st))"
      and st = st, OF disjI2]
  note part = with_code_healthy [OF assms(1,2) c assms(4-7) p, where st = st]
  have sub: "set xs \<subseteq> set (header_lines date ?r xs code msg)" for code msg
    unfolding header_lines_def set_append by blast
  have full': "\<exists>st' ls. resp_with_content e n ?r (Some (w_extra (ns_web st))) code msg st = Some st'
      \<and> sent_response st st' ls body \<and> set xs \<subseteq> set ls" if "line_ok msg" for code msg
    using full [OF _ that, of code] assms(9) sub [of code msg] by blast
  show ?thesis
  proof (cases "resp_code r \<in> {200, 206, 299, 401, 403}")
    case True
    define code msg where "code = (if resp_code r \<in> {401, 403} then resp_code r else 200)"
      and "msg = (if resp_code r = 401 then ''Unauthorized'' else if resp_code r = 403 then ''Forbidden'' else ''OK'')"
    have "resp_without_free e n r host st = resp_with_content e n ?r (Some (w_extra (ns_web st))) code msg st"
      using True unfolding code_def msg_def
      by (elim insertE emptyE) (simp_all add: resp_without_free_def netconn_resp_200_def Let_def)
    moreover have "line_ok msg" using const by (simp add: msg_def)
    ultimately obtain st' ls where "resp_without_free e n r host st = Some st'" "sent_response st st' ls body"
      "set xs \<subseteq> set ls" using full' [of msg code] by auto
    with True show ?thesis by (simp add: netconn_resp_def) blast
  next
    case False
    have "\<exists>st' ls. resp_without_free e n r host st = Some st'
        \<and> sent_response st st' ls (if body = [] then ''{}'' else body)"
      using False assms(11) const part by (simp add: resp_without_free_def Let_def)
    with False show ?thesis by (auto simp: netconn_resp_def)
  qed
qed

definition redirect_lines :: "nat \<Rightarrow> cstr \<Rightarrow> cstr list" where
  "redirect_lines code host = [if code = 301 then ''HTTP/1.0 301 Moved Permanently'' else ''HTTP/1.0 302 Found'',
     ''Server: Ruuvi Gateway'', ''Location: http://'' @ host @ ''/#auth'']"

definition ends_header :: "cstr \<Rightarrow> bool" where
  \<comment> \<open>the text contains the blank line that ends an HTTP header\<close>
  "ends_header t \<longleftrightarrow> strstr_idx t (crlf @ crlf) \<noteq> None"

lemma header_lines_open: "header_ok ls \<Longrightarrow> \<not> ends_header (header_block ls)"
  using crlf_in_header_block [of ls] strstr_idx_Some [of "header_block ls" "crlf @ crlf"]
  by (cases "strstr_idx (header_block ls) (crlf @ crlf)") (auto simp: ends_header_def)

lemma header_lines_closed: "ls \<noteq> [] \<Longrightarrow> ends_header (header_block ls @ crlf)"
proof -
  assume "ls \<noteq> []"
  then obtain init l where "ls = init @ [l]" by (metis rev_exhaust)
  then have "header_block ls @ crlf = (header_block init @ l) @ (crlf @ crlf) @ []"
    by (simp add: header_block_append crlf_def)
  then have "drop (length (header_block init @ l)) (header_block ls @ crlf) = (crlf @ crlf) @ []"
    by (metis append_eq_conv_conj)
  then have "prefix (crlf @ crlf) (drop (length (header_block init @ l)) (header_block ls @ crlf))" by simp
  then show ?thesis
    using strstr_idx_None [of "header_block ls @ crlf" "crlf @ crlf" "length (header_block init @ l)"]
    unfolding ends_header_def by blast
qed

lemma redirect_sent:
  assumes "healthy n" "\<forall>k. alloc_ok e k" "resp_code r \<in> {301, 302}" "line_ok host"
    and "w_extra (ns_web st) = header_block xs @ t" "header_ok xs" "line_ok t"
  shows "\<exists>st'. netconn_resp e n r host st = Some (resp_free r, st') \<and> w_live (ns_web st') = w_live (ns_web st)
    \<and> ns_sent st' = ns_sent st @ header_block (redirect_lines (resp_code r) host @ xs) @ t @ crlf
    \<and> header_ok (redirect_lines (resp_code r) host @ xs)
    \<and> (ends_header (header_block (redirect_lines (resp_code r) host @ xs) @ t @ crlf) \<longleftrightarrow> t = [])"
proof -
  let ?ls = "redirect_lines (resp_code r) host @ xs"
  let ?t = "header_block ?ls @ t @ crlf"
  have ok: "header_ok ?ls" using assms(4,6) by (simp add: header_ok_def redirect_lines_def line_ok_def is_crlf_char_def)
  have "ends_header ?t \<longleftrightarrow> t = []"
  proof (cases "t = []")
    case True
    then show ?thesis using header_lines_closed [of ?ls] by (simp add: redirect_lines_def)
  next
    case False
    have "header_ok (?ls @ [t])" using ok False assms(7) by (simp add: header_ok_def)
    from header_lines_open [OF this] False show ?thesis by (simp add: header_block_append crlf_def)
  qed
  moreover have "resp_without_free e n r host st = map_option snd (netconn_printf e n False ?t st)"
    using assms(3,5) by (auto simp: resp_without_free_def netconn_resp_301_auth_html_def netconn_resp_302_auth_html_def
        redirect_text_def redirect_lines_def header_block_append crlf_def Let_def)
  ultimately show ?thesis
    using printf_healthy [OF assms(1), of e st False ?t] assms(2) ok by (auto simp: netconn_resp_def)
qed


text \<open>
  A redirect whose extra header fields are a line without line end, as the cookie of the
  redirect to the login is, never contains the blank line that ends an HTTP header.
\<close>

theorem redirect_without_blank_line:
  assumes "line_ok host" "line_ok extra" "extra \<noteq> []" "healthy n" "\<forall>k. alloc_ok e k" "resp_code r = 302"
    and "w_extra (ns_web st) = extra"
  shows "\<exists>st'. netconn_resp e n r host st = Some (resp_free r, st')
    \<and> ns_sent st' = ns_sent st @ redirect_text host (Some extra)
    \<and> strstr_idx (redirect_text host (Some extra)) (crlf @ crlf) = None"
proof -
  let ?ls = "[''HTTP/1.0 302 Found'', ''Server: Ruuvi Gateway'', ''Location: http://'' @ host @ ''/#auth'', extra]"
  have t: "redirect_text host (Some extra) = header_block ?ls" by (simp add: redirect_text_def crlf_def)
  have "header_ok ?ls"
    using assms(1-3) by (simp add: header_ok_def line_ok_def is_crlf_char_def)
  from crlf_in_header_block [OF this] strstr_idx_Some [of "header_block ?ls" "crlf @ crlf"]
  have "strstr_idx (header_block ?ls) (crlf @ crlf) = None" by (cases "strstr_idx (header_block ?ls) (crlf @ crlf)") auto
  with t printf_healthy [OF assms(4), of e st False "redirect_text host (Some extra)"] assms(5-7) show ?thesis
    by (auto simp: netconn_resp_def resp_without_free_def netconn_resp_302_auth_html_def)
qed

section \<open>Witnesses\<close>

definition net0 :: net where
  \<comment> \<open>everything is accepted at once\<close>
  "net0 = \<lparr>write_partly = \<lambda>k c m len. (ERR_OK, len), tick_at = \<lambda>k. 0, send_timeout = 15000, ms_to_ticks = of_nat,
     read_file = \<lambda>fd pos k. None, gen_error = \<lambda>k. False,
     date_header = ''Date: Thu, 01 Jan 1970 00:00:00 GMT'' @ crlf, ap_ip_str = ''10.10.0.1''\<rparr>"

definition net_stuck :: net where
  \<comment> \<open>nothing is ever accepted, a call lasts ten ticks\<close>
  "net_stuck = net0\<lparr>write_partly := \<lambda>k c m len. (ERR_WOULDBLOCK, 0), tick_at := \<lambda>k. 10 * of_nat k\<rparr>"

definition netst0 :: netst where
  "netst0 = \<lparr>ns_sent = [], ns_calls = 0, ns_web = web0\<rparr>"

lemma healthy_net0: "healthy net0"
  by (simp add: healthy_def net0_def)

lemma write_returns_prefix_witness:
  "\<exists>res st' k. netconn_write net_stuck True False ''abc'' netst0 = Some (res, st')
    \<and> ns_sent st' = ns_sent netst0 @ take k ''abc'' \<and> (res \<longrightarrow> take k ''abc'' = ''abc'') \<and> ns_web st' = ns_web netst0"
  by (rule write_returns_prefix [where d = 1500])
    (simp_all add: net_doc_def net_stuck_def net0_def netst0_def word_less_nat_alt)


lemma redirect_without_blank_line_witness:
  "\<exists>st'. netconn_resp env0 net0 (resp_err 302) ''gw'' (netst0\<lparr>ns_web := web0\<lparr>w_extra := prev_url_cookie ''foo''\<rparr>\<rparr>)
      = Some (resp_free (resp_err 302), st')
    \<and> ns_sent st' = ns_sent (netst0\<lparr>ns_web := web0\<lparr>w_extra := prev_url_cookie ''foo''\<rparr>\<rparr>)
        @ redirect_text ''gw'' (Some (prev_url_cookie ''foo''))
    \<and> strstr_idx (redirect_text ''gw'' (Some (prev_url_cookie ''foo''))) (crlf @ crlf) = None"
  by (rule redirect_without_blank_line [OF _ _ _ healthy_net0])
    (simp_all add: line_ok_def is_crlf_char_def prev_url_cookie_def env0_def)

end
