(* ===== verification/ServeReq.thy ===== *)
theory ServeReq
  imports NetconnResp
begin

text \<open>
  \<^verbatim>\<open>src/http_server_netconn_serve_handle_req.c\<close> and the rest of
  \<^verbatim>\<open>src/http_server_accept_and_handle_conn.c\<close>: one request from the received bytes to the
  response, and the life of one connection.

  The state \<open>conn\<close> is the server state, what the client was sent, the number of calls into the
  network, the delays and what was released; the connection itself is the list of the calls
  into lwip and the mutex, oldest first. The value \<open>None\<close> is a fault or a request that is never
  answered.
\<close>

section \<open>Model\<close>

record conn =
  cn_server :: server
  cn_sent :: cstr
  cn_calls :: nat
  cn_delays :: "nat list" \<comment> \<open>milliseconds\<close>
  cn_freed :: "resource list"

definition on_net :: "(netst \<Rightarrow> netst option) \<Rightarrow> conn \<Rightarrow> conn option" where
  "on_net f c = map_option
     (\<lambda>st. c\<lparr>cn_server := (cn_server c)\<lparr>sv_web := ns_web st\<rparr>, cn_sent := ns_sent st, cn_calls := ns_calls st\<rparr>)
     (f \<lparr>ns_sent = cn_sent c, ns_calls = cn_calls c, ns_web = sv_web (cn_server c)\<rparr>)"

definition upd_web :: "(web \<Rightarrow> web) \<Rightarrow> conn \<Rightarrow> conn" where
  "upd_web f c = c\<lparr>cn_server := (cn_server c)\<lparr>sv_web := f (sv_web (cn_server c))\<rparr>\<rparr>"

definition TASK_WDOG_MAX_FEED_INTERVAL_MS :: nat where "TASK_WDOG_MAX_FEED_INTERVAL_MS = 1000"
definition TASK_WDOG_MIN_FEED_FREQ :: nat where "TASK_WDOG_MIN_FEED_FREQ = 3"
definition BRUTE_FORCE_PROTECTION_TIMEOUT_MS :: nat where "BRUTE_FORCE_PROTECTION_TIMEOUT_MS = 1000"

definition task_wdog_feed_period_ms :: "nat option \<Rightarrow> nat" where
  \<comment> \<open>the timeout of the task watchdog in seconds, if it is configured\<close>
  "task_wdog_feed_period_ms timeout_s =
     (case timeout_s of
        None \<Rightarrow> TASK_WDOG_MAX_FEED_INTERVAL_MS
      | Some t \<Rightarrow>
          let period_ms = (t * 1000) div TASK_WDOG_MIN_FEED_FREQ
          in if period_ms > TASK_WDOG_MAX_FEED_INTERVAL_MS then TASK_WDOG_MAX_FEED_INTERVAL_MS else period_ms)"

partial_function (option) brute_force_delay :: "nat \<Rightarrow> nat \<Rightarrow> nat list option" where
  \<comment> \<open>the delays between two resets of the watchdog; a period of 0 never ends\<close>
  "brute_force_delay wdog_period_ms remaining_ms =
     (if remaining_ms = 0 then Some []
      else
        let step_ms = (if remaining_ms > wdog_period_ms then wdog_period_ms else remaining_ms)
        in do {
             steps \<leftarrow> brute_force_delay wdog_period_ms (remaining_ms - step_ms);
             Some (step_ms # steps) })"

declare brute_force_delay.simps [code]

definition extract_hostname :: "http_req_view \<Rightarrow> cstr \<Rightarrow> cstr \<Rightarrow> bool \<times> cstr" where
  \<comment> \<open>whether the request names the address of the access point, and the host name\<close>
  "extract_hostname v local_ip ap_ip =
     (let (p_host, host_len) = (case http_req_header_get_field (v_header v) ''Host:'' of
                                  None \<Rightarrow> ([], 0)
                                | Some (p, len) \<Rightarrow> (p, len));
          to_ap = (host_len > 0 \<and> strstr_idx (take host_len p_host) ap_ip \<noteq> None)
      in (to_ap, if host_len \<noteq> 0 then take host_len p_host else local_ip))"

record serve_cfg =
  sc_env :: env
  sc_crypto :: crypto
  sc_app :: app
  sc_net :: net
  sc_lan_blocked :: bool \<comment> \<open>\<open>wifi_manager_is_req_from_lan_blocked_while_ap_is_active\<close>\<close>
  sc_wdt_timeout_s :: "nat option"

definition from_lan :: "serve_cfg \<Rightarrow> cstr \<Rightarrow> bool" where
  "from_lan g local_ip \<longleftrightarrow> local_ip \<noteq> ap_ip_str (sc_net g)"

definition serve_allowed :: "serve_cfg \<Rightarrow> http_req_view \<Rightarrow> cstr \<Rightarrow> cstr \<Rightarrow> cstr \<Rightarrow> conn \<Rightarrow> conn option" where
  \<comment> \<open>the request is handled and answered\<close>
  "serve_allowed g v local_ip remote_ip host c =
     (let web = sv_web (cn_server c);
          q = \<lparr>rp_req = v, rp_remote_ip = remote_ip, rp_info = g_auth_info (w_auth web), rp_lan = from_lan g local_ip\<rparr>
      in do {
        (resp, s) \<leftarrow> handle_req (sc_env g) (sc_crypto g) (sc_app g) q
          ((cn_server c)\<lparr>sv_web := web\<lparr>w_extra := []\<rparr>\<rparr>);
        delays \<leftarrow> (if resp_code resp = 401 \<or> resp_code resp = 403
                   then brute_force_delay (task_wdog_feed_period_ms (sc_wdt_timeout_s g)) BRUTE_FORCE_PROTECTION_TIMEOUT_MS
                   else Some []);
        let c1 = c\<lparr>cn_server := s, cn_delays := cn_delays c @ delays\<rparr>;
        c2 \<leftarrow> on_net (resp_without_free (sc_env g) (sc_net g) resp host) c1;
        Some (upd_web heap_free (c2\<lparr>cn_freed := cn_freed c2 @ resp_free resp\<rparr>)) })"

definition serve_handle_req :: "serve_cfg \<Rightarrow> mem \<Rightarrow> cstr \<Rightarrow> cstr \<Rightarrow> conn \<Rightarrow> conn option" where
  "serve_handle_req g req_buf local_ip remote_ip c = do {
     (m, info) \<leftarrow> http_req_parse req_buf;
     if \<not> is_success info then on_net (netconn_resp_400 (sc_env g) (sc_net g)) c
     else do {
       v \<leftarrow> req_view m info;
       let (to_ap, host) = extract_hostname v local_ip (ap_ip_str (sc_net g));
       let (ok, w1) = heap_alloc (sc_env g) (sv_web (cn_server c));
       let c1 = upd_web (\<lambda>_. w1) c;
       if \<not> ok then on_net (netconn_resp_500 (sc_env g) (sc_net g)) c1
       else if from_lan g local_ip \<and> sc_lan_blocked g then
         map_option (upd_web heap_free) (on_net (netconn_resp_503 (sc_env g) (sc_net g)) c1)
       else if \<not> from_lan g local_ip \<and> \<not> to_ap then
         map_option (upd_web heap_free) (on_net (netconn_resp_302 (sc_env g) (sc_net g)) c1)
       else serve_allowed g v local_ip remote_ip host c1 } }"

subsection \<open>The connection\<close>

datatype conn_op =
    MutexLock | MutexUnlock | Delay nat
  | Accept
  | SetRecvTimeout nat
  | SetSendTimeout nat
  | Serve conn
  | Close
  | Delete

definition ACCEPT_DELAY_MS :: nat where "ACCEPT_DELAY_MS = 53"

definition netconn_serve ::
  "serve_cfg \<Rightarrow> (nat \<Rightarrow> bool) \<Rightarrow> (nat \<Rightarrow> byte) \<Rightarrow> nat \<Rightarrow> (nat \<times> recv_event) list \<Rightarrow> bool \<Rightarrow> bool \<Rightarrow> cstr \<Rightarrow> cstr \<Rightarrow> conn \<Rightarrow>
    conn option" where
  \<comment> \<open>the two flags tell whether the control block of the connection is still there when it is
      read and after; the blocks the receive loop leaves count with the others\<close>
  "netconn_serve g al junk hz evs tcp1 tcp2 local_ip remote_ip c =
     (if \<not> tcp1 then Some c
      else if \<not> tcp2 then Some c
      else do {
        (e, ctx) \<leftarrow> serve_loop al junk hz evs recv_ctx_init;
        let c0 = upd_web (\<lambda>w. w\<lparr>w_live := w_live w + n_live ctx\<rparr>) c;
        c1 \<leftarrow> (if e = Waiting then None
               else if is_ready ctx then do {
                 buf \<leftarrow> p_req_buf ctx;
                 serve_handle_req g buf local_ip remote_ip c0 }
               else Some c0);
        Some (if p_req_buf ctx \<noteq> None then upd_web heap_free c1 else c1) })"

record accept_env =
  ac_mutex :: "bool option" \<comment> \<open>\<open>None\<close>: no mutex; else whether \<open>os_mutex_try_lock\<close> succeeds\<close>
  ac_err :: lwip_err
  ac_new_conn :: bool \<comment> \<open>the new connection is not null\<close>
  ac_tcp :: bool \<comment> \<open>the listening connection still has its control block\<close>

definition accept_and_handle_conn ::
  "accept_env \<Rightarrow> (conn \<Rightarrow> conn option) \<Rightarrow> conn \<Rightarrow> (conn_op list \<times> conn) option" where
  \<comment> \<open>with the way the accepted connection is served\<close>
  "accept_and_handle_conn ac serve c =
     (let lock = (if ac_mutex ac \<noteq> None then [MutexLock] else []);
          unlock = (if ac_mutex ac \<noteq> None then [MutexUnlock] else [])
      in if ac_mutex ac = Some False then Some ([Delay ACCEPT_DELAY_MS], c)
         else if ac_err ac \<noteq> ERR_OK then
           Some (lock @ [Accept] @ unlock @ (if ac_err ac = ERR_TIMEOUT then [Delay ACCEPT_DELAY_MS] else []), c)
         else if \<not> ac_new_conn ac then Some (lock @ [Accept] @ unlock, c)
         else if \<not> ac_tcp ac then Some (lock @ [Accept, Delete] @ unlock, c)
         else do {
           c1 \<leftarrow> serve c;
           Some (lock @ [Accept, SetRecvTimeout 3000, SetSendTimeout 15000, Serve c1, Close, Delete] @ unlock, c1) })"

section \<open>Lemmas\<close>

lemma wdog_period_positive: "timeout_s \<noteq> Some 0 \<Longrightarrow> 0 < task_wdog_feed_period_ms timeout_s"
proof (cases timeout_s)
  case (Some t)
  assume "timeout_s \<noteq> Some 0"
  with Some have "1000 div 3 \<le> t * 1000 div (3::nat)" by (intro div_le_mono) simp
  with Some show ?thesis
    by (simp add: task_wdog_feed_period_ms_def Let_def TASK_WDOG_MAX_FEED_INTERVAL_MS_def TASK_WDOG_MIN_FEED_FREQ_def)
qed (simp add: task_wdog_feed_period_ms_def TASK_WDOG_MAX_FEED_INTERVAL_MS_def)

lemma brute_force_delay_total:
  assumes "0 < wd"
  shows "\<exists>ds. brute_force_delay wd n = Some ds \<and> sum_list ds = n \<and> (\<forall>d\<in>set ds. 0 < d \<and> d \<le> wd)"
proof (induction n rule: less_induct)
  case (less n)
  show ?case
  proof (cases "n = 0")
    case True
    then show ?thesis by (subst brute_force_delay.simps) simp
  next
    case False
    define step where "step = (if n > wd then wd else n)"
    have step: "0 < step" "step \<le> n" "step \<le> wd" using False assms by (auto simp: step_def)
    then have "n - step < n" by simp
    from less.IH [OF this] obtain ds where "brute_force_delay wd (n - step) = Some ds" "sum_list ds = n - step"
      "\<forall>d\<in>set ds. 0 < d \<and> d \<le> wd" by blast
    with False step show ?thesis
      by (subst brute_force_delay.simps) (simp add: step_def [symmetric] Let_def)
  qed
qed

lemma with_freed_host:
  assumes "healthy (sc_net g)" "alloc_ok (sc_env g) (w_allocs (sv_web (cn_server c)))"
  shows "\<exists>c'. on_net (\<lambda>st. map_option snd (netconn_printf (sc_env g) (sc_net g) m s st)) c = Some c'
    \<and> cn_sent c' = cn_sent c @ s \<and> sv_acts (cn_server c') = sv_acts (cn_server c)
    \<and> w_auth (sv_web (cn_server c')) = w_auth (sv_web (cn_server c))
    \<and> w_live (sv_web (cn_server c')) = w_live (sv_web (cn_server c))"
  using printf_healthy [OF assms(1), of "sc_env g" "\<lparr>ns_sent = cn_sent c, ns_calls = cn_calls c, ns_web = sv_web (cn_server c)\<rparr>" m s]
    assms(2)
  by (auto simp: on_net_def)

definition portal_text :: "cstr \<Rightarrow> cstr" where
  "portal_text ap_ip = ''HTTP/1.0 302 Found'' @ crlf @ ''Server: Ruuvi Gateway'' @ crlf
     @ ''Location: http://'' @ ap_ip @ ''/'' @ crlf @ crlf"

definition unavailable_text :: cstr where
  "unavailable_text = ''HTTP/1.0 503 Service Unavailable'' @ crlf @ ''Server: Ruuvi Gateway'' @ crlf
     @ ''Content-type: application/json; charset=utf-8'' @ crlf @ ''Content-Length: 2'' @ crlf @ crlf @ ''{}''"

lemma netconn_resp_503_text:
  "netconn_resp_503 e n st = map_option snd (netconn_printf e n False unavailable_text st)"
proof -
  have "dec_nat 503 = ''503''" "dec_nat 2 = ''2''" by code_simp+
  then show ?thesis
    by (simp add: netconn_resp_503_def resp_with_code_def resp_without_content_def unavailable_text_def
        content_type_str_def crlf_def numeral_2_eq_2)
qed

lemma netconn_resp_302_text:
  "netconn_resp_302 e n st = map_option snd (netconn_printf e n False (portal_text (ap_ip_str n)) st)"
  by (simp add: netconn_resp_302_def portal_text_def)

section \<open>Properties\<close>

text \<open>
  Requests that must not reach the handlers do not reach them: while the access point
  blocks the LAN, a request from the LAN is answered 503, and a client of the access point that
  asks for another host is redirected to the access point; neither changes anything else.
\<close>

theorem blocked_and_captive_requests:
  assumes "healthy (sc_net g)" "\<forall>k. alloc_ok (sc_env g) k"
    and "http_req_parse buf = Some (m, i)" "is_success i" "req_view m i = Some v"
    and "from_lan g local_ip \<and> sc_lan_blocked g
      \<or> \<not> from_lan g local_ip \<and> \<not> fst (extract_hostname v local_ip (ap_ip_str (sc_net g)))"
  shows "\<exists>c'. serve_handle_req g buf local_ip remote_ip c = Some c'
    \<and> cn_sent c' = cn_sent c @ (if from_lan g local_ip then unavailable_text else portal_text (ap_ip_str (sc_net g)))
    \<and> sv_acts (cn_server c') = sv_acts (cn_server c)
    \<and> w_auth (sv_web (cn_server c')) = w_auth (sv_web (cn_server c))
    \<and> w_live (sv_web (cn_server c')) = w_live (sv_web (cn_server c))"
proof -
  obtain to_ap host where h: "extract_hostname v local_ip (ap_ip_str (sc_net g)) = (to_ap, host)" by (metis prod.exhaust)
  let ?c1 = "upd_web (\<lambda>_. snd (heap_alloc (sc_env g) (sv_web (cn_server c)))) c"
  let ?t = "if from_lan g local_ip then unavailable_text else portal_text (ap_ip_str (sc_net g))"
  obtain c2 where r: "on_net (\<lambda>st. map_option snd (netconn_printf (sc_env g) (sc_net g) False ?t st)) ?c1 = Some c2"
    "cn_sent c2 = cn_sent ?c1 @ ?t" "sv_acts (cn_server c2) = sv_acts (cn_server ?c1)"
    "w_auth (sv_web (cn_server c2)) = w_auth (sv_web (cn_server ?c1))"
    "w_live (sv_web (cn_server c2)) = w_live (sv_web (cn_server ?c1))"
    using with_freed_host [OF assms(1), of ?c1] assms(2) by blast
  have run: "serve_handle_req g buf local_ip remote_ip c = Some (upd_web heap_free c2)"
  proof (cases "from_lan g local_ip")
    case True
    with assms(6) have "sc_lan_blocked g" by simp
    with True r(1) assms(2-5) h show ?thesis
      by (simp add: serve_handle_req_def netconn_resp_503_text [abs_def] Let_def case_prod_beta)
  next
    case False
    with assms(6) h have "\<not> to_ap" by simp
    with False r(1) assms(2-5) h show ?thesis
      by (simp add: serve_handle_req_def netconn_resp_302_text [abs_def] Let_def case_prod_beta)
  qed
  show ?thesis using r assms(2) by (simp add: run upd_web_def)
qed

text \<open>
  A refused login or request is slowed down: before a 401 or a 403 is sent, the server
  waits exactly one second, in steps no longer than the feed period of the watchdog.
\<close>

theorem refusal_is_delayed:
  assumes "sc_wdt_timeout_s g \<noteq> Some 0" "serve_allowed g v local_ip remote_ip host c = Some c'"
    and "handle_req (sc_env g) (sc_crypto g) (sc_app g)
      \<lparr>rp_req = v, rp_remote_ip = remote_ip, rp_info = g_auth_info (w_auth (sv_web (cn_server c))),
       rp_lan = from_lan g local_ip\<rparr>
      ((cn_server c)\<lparr>sv_web := (sv_web (cn_server c))\<lparr>w_extra := []\<rparr>\<rparr>) = Some (resp, s)"
  shows "\<exists>ds. cn_delays c' = cn_delays c @ ds
    \<and> sum_list ds = (if resp_code resp \<in> {401, 403} then 1000 else 0)
    \<and> (\<forall>d\<in>set ds. d \<le> task_wdog_feed_period_ms (sc_wdt_timeout_s g))"
proof -
  let ?wd = "task_wdog_feed_period_ms (sc_wdt_timeout_s g)"
  obtain ds where ds: "brute_force_delay ?wd BRUTE_FORCE_PROTECTION_TIMEOUT_MS = Some ds"
    "sum_list ds = 1000" "\<forall>d\<in>set ds. d \<le> ?wd"
    using brute_force_delay_total [OF wdog_period_positive [OF assms(1)], of BRUTE_FORCE_PROTECTION_TIMEOUT_MS]
    by (auto simp: BRUTE_FORCE_PROTECTION_TIMEOUT_MS_def)
  have keep: "cn_delays c2 = cn_delays c1" if "on_net f c1 = Some c2" for f c1 c2
    using that by (auto simp: on_net_def)
  show ?thesis
  proof (cases "resp_code resp \<in> {401, 403}")
    case True
    with assms(2,3) ds(1) have "cn_delays c' = cn_delays c @ ds"
      by (auto simp: serve_allowed_def Let_def upd_web_def dest!: keep elim!: option_bind_SomeE)
    with ds True show ?thesis by auto
  next
    case False
    with assms(2,3) have "cn_delays c' = cn_delays c"
      by (auto simp: serve_allowed_def Let_def upd_web_def dest!: keep elim!: option_bind_SomeE)
    with False show ?thesis by (intro exI [of _ "[]"]) simp
  qed
qed

text \<open>
  Whatever accepting and serving a connection answers, the mutex is released as often as
  it was taken, the new connection is deleted exactly when there is one, and it is closed
  exactly when it was served.
\<close>

theorem connection_resources_balanced:
  assumes "accept_and_handle_conn ac serve c = Some (ops, c')"
  shows "count_list ops MutexLock = count_list ops MutexUnlock
    \<and> count_list ops Delete =
        (if ac_mutex ac \<noteq> Some False \<and> ac_err ac = ERR_OK \<and> ac_new_conn ac then 1 else 0)
    \<and> count_list ops Close = length (filter (\<lambda>x. \<exists>d. x = Serve d) ops)
    \<and> (MutexLock \<in> set ops \<longrightarrow> Accept \<in> set ops \<and> hd ops = MutexLock)"
  using assms
  by (auto simp: accept_and_handle_conn_def Let_def split: if_splits elim!: option_bind_SomeE)

section \<open>Witnesses\<close>

definition cfg0 :: serve_cfg where
  "cfg0 = \<lparr>sc_env = env0, sc_crypto = crypto0, sc_app = app0, sc_net = net0, sc_lan_blocked = True,
     sc_wdt_timeout_s = Some 5\<rparr>"

definition conn0 :: conn where
  "conn0 = \<lparr>cn_server = server1, cn_sent = [], cn_calls = 0, cn_delays = [], cn_freed = []\<rparr>"

definition buf0 :: mem where
  "buf0 = ''GET / HTTP/1.1'' @ [CR, LF] @ ''Host: gw'' @ [CR, LF, CR, LF, NUL]"

lemma buf0_parsed:
  "\<exists>m i v. http_req_parse buf0 = Some (m, i) \<and> is_success i \<and> req_view m i = Some v"
proof -
  have "case http_req_parse buf0 of None \<Rightarrow> False
    | Some (m, i) \<Rightarrow> is_success i \<and> req_view m i \<noteq> None" by code_simp
  then show ?thesis by (auto split: option.splits)
qed

lemma blocked_and_captive_requests_witness:
  "\<exists>c'. serve_handle_req cfg0 buf0 ''192.168.1.5'' ''192.168.1.2'' conn0 = Some c'
    \<and> cn_sent c' = cn_sent conn0 @ (if from_lan cfg0 ''192.168.1.5'' then unavailable_text else portal_text (ap_ip_str (sc_net cfg0)))
    \<and> sv_acts (cn_server c') = sv_acts (cn_server conn0)
    \<and> w_auth (sv_web (cn_server c')) = w_auth (sv_web (cn_server conn0))
    \<and> w_live (sv_web (cn_server c')) = w_live (sv_web (cn_server conn0))"
proof -
  obtain m i v where "http_req_parse buf0 = Some (m, i)" "is_success i" "req_view m i = Some v"
    using buf0_parsed by blast
  moreover have "healthy (sc_net cfg0)" "\<forall>k. alloc_ok (sc_env cfg0) k"
    using healthy_net0 by (simp_all add: cfg0_def env0_def)
  moreover have "from_lan cfg0 ''192.168.1.5'' \<and> sc_lan_blocked cfg0" by code_simp
  ultimately show ?thesis by (intro blocked_and_captive_requests) (assumption | blast)+
qed

definition view1 :: http_req_view where
  "view1 = \<lparr>v_cmd = ''POST'', v_uri = ''/data'', v_uri_params = None, v_ver = ''HTTP/1.1'', v_header = other_header,
     v_body = ''{}''\<rparr>"

definition handled1 :: "(http_resp \<times> server) option" where
  "handled1 = handle_req env0 crypto0 app0
     \<lparr>rp_req = view1, rp_remote_ip = ''192.168.1.2'', rp_info = g_auth_info (w_auth (sv_web (cn_server conn0))),
      rp_lan = True\<rparr> ((cn_server conn0)\<lparr>sv_web := (sv_web (cn_server conn0))\<lparr>w_extra := []\<rparr>\<rparr>)"

lemma handled1_refused: "map_option (resp_code \<circ> fst) handled1 = Some 401"
  by code_simp

definition served1 :: "conn option" where
  "served1 = serve_allowed cfg0 view1 ''192.168.1.5'' ''192.168.1.2'' ''gw'' conn0"

lemma served1_some: "served1 \<noteq> None"
  by code_simp

lemma refusal_is_delayed_witness:
  "\<exists>c' ds. served1 = Some c' \<and> cn_delays c' = cn_delays conn0 @ ds \<and> sum_list ds = 1000"
proof -
  obtain c' where c: "served1 = Some c'" using served1_some by blast
  obtain resp s where r: "handled1 = Some (resp, s)" "resp_code resp = 401"
    using handled1_refused by auto
  have wdt: "sc_wdt_timeout_s cfg0 \<noteq> Some 0" by (simp add: cfg0_def)
  have lan: "from_lan cfg0 ''192.168.1.5'' = True" by code_simp
  have allowed: "serve_allowed cfg0 view1 ''192.168.1.5'' ''192.168.1.2'' ''gw'' conn0 = Some c'"
    using c by (simp only: served1_def)
  have "sc_env cfg0 = env0" "sc_crypto cfg0 = crypto0" "sc_app cfg0 = app0" by (simp_all add: cfg0_def)
  with r(1) lan have "handle_req (sc_env cfg0) (sc_crypto cfg0) (sc_app cfg0)
      \<lparr>rp_req = view1, rp_remote_ip = ''192.168.1.2'', rp_info = g_auth_info (w_auth (sv_web (cn_server conn0))),
       rp_lan = from_lan cfg0 ''192.168.1.5''\<rparr>
      ((cn_server conn0)\<lparr>sv_web := (sv_web (cn_server conn0))\<lparr>w_extra := []\<rparr>\<rparr>) = Some (resp, s)"
    by (simp only: handled1_def)
  from refusal_is_delayed [OF wdt allowed this] r(2)
  have "\<exists>ds. cn_delays c' = cn_delays conn0 @ ds \<and> sum_list ds = 1000" by simp metis
  with c show ?thesis by blast
qed

definition accept0 :: accept_env where
  "accept0 = \<lparr>ac_mutex = Some True, ac_err = ERR_OK, ac_new_conn = True, ac_tcp = False\<rparr>"

lemma connection_resources_balanced_witness:
  "\<exists>ops. accept_and_handle_conn accept0 Some conn0 = Some (ops, conn0)
    \<and> count_list ops MutexLock = count_list ops MutexUnlock \<and> count_list ops Delete = 1
    \<and> hd ops = MutexLock"
proof -
  have run: "accept_and_handle_conn accept0 Some conn0 = Some ([MutexLock, Accept, Delete, MutexUnlock], conn0)"
    by (simp add: accept_and_handle_conn_def accept0_def)
  from connection_resources_balanced [OF run] run show ?thesis
    by (intro exI [of _ "[MutexLock, Accept, Delete, MutexUnlock]"]) (simp add: accept0_def)
qed

end
