(* ===== verification/Tasks.thy ===== *)
theory Tasks
  imports Dns ServeReq
begin

text \<open>
  The tasks of the two servers: start, stop and signals of \<^verbatim>\<open>src/dns_server.c\<close> and
  \<^verbatim>\<open>src/http_server.c\<close>, with \<^verbatim>\<open>src/http_server_mutex.c\<close>.

  The state of a server is what its task holds (\<open>ts_held\<close>) and the calls into the operating
  system, oldest first. Whether a call of the operating system succeeds is an input
  (\<open>task_env\<close>), and so is what happens in each round of a loop: the signals that wait (\<open>None\<close>:
  none) and the datagram or connection that arrives. A list of rounds is the life of the task
  so far; the first result tells whether the task has returned. A failed assertion is the value
  \<open>None\<close>.
\<close>

section \<open>State\<close>

datatype task_resource = Registration | Socket | TmpBuf | WdogTimer | WdtEntry | ListenConn

datatype task_call =
    OsMutexCreate | OsSignalCreate | OsSignalAdd nat | OsSemaCreate | OsMutexLock | OsMutexUnlock | OsTaskCreate
  | OsSignalSend nat | OsSemaSignal | OsWdtReset | OsSendTo bytes | OsUserReq nat | OsConn "conn_op list"

record task_state =
  ts_mutex :: bool \<comment> \<open>the mutex of the server has been created\<close>
  ts_held :: "task_resource set"
  ts_calls :: "task_call list"

record sockaddr =
  \<comment> \<open>\<open>struct sockaddr_in\<close>, with the port in host order\<close>
  sa_addr :: "32 word"
  sa_port :: nat

record task_env =
  te_register :: bool \<comment> \<open>\<open>os_signal_register_cur_thread\<close>\<close>
  te_socket :: bool
  te_timeout :: "nat \<Rightarrow> bool" \<comment> \<open>\<open>setsockopt\<close> with a timeout in milliseconds\<close>
  te_sta_ip :: "32 word option" \<comment> \<open>\<open>esp_netif_get_ip_info\<close> for the interface of the station\<close>
  te_bind :: "sockaddr \<Rightarrow> bool"
  te_calloc :: bool
  te_conn :: bool \<comment> \<open>\<open>netconn_new_with_callback\<close>\<close>
  te_listen :: bool

definition calls :: "task_call list \<Rightarrow> task_state \<Rightarrow> task_state" where
  "calls cs s = s\<lparr>ts_calls := ts_calls s @ cs\<rparr>"

definition acquire :: "task_resource set \<Rightarrow> task_state \<Rightarrow> task_state" where
  "acquire rs s = s\<lparr>ts_held := ts_held s \<union> rs\<rparr>"

definition release :: "task_resource set \<Rightarrow> task_state \<Rightarrow> task_state" where
  "release rs s = s\<lparr>ts_held := ts_held s - rs\<rparr>"

definition SIG_STOP :: nat where "SIG_STOP = 0"
definition SIG_TASK_WATCHDOG_FEED :: nat where "SIG_TASK_WATCHDOG_FEED = 1"
definition SIG_USER_REQ_1 :: nat where "SIG_USER_REQ_1 = 2"
definition SIG_USER_REQ_2 :: nat where "SIG_USER_REQ_2 = 3"

section \<open>The DNS server\<close>

definition dns_server_init :: "task_state \<Rightarrow> task_state option" where
  "dns_server_init s =
     (if ts_mutex s then None
      else Some (calls [OsMutexCreate, OsSignalCreate, OsSignalAdd SIG_STOP, OsSignalAdd SIG_TASK_WATCHDOG_FEED]
             (s\<lparr>ts_mutex := True\<rparr>)))"

definition dns_server_start :: "bool \<Rightarrow> task_state \<Rightarrow> (bool \<times> task_state) option" where
  "dns_server_start created s = (if \<not> ts_mutex s then None else Some (created, calls [OsTaskCreate] s))"

definition dns_server_stop :: "task_state \<Rightarrow> task_state option" where
  "dns_server_stop s =
     (if \<not> ts_mutex s then None
      else Some (calls ([OsMutexLock] @ (if Registration \<in> ts_held s then [OsSignalSend SIG_STOP] else []) @ [OsMutexUnlock]) s))"

definition dns_server_sig_register_cur_thread :: "task_env \<Rightarrow> task_state \<Rightarrow> bool \<times> task_state" where
  "dns_server_sig_register_cur_thread e s =
     (if \<not> te_register e then (False, calls [OsMutexLock, OsMutexUnlock] s)
      else (True, calls [OsMutexUnlock] (acquire {Registration} (calls [OsMutexLock] s))))"

definition dns_server_sig_unregister_cur_thread :: "task_state \<Rightarrow> task_state" where
  "dns_server_sig_unregister_cur_thread s = calls [OsMutexUnlock] (release {Registration} (calls [OsMutexLock] s))"

definition dns_server_conv_from_sig_num :: "nat \<Rightarrow> nat option" where
  \<comment> \<open>the assertion\<close>
  "dns_server_conv_from_sig_num sig_num =
     (if SIG_STOP \<le> sig_num \<and> sig_num \<le> SIG_TASK_WATCHDOG_FEED then Some sig_num else None)"

definition dns_server_wdt_add_and_start :: "task_state \<Rightarrow> task_state" where
  \<comment> \<open>a failure is only logged\<close>
  "dns_server_wdt_add_and_start s = acquire {WdtEntry} s"

definition dns_server_task_wdt_reset :: "task_state \<Rightarrow> task_state" where
  "dns_server_task_wdt_reset s = calls [OsWdtReset] s"

definition dns_server_handle_sig :: "nat \<Rightarrow> task_state \<Rightarrow> bool \<times> task_state" where
  "dns_server_handle_sig sig s = (if sig = SIG_STOP then (True, s) else (False, dns_server_task_wdt_reset s))"

fun dns_server_handle_sig_events :: "nat list \<Rightarrow> task_state \<Rightarrow> (bool \<times> task_state) option" where
  "dns_server_handle_sig_events [] s = Some (False, s)"
| "dns_server_handle_sig_events (sig # sigs) s = do {
     sig \<leftarrow> dns_server_conv_from_sig_num sig;
     let (stop1, s) = dns_server_handle_sig sig s;
     (stop2, s) \<leftarrow> dns_server_handle_sig_events sigs s;
     Some (stop1 \<or> stop2, s) }"

fun dns_server_loop ::
  "(nat list option \<times> bytes option) list \<Rightarrow> 32 word \<Rightarrow> dns_tmp_buf \<Rightarrow> task_state \<Rightarrow> (bool \<times> task_state) option" where
  "dns_server_loop [] ip b s = Some (False, s)"
| "dns_server_loop ((sigs, dgram) # rounds) ip b s = do {
     (stop, s) \<leftarrow> (case sigs of None \<Rightarrow> Some (False, s) | Some l \<Rightarrow> dns_server_handle_sig_events l s);
     if stop then Some (True, s)
     else do {
       (resp, b) \<leftarrow> dns_server_handle_req dgram ip b;
       dns_server_loop rounds ip b (case resp of None \<Rightarrow> s | Some r \<Rightarrow> calls [OsSendTo r] s) } }"

definition dns_buf_zero :: dns_tmp_buf where
  \<comment> \<open>the block of \<open>os_calloc\<close>\<close>
  "dns_buf_zero = \<lparr>db_data = replicate (DNS_QUERY_MAX_SIZE + 1) 0, db_response = replicate DNS_ANSWER_MAX_SIZE 0\<rparr>"

definition dns_server_set_socket_recv_timeout :: "task_env \<Rightarrow> bool" where
  "dns_server_set_socket_recv_timeout e = te_timeout e 1000"

definition dns_server_bind_socket :: "task_env \<Rightarrow> bool" where
  \<comment> \<open>the address stays zero when the interface has no information\<close>
  "dns_server_bind_socket e =
     te_bind e \<lparr>sa_addr = (case te_sta_ip e of None \<Rightarrow> 0 | Some ip \<Rightarrow> ip), sa_port = 53\<rparr>"

definition dns_server_task ::
  "task_env \<Rightarrow> 32 word \<Rightarrow> (nat list option \<times> bytes option) list \<Rightarrow> task_state \<Rightarrow> (bool \<times> task_state) option" where
  "dns_server_task e ip_resolved rounds s =
     (let (ok, s) = dns_server_sig_register_cur_thread e s
      in if \<not> ok then Some (True, s)
         else if \<not> te_socket e then Some (True, dns_server_sig_unregister_cur_thread s)
         else
           let s = acquire {Socket} s
           in if \<not> dns_server_set_socket_recv_timeout e then Some (True, dns_server_sig_unregister_cur_thread (release {Socket} s))
              else if \<not> dns_server_bind_socket e then Some (True, dns_server_sig_unregister_cur_thread (release {Socket} s))
              else if \<not> te_calloc e then Some (True, dns_server_sig_unregister_cur_thread (release {Socket} s))
              else do {
                let s = acquire {WdogTimer} (acquire {TmpBuf} s);
                (stopped, s) \<leftarrow> dns_server_loop rounds ip_resolved dns_buf_zero (dns_server_wdt_add_and_start s);
                if \<not> stopped then Some (False, s)
                else
                  let s = release {WdogTimer} (release {WdtEntry} (release {TmpBuf} s))
                  in Some (True, dns_server_sig_unregister_cur_thread (release {Socket} s)) })"

section \<open>The HTTP server\<close>

definition http_server_init :: "task_state \<Rightarrow> task_state option" where
  "http_server_init s =
     (if ts_mutex s then None
      else Some (calls [OsMutexCreate, OsSignalCreate, OsSignalAdd SIG_STOP, OsSignalAdd SIG_TASK_WATCHDOG_FEED,
             OsSignalAdd SIG_USER_REQ_1, OsSignalAdd SIG_USER_REQ_2, OsSemaCreate] (s\<lparr>ts_mutex := True\<rparr>)))"

definition http_server_start :: "task_state \<Rightarrow> task_state option" where
  \<comment> \<open>without the return the message asks for\<close>
  "http_server_start s =
     (if \<not> ts_mutex s then None
      else
        let s = calls [OsMutexLock] s;
            s = (if Registration \<in> ts_held s then calls [OsMutexUnlock] s else s)
        in Some (calls [OsMutexUnlock, OsTaskCreate] s))"

definition http_server_stop :: "task_state \<Rightarrow> task_state option" where
  "http_server_stop s =
     (if \<not> ts_mutex s then None
      else Some (calls ([OsMutexLock] @ (if Registration \<in> ts_held s then [OsSignalSend SIG_STOP] else []) @ [OsMutexUnlock]) s))"

datatype user_req = USER_REQ_CODE_1 | USER_REQ_CODE_2

definition http_server_user_req :: "user_req \<Rightarrow> task_state \<Rightarrow> task_state option" where
  "http_server_user_req code s =
     (if \<not> ts_mutex s then None
      else
        let sig = (case code of USER_REQ_CODE_1 \<Rightarrow> SIG_USER_REQ_1 | USER_REQ_CODE_2 \<Rightarrow> SIG_USER_REQ_2)
        in Some (calls ([OsMutexLock]
             @ (if Registration \<in> ts_held s then (if sig = SIG_STOP then [] else [OsSignalSend sig]) else [])
             @ [OsMutexUnlock]) s))"

definition http_server_sig_register_cur_thread :: "task_env \<Rightarrow> task_state \<Rightarrow> bool \<times> task_state" where
  "http_server_sig_register_cur_thread e s =
     (if \<not> te_register e then (False, calls [OsMutexLock, OsMutexUnlock] s)
      else (True, calls [OsMutexUnlock] (acquire {Registration} (calls [OsMutexLock] s))))"

definition http_server_sig_unregister_cur_thread :: "task_state \<Rightarrow> task_state" where
  "http_server_sig_unregister_cur_thread s = calls [OsMutexUnlock] (release {Registration} (calls [OsMutexLock] s))"

datatype netconn_evt = EVT_RCVPLUS | EVT_RCVMINUS | EVT_SENDPLUS | EVT_SENDMINUS | EVT_ERROR

definition http_server_netconn_callback :: "bool \<Rightarrow> netconn_evt \<Rightarrow> task_state \<Rightarrow> task_state" where
  \<comment> \<open>whether the event is one of the listening connection\<close>
  "http_server_netconn_callback is_listen event s =
     (if is_listen then s
      else case event of EVT_SENDPLUS \<Rightarrow> calls [OsSemaSignal] s | EVT_ERROR \<Rightarrow> calls [OsSemaSignal] s | _ \<Rightarrow> s)"

definition http_server_conv_from_sig_num :: "nat \<Rightarrow> nat option" where
  "http_server_conv_from_sig_num sig_num =
     (if SIG_STOP \<le> sig_num \<and> sig_num \<le> SIG_USER_REQ_2 then Some sig_num else None)"

definition http_server_task_wdt_add_and_start :: "task_state \<Rightarrow> task_state" where
  "http_server_task_wdt_add_and_start s = acquire {WdtEntry} s"

definition http_server_task_wdt_reset :: "task_state \<Rightarrow> task_state" where
  "http_server_task_wdt_reset s = calls [OsWdtReset] s"

definition http_server_netconn_listen :: "task_env \<Rightarrow> bool" where
  "http_server_netconn_listen e = (if \<not> te_listen e then False else True)"

fun http_server_handle_sig_events :: "nat list \<Rightarrow> task_state \<Rightarrow> (bool \<times> task_state) option" where
  "http_server_handle_sig_events [] s = Some (False, s)"
| "http_server_handle_sig_events (sig # sigs) s =
     do {
       sig \<leftarrow> http_server_conv_from_sig_num sig;
       let s = (if sig = SIG_STOP then s
                else if sig = SIG_TASK_WATCHDOG_FEED then http_server_task_wdt_reset s
                else if sig = SIG_USER_REQ_1 then calls [OsUserReq 1] s
                else calls [OsUserReq 2] s);
       (stop, s) \<leftarrow> http_server_handle_sig_events sigs s;
       Some (sig = SIG_STOP \<or> stop, s) }"

type_synonym http_round = "nat list option \<times> accept_env \<times> (conn \<Rightarrow> conn option)"

fun http_server_loop :: "http_round list \<Rightarrow> conn \<Rightarrow> task_state \<Rightarrow> (bool \<times> conn \<times> task_state) option" where
  "http_server_loop [] c s = Some (False, c, s)"
| "http_server_loop ((sigs, ac, serve) # rounds) c s = do {
     (stop, s) \<leftarrow> (case sigs of None \<Rightarrow> Some (False, s) | Some l \<Rightarrow> http_server_handle_sig_events l s);
     if stop then Some (True, c, s)
     else do {
       (ops, c) \<leftarrow> accept_and_handle_conn ac serve c;
       http_server_loop rounds c (calls [OsConn ops] s) } }"

definition http_server_task :: "task_env \<Rightarrow> http_round list \<Rightarrow> conn \<Rightarrow> task_state \<Rightarrow> (bool \<times> conn \<times> task_state) option" where
  "http_server_task e rounds c s =
     (let (ok, s) = http_server_sig_register_cur_thread e s
      in if \<not> ok then Some (True, c, s)
         else if \<not> te_conn e then Some (True, c, s)
         else
           let s = acquire {ListenConn} s
           in if \<not> http_server_netconn_listen e then Some (True, c, s)
              else do {
                let s = acquire {WdogTimer} s;
                (stopped, c, s) \<leftarrow> http_server_loop rounds c (http_server_task_wdt_add_and_start s);
                if \<not> stopped then Some (False, c, s)
                else
                  let s = release {WdogTimer} (release {WdtEntry} s)
                  in Some (True, c, http_server_sig_unregister_cur_thread (release {ListenConn} s)) })"

subsection \<open>The mutex of the application\<close>

definition use_mutex_for_incoming_connection_handling :: "'m option \<Rightarrow> 'm option \<Rightarrow> 'm option" where
  \<comment> \<open>the given mutex, the current one; the result: the new one\<close>
  "use_mutex_for_incoming_connection_handling p_mutex g =
     (case p_mutex of Some m \<Rightarrow> (if g = None then Some m else g) | None \<Rightarrow> (if g \<noteq> None then None else g))"

definition http_server_get_mutex :: "'m option \<Rightarrow> 'm option" where
  "http_server_get_mutex g = g"

section \<open>Lemmas\<close>

lemma held_simps [simp]:
  "ts_held (calls cs s) = ts_held s" "ts_held (acquire rs s) = ts_held s \<union> rs" "ts_held (release rs s) = ts_held s - rs"
  by (simp_all add: calls_def acquire_def release_def)

lemma wdt_simps [simp]:
  "dns_server_wdt_add_and_start s = acquire {WdtEntry} s" "http_server_task_wdt_add_and_start s = acquire {WdtEntry} s"
  "dns_server_task_wdt_reset s = calls [OsWdtReset] s" "http_server_task_wdt_reset s = calls [OsWdtReset] s"
  by (simp_all add: dns_server_wdt_add_and_start_def http_server_task_wdt_add_and_start_def
      dns_server_task_wdt_reset_def http_server_task_wdt_reset_def)

lemma known_signals [simp]:
  "sig \<le> SIG_TASK_WATCHDOG_FEED \<Longrightarrow> dns_server_conv_from_sig_num sig = Some sig"
  "sig \<le> SIG_USER_REQ_2 \<Longrightarrow> http_server_conv_from_sig_num sig = Some sig"
  by (simp_all add: dns_server_conv_from_sig_num_def http_server_conv_from_sig_num_def SIG_STOP_def)

definition signals_of :: "nat list option \<Rightarrow> nat list" where
  "signals_of sigs = (case sigs of None \<Rightarrow> [] | Some l \<Rightarrow> l)"

text \<open>
  What the loop of a task relies on when it handles its signals: a list of known signals is
  handled, stops the task exactly when it holds the stop signal, and changes no resource.
\<close>

locale signal_handler =
  fixes handle :: "nat list \<Rightarrow> task_state \<Rightarrow> (bool \<times> task_state) option" and last_sig :: nat
  assumes known: "list_all (\<lambda>sig. sig \<le> last_sig) l \<Longrightarrow> \<exists>t. handle l s = Some (SIG_STOP \<in> set l, t) \<and> ts_held t = ts_held s"
begin

lemma waited:
  assumes "list_all (\<lambda>sig. sig \<le> last_sig) (signals_of sigs)"
  obtains t where "(case sigs of None \<Rightarrow> Some (False, s) | Some l \<Rightarrow> handle l s) = Some (SIG_STOP \<in> set (signals_of sigs), t)"
    "ts_held t = ts_held s"
  using assms known by (cases sigs) (fastforce simp: signals_of_def)+

end

lemma dns_signals:
  "list_all (\<lambda>sig. sig \<le> SIG_TASK_WATCHDOG_FEED) l
    \<Longrightarrow> \<exists>t. dns_server_handle_sig_events l s = Some (SIG_STOP \<in> set l, t) \<and> ts_held t = ts_held s"
proof (induction l arbitrary: s)
  case (Cons sig l)
  obtain t where t: "dns_server_handle_sig sig s = (sig = SIG_STOP, t)" "ts_held t = ts_held s"
    by (cases "sig = SIG_STOP") (auto simp: dns_server_handle_sig_def)
  with Cons.IH [of t] Cons.prems show ?case by auto
qed simp

lemma http_signals:
  "list_all (\<lambda>sig. sig \<le> SIG_USER_REQ_2) l
    \<Longrightarrow> \<exists>t. http_server_handle_sig_events l s = Some (SIG_STOP \<in> set l, t) \<and> ts_held t = ts_held s"
proof (induction l arbitrary: s)
  case (Cons sig l)
  let ?t = "if sig = SIG_STOP then s else if sig = SIG_TASK_WATCHDOG_FEED then calls [OsWdtReset] s
      else if sig = SIG_USER_REQ_1 then calls [OsUserReq 1] s else calls [OsUserReq 2] s"
  have t: "ts_held ?t = ts_held s" by simp
  from Cons.IH [of ?t] Cons.prems obtain u where
    "http_server_handle_sig_events l ?t = Some (SIG_STOP \<in> set l, u)" "ts_held u = ts_held ?t" by auto
  with Cons.prems t show ?case by (simp only: http_server_handle_sig_events.simps Let_def) auto
qed simp

interpretation dns_sig: signal_handler dns_server_handle_sig_events SIG_TASK_WATCHDOG_FEED
  by unfold_locales (rule dns_signals)

interpretation http_sig: signal_handler http_server_handle_sig_events SIG_USER_REQ_2
  by unfold_locales (rule http_signals)

lemma dns_loop_outcome:
  assumes "list_all (\<lambda>(sigs, dgram). list_all (\<lambda>sig. sig \<le> SIG_TASK_WATCHDOG_FEED) (signals_of sigs)) rounds" "buf_ok b"
  shows "\<exists>t. dns_server_loop rounds ip b s = Some (list_ex (\<lambda>(sigs, dgram). SIG_STOP \<in> set (signals_of sigs)) rounds, t)
    \<and> ts_held t = ts_held s"
  using assms
proof (induction rounds arbitrary: b s)
  case (Cons round rounds)
  obtain sigs dgram where round: "round = (sigs, dgram)" by force
  with Cons.prems(1) have known: "list_all (\<lambda>sig. sig \<le> SIG_TASK_WATCHDOG_FEED) (signals_of sigs)"
    by simp
  obtain t where t: "(case sigs of None \<Rightarrow> Some (False, s) | Some l \<Rightarrow> dns_server_handle_sig_events l s)
      = Some (SIG_STOP \<in> set (signals_of sigs), t)" "ts_held t = ts_held s"
    by (rule dns_sig.waited [OF known])
  show ?case
  proof (cases "SIG_STOP \<in> set (signals_of sigs)")
    case True
    with t round show ?thesis by simp
  next
    case False
    obtain resp b' where h: "dns_server_handle_req dgram ip b = Some (resp, b')" "buf_ok b'"
      using dns_req_total [OF Cons.prems(2), of dgram ip] by blast
    let ?t = "case resp of None \<Rightarrow> t | Some r \<Rightarrow> calls [OsSendTo r] t"
    have "ts_held ?t = ts_held s" using t(2) by (simp split: option.split)
    with Cons.IH [of b' ?t] Cons.prems(1) h(2) round obtain u where
      "dns_server_loop rounds ip b' ?t = Some (list_ex (\<lambda>(sigs, dgram). SIG_STOP \<in> set (signals_of sigs)) rounds, u)"
      "ts_held u = ts_held s" by auto
    with t(1) False h(1) round show ?thesis by simp
  qed
qed simp

lemma http_loop_held:
  assumes "http_server_loop rounds c s = Some (stopped, c', t)"
    and "list_all (\<lambda>(sigs, rest). list_all (\<lambda>sig. sig \<le> SIG_USER_REQ_2) (signals_of sigs)) rounds"
  shows "ts_held t = ts_held s"
  using assms
proof (induction rounds arbitrary: c s)
  case (Cons round rounds)
  obtain sigs ac serve where round: "round = (sigs, ac, serve)" by (metis prod.exhaust)
  with Cons.prems(2) have known: "list_all (\<lambda>sig. sig \<le> SIG_USER_REQ_2) (signals_of sigs)" by simp
  obtain u where u: "(case sigs of None \<Rightarrow> Some (False, s) | Some l \<Rightarrow> http_server_handle_sig_events l s)
      = Some (SIG_STOP \<in> set (signals_of sigs), u)" "ts_held u = ts_held s"
    by (rule http_sig.waited [OF known])
  show ?case
  proof (cases "SIG_STOP \<in> set (signals_of sigs)")
    case True
    with Cons.prems(1) u round show ?thesis by simp
  next
    case False
    with Cons.prems(1) u(1) round obtain ops c1 where
      "http_server_loop rounds c1 (calls [OsConn ops] u) = Some (stopped, c', t)"
      by (auto elim!: option_bind_SomeE)
    from Cons.IH [OF this] Cons.prems(2) u(2) show ?thesis by simp
  qed
qed simp

section \<open>Properties\<close>

text \<open>
  Whatever datagrams arrive, the task of the DNS server returns when it cannot start or when
  it is told to stop, and only then, and it returns with all it has taken released: its
  registration, the socket, the buffer, the timer and the entry at the watchdog.
\<close>

theorem dns_task_releases:
  assumes "ts_held s = {}" "te_register e"
    and "list_all (\<lambda>(sigs, dgram). list_all (\<lambda>sig. sig \<le> SIG_TASK_WATCHDOG_FEED) (signals_of sigs)) rounds"
  shows "\<exists>returned s'. dns_server_task e ip rounds s = Some (returned, s')
    \<and> returned = (\<not> (te_socket e \<and> dns_server_set_socket_recv_timeout e \<and> dns_server_bind_socket e \<and> te_calloc e)
        \<or> list_ex (\<lambda>(sigs, dgram). SIG_STOP \<in> set (signals_of sigs)) rounds)
    \<and> ts_held s' = (if returned then {} else {Registration, Socket, TmpBuf, WdogTimer, WdtEntry})"
proof -
  define r where "r = snd (dns_server_sig_register_cur_thread e s)"
  have reg: "dns_server_sig_register_cur_thread e s = (True, r)" "ts_held r = {Registration}"
    using assms(1,2) by (simp_all add: r_def dns_server_sig_register_cur_thread_def)
  show ?thesis
  proof (cases "te_socket e \<and> dns_server_set_socket_recv_timeout e \<and> dns_server_bind_socket e \<and> te_calloc e")
    case False
    then have "dns_server_task e ip rounds s = Some (True, dns_server_sig_unregister_cur_thread
        (if te_socket e then release {Socket} (acquire {Socket} r) else r))"
      using reg(1) by (cases "te_socket e"; cases "dns_server_set_socket_recv_timeout e"; cases "dns_server_bind_socket e"; simp add: dns_server_task_def)
    with False reg(2) show ?thesis by (simp add: dns_server_sig_unregister_cur_thread_def)
  next
    case True
    let ?u = "acquire {WdtEntry} (acquire {WdogTimer} (acquire {TmpBuf} (acquire {Socket} r)))"
    have "buf_ok dns_buf_zero" by (simp add: buf_ok_def dns_buf_zero_def)
    from dns_loop_outcome [OF assms(3) this, of ip ?u] obtain t where
      "dns_server_loop rounds ip dns_buf_zero ?u
         = Some (list_ex (\<lambda>(sigs, dgram). SIG_STOP \<in> set (signals_of sigs)) rounds, t)"
      "ts_held t = {Registration, Socket, TmpBuf, WdogTimer, WdtEntry}"
      using reg(2) by auto
    with True reg(1) show ?thesis
      by (simp add: dns_server_task_def dns_server_sig_unregister_cur_thread_def) blast
  qed
qed

text \<open>
  When the HTTP server cannot create its connection or listen on it, its task returns but
  stays registered: every later task finds another server at work and returns at once, so that
  the HTTP server never works again.
\<close>

theorem http_start_failure_is_final:
  assumes "te_register e" "\<not> te_conn e \<or> \<not> te_listen e"
  shows "\<exists>s'. http_server_task e rounds c s = Some (True, c, s') \<and> Registration \<in> ts_held s'
    \<and> (\<forall>e2 rounds2 c2. te_register e2 = (Registration \<notin> ts_held s') \<longrightarrow>
         (\<exists>s2. http_server_task e2 rounds2 c2 s' = Some (True, c2, s2) \<and> ts_held s2 = ts_held s'))"
proof -
  have "\<exists>s'. http_server_task e rounds c s = Some (True, c, s') \<and> Registration \<in> ts_held s'"
    using assms by (auto simp: http_server_task_def http_server_sig_register_cur_thread_def http_server_netconn_listen_def)
  moreover have "\<exists>s2. http_server_task e2 rounds2 c2 s' = Some (True, c2, s2) \<and> ts_held s2 = ts_held s'"
    if "\<not> te_register e2" for e2 rounds2 c2 s'
    using that by (simp add: http_server_task_def http_server_sig_register_cur_thread_def)
  ultimately show ?thesis by blast
qed

text \<open>
  The task of the HTTP server that has started holds what it has taken as long as it runs, and
  nothing when it has been stopped.
\<close>

theorem http_task_releases:
  assumes "http_server_task e rounds c s = Some (returned, c', s')" "ts_held s = {}" "te_register e" "te_conn e" "te_listen e"
    and "list_all (\<lambda>(sigs, rest). list_all (\<lambda>sig. sig \<le> SIG_USER_REQ_2) (signals_of sigs)) rounds"
  shows "ts_held s' = (if returned then {} else {Registration, ListenConn, WdogTimer, WdtEntry})"
proof -
  let ?r = "acquire {WdtEntry} (acquire {WdogTimer} (acquire {ListenConn} (snd (http_server_sig_register_cur_thread e s))))"
  have r: "ts_held ?r = {Registration, ListenConn, WdogTimer, WdtEntry}"
    using assms(2,3) by (auto simp: http_server_sig_register_cur_thread_def)
  from assms(1,3-5) obtain stopped t where
    "http_server_loop rounds c ?r = Some (stopped, c', t)" "stopped = returned"
    "s' = (if stopped then http_server_sig_unregister_cur_thread
        (release {ListenConn} (release {WdogTimer} (release {WdtEntry} t))) else t)"
    by (auto simp: http_server_task_def http_server_sig_register_cur_thread_def http_server_netconn_listen_def split: if_splits elim!: option_bind_SomeE)
  with http_loop_held [OF this(1) assms(6)] r show ?thesis
    by (auto simp: http_server_sig_unregister_cur_thread_def)
qed

text \<open>
  Starting an HTTP server that already works releases the mutex twice and creates a second task.
\<close>

lemma http_server_start_twice:
  assumes "ts_mutex s" "Registration \<in> ts_held s"
  shows "\<exists>s'. http_server_start s = Some s' \<and> ts_calls s' = ts_calls s @ [OsMutexLock, OsMutexUnlock, OsMutexUnlock, OsTaskCreate]"
  using assms by (simp add: http_server_start_def calls_def)

definition udp_receives :: "sockaddr \<Rightarrow> sockaddr \<Rightarrow> bool" where
  \<comment> \<open>documented: a bound socket receives what is sent to its port and, unless its address is zero, to its address\<close>
  "udp_receives bound dest \<longleftrightarrow> sa_port bound = sa_port dest \<and> (sa_addr bound = 0 \<or> sa_addr bound = sa_addr dest)"

text \<open>
  The DNS server of the captive portal listens on the address of the station, not on the
  one of the access point: whenever the station has another address of its own, a socket that
  could be bound receives no query that a client sends to the access point.
\<close>

theorem dns_deaf_while_station_has_address:
  assumes "dns_server_bind_socket e" "te_sta_ip e = Some ip" "\<And>a. te_bind e a \<longleftrightarrow> a = bound"
  shows "udp_receives bound \<lparr>sa_addr = ap_ip, sa_port = 53\<rparr> \<longleftrightarrow> ip = 0 \<or> ip = ap_ip"
proof -
  have "te_bind e \<lparr>sa_addr = ip, sa_port = 53\<rparr>" using assms(1,2) by (simp add: dns_server_bind_socket_def)
  from assms(3) [THEN iffD1, OF this] have "bound = \<lparr>sa_addr = ip, sa_port = 53\<rparr>" by (rule sym)
  then show ?thesis by (simp add: udp_receives_def)
qed

section \<open>Witnesses\<close>

definition task0 :: task_state where
  "task0 = \<lparr>ts_mutex = True, ts_held = {}, ts_calls = []\<rparr>"

definition task_env0 :: task_env where
  "task_env0 = \<lparr>te_register = True, te_socket = True, te_timeout = (\<lambda>ms. True), te_sta_ip = Some 0, te_bind = (\<lambda>a. True), te_calloc = True, te_conn = True,
     te_listen = True\<rparr>"

lemma dns_task_releases_witness:
  "\<exists>s'. dns_server_task task_env0 0x0104A8C0 [(Some [1], Some (replicate 20 0)), (None, None), (Some [1, 0], None)] task0 = Some (True, s')
    \<and> ts_held s' = {}"
proof -
  let ?rounds = "[(Some [1], Some (replicate 20 0)), (None, None), (Some [1, 0], None)]"
  have "list_all (\<lambda>(sigs, dgram :: bytes option). list_all (\<lambda>sig. sig \<le> SIG_TASK_WATCHDOG_FEED) (signals_of sigs)) ?rounds"
    "list_ex (\<lambda>(sigs, dgram :: bytes option). SIG_STOP \<in> set (signals_of sigs)) ?rounds"
    by (simp_all add: signals_of_def SIG_TASK_WATCHDOG_FEED_def SIG_STOP_def)
  note rounds = this
  have e: "ts_held task0 = {}" "te_register task_env0" "te_socket task_env0" "te_calloc task_env0"
    "dns_server_set_socket_recv_timeout task_env0" "dns_server_bind_socket task_env0"
    by (simp_all add: task0_def task_env0_def dns_server_set_socket_recv_timeout_def dns_server_bind_socket_def)
  from dns_task_releases [OF e(1,2) rounds(1), of "0x0104A8C0"] obtain returned s' where
    "dns_server_task task_env0 0x0104A8C0 ?rounds task0 = Some (returned, s')" "returned = True" "ts_held s' = {}"
    using e rounds(2) by auto
  then show ?thesis by blast
qed

lemma http_start_failure_is_final_witness:
  "\<exists>s'. http_server_task (task_env0\<lparr>te_conn := False\<rparr>) [] conn0 task0 = Some (True, conn0, s') \<and> Registration \<in> ts_held s'
    \<and> (\<exists>s2. http_server_task (task_env0\<lparr>te_register := False\<rparr>) [] conn0 s' = Some (True, conn0, s2) \<and> ts_held s2 = ts_held s')"
proof -
  from http_start_failure_is_final [of "task_env0\<lparr>te_conn := False\<rparr>" "[]" conn0 task0] obtain s' where
    s': "http_server_task (task_env0\<lparr>te_conn := False\<rparr>) [] conn0 task0 = Some (True, conn0, s')" "Registration \<in> ts_held s'"
    and later: "\<forall>e2 rounds2 c2. te_register e2 = (Registration \<notin> ts_held s') \<longrightarrow>
         (\<exists>s2. http_server_task e2 rounds2 c2 s' = Some (True, c2, s2) \<and> ts_held s2 = ts_held s')"
    by (auto simp: task_env0_def)
  from later [rule_format, of "task_env0\<lparr>te_register := False\<rparr>" "[]" conn0] s' show ?thesis by (auto simp: task_env0_def)
qed

lemma dns_deaf_while_station_has_address_witness:
  "udp_receives \<lparr>sa_addr = 0x0501A8C0, sa_port = 53\<rparr> \<lparr>sa_addr = 0x010A0A0A, sa_port = 53\<rparr>
     \<longleftrightarrow> (0x0501A8C0 :: 32 word) = 0 \<or> (0x0501A8C0 :: 32 word) = 0x010A0A0A"
proof -
  let ?e = "task_env0\<lparr>te_sta_ip := Some 0x0501A8C0, te_bind := \<lambda>a. a = \<lparr>sa_addr = 0x0501A8C0, sa_port = 53\<rparr>\<rparr>"
  have "dns_server_bind_socket ?e" by (simp add: dns_server_bind_socket_def task_env0_def)
  from dns_deaf_while_station_has_address [OF this, of "0x0501A8C0"] show ?thesis by simp
qed

end
