(* ===== verification/WifiMsg.thy ===== *)
theory WifiMsg
  imports Prelude
begin

text \<open>
  \<^verbatim>\<open>src/wifiman_msg.c\<close> and the codes of \<^verbatim>\<open>src/include/wifi_manager_defs.h\<close> and
  \<^verbatim>\<open>src/wifi_manager_internal.h\<close>: the messages to the task of the Wi-Fi manager, its queue of
  three messages, and the event bits.

  The queue of the operating system is the list of its messages, oldest first, or \<open>None\<close> when
  it does not exist. Sending without a limit of time into a full queue does not return as long
  as the queue is full: \<open>None\<close>. The group of event bits is the set of the bits that are set.
\<close>

section \<open>Model\<close>

datatype message_code =
    WIFI_MAN_MSG_CODE_NONE | ORDER_STOP_AND_DESTROY | ORDER_START_WIFI_SCAN | ORDER_CONNECT_ETH | ORDER_CONNECT_STA
  | ORDER_DISCONNECT_ETH | ORDER_DISCONNECT_STA | ORDER_START_AP | ORDER_STOP_AP | EVENT_STA_DISCONNECTED
  | EVENT_SCAN_NEXT | EVENT_SCAN_DONE | EVENT_STA_GOT_IP | EVENT_AP_STA_CONNECTED | EVENT_AP_STA_DISCONNECTED
  | EVENT_AP_STA_IP_ASSIGNED | ORDER_ENABLE_WPS | ORDER_DISABLE_WPS | ORDER_TASK_WATCHDOG_FEED

datatype conn_req =
    CONNECTION_REQUEST_NONE | CONNECTION_REQUEST_USER | CONNECTION_REQUEST_AUTO_RECONNECT
  | CONNECTION_REQUEST_RESTORE_CONNECTION | CONNECTION_REQUEST_WPS | CONNECTION_REQUEST_OTHER

datatype wifi_reason =
    REASON_UNSPECIFIED | REASON_AUTH_EXPIRE | REASON_AUTH_LEAVE | REASON_ASSOC_EXPIRE | REASON_ASSOC_TOOMANY
  | REASON_NOT_AUTHED | REASON_NOT_ASSOCED | REASON_ASSOC_LEAVE | REASON_ASSOC_NOT_AUTHED | REASON_DISASSOC_PWRCAP_BAD
  | REASON_DISASSOC_SUPCHAN_BAD | REASON_IE_INVALID | REASON_MIC_FAILURE | REASON_4WAY_HANDSHAKE_TIMEOUT
  | REASON_GROUP_KEY_UPDATE_TIMEOUT | REASON_IE_IN_4WAY_DIFFERS | REASON_GROUP_CIPHER_INVALID
  | REASON_PAIRWISE_CIPHER_INVALID | REASON_AKMP_INVALID | REASON_UNSUPP_RSN_IE_VERSION | REASON_INVALID_RSN_IE_CAP
  | REASON_802_1X_AUTH_FAILED | REASON_CIPHER_SUITE_REJECTED | REASON_INVALID_PMKID | REASON_BEACON_TIMEOUT
  | REASON_NO_AP_FOUND | REASON_AUTH_FAIL | REASON_ASSOC_FAIL | REASON_HANDSHAKE_TIMEOUT | REASON_CONNECTION_FAIL
  | REASON_AP_TSF_RESET | REASON_ASSOC_COMEBACK_TIME_TOO_LONG | REASON_OTHER

datatype msg_param = ParamNone | ParamConnReq conn_req | ParamFlag bool | ParamReason wifi_reason | ParamIp "32 word"

record queue_message =
  msg_code :: message_code
  msg_param :: msg_param

definition conv_param_to_conn_req :: "msg_param \<Rightarrow> conn_req" where
  "conv_param_to_conn_req p = (case p of ParamConnReq r \<Rightarrow> r | _ \<Rightarrow> CONNECTION_REQUEST_OTHER)"

definition conv_param_to_ip_addr :: "msg_param \<Rightarrow> 32 word" where
  "conv_param_to_ip_addr p = (case p of ParamIp ip \<Rightarrow> ip | _ \<Rightarrow> 0)"

definition conv_param_to_reason :: "msg_param \<Rightarrow> wifi_reason" where
  "conv_param_to_reason p = (case p of ParamReason r \<Rightarrow> r | _ \<Rightarrow> REASON_OTHER)"

definition disconnection_reason_to_str :: "wifi_reason \<Rightarrow> cstr" where
  "disconnection_reason_to_str reason =
     (case reason of
        REASON_UNSPECIFIED \<Rightarrow> ''UNSPECIFIED''
      | REASON_AUTH_EXPIRE \<Rightarrow> ''AUTH_EXPIRE''
      | REASON_AUTH_LEAVE \<Rightarrow> ''AUTH_LEAVE''
      | REASON_ASSOC_EXPIRE \<Rightarrow> ''ASSOC_EXPIRE''
      | REASON_ASSOC_TOOMANY \<Rightarrow> ''ASSOC_TOOMANY''
      | REASON_NOT_AUTHED \<Rightarrow> ''NOT_AUTHED''
      | REASON_NOT_ASSOCED \<Rightarrow> ''NOT_ASSOCED''
      | REASON_ASSOC_LEAVE \<Rightarrow> ''ASSOC_LEAVE''
      | REASON_ASSOC_NOT_AUTHED \<Rightarrow> ''ASSOC_NOT_AUTHED''
      | REASON_DISASSOC_PWRCAP_BAD \<Rightarrow> ''DISASSOC_PWRCAP_BAD''
      | REASON_DISASSOC_SUPCHAN_BAD \<Rightarrow> ''DISASSOC_SUPCHAN_BAD''
      | REASON_IE_INVALID \<Rightarrow> ''IE_INVALID''
      | REASON_MIC_FAILURE \<Rightarrow> ''MIC_FAILURE''
      | REASON_4WAY_HANDSHAKE_TIMEOUT \<Rightarrow> ''4WAY_HANDSHAKE_TIMEOUT''
      | REASON_GROUP_KEY_UPDATE_TIMEOUT \<Rightarrow> ''GROUP_KEY_UPDATE_TIMEOUT''
      | REASON_IE_IN_4WAY_DIFFERS \<Rightarrow> ''IE_IN_4WAY_DIFFERS''
      | REASON_GROUP_CIPHER_INVALID \<Rightarrow> ''GROUP_CIPHER_INVALID''
      | REASON_PAIRWISE_CIPHER_INVALID \<Rightarrow> ''PAIRWISE_CIPHER_INVALID''
      | REASON_AKMP_INVALID \<Rightarrow> ''AKMP_INVALID''
      | REASON_UNSUPP_RSN_IE_VERSION \<Rightarrow> ''UNSUPP_RSN_IE_VERSION''
      | REASON_INVALID_RSN_IE_CAP \<Rightarrow> ''INVALID_RSN_IE_CAP''
      | REASON_802_1X_AUTH_FAILED \<Rightarrow> ''802_1X_AUTH_FAILED''
      | REASON_CIPHER_SUITE_REJECTED \<Rightarrow> ''CIPHER_SUITE_REJECTED''
      | REASON_INVALID_PMKID \<Rightarrow> ''INVALID_PMKID''
      | REASON_BEACON_TIMEOUT \<Rightarrow> ''BEACON_TIMEOUT''
      | REASON_NO_AP_FOUND \<Rightarrow> ''NO_AP_FOUND''
      | REASON_AUTH_FAIL \<Rightarrow> ''AUTH_FAIL''
      | REASON_ASSOC_FAIL \<Rightarrow> ''ASSOC_FAIL''
      | REASON_HANDSHAKE_TIMEOUT \<Rightarrow> ''HANDSHAKE_TIMEOUT''
      | REASON_CONNECTION_FAIL \<Rightarrow> ''CONNECTION_FAIL''
      | REASON_AP_TSF_RESET \<Rightarrow> ''AP_TSF_RESET''
      | REASON_ASSOC_COMEBACK_TIME_TOO_LONG \<Rightarrow> ''ASSOC_COMEBACK_TIME_TOO_LONG''
      | REASON_OTHER \<Rightarrow> ''Unknown'')"

subsection \<open>The event bits\<close>

datatype ev_bit =
    IS_WORKING | WIFI_CONNECTED_BIT | AP_STA_CONNECTED_BIT | AP_STA_IP_ASSIGNED_BIT | AP_STARTED_BIT
  | REQUEST_STA_CONNECT_BIT | REQUEST_RESTORE_STA_BIT | SCAN_BIT | REQUEST_DISCONNECT_BIT | ETH_CONNECTED_BIT
  | AP_ACTIVE | BLOCK_REQ_FROM_LAN | STA_ACTIVE_BIT | INITIAL_CONNECTION_BIT | CMD_STA_CONNECT_BIT

definition ev_bit_number :: "ev_bit \<Rightarrow> nat" where
  "ev_bit_number b =
     (case b of IS_WORKING \<Rightarrow> 0 | WIFI_CONNECTED_BIT \<Rightarrow> 1 | AP_STA_CONNECTED_BIT \<Rightarrow> 2 | AP_STA_IP_ASSIGNED_BIT \<Rightarrow> 3
      | AP_STARTED_BIT \<Rightarrow> 4 | REQUEST_STA_CONNECT_BIT \<Rightarrow> 5 | REQUEST_RESTORE_STA_BIT \<Rightarrow> 6 | SCAN_BIT \<Rightarrow> 7
      | REQUEST_DISCONNECT_BIT \<Rightarrow> 8 | ETH_CONNECTED_BIT \<Rightarrow> 9 | AP_ACTIVE \<Rightarrow> 10 | BLOCK_REQ_FROM_LAN \<Rightarrow> 11
      | STA_ACTIVE_BIT \<Rightarrow> 12 | INITIAL_CONNECTION_BIT \<Rightarrow> 13 | CMD_STA_CONNECT_BIT \<Rightarrow> 14)"

lemma ev_bits_distinct: "ev_bit_number a = ev_bit_number b \<longleftrightarrow> a = b"
  by (cases a; cases b; simp add: ev_bit_number_def)

subsection \<open>The queue\<close>

record msg_state =
  ms_queue :: "queue_message list option" \<comment> \<open>\<open>gh_wifiman_msg_queue\<close>\<close>
  ms_wdog_feed :: bool \<comment> \<open>\<open>g_wifiman_msg_flag_wdog_feed_active\<close>\<close>
  ms_ev :: "ev_bit set" \<comment> \<open>\<open>g_p_wifi_manager_event_group\<close>\<close>

definition QUEUE_LENGTH :: nat where "QUEUE_LENGTH = 3"

definition set_bits :: "ev_bit set \<Rightarrow> 'a msg_state_scheme \<Rightarrow> 'a msg_state_scheme" where
  "set_bits bits s = s\<lparr>ms_ev := ms_ev s \<union> bits\<rparr>"

definition clear_bits :: "ev_bit set \<Rightarrow> 'a msg_state_scheme \<Rightarrow> 'a msg_state_scheme" where
  "clear_bits bits s = s\<lparr>ms_ev := ms_ev s - bits\<rparr>"

definition msg_init :: "bool \<Rightarrow> 'a msg_state_scheme \<Rightarrow> bool \<times> 'a msg_state_scheme" where
  \<comment> \<open>whether the queue can be created\<close>
  "msg_init created s = (if \<not> created then (False, s\<lparr>ms_queue := None\<rparr>) else (True, s\<lparr>ms_queue := Some []\<rparr>))"

definition msg_deinit :: "'a msg_state_scheme \<Rightarrow> 'a msg_state_scheme" where
  "msg_deinit s = s\<lparr>ms_queue := None\<rparr>"

definition msg_recv :: "'a msg_state_scheme \<Rightarrow> (queue_message \<times> 'a msg_state_scheme) option" where
  \<comment> \<open>\<open>None\<close>: waits for a message\<close>
  "msg_recv s = (case ms_queue s of Some (m # q) \<Rightarrow> Some (m, s\<lparr>ms_queue := Some q\<rparr>) | _ \<Rightarrow> None)"

definition msg_send_with_timeout ::
  "message_code \<Rightarrow> msg_param \<Rightarrow> bool \<Rightarrow> 'a msg_state_scheme \<Rightarrow> (bool \<times> 'a msg_state_scheme) option" where
  \<comment> \<open>the flag: without a limit of time; else without waiting\<close>
  "msg_send_with_timeout code param for_ever s =
     (case ms_queue s of
        None \<Rightarrow> Some (False, s)
      | Some q \<Rightarrow>
          if length q < QUEUE_LENGTH then Some (True, s\<lparr>ms_queue := Some (q @ [\<lparr>msg_code = code, msg_param = param\<rparr>])\<rparr>)
          else if for_ever then None else Some (False, s))"

definition msg_send :: "message_code \<Rightarrow> msg_param \<Rightarrow> 'a msg_state_scheme \<Rightarrow> (bool \<times> 'a msg_state_scheme) option" where
  "msg_send code param = msg_send_with_timeout code param True"

definition msg_try_send :: "message_code \<Rightarrow> msg_param \<Rightarrow> 'a msg_state_scheme \<Rightarrow> (bool \<times> 'a msg_state_scheme) option" where
  "msg_try_send code param = msg_send_with_timeout code param False"

definition msg_clear_flag_wdog_feed_active :: "'a msg_state_scheme \<Rightarrow> 'a msg_state_scheme" where
  "msg_clear_flag_wdog_feed_active s = s\<lparr>ms_wdog_feed := False\<rparr>"

definition msg_send_cmd_task_watchdog_feed :: "'a msg_state_scheme \<Rightarrow> 'a msg_state_scheme option" where
  "msg_send_cmd_task_watchdog_feed s =
     (if \<not> ms_wdog_feed s
      then map_option snd (msg_try_send ORDER_TASK_WATCHDOG_FEED ParamNone (s\<lparr>ms_wdog_feed := True\<rparr>))
      else Some s)"

definition msg_send_cmd_start_ap :: "bool \<Rightarrow> 'a msg_state_scheme \<Rightarrow> (bool \<times> 'a msg_state_scheme) option" where
  "msg_send_cmd_start_ap flag_block_req_from_lan = msg_send ORDER_START_AP (ParamFlag flag_block_req_from_lan)"

definition msg_send_cmd_enable_wps :: "'a msg_state_scheme \<Rightarrow> (bool \<times> 'a msg_state_scheme) option" where
  "msg_send_cmd_enable_wps = msg_send ORDER_ENABLE_WPS ParamNone"

definition msg_send_cmd_disable_wps :: "'a msg_state_scheme \<Rightarrow> (bool \<times> 'a msg_state_scheme) option" where
  "msg_send_cmd_disable_wps = msg_send ORDER_DISABLE_WPS ParamNone"

definition msg_send_cmd_stop_ap :: "'a msg_state_scheme \<Rightarrow> (bool \<times> 'a msg_state_scheme) option" where
  "msg_send_cmd_stop_ap = msg_send ORDER_STOP_AP ParamNone"

definition msg_send_cmd_connect_eth :: "'a msg_state_scheme \<Rightarrow> (bool \<times> 'a msg_state_scheme) option" where
  "msg_send_cmd_connect_eth = msg_send ORDER_CONNECT_ETH ParamNone"

definition msg_send_cmd_connect_sta :: "conn_req \<Rightarrow> 'a msg_state_scheme \<Rightarrow> (bool \<times> 'a msg_state_scheme) option" where
  "msg_send_cmd_connect_sta conn_req_code s =
     msg_send ORDER_CONNECT_STA (ParamConnReq conn_req_code) (set_bits {CMD_STA_CONNECT_BIT} s)"

definition msg_send_cmd_disconnect_eth :: "'a msg_state_scheme \<Rightarrow> (bool \<times> 'a msg_state_scheme) option" where
  "msg_send_cmd_disconnect_eth = msg_send ORDER_DISCONNECT_ETH ParamNone"

definition msg_send_cmd_disconnect_sta :: "'a msg_state_scheme \<Rightarrow> (bool \<times> 'a msg_state_scheme) option" where
  "msg_send_cmd_disconnect_sta = msg_send ORDER_DISCONNECT_STA ParamNone"

definition msg_send_cmd_stop_and_destroy :: "'a msg_state_scheme \<Rightarrow> (bool \<times> 'a msg_state_scheme) option" where
  "msg_send_cmd_stop_and_destroy = msg_send ORDER_STOP_AND_DESTROY ParamNone"

definition msg_send_cmd_start_wifi_scan :: "'a msg_state_scheme \<Rightarrow> (bool \<times> 'a msg_state_scheme) option" where
  "msg_send_cmd_start_wifi_scan = msg_send ORDER_START_WIFI_SCAN ParamNone"

definition msg_send_ev_scan_next :: "'a msg_state_scheme \<Rightarrow> (bool \<times> 'a msg_state_scheme) option" where
  "msg_send_ev_scan_next = msg_send EVENT_SCAN_NEXT ParamNone"

definition msg_send_ev_scan_done :: "'a msg_state_scheme \<Rightarrow> (bool \<times> 'a msg_state_scheme) option" where
  "msg_send_ev_scan_done = msg_send EVENT_SCAN_DONE ParamNone"

definition msg_send_ev_got_ip :: "32 word \<Rightarrow> 'a msg_state_scheme \<Rightarrow> (bool \<times> 'a msg_state_scheme) option" where
  "msg_send_ev_got_ip ip = msg_send EVENT_STA_GOT_IP (ParamIp ip)"

definition msg_send_ev_ap_sta_connected :: "'a msg_state_scheme \<Rightarrow> (bool \<times> 'a msg_state_scheme) option" where
  "msg_send_ev_ap_sta_connected = msg_send EVENT_AP_STA_CONNECTED ParamNone"

definition msg_send_ev_ap_sta_disconnected :: "'a msg_state_scheme \<Rightarrow> (bool \<times> 'a msg_state_scheme) option" where
  "msg_send_ev_ap_sta_disconnected = msg_send EVENT_AP_STA_DISCONNECTED ParamNone"

definition msg_send_ev_ap_sta_ip_assigned :: "'a msg_state_scheme \<Rightarrow> (bool \<times> 'a msg_state_scheme) option" where
  "msg_send_ev_ap_sta_ip_assigned = msg_send EVENT_AP_STA_IP_ASSIGNED ParamNone"

definition msg_send_ev_disconnected :: "wifi_reason \<Rightarrow> 'a msg_state_scheme \<Rightarrow> (bool \<times> 'a msg_state_scheme) option" where
  "msg_send_ev_disconnected reason = msg_send EVENT_STA_DISCONNECTED (ParamReason reason)"

lemmas send_defs [step_defs] =
  msg_send_cmd_start_ap_def msg_send_cmd_enable_wps_def msg_send_cmd_disable_wps_def msg_send_cmd_stop_ap_def
  msg_send_cmd_connect_eth_def msg_send_cmd_connect_sta_def msg_send_cmd_disconnect_eth_def
  msg_send_cmd_disconnect_sta_def msg_send_cmd_stop_and_destroy_def msg_send_cmd_start_wifi_scan_def
  msg_send_ev_scan_next_def msg_send_ev_scan_done_def msg_send_ev_got_ip_def msg_send_ev_ap_sta_connected_def
  msg_send_ev_ap_sta_disconnected_def msg_send_ev_ap_sta_ip_assigned_def msg_send_ev_disconnected_def

section \<open>The queue as a mailbox\<close>

fun send_all :: "('m \<Rightarrow> 's \<Rightarrow> (bool \<times> 's) option) \<Rightarrow> 'm list \<Rightarrow> 's \<Rightarrow> 's option" where
  "send_all send [] s = Some s"
| "send_all send (m # ms) s = (case send m s of Some (True, t) \<Rightarrow> send_all send ms t | _ \<Rightarrow> None)"

fun recv_all :: "('s \<Rightarrow> ('m \<times> 's) option) \<Rightarrow> nat \<Rightarrow> 's \<Rightarrow> ('m list \<times> 's) option" where
  "recv_all recv 0 s = Some ([], s)"
| "recv_all recv (Suc n) s =
     (case recv s of None \<Rightarrow> None | Some (m, t) \<Rightarrow> map_option (\<lambda>(ms, u). (m # ms, u)) (recv_all recv n t))"

text \<open>What the tasks rely on when they exchange messages.\<close>

locale bounded_fifo =
  fixes send :: "'m \<Rightarrow> 's \<Rightarrow> (bool \<times> 's) option"
    and recv :: "'s \<Rightarrow> ('m \<times> 's) option"
    and contents :: "'s \<Rightarrow> 'm list option"
    and capacity :: nat
  assumes send_ok: "contents s = Some q \<Longrightarrow> length q < capacity \<Longrightarrow> \<exists>t. send m s = Some (True, t) \<and> contents t = Some (q @ [m])"
    and send_full: "contents s = Some q \<Longrightarrow> capacity \<le> length q \<Longrightarrow> send m s = None"
    and send_closed: "contents s = None \<Longrightarrow> send m s = Some (False, s)"
    and recv_ok: "contents s = Some (m # q) \<Longrightarrow> \<exists>t. recv s = Some (m, t) \<and> contents t = Some q"
    and recv_empty: "contents s = Some [] \<Longrightarrow> recv s = None"
begin

lemma sent: "contents s = Some q \<Longrightarrow> length q + length ms \<le> capacity \<Longrightarrow> \<exists>t. send_all send ms s = Some t \<and> contents t = Some (q @ ms)"
proof (induction ms arbitrary: s q)
  case (Cons m ms)
  then obtain t where "send m s = Some (True, t)" "contents t = Some (q @ [m])" using send_ok [of s q m] by auto
  with Cons.IH [of t "q @ [m]"] Cons.prems show ?case by simp
qed simp

lemma received: "contents s = Some (ms @ q) \<Longrightarrow> \<exists>t. recv_all recv (length ms) s = Some (ms, t) \<and> contents t = Some q"
proof (induction ms arbitrary: s)
  case (Cons m ms)
  then obtain t where "recv s = Some (m, t)" "contents t = Some (ms @ q)" using recv_ok [of s m "ms @ q"] by auto
  with Cons.IH [of t] show ?case by auto
qed simp

lemma in_order:
  assumes "contents s = Some q" "length q + length ms \<le> capacity"
  shows "\<exists>t u. send_all send ms s = Some t \<and> recv_all recv (length q + length ms) t = Some (q @ ms, u) \<and> contents u = Some []"
proof -
  from sent [OF assms] obtain t where t: "send_all send ms s = Some t" "contents t = Some (q @ ms)" by blast
  with received [of t "q @ ms" "[]"] show ?thesis by auto
qed

end

definition send_message :: "queue_message \<Rightarrow> 'a msg_state_scheme \<Rightarrow> (bool \<times> 'a msg_state_scheme) option" where
  "send_message m = msg_send (msg_code m) (msg_param m)"

interpretation manager_queue: bounded_fifo send_message msg_recv ms_queue QUEUE_LENGTH
  by unfold_locales (simp_all add: send_message_def msg_send_def msg_send_with_timeout_def msg_recv_def)

text \<open>
  The manager receives the messages of the other tasks in the order in which they were
  sent, none lost and none twice; a message for which there is no room waits.
\<close>

theorem messages_in_order:
  assumes "ms_queue s = Some q" "length q + length ms \<le> QUEUE_LENGTH"
  shows "(\<exists>t u. send_all send_message ms s = Some t \<and> recv_all msg_recv (length q + length ms) t = Some (q @ ms, u)
      \<and> ms_queue u = Some [])
    \<and> (\<exists>t. send_all send_message (replicate (QUEUE_LENGTH - length q) m) s = Some t \<and> msg_send code p t = None)"
proof -
  from assms(2) have "length q + length (replicate (QUEUE_LENGTH - length q) m) = QUEUE_LENGTH" by simp
  with manager_queue.sent [OF assms(1), of "replicate (QUEUE_LENGTH - length q) m"] obtain t where
    t: "send_all send_message (replicate (QUEUE_LENGTH - length q) m) s = Some t"
      "ms_queue t = Some (q @ replicate (QUEUE_LENGTH - length q) m)" by auto
  with manager_queue.send_full [OF t(2), of "\<lparr>msg_code = code, msg_param = p\<rparr>"] assms(2)
  have "msg_send code p t = None" by (simp add: send_message_def)
  with t(1) manager_queue.in_order [OF assms] show ?thesis by blast
qed

lemma messages_in_order_witness:
  "\<exists>t u. send_all send_message [\<lparr>msg_code = ORDER_STOP_AP, msg_param = ParamNone\<rparr>, \<lparr>msg_code = ORDER_START_AP, msg_param = ParamFlag True\<rparr>]
      \<lparr>ms_queue = Some [\<lparr>msg_code = EVENT_SCAN_DONE, msg_param = ParamNone\<rparr>], ms_wdog_feed = False, ms_ev = {}\<rparr> = Some t
    \<and> recv_all msg_recv 3 t = Some ([\<lparr>msg_code = EVENT_SCAN_DONE, msg_param = ParamNone\<rparr>,
        \<lparr>msg_code = ORDER_STOP_AP, msg_param = ParamNone\<rparr>, \<lparr>msg_code = ORDER_START_AP, msg_param = ParamFlag True\<rparr>], u)"
  using messages_in_order [of "\<lparr>ms_queue = Some [\<lparr>msg_code = EVENT_SCAN_DONE, msg_param = ParamNone\<rparr>], ms_wdog_feed = False, ms_ev = {}\<rparr>"
      "[\<lparr>msg_code = EVENT_SCAN_DONE, msg_param = ParamNone\<rparr>]"
      "[\<lparr>msg_code = ORDER_STOP_AP, msg_param = ParamNone\<rparr>, \<lparr>msg_code = ORDER_START_AP, msg_param = ParamFlag True\<rparr>]"]
  by (simp add: QUEUE_LENGTH_def numeral_3_eq_3 del: send_all.simps recv_all.simps) blast

end
