(* ===== verification/Json.thy ===== *)
theory Json
  imports CString
begin

text \<open>
  \<^verbatim>\<open>src/json.c\<close>: printing a C string as a JSON string, and the way the sources build a text:
  into a \<open>str_buf\<close> that is first only counted and then allocated, or that lies on an array of
  a fixed size. \<open>str_buf\<close> is not part of the sources, so its functions are a parameter
  (\<open>strbuf\<close>), with what the sources rely on in \<open>strbuf_doc\<close>.

  The reference is a reader of JSON strings written after RFC 8259.
\<close>

section \<open>Model\<close>

record 's strbuf =
  sb_null :: 's \<comment> \<open>\<open>STR_BUF_INIT_NULL\<close>\<close>
  sb_arr :: "nat \<Rightarrow> 's" \<comment> \<open>\<open>STR_BUF_INIT_WITH_ARR\<close> on an array of that size\<close>
  sb_print :: "'s \<Rightarrow> cstr \<Rightarrow> bool \<times> 's" \<comment> \<open>\<open>str_buf_printf\<close> with the formatted text\<close>
  sb_alloc :: "'s \<Rightarrow> 's option" \<comment> \<open>\<open>str_buf_init_with_alloc\<close>\<close>
  sb_size :: "'s \<Rightarrow> nat" \<comment> \<open>0: no buffer\<close>
  sb_len :: "'s \<Rightarrow> nat"
  sb_text :: "'s \<Rightarrow> cstr" \<comment> \<open>the content as a C string\<close>

definition strbuf_doc :: "'s strbuf \<Rightarrow> bool" where
  \<comment> \<open>documented behaviour: without a buffer the characters are counted; an allocated buffer has
      room for what was counted and a terminator; a text that fits is appended; the content
      always is terminated within the buffer\<close>
  "strbuf_doc B \<longleftrightarrow>
     sb_size B (sb_null B) = 0 \<and> sb_len B (sb_null B) = 0
     \<and> (\<forall>n. sb_size B (sb_arr B n) = n \<and> sb_len B (sb_arr B n) = 0 \<and> sb_text B (sb_arr B n) = [])
     \<and> (\<forall>b b'. sb_alloc B b = Some b' \<longrightarrow> sb_size B b' = sb_len B b + 1 \<and> sb_len B b' = 0 \<and> sb_text B b' = [])
     \<and> (\<forall>b t. sb_size B (snd (sb_print B b t)) = sb_size B b)
     \<and> (\<forall>b t. sb_size B b = 0 \<longrightarrow> fst (sb_print B b t) \<and> sb_len B (snd (sb_print B b t)) = sb_len B b + length t)
     \<and> (\<forall>b t. sb_size B b \<noteq> 0 \<and> sb_len B b + length t < sb_size B b \<longrightarrow>
          fst (sb_print B b t) \<and> sb_len B (snd (sb_print B b t)) = sb_len B b + length t
          \<and> sb_text B (snd (sb_print B b t)) = sb_text B b @ t)
     \<and> (\<forall>b. sb_size B b \<noteq> 0 \<longrightarrow> length (sb_text B b) < sb_size B b)"

fun hex_nat :: "nat \<Rightarrow> cstr" where
  \<comment> \<open>\<open>%x\<close>\<close>
  "hex_nat n = (if n < 16 then [hex_digit n] else hex_nat (n div 16) @ [hex_digit (n mod 16)])"

declare hex_nat.simps [simp del]

definition hex_pad :: "nat \<Rightarrow> nat \<Rightarrow> cstr" where
  \<comment> \<open>\<open>%0wx\<close>\<close>
  "hex_pad w n = replicate (w - length (hex_nat n)) (CHR ''0'') @ hex_nat n"

definition char_val :: "bool \<Rightarrow> char \<Rightarrow> int" where
  \<comment> \<open>the value of a \<open>char\<close> promoted to \<open>int\<close>, where \<open>char\<close> is signed or not\<close>
  "char_val is_signed c = (if is_signed \<and> 128 \<le> (of_char c :: int) then of_char c - 256 else of_char c)"

definition json_print_char_escaped :: "'s strbuf \<Rightarrow> bool \<Rightarrow> 's \<Rightarrow> char \<Rightarrow> bool \<times> 's" where
  "json_print_char_escaped B is_signed b c =
     (if char_val is_signed c \<ge> 0x20 then sb_print B b [c]
      else sb_print B b (CHR 0x5C # CHR ''u'' # hex_pad 4 (nat (char_val is_signed c mod 2 ^ 32))))"

definition json_print_char :: "'s strbuf \<Rightarrow> bool \<Rightarrow> 's \<Rightarrow> char \<Rightarrow> bool \<times> 's" where
  "json_print_char B is_signed b c =
     (if c = CHR 0x5C \<or> c = DQ then sb_print B b [CHR 0x5C, c]
      else if c = CHR 0x08 then sb_print B b [CHR 0x5C, CHR ''b'']
      else if c = CHR 0x0C then sb_print B b [CHR 0x5C, CHR ''f'']
      else if c = LF then sb_print B b [CHR 0x5C, CHR ''n'']
      else if c = CR then sb_print B b [CHR 0x5C, CHR ''r'']
      else if c = CHR 0x09 then sb_print B b [CHR 0x5C, CHR ''t'']
      else json_print_char_escaped B is_signed b c)"

fun json_print_chars :: "'s strbuf \<Rightarrow> bool \<Rightarrow> 's \<Rightarrow> cstr \<Rightarrow> bool \<times> 's" where
  "json_print_chars B is_signed b [] = (True, b)"
| "json_print_chars B is_signed b (c # s) =
     (let (res, b1) = json_print_char B is_signed b c
      in if \<not> res then (False, b1) else json_print_chars B is_signed b1 s)"

definition json_print_escaped_string :: "'s strbuf \<Rightarrow> bool \<Rightarrow> 's \<Rightarrow> cstr option \<Rightarrow> bool \<times> 's" where
  \<comment> \<open>every caller hands in a \<open>str_buf\<close>\<close>
  "json_print_escaped_string B is_signed b p_input =
     (case p_input of
        None \<Rightarrow> sb_print B b [DQ, DQ]
      | Some s \<Rightarrow>
          let (_, b1) = sb_print B b [DQ];
              (res, b2) = json_print_chars B is_signed b1 s
          in if \<not> res then (False, b2)
             else let (res3, b3) = sb_print B b2 [DQ] in if \<not> res3 then (False, b3) else (True, b3))"

definition then_print :: "('s \<Rightarrow> bool \<times> 's) \<Rightarrow> ('s \<Rightarrow> bool \<times> 's) \<Rightarrow> 's \<Rightarrow> bool \<times> 's" where
  \<comment> \<open>one call of \<open>str_buf_printf\<close> after the other, the first result ignored\<close>
  "then_print f g b = g (snd (f b))"

definition generate_alloc :: "'s strbuf \<Rightarrow> ('s \<Rightarrow> bool \<times> 's) \<Rightarrow> 's option" where
  \<comment> \<open>count, allocate, print: \<open>json_access_points_generate\<close> and the like\<close>
  "generate_alloc B f =
     (case sb_alloc B (snd (f (sb_null B))) of None \<Rightarrow> None | Some b \<Rightarrow> Some (snd (f b)))"

section \<open>What is printed\<close>

definition json_char :: "char \<Rightarrow> cstr" where
  "json_char c =
     (if c = CHR 0x5C \<or> c = DQ then [CHR 0x5C, c]
      else if c = CHR 0x08 then [CHR 0x5C, CHR ''b'']
      else if c = CHR 0x0C then [CHR 0x5C, CHR ''f'']
      else if c = LF then [CHR 0x5C, CHR ''n'']
      else if c = CR then [CHR 0x5C, CHR ''r'']
      else if c = CHR 0x09 then [CHR 0x5C, CHR ''t'']
      else if 0x20 \<le> (of_char c :: nat) then [c]
      else CHR 0x5C # CHR ''u'' # hex_pad 4 (of_char c))"

definition json_string :: "cstr \<Rightarrow> cstr" where
  "json_string s = DQ # concat (map json_char s) @ [DQ]"

definition prints :: "'s strbuf \<Rightarrow> ('s \<Rightarrow> bool \<times> 's) \<Rightarrow> cstr \<Rightarrow> bool" where
  "prints B f t \<longleftrightarrow> (\<forall>b. sb_size B (snd (f b)) = sb_size B b
     \<and> (sb_size B b = 0 \<longrightarrow> fst (f b) \<and> sb_len B (snd (f b)) = sb_len B b + length t)
     \<and> (sb_size B b \<noteq> 0 \<and> sb_len B b + length t < sb_size B b \<longrightarrow>
          fst (f b) \<and> sb_len B (snd (f b)) = sb_len B b + length t \<and> sb_text B (snd (f b)) = sb_text B b @ t))"

lemma prints_print: "strbuf_doc B \<Longrightarrow> prints B (\<lambda>b. sb_print B b t) t"
  by (simp add: prints_def strbuf_doc_def)

lemma prints_then:
  assumes "prints B f s" "prints B g t"
  shows "prints B (then_print f g) (s @ t)"
  using assms unfolding prints_def then_print_def by (simp add: add.assoc)

lemma prints_return: "prints B (Pair True) []"
  by (simp add: prints_def)

lemma prints_strict:
  assumes "prints B f s" "prints B g t"
  shows "prints B (\<lambda>b. let (res, b1) = f b in if \<not> res then (False, b1) else g b1) (s @ t)"
  using assms unfolding prints_def by (simp add: case_prod_beta Let_def add.assoc)

lemma hex_nat_small: "n < 16 \<Longrightarrow> hex_nat n = [hex_digit n]"
  by (simp add: hex_nat.simps)

lemma prints_char:
  assumes "strbuf_doc B"
  shows "prints B (\<lambda>b. json_print_char B False b c) (json_char c)"
proof -
  have small: "nat (int n mod 4294967296) = n" if "n < 256" for n
    using that by (simp add: nat_mod_distrib)
  have c: "(of_char c :: int) = int (of_char c)" by (simp only: of_nat_of_char)
  have v: "nat (of_char c mod 4294967296) = of_char c" "(32 \<le> (of_char c :: int)) = (32 \<le> (of_char c :: nat))"
    unfolding c using small [OF nat_of_char_less_256] by simp_all
  show ?thesis
    using prints_print [OF assms]
    by (simp add: json_print_char_def json_char_def json_print_char_escaped_def char_val_def v)
qed

lemma prints_chars:
  assumes "strbuf_doc B"
  shows "prints B (\<lambda>b. json_print_chars B False b s) (concat (map json_char s))"
proof (induction s)
  case Nil
  then show ?case using prints_return [of B] by (simp add: prints_def)
next
  case (Cons c s)
  from prints_strict [OF prints_char [OF assms, of c] Cons] show ?case by simp
qed

lemma prints_json_string:
  assumes "strbuf_doc B"
  shows "prints B (\<lambda>b. json_print_escaped_string B False b (Some s)) (json_string s)"
proof -
  have "prints B (then_print (\<lambda>b. sb_print B b [DQ])
      (\<lambda>b. let (res, b1) = json_print_chars B False b s in if \<not> res then (False, b1) else
        (let (res3, b3) = sb_print B b1 [DQ] in if \<not> res3 then (False, b3) else Pair True b3)))
      ([DQ] @ concat (map json_char s) @ [DQ] @ [])"
    by (intro prints_then prints_strict prints_chars prints_print prints_return assms)
  then show ?thesis
    by (simp add: json_print_escaped_string_def json_string_def then_print_def [abs_def] case_prod_beta Let_def)
qed

lemma generate_alloc_text:
  assumes "strbuf_doc B" "prints B f t" "generate_alloc B f = Some b"
  shows "sb_text B b = t"
  using assms by (auto simp: generate_alloc_def prints_def strbuf_doc_def split: option.splits)

section \<open>Reading JSON strings\<close>

definition hex_val :: "char \<Rightarrow> nat option" where
  "hex_val c =
     (let v = of_char c :: nat
      in if 48 \<le> v \<and> v \<le> 57 then Some (v - 48)
         else if 97 \<le> v \<and> v \<le> 102 then Some (v - 87)
         else if 65 \<le> v \<and> v \<le> 70 then Some (v - 55) else None)"

definition escaped_char :: "char \<Rightarrow> char option" where
  "escaped_char c = map_of
     [(DQ, DQ), (CHR 0x5C, CHR 0x5C), (CHR ''/'', CHR ''/''), (CHR ''b'', CHR 0x08), (CHR ''f'', CHR 0x0C),
      (CHR ''n'', LF), (CHR ''r'', CR), (CHR ''t'', CHR 0x09)] c"

fun read_json_chars :: "cstr \<Rightarrow> (cstr \<times> cstr) option" where
  \<comment> \<open>up to the closing quote, with the rest; \<open>\u\<close> escapes of single bytes only\<close>
  "read_json_chars [] = None"
| "read_json_chars (c # cs) =
     (if c = DQ then Some ([], cs)
      else if c = CHR 0x5C then
        (case cs of
           [] \<Rightarrow> None
         | e # r \<Rightarrow>
             if e = CHR ''u'' then
               (case r of
                  h3 # h2 # h1 # h0 # r' \<Rightarrow>
                    (case (hex_val h3, hex_val h2, hex_val h1, hex_val h0) of
                       (Some 0, Some 0, Some b, Some a) \<Rightarrow>
                         map_option (apfst ((#) (char_of (16 * b + a)))) (read_json_chars r')
                     | _ \<Rightarrow> None)
                | _ \<Rightarrow> None)
             else (case escaped_char e of None \<Rightarrow> None | Some x \<Rightarrow> map_option (apfst ((#) x)) (read_json_chars r)))
      else if (of_char c :: nat) < 0x20 then None
      else map_option (apfst ((#) c)) (read_json_chars cs))"

definition read_json_string :: "cstr \<Rightarrow> (cstr \<times> cstr) option" where
  "read_json_string s = (case s of [] \<Rightarrow> None | c # r \<Rightarrow> if c = DQ then read_json_chars r else None)"

lemma zero_char: "char_of (48 :: nat) = CHR ''0''"
  by code_simp

lemma hex_pad_small:
  assumes "n < 32"
  shows "hex_pad 4 n = [CHR ''0'', CHR ''0'', hex_digit (n div 16), hex_digit (n mod 16)]"
proof (cases "n < 16")
  case True
  then show ?thesis by (simp add: hex_pad_def hex_nat_small hex_digit_def numeral_3_eq_3 zero_char)
next
  case False
  with assms have "n div 16 < 16" by simp
  with False have "hex_nat n = [hex_digit (n div 16), hex_digit (n mod 16)]"
    by (subst hex_nat.simps) (simp add: hex_nat_small)
  then show ?thesis by (simp add: hex_pad_def numeral_2_eq_2)
qed

lemma hex_val_digit: "d < 16 \<Longrightarrow> hex_val (hex_digit d) = Some d"
  by (simp add: hex_val_def hex_digit_def Let_def of_char_of)

lemma char_of_nat_of [simp]: "char_of (of_char c :: nat) = c"
  by simp

lemma hex_val_0 [simp]: "hex_val (CHR ''0'') = Some 0"
  by (simp add: hex_val_def)

lemma read_json_char: "read_json_chars (json_char c @ r) = map_option (apfst ((#) c)) (read_json_chars r)"
proof -
  consider "c \<in> {CHR 0x5C, DQ, CHR 0x08, CHR 0x0C, LF, CR, CHR 0x09}"
    | "c \<notin> {CHR 0x5C, DQ, CHR 0x08, CHR 0x0C, LF, CR, CHR 0x09}" "0x20 \<le> (of_char c :: nat)"
    | "c \<notin> {CHR 0x5C, DQ, CHR 0x08, CHR 0x0C, LF, CR, CHR 0x09}" "(of_char c :: nat) < 0x20"
    by linarith
  then show ?thesis
  proof cases
    case 1
    then show ?thesis by (auto simp: json_char_def escaped_char_def)
  next
    case 2
    then show ?thesis by (simp add: json_char_def)
  next
    case 3
    then have "json_char c = [CHR 0x5C, CHR ''u'', CHR ''0'', CHR ''0'',
        hex_digit (of_char c div 16), hex_digit (of_char c mod 16)]"
      by (simp add: json_char_def hex_pad_small)
    moreover have "hex_val (hex_digit (of_char c div 16)) = Some (of_char c div 16)"
      using 3 by (intro hex_val_digit) simp
    moreover have "hex_val (hex_digit (of_char c mod 16)) = Some (of_char c mod 16)"
      by (intro hex_val_digit) simp
    ultimately show ?thesis by simp
  qed
qed

lemma read_json_string_inverse: "read_json_string (json_string s @ r) = Some (s, r)"
proof -
  have "read_json_chars (concat (map json_char s) @ DQ # r) = Some (s, r)"
    by (induction s) (simp_all add: read_json_char)
  then show ?thesis by (simp add: read_json_string_def json_string_def)
qed

section \<open>A text buffer\<close>

definition strbuf0 :: "(nat \<times> cstr) strbuf" where
  \<comment> \<open>size and characters\<close>
  "strbuf0 = \<lparr>sb_null = (0, []), sb_arr = \<lambda>n. (n, []),
     sb_print = \<lambda>(n, s) t. (n = 0 \<or> length s + length t < n, n, s @ t),
     sb_alloc = \<lambda>(n, s). Some (Suc (length s), []), sb_size = fst, sb_len = \<lambda>(n, s). length s,
     sb_text = \<lambda>(n, s). take (n - 1) s\<rparr>"

lemma strbuf_doc_strbuf0: "strbuf_doc strbuf0"
  by (auto simp: strbuf_doc_def strbuf0_def)

lemma strbuf0_alloc: "generate_alloc strbuf0 f \<noteq> None"
  by (simp add: generate_alloc_def strbuf0_def case_prod_beta)

end
