(* ===== verification/ApList.thy ===== *)
theory ApList
  imports Json "HOL-Library.Multiset"
begin

text \<open>
  \<^verbatim>\<open>src/access_points_list.c\<close> and \<^verbatim>\<open>src/json_access_points.c\<close>: the list of the access points a
  scan has found. The array is a list of records; a record without a name is a free slot.
  \<open>qsort\<close> is the C library's: a parameter, with the standard's contract in \<open>qsort_doc\<close>.

  The reference \<open>merged\<close> says what filtering means: the first record of every pair of a name
  and a kind of network (open or not), with the best signal among the records it stands for.
\<close>

section \<open>Model\<close>

record ap =
  ap_bssid :: "nat list"
  ap_name :: cstr \<comment> \<open>\<open>ssid\<close>\<close>
  ap_primary :: nat
  ap_rssi :: int
  ap_authmode :: nat

definition WIFI_AUTH_OPEN :: nat where "WIFI_AUTH_OPEN = 0"

definition clear_ap_record :: ap where
  \<comment> \<open>what \<open>ap_list_clear_wifi_ap_record\<close> leaves\<close>
  "clear_ap_record = \<lparr>ap_bssid = replicate 6 0, ap_name = [], ap_primary = 0, ap_rssi = 0, ap_authmode = 0\<rparr>"

definition clear_identical_ap :: "ap \<Rightarrow> ap \<Rightarrow> ap \<times> ap" where
  \<comment> \<open>source and destination\<close>
  "clear_identical_ap src dst =
     (if ap_name src = ap_name dst \<and> (ap_authmode src \<noteq> WIFI_AUTH_OPEN) = (ap_authmode dst \<noteq> WIFI_AUTH_OPEN)
      then (if ap_rssi src < ap_rssi dst then src\<lparr>ap_rssi := ap_rssi dst\<rparr> else src, clear_ap_record)
      else (src, dst))"

fun clear_identical_to :: "ap \<Rightarrow> ap list \<Rightarrow> ap \<times> ap list" where
  \<comment> \<open>the inner loop: one access point against the slots behind it\<close>
  "clear_identical_to src [] = (src, [])"
| "clear_identical_to src (dst # rest) =
     (let (src1, dst1) = clear_identical_ap src dst;
          (src2, rest1) = clear_identical_to src1 rest
      in (src2, dst1 # rest1))"

lemma clear_identical_to_length [simp]: "length (snd (clear_identical_to src xs)) = length xs"
  by (induction xs arbitrary: src) (simp_all add: case_prod_beta Let_def)

function clear_identical_aps :: "ap list \<Rightarrow> ap list" where
  \<comment> \<open>the outer loop, over the slots from the current one on\<close>
  "clear_identical_aps [] = []"
| "clear_identical_aps (x # xs) =
     (if ap_name x = [] then x # clear_identical_aps xs
      else fst (clear_identical_to x xs) # clear_identical_aps (snd (clear_identical_to x xs)))"
  by pat_completeness auto
termination by (relation "measure length") simp_all

definition find_first_free_slot :: "ap list \<Rightarrow> nat option" where
  "find_first_free_slot aps = find_idx (\<lambda>a. ap_name a = []) aps"

definition reorder_step :: "nat \<Rightarrow> ap list \<times> nat option \<times> nat \<Rightarrow> ap list \<times> nat option \<times> nat" where
  \<comment> \<open>slots, first free slot, number of unique access points\<close>
  "reorder_step i s =
     (let (aps, p_first_free, num) = s
      in if ap_name (aps ! i) = [] then (aps, if p_first_free = None then Some i else p_first_free, num - 1)
         else case p_first_free of
             None \<Rightarrow> s
           | Some f \<Rightarrow>
               let aps1 = (aps[f := aps ! i])[i := clear_ap_record]
               in (aps1, find_first_free_slot aps1, num))"

definition ap_list_reorder :: "ap list \<Rightarrow> ap list \<times> nat" where
  "ap_list_reorder aps =
     (let (aps1, _, num) = fold reorder_step [0..<length aps] (aps, None, length aps) in (aps1, num))"

definition ap_list_filter_unique :: "ap list \<Rightarrow> ap list \<times> nat" where
  "ap_list_filter_unique aps = (if aps = [] then ([], 0) else ap_list_reorder (clear_identical_aps aps))"

definition INT16_MIN :: int where "INT16_MIN = - (2 ^ 15)"

definition compare_by_rssi :: "ap \<Rightarrow> ap \<Rightarrow> int" where
  "compare_by_rssi a b = (if ap_name b = [] then INT16_MIN else ap_rssi b - ap_rssi a)"

definition ap_list_sort_by_rssi :: "((ap \<Rightarrow> ap \<Rightarrow> int) \<Rightarrow> ap list \<Rightarrow> ap list) \<Rightarrow> ap list \<Rightarrow> nat \<Rightarrow> ap list" where
  \<comment> \<open>with the C library's \<open>qsort\<close>\<close>
  "ap_list_sort_by_rssi qsort aps num =
     (if num = 0 then aps else qsort compare_by_rssi (take num aps) @ drop num aps)"

definition MAX_AP_NUM :: nat where "MAX_AP_NUM = 30"

definition print_ap :: "'s strbuf \<Rightarrow> bool \<Rightarrow> ap \<Rightarrow> bool \<Rightarrow> 's \<Rightarrow> bool \<times> 's" where
  "print_ap B is_signed a is_last =
     then_print (\<lambda>b. sb_print B b (''{'' @ quoted ''ssid'' @ '':''))
       (then_print (\<lambda>b. json_print_escaped_string B is_signed b (Some (ap_name a)))
         (\<lambda>b. sb_print B b
            ('','' @ quoted ''chan'' @ '':'' @ dec_int (int (ap_primary a)) @ '','' @ quoted ''rssi'' @ '':'' @ dec_int (ap_rssi a)
             @ '','' @ quoted ''auth'' @ '':'' @ dec_int (int (ap_authmode a)) @ ''}'' @ (if is_last then [] else '','') @ [LF])))"

fun print_aps :: "'s strbuf \<Rightarrow> bool \<Rightarrow> ap list \<Rightarrow> 's \<Rightarrow> bool \<times> 's" where
  "print_aps B is_signed [] = Pair True"
| "print_aps B is_signed (a # aps) = then_print (print_ap B is_signed a (aps = [])) (print_aps B is_signed aps)"

definition json_access_points_generate_str_buf :: "'s strbuf \<Rightarrow> bool \<Rightarrow> ap list \<Rightarrow> nat \<Rightarrow> 's \<Rightarrow> bool \<times> 's" where
  "json_access_points_generate_str_buf B is_signed aps num =
     (let num_ap_checked = (if num \<le> MAX_AP_NUM then num else MAX_AP_NUM)
      in then_print (\<lambda>b. sb_print B b ''['')
           (then_print (print_aps B is_signed (take num_ap_checked aps)) (\<lambda>b. sb_print B b ('']'' @ [LF]))))"

definition json_access_points_generate :: "'s strbuf \<Rightarrow> bool \<Rightarrow> ap list \<Rightarrow> nat \<Rightarrow> 's option" where
  "json_access_points_generate B is_signed aps num =
     generate_alloc B (json_access_points_generate_str_buf B is_signed aps num)"

section \<open>The reference\<close>

definition ap_key :: "ap \<Rightarrow> cstr \<times> bool" where
  "ap_key a = (ap_name a, ap_authmode a \<noteq> WIFI_AUTH_OPEN)"

definition named :: "ap list \<Rightarrow> ap list" where
  "named aps = filter (\<lambda>a. ap_name a \<noteq> []) aps"

definition best_rssi :: "ap \<Rightarrow> ap list \<Rightarrow> int" where
  "best_rssi a aps = fold max (map ap_rssi (filter (\<lambda>b. ap_key b = ap_key a) aps)) (ap_rssi a)"

function merged :: "ap list \<Rightarrow> ap list" where
  "merged [] = []"
| "merged (a # aps) =
     (if ap_name a = [] then merged aps
      else a\<lparr>ap_rssi := best_rssi a aps\<rparr> # merged (filter (\<lambda>b. ap_key b \<noteq> ap_key a) aps))"
  by pat_completeness auto
termination by (relation "measure length") (simp_all add: le_imp_less_Suc)

definition consistent :: "(ap \<Rightarrow> ap \<Rightarrow> int) \<Rightarrow> ap set \<Rightarrow> bool" where
  "consistent cmp A \<longleftrightarrow> (\<forall>a\<in>A. \<forall>b\<in>A. cmp a b \<le> 0 \<or> cmp b a \<le> 0)
     \<and> (\<forall>a\<in>A. \<forall>b\<in>A. \<forall>c\<in>A. cmp a b \<le> 0 \<longrightarrow> cmp b c \<le> 0 \<longrightarrow> cmp a c \<le> 0)"

definition qsort_doc :: "((ap \<Rightarrow> ap \<Rightarrow> int) \<Rightarrow> ap list \<Rightarrow> ap list) \<Rightarrow> bool" where
  \<comment> \<open>the contract of the C library: on elements that a consistent comparison orders, the result
      is a permutation in ascending order\<close>
  "qsort_doc qsort \<longleftrightarrow>
     (\<forall>cmp xs. consistent cmp (set xs) \<longrightarrow>
        mset (qsort cmp xs) = mset xs \<and> sorted_wrt (\<lambda>a b. cmp a b \<le> 0) (qsort cmp xs))"

section \<open>Lemmas\<close>

declare clear_identical_aps.simps [simp del] merged.simps [simp del]

lemma ap_key_upd [simp]: "ap_key (a\<lparr>ap_rssi := r\<rparr>) = ap_key a"
  by (simp add: ap_key_def)

lemma named_simps [simp]:
  "named [] = []" "named (a # aps) = (if ap_name a = [] then named aps else a # named aps)"
  "named (xs @ ys) = named xs @ named ys" "length (named xs) \<le> length xs"
  by (simp_all add: named_def)

lemma clear_identical_to_eq:
  "clear_identical_to x xs =
     (x\<lparr>ap_rssi := best_rssi x xs\<rparr>, map (\<lambda>b. if ap_key b = ap_key x then clear_ap_record else b) xs)"
proof (induction xs arbitrary: x)
  case Nil
  then show ?case by (simp add: best_rssi_def)
next
  case (Cons b xs)
  have "clear_identical_ap x b =
      (if ap_key b = ap_key x then (x\<lparr>ap_rssi := max (ap_rssi b) (ap_rssi x)\<rparr>, clear_ap_record) else (x, b))"
    by (auto simp: clear_identical_ap_def ap_key_def max_def)
  then show ?case by (simp add: Cons.IH best_rssi_def max.commute)
qed

lemma named_cleared:
  "named (map (\<lambda>b. if ap_key b = k then clear_ap_record else b) xs) = named (filter (\<lambda>b. ap_key b \<noteq> k) xs)"
  by (induction xs) (auto simp: clear_ap_record_def)

lemma best_rssi_named: "ap_name a \<noteq> [] \<Longrightarrow> best_rssi a (named xs) = best_rssi a xs"
proof -
  assume "ap_name a \<noteq> []"
  then have "filter (\<lambda>b. ap_key b = ap_key a) (named xs) = filter (\<lambda>b. ap_key b = ap_key a) xs"
    by (induction xs) (auto simp: ap_key_def)
  then show ?thesis by (simp add: best_rssi_def)
qed

lemma named_filter: "named (filter P xs) = filter P (named xs)"
  by (simp add: named_def conj_commute)

lemma merged_named: "merged (named xs) = merged xs"
proof (induction xs rule: merged.induct)
  case (2 a aps)
  show ?case
  proof (cases "ap_name a = []")
    case False
    then have "merged (named (filter (\<lambda>b. ap_key b \<noteq> ap_key a) aps)) = merged (filter (\<lambda>b. ap_key b \<noteq> ap_key a) aps)"
      by (rule 2(2))
    with False show ?thesis by (simp add: merged.simps best_rssi_named named_filter)
  qed (use 2(1) in \<open>simp add: merged.simps\<close>)
qed simp

lemma named_clear_identical: "named (clear_identical_aps xs) = merged xs"
proof (induction xs rule: clear_identical_aps.induct)
  case (2 x xs)
  show ?case
  proof (cases "ap_name x = []")
    case False
    let ?ys = "map (\<lambda>b. if ap_key b = ap_key x then clear_ap_record else b) xs"
    have "merged ?ys = merged (filter (\<lambda>b. ap_key b \<noteq> ap_key x) xs)"
      using merged_named [of ?ys] merged_named [of "filter (\<lambda>b. ap_key b \<noteq> ap_key x) xs"] by (simp only: named_cleared)
    with False 2(2) show ?thesis
      by (simp add: clear_identical_aps.simps merged.simps clear_identical_to_eq)
  qed (use 2(1) in \<open>simp add: clear_identical_aps.simps merged.simps\<close>)
qed (simp add: clear_identical_aps.simps merged.simps)

lemma length_clear_identical [simp]: "length (clear_identical_aps xs) = length xs"
  by (induction xs rule: clear_identical_aps.induct) (simp_all add: clear_identical_aps.simps)

subsection \<open>Reordering\<close>

definition reordered :: "ap list \<Rightarrow> nat \<Rightarrow> ap list \<times> nat option \<times> nat \<Rightarrow> bool" where
  \<comment> \<open>after the first slots: the named ones in front, free slots behind them\<close>
  "reordered xs i s =
     (let (ys, p_first_free, num) = s; k = length (named (take i xs))
      in length ys = length xs \<and> drop i ys = drop i xs \<and> take k ys = named (take i xs)
         \<and> (\<forall>j. k \<le> j \<and> j < i \<longrightarrow> ap_name (ys ! j) = [])
         \<and> p_first_free = (if k < i then Some k else None) \<and> num = length xs - (i - k))"

lemma length_named_take: "length (named (take i xs)) \<le> i"
  by (metis length_take min.bounded_iff named_simps(4))

lemma named_take_Suc:
  "i < length xs \<Longrightarrow> named (take (Suc i) xs) = named (take i xs) @ (if ap_name (xs ! i) = [] then [] else [xs ! i])"
  by (simp add: take_Suc_conv_app_nth)

lemma named_all: "a \<in> set (named xs) \<Longrightarrow> ap_name a \<noteq> []"
  by (simp add: named_def)

lemma first_free_after:
  assumes "length ys = n" "k < n" "take k ys = zs" "\<forall>a\<in>set zs. ap_name a \<noteq> []" "ap_name (ys ! k) = []"
  shows "find_first_free_slot ys = Some k"
proof -
  have "ys = zs @ ys ! k # drop (Suc k) ys" using assms(1-3) by (metis append_take_drop_id Cons_nth_drop_Suc)
  moreover have "length zs = k" using assms(1-3) by auto
  ultimately show ?thesis
    unfolding find_first_free_slot_def using find_idx_hit [of zs "\<lambda>a. ap_name a = []" "ys ! k"] assms(4,5) by metis
qed

lemma reorder_step_reordered:
  assumes "i < length xs" "reordered xs i s"
  shows "reordered xs (Suc i) (reorder_step i s)"
proof -
  obtain ys ff num where s: "s = (ys, ff, num)" by (metis prod.exhaust)
  define k where "k = length (named (take i xs))"
  from assms(2) have inv: "length ys = length xs" "drop i ys = drop i xs" "take k ys = named (take i xs)"
    "\<forall>j. k \<le> j \<and> j < i \<longrightarrow> ap_name (ys ! j) = []" "ff = (if k < i then Some k else None)"
    "num = length xs - (i - k)"
    by (simp_all add: reordered_def s Let_def k_def)
  have k: "k \<le> i" by (simp add: k_def length_named_take)
  have here: "ys ! i = xs ! i" using assms(1) inv(1,2) by (metis hd_drop_conv_nth)
  have rest: "drop (Suc i) ys = drop (Suc i) xs" using inv(2) by (metis drop_Suc drop_drop tl_drop)
  show ?thesis
  proof (cases "ap_name (xs ! i) = []")
    case True
    have nt: "named (take (Suc i) xs) = named (take i xs)" using assms(1) True by (simp add: named_take_Suc)
    have st: "reorder_step i s = (ys, Some k, num - 1)"
      using True here k inv(5) by (auto simp: reorder_step_def s Let_def)
    have free: "ap_name (ys ! j) = []" if "k \<le> j" "j < Suc i" for j
      using that inv(4) True here by (cases "j = i") auto
    have "num - 1 = length xs - (Suc i - k)" using inv(6) k assms(1) by linarith
    with inv(1,3) rest free k show ?thesis
      by (simp add: reordered_def st nt Let_def flip: k_def)
  next
    case named: False
    have nt: "named (take (Suc i) xs) = named (take i xs) @ [xs ! i]" using assms(1) named by (simp add: named_take_Suc)
    show ?thesis
    proof (cases "k < i")
      case False
      with k have "k = i" by simp
      have st: "reorder_step i s = (ys, None, num)"
        using named here inv(5) \<open>k = i\<close> by (simp add: reorder_step_def s Let_def)
      have "take (Suc i) ys = named (take i xs) @ [xs ! i]"
        using inv(1,3) \<open>k = i\<close> here assms(1) by (simp add: take_Suc_conv_app_nth)
      with inv(1,6) rest \<open>k = i\<close> show ?thesis
        by (simp add: reordered_def st nt Let_def flip: k_def) auto
    next
      case True
      let ?ys = "(ys[k := xs ! i])[i := clear_ap_record]"
      have len: "length ?ys = length xs" using inv(1) by simp
      have tk: "take (Suc k) ?ys = named (take i xs) @ [xs ! i]"
        using inv(1,3) True assms(1) by (simp add: take_Suc_conv_app_nth)
      have free: "ap_name (?ys ! j) = []" if "Suc k \<le> j" "j < Suc i" for j
        using that inv(1,4) assms(1) by (auto simp: nth_list_update clear_ap_record_def)
      have "find_first_free_slot ?ys = Some (Suc k)"
      proof (rule first_free_after [OF len _ tk])
        show "Suc k < length xs" using True assms(1) by simp
        show "\<forall>a\<in>set (named (take i xs) @ [xs ! i]). ap_name a \<noteq> []" using named by (auto dest: named_all)
        show "ap_name (?ys ! Suc k) = []" using free [of "Suc k"] True by simp
      qed
      then have st: "reorder_step i s = (?ys, Some (Suc k), num)"
        using named here inv(5) True by (simp add: reorder_step_def s Let_def)
      have "drop (Suc i) ?ys = drop (Suc i) xs" using rest True by simp
      with len tk free True inv(6) show ?thesis
        by (simp add: reordered_def st nt Let_def flip: k_def)
    qed
  qed
qed

lemma ap_list_reorder_eq:
  "\<exists>ys. ap_list_reorder xs = (ys, length (named xs)) \<and> length ys = length xs
    \<and> take (length (named xs)) ys = named xs \<and> named (drop (length (named xs)) ys) = []"
proof -
  have inv: "i \<le> length xs \<Longrightarrow> reordered xs i (fold reorder_step [0..<i] (xs, None, length xs))" for i
  proof (induction i)
    case 0
    show ?case by (simp add: reordered_def)
  next
    case (Suc i)
    then show ?case by (simp add: reorder_step_reordered)
  qed
  obtain ys ff num where f: "fold reorder_step [0..<length xs] (xs, None, length xs) = (ys, ff, num)"
    by (metis prod.exhaust)
  have "reordered xs (length xs) (ys, ff, num)" using inv [OF order_refl] unfolding f .
  then have r: "length ys = length xs" "take (length (named xs)) ys = named xs"
    "\<forall>j. length (named xs) \<le> j \<and> j < length xs \<longrightarrow> ap_name (ys ! j) = []"
    "num = length xs - (length xs - length (named xs))"
    unfolding reordered_def Let_def prod.case take_all [OF order_refl]
    by - (elim conjE, assumption)+
  have "\<forall>a\<in>set (drop (length (named xs)) ys). ap_name a = []"
  proof
    fix a
    assume "a \<in> set (drop (length (named xs)) ys)"
    then obtain j where j: "j < length (drop (length (named xs)) ys)" "drop (length (named xs)) ys ! j = a"
      unfolding in_set_conv_nth by blast
    then have "length (named xs) + j < length xs" "a = ys ! (length (named xs) + j)" using r(1) by simp_all
    then show "ap_name a = []" using r(3) [rule_format, of "length (named xs) + j"] by (simp only: le_add1 simp_thms)
  qed
  then have "named (drop (length (named xs)) ys) = []" 
    unfolding named_def filter_empty_conv by blast
  moreover have "num = length (named xs)" using r(4) named_simps(4) [of xs] by linarith
  ultimately show ?thesis using f r(1,2) by (simp add: ap_list_reorder_def)
qed

lemma filter_unique_eq:
  "\<exists>ys. ap_list_filter_unique xs = (ys, length (merged xs)) \<and> length ys = length xs
    \<and> take (length (merged xs)) ys = merged xs \<and> named (drop (length (merged xs)) ys) = []"
  using ap_list_reorder_eq [of "clear_identical_aps xs"]
  by (cases "xs = []") (auto simp: ap_list_filter_unique_def named_clear_identical merged.simps)

subsection \<open>The merged list\<close>

lemma best_rssi_Max: "best_rssi a aps = Max (ap_rssi ` {b \<in> set (a # aps). ap_key b = ap_key a})"
proof -
  have "{b \<in> set (a # aps). ap_key b = ap_key a} = insert a (set (filter (\<lambda>b. ap_key b = ap_key a) aps))" by auto
  then show ?thesis
    by (simp only: best_rssi_def Max.set_eq_fold [symmetric] list.set set_map image_insert)
qed

lemma merged_keys: "ap_key ` set (merged aps) = ap_key ` set (named aps)"
proof (induction aps rule: merged.induct)
  case (2 a aps)
  show ?case
  proof (cases "ap_name a = []")
    case False
    with 2(2) have "ap_key ` set (merged (filter (\<lambda>b. ap_key b \<noteq> ap_key a) aps))
        = ap_key ` {b \<in> set (named aps). ap_key b \<noteq> ap_key a}"
      by (simp add: named_filter)
    with False show ?thesis by (auto simp: merged.simps)
  qed (use 2(1) in \<open>simp add: merged.simps\<close>)
qed (simp add: merged.simps)

lemma merged_distinct: "distinct (map ap_key (merged aps))"
proof (induction aps rule: merged.induct)
  case (2 a aps)
  show ?case
  proof (cases "ap_name a = []")
    case False
    have "ap_key ` set (merged (filter (\<lambda>b. ap_key b \<noteq> ap_key a) aps)) \<subseteq> - {ap_key a}"
      by (auto simp: merged_keys named_filter)
    with False 2(2) show ?thesis by (auto simp: merged.simps)
  qed (use 2(1) in \<open>simp add: merged.simps\<close>)
qed (simp add: merged.simps)

lemma merged_from:
  "x \<in> set (merged aps) \<Longrightarrow> \<exists>a\<in>set (named aps). x = a\<lparr>ap_rssi := Max (ap_rssi ` {b \<in> set aps. ap_key b = ap_key a})\<rparr>"
proof (induction aps rule: merged.induct)
  case (2 a aps)
  show ?case
  proof (cases "ap_name a = []")
    case True
    with 2(1,3) obtain y where y: "y \<in> set (named aps)" "x = y\<lparr>ap_rssi := Max (ap_rssi ` {b \<in> set aps. ap_key b = ap_key y})\<rparr>"
      by (auto simp: merged.simps)
    then have "ap_key y \<noteq> ap_key a" using True named_all by (auto simp: ap_key_def)
    then have "{b \<in> set (a # aps). ap_key b = ap_key y} = {b \<in> set aps. ap_key b = ap_key y}" by auto
    with y(2) have "x = y\<lparr>ap_rssi := Max (ap_rssi ` {b \<in> set (a # aps). ap_key b = ap_key y})\<rparr>" by (simp only:)
    with True y(1) show ?thesis by (intro bexI [of _ y]) simp_all
  next
    case named: False
    show ?thesis
    proof (cases "x \<in> set (merged (filter (\<lambda>b. ap_key b \<noteq> ap_key a) aps))")
      case True
      with 2(2) named obtain y where y: "y \<in> set (named aps)" "ap_key y \<noteq> ap_key a"
        "x = y\<lparr>ap_rssi := Max (ap_rssi ` {b \<in> set (filter (\<lambda>b. ap_key b \<noteq> ap_key a) aps). ap_key b = ap_key y})\<rparr>"
        by (auto simp: named_filter)
      then have "{b \<in> set (filter (\<lambda>b. ap_key b \<noteq> ap_key a) aps). ap_key b = ap_key y}
          = {b \<in> set (a # aps). ap_key b = ap_key y}"
        by auto
      with y(3) have "x = y\<lparr>ap_rssi := Max (ap_rssi ` {b \<in> set (a # aps). ap_key b = ap_key y})\<rparr>" by (simp only:)
      with y(1) named show ?thesis by (intro bexI [of _ y]) simp_all
    next
      case False
      with 2(3) named have "x = a\<lparr>ap_rssi := best_rssi a aps\<rparr>" by (simp add: merged.simps)
      with named show ?thesis by (intro bexI [of _ a]) (simp_all only: best_rssi_Max named_simps list.set_intros if_False)
    qed
  qed
qed (simp add: merged.simps)

section \<open>Reading the JSON document\<close>

definition expect :: "cstr \<Rightarrow> cstr \<Rightarrow> cstr option" where
  "expect lit s = (if prefix lit s then Some (drop (length lit) s) else None)"

definition read_int :: "cstr \<Rightarrow> (int \<times> cstr) option" where
  "read_int s =
     (let neg = prefix ''-'' s;
          t = (if neg then tl s else s);
          ds = takeWhile is_digit t
      in if ds = [] then None else Some (if neg then - int (num_of ds) else int (num_of ds), dropWhile is_digit t))"

definition read_ap :: "cstr \<Rightarrow> ((cstr \<times> int \<times> int \<times> int) \<times> cstr) option" where
  "read_ap s = do {
     s \<leftarrow> expect (''{'' @ quoted ''ssid'' @ '':'') s;
     (name, s) \<leftarrow> read_json_string s;
     s \<leftarrow> expect ('','' @ quoted ''chan'' @ '':'') s;
     (chan, s) \<leftarrow> read_int s;
     s \<leftarrow> expect ('','' @ quoted ''rssi'' @ '':'') s;
     (rssi, s) \<leftarrow> read_int s;
     s \<leftarrow> expect ('','' @ quoted ''auth'' @ '':'') s;
     (auth, s) \<leftarrow> read_int s;
     s \<leftarrow> expect ''}'' s;
     Some ((name, chan, rssi, auth), s) }"

fun read_aps :: "nat \<Rightarrow> cstr \<Rightarrow> ((cstr \<times> int \<times> int \<times> int) list \<times> cstr) option" where
  \<comment> \<open>at most that many records, each followed by a line end, with a comma between two\<close>
  "read_aps 0 s = None"
| "read_aps (Suc n) s = do {
     (a, s) \<leftarrow> read_ap s;
     (case expect [CHR '','', LF] s of
        Some s \<Rightarrow> map_option (apfst ((#) a)) (read_aps n s)
      | None \<Rightarrow> map_option (Pair [a]) (expect [LF] s)) }"

definition read_document :: "nat \<Rightarrow> cstr \<Rightarrow> (cstr \<times> int \<times> int \<times> int) list option" where
  "read_document n s = do {
     s \<leftarrow> expect ''['' s;
     (if s = '']'' @ [LF] then Some []
      else do { (as, s) \<leftarrow> read_aps n s; (if s = '']'' @ [LF] then Some as else None) }) }"

definition ap_view :: "ap \<Rightarrow> cstr \<times> int \<times> int \<times> int" where
  "ap_view a = (ap_name a, int (ap_primary a), ap_rssi a, int (ap_authmode a))"

lemma expect_append [simp]: "expect lit (lit @ s) = Some s"
  by (simp add: expect_def)

lemma digit_chars: "d < 10 \<Longrightarrow> is_digit (digit_char d) \<and> digit_val (digit_char d) = d"
proof -
  have "\<forall>d\<in>set [0..<10]. is_digit (digit_char d) \<and> digit_val (digit_char d) = d" by code_simp
  then show "d < 10 \<Longrightarrow> is_digit (digit_char d) \<and> digit_val (digit_char d) = d" by simp
qed

lemma dec_nat_digits: "(\<forall>c\<in>set (dec_nat n). is_digit c) \<and> num_of (dec_nat n) = n \<and> dec_nat n \<noteq> []"
proof (induction n rule: dec_nat.induct)
  case (1 n)
  show ?case
  proof (cases "n < 10")
    case True
    then show ?thesis using digit_chars [of n] by (subst (1 2 3) dec_nat.simps) (simp add: num_of_def)
  next
    case False
    with 1 digit_chars [of "n mod 10"] show ?thesis
      by (subst (1 2 3) dec_nat.simps) (simp add: num_of_def)
  qed
qed

lemma read_dec_int:
  assumes "r = [] \<or> \<not> is_digit (hd r)"
  shows "read_int (dec_int i @ r) = Some (i, r)"
proof -
  have w: "takeWhile is_digit (dec_nat n @ r) = dec_nat n" "dropWhile is_digit (dec_nat n @ r) = r" for n
    using dec_nat_digits [of n] assms by (cases r; simp)+
  have "\<not> prefix ''-'' (dec_nat n @ r)" for n
  proof
    assume "prefix ''-'' (dec_nat n @ r)"
    with dec_nat_digits [of n] have "is_digit CHR ''-''" by (cases "dec_nat n") auto
    then show False by code_simp
  qed
  then show ?thesis using w dec_nat_digits [of "nat i"] dec_nat_digits [of "nat (- i)"]
    by (auto simp: read_int_def dec_int_def Let_def)
qed

definition ap_text :: "ap \<Rightarrow> cstr" where
  "ap_text a = ''{'' @ quoted ''ssid'' @ '':'' @ json_string (ap_name a)
     @ '','' @ quoted ''chan'' @ '':'' @ dec_int (int (ap_primary a)) @ '','' @ quoted ''rssi'' @ '':'' @ dec_int (ap_rssi a)
     @ '','' @ quoted ''auth'' @ '':'' @ dec_int (int (ap_authmode a)) @ ''}''"

fun aps_text :: "ap list \<Rightarrow> cstr" where
  "aps_text [] = []"
| "aps_text (a # as) = ap_text a @ (if as = [] then [] else '','') @ [LF] @ aps_text as"

lemma no_digits: "\<not> is_digit CHR '',''" "\<not> is_digit CHR ''}''"
  by code_simp+

lemma read_ap_text: "read_ap (ap_text a @ r) = Some (ap_view a, r)"
proof -
  have e: "expect (lit1 @ lit2 @ lit3) (lit1 @ lit2 @ lit3 @ s) = Some s" for lit1 lit2 lit3 s
    using expect_append [of "lit1 @ lit2 @ lit3" s] by simp
  show ?thesis
    unfolding read_ap_def ap_text_def append_assoc e Option.bind.bind_lunit read_json_string_inverse prod.case
    by (simp add: read_dec_int no_digits e ap_view_def del: append_Cons append.simps)
qed

lemma read_aps_text:
  "as \<noteq> [] \<Longrightarrow> length as \<le> n \<Longrightarrow> read_aps n (aps_text as @ r) = Some (map ap_view as, r)"
proof (induction as arbitrary: n)
  case (Cons a as)
  then obtain m where m: "n = Suc m" "length as \<le> m" by (cases n) auto
  show ?case
  proof (cases "as = []")
    case True
    then show ?thesis by (simp add: m read_ap_text expect_def)
  next
    case False
    with Cons.IH [OF _ m(2)] show ?thesis by (simp add: m read_ap_text expect_def)
  qed
qed simp

lemma prints_aps:
  assumes "strbuf_doc B"
  shows "prints B (print_aps B False as) (aps_text as)"
proof (induction as)
  case Nil
  then show ?case using prints_return by simp
next
  case (Cons a as)
  have "prints B (print_ap B False a (as = [])) (ap_text a @ (if as = [] then [] else '','') @ [LF])"
    using prints_then [OF prints_print prints_then [OF prints_json_string prints_print], OF assms assms assms]
    unfolding print_ap_def ap_text_def by (simp add: prints_def)
  from prints_then [OF this Cons] show ?case by simp
qed

section \<open>Properties\<close>

lemma scan_list_merged:
  assumes "qsort_doc qsort" "ap_list_filter_unique aps = (ys, n)"
  shows "\<exists>zs. take n (ap_list_sort_by_rssi qsort ys n) = zs
    \<and> distinct (map ap_key zs) \<and> ap_key ` set zs = ap_key ` set (named aps)
    \<and> sorted_wrt (\<lambda>a b. ap_rssi b \<le> ap_rssi a) zs
    \<and> (\<forall>z\<in>set zs. \<exists>a\<in>set (named aps). z = a\<lparr>ap_rssi := Max (ap_rssi ` {b \<in> set aps. ap_key b = ap_key a})\<rparr>)"
proof -
  from assms(2) filter_unique_eq [of aps]
  have n: "n = length (merged aps)" "take n ys = merged aps" "length ys = length aps" by auto
  have named: "\<forall>a\<in>set (merged aps). ap_name a \<noteq> []"
    using merged_from named_all by fastforce
  define zs where "zs = (if n = 0 then [] else qsort compare_by_rssi (merged aps))"
  have zs: "mset zs = mset (merged aps) \<and> sorted_wrt (\<lambda>a b. compare_by_rssi a b \<le> 0) zs"
  proof (cases "n = 0")
    case False
    have "mset (qsort compare_by_rssi (merged aps)) = mset (merged aps)
        \<and> sorted_wrt (\<lambda>a b. compare_by_rssi a b \<le> 0) (qsort compare_by_rssi (merged aps))"
      using named by (intro assms(1) [unfolded qsort_doc_def, rule_format]) (auto simp: consistent_def compare_by_rssi_def)
    with False show ?thesis by (simp add: zs_def)
  qed (use n(1) in \<open>simp add: zs_def\<close>)
  then have same: "set zs = set (merged aps)" "length zs = n" "distinct (map ap_key zs)"
    using n(1) merged_distinct [of aps]
    by (metis mset_eq_setD, metis mset_eq_length, metis mset_map mset_eq_imp_distinct_iff)
  have "sorted_wrt (\<lambda>a b. ap_rssi b \<le> ap_rssi a) zs"
    using zs named same(1) by (auto simp: compare_by_rssi_def intro: sorted_wrt_mono_rel [rotated])
  moreover have "take n (ap_list_sort_by_rssi qsort ys n) = zs"
    using n(2) same(2) by (cases "n = 0") (simp_all add: ap_list_sort_by_rssi_def zs_def)
  ultimately show ?thesis using same merged_keys [of aps] merged_from [of _ aps] by blast
qed

text \<open>
  C21: the list a scan leaves holds every network once: one record for every name and kind
  (open or not) found, with the best signal any record of that network had, strongest first.
\<close>

theorem scan_list_unique_sorted:
  assumes "qsort_doc qsort" "ap_list_filter_unique aps = (ys, n)"
  shows "\<exists>zs. take n (ap_list_sort_by_rssi qsort ys n) = zs
    \<and> distinct (map ap_key zs) \<and> ap_key ` set zs = ap_key ` set (named aps)
    \<and> sorted_wrt (\<lambda>a b. ap_rssi b \<le> ap_rssi a) zs
    \<and> (\<forall>z\<in>set zs. \<exists>a\<in>set (named aps). z = a\<lparr>ap_rssi := Max (ap_rssi ` {b \<in> set aps. ap_key b = ap_key a})\<rparr>)"
  by (rule scan_list_merged [OF assms])

lemma access_points_json_read:
  assumes "strbuf_doc B" "json_access_points_generate B False aps num = Some b"
  shows "read_document 30 (sb_text B b) = Some (map ap_view (take (min num 30) aps))"
proof -
  let ?as = "take (min num 30) aps"
  have "prints B (json_access_points_generate_str_buf B False aps num) (''['' @ aps_text ?as @ '']'' @ [LF])"
  proof -
    have m: "(if num \<le> MAX_AP_NUM then num else MAX_AP_NUM) = min num 30" by (simp add: MAX_AP_NUM_def min_def)
    show ?thesis
      unfolding json_access_points_generate_str_buf_def Let_def m
      by (intro prints_then prints_print prints_aps assms(1))
  qed
  from generate_alloc_text [OF assms(1) this] assms(2)
  have t: "sb_text B b = ''['' @ aps_text ?as @ '']'' @ [LF]"
    by (simp add: json_access_points_generate_def)
  show ?thesis
  proof (cases "?as = []")
    case True
    then show ?thesis by (simp only: t True) (simp add: read_document_def expect_def)
  next
    case False
    then obtain a as where as: "?as = a # as" by (meson neq_Nil_conv)
    have "aps_text ?as @ '']'' @ [LF] \<noteq> '']'' @ [LF]" unfolding as by (simp add: ap_text_def)
    with read_aps_text [OF False, of 30 "'']'' @ [LF]"] show ?thesis
      unfolding t read_document_def expect_append by (simp add: expect_def)
  qed
qed

text \<open>
  C22: the list of access points as JSON is complete and cannot be broken by a network's name:
  a reader of JSON gets back name, channel, signal and kind of the first 30 access points,
  whatever bytes the names contain.
\<close>

theorem access_points_json_roundtrip:
  assumes "strbuf_doc B" "json_access_points_generate B False aps num = Some b"
  shows "read_document 30 (sb_text B b) = Some (map ap_view (take (min num 30) aps))"
  by (rule access_points_json_read [OF assms])

section \<open>Witnesses\<close>

fun insert_by :: "(ap \<Rightarrow> ap \<Rightarrow> int) \<Rightarrow> ap \<Rightarrow> ap list \<Rightarrow> ap list" where
  "insert_by cmp x [] = [x]"
| "insert_by cmp x (y # ys) = (if cmp x y \<le> 0 then x # y # ys else y # insert_by cmp x ys)"

fun sort_by :: "(ap \<Rightarrow> ap \<Rightarrow> int) \<Rightarrow> ap list \<Rightarrow> ap list" where
  "sort_by cmp [] = []"
| "sort_by cmp (x # xs) = insert_by cmp x (sort_by cmp xs)"

lemma mset_insert_by [simp]: "mset (insert_by cmp x ys) = add_mset x (mset ys)"
  by (induction ys) auto

lemma set_insert_by [simp]: "set (insert_by cmp x ys) = insert x (set ys)"
  by (induction ys) auto

lemma mset_sort_by [simp]: "mset (sort_by cmp xs) = mset xs"
  by (induction xs) auto

lemma consistent_subset: "consistent cmp A \<Longrightarrow> B \<subseteq> A \<Longrightarrow> consistent cmp B"
  unfolding consistent_def by (meson subsetD)

lemma sorted_insert_by:
  "consistent cmp (insert x (set ys)) \<Longrightarrow> sorted_wrt (\<lambda>a b. cmp a b \<le> 0) ys \<Longrightarrow>
    sorted_wrt (\<lambda>a b. cmp a b \<le> 0) (insert_by cmp x ys)"
proof (induction ys)
  case (Cons y ys)
  show ?case
  proof (cases "cmp x y \<le> 0")
    case True
    have "cmp x z \<le> 0" if "z \<in> set ys" for z
    proof -
      have "cmp y z \<le> 0" using Cons.prems(2) that by simp
      with True that Cons.prems(1) show ?thesis unfolding consistent_def by (meson insertCI list.set_intros)
    qed
    with True Cons.prems(2) show ?thesis by simp
  next
    case False
    with Cons.prems(1) have "cmp y x \<le> 0" unfolding consistent_def by (meson insertCI list.set_intros)
    moreover have "consistent cmp (insert x (set ys))" by (rule consistent_subset [OF Cons.prems(1)]) auto
    ultimately show ?thesis using False Cons by simp
  qed
qed simp

lemma qsort_doc_sort_by: "qsort_doc sort_by"
proof -
  have "sorted_wrt (\<lambda>a b. cmp a b \<le> 0) (sort_by cmp xs)" if "consistent cmp (set xs)" for cmp xs
    using that
  proof (induction xs)
    case (Cons x xs)
    have "set (sort_by cmp xs) = set xs" by (metis mset_sort_by mset_eq_setD)
    moreover have "consistent cmp (set xs)" by (rule consistent_subset [OF Cons.prems]) auto
    ultimately show ?case using Cons by (simp add: sorted_insert_by)
  qed simp
  then show ?thesis by (simp add: qsort_doc_def)
qed

definition aps0 :: "ap list" where
  "aps0 = (let a = (\<lambda>n r m. \<lparr>ap_bssid = [1], ap_name = n, ap_primary = 6, ap_rssi = r, ap_authmode = m\<rparr>)
     in [a ''cafe'' (- 70) 0, a [] (- 30) 3, a ''home'' (- 60) 3, a ''cafe'' (- 50) 0, a ''cafe'' (- 80) 3])"

lemma access_points_json_roundtrip_witness:
  "\<exists>b. json_access_points_generate strbuf0 False [clear_ap_record\<lparr>ap_name := [DQ, LF, CHR ''a'']\<rparr>] 1 = Some b
    \<and> read_document 30 (sb_text strbuf0 b) = Some [([DQ, LF, CHR ''a''], 0, 0, 0)]"
proof -
  have "json_access_points_generate strbuf0 False [clear_ap_record\<lparr>ap_name := [DQ, LF, CHR ''a'']\<rparr>] 1 \<noteq> None"
    by (simp add: json_access_points_generate_def strbuf0_alloc del: not_None_eq)
  then obtain b where b: "json_access_points_generate strbuf0 False [clear_ap_record\<lparr>ap_name := [DQ, LF, CHR ''a'']\<rparr>] 1 = Some b"
    by blast
  from access_points_json_roundtrip [OF strbuf_doc_strbuf0 b] b show ?thesis
    by (intro exI [of _ b]) (simp add: ap_view_def clear_ap_record_def)
qed

definition scanned0 :: "ap list \<times> nat" where
  "scanned0 = ap_list_filter_unique aps0"

lemma scanned0_eval:
  "snd scanned0 = 3 \<and> map ap_view (take 3 (ap_list_sort_by_rssi sort_by (fst scanned0) 3))
    = [(''cafe'', 6, - 50, 0), (''home'', 6, - 60, 3), (''cafe'', 6, - 80, 3)]"
  by code_simp

lemma scan_list_unique_sorted_witness:
  "\<exists>zs. take 3 (ap_list_sort_by_rssi sort_by (fst scanned0) 3) = zs \<and> distinct (map ap_key zs)
    \<and> sorted_wrt (\<lambda>a b. ap_rssi b \<le> ap_rssi a) zs \<and> map ap_rssi zs = [- 50, - 60, - 80]"
proof -
  have f: "ap_list_filter_unique aps0 = (fst scanned0, 3)"
    using scanned0_eval by (metis prod.collapse scanned0_def)
  have rssi: "map ap_rssi xs = map (fst \<circ> snd \<circ> snd) (map ap_view xs)" for xs
    by (simp add: ap_view_def)
  have "map ap_rssi (take 3 (ap_list_sort_by_rssi sort_by (fst scanned0) 3)) = [- 50, - 60, - 80]"
    by (simp only: rssi scanned0_eval [THEN conjunct2]) simp
  with scan_list_unique_sorted [OF qsort_doc_sort_by f] show ?thesis
    by (elim exE conjE, intro exI conjI) (assumption | simp)+
qed

end
