(* ===== verification/NetInfo.thy ===== *)
theory NetInfo
  imports Json
begin

text \<open>
  \<^verbatim>\<open>src/json_network_info.c\<close>, \<^verbatim>\<open>src/sta_ip_unsafe.c\<close> and \<^verbatim>\<open>src/sta_ip_safe.c\<close>: what the status
  page shows of the network, its JSON text, and the address of the station as a string.

  The mutex is taken around every access; a callback is given the record, or no record when
  the mutex could not be taken in time. A callback that uses the missing record is a fault.
\<close>

section \<open>Model\<close>

datatype update_reason =
    UPDATE_CONNECTION_UNDEF | UPDATE_CONNECTION_OK | UPDATE_FAILED_ATTEMPT | UPDATE_USER_DISCONNECT | UPDATE_LOST_CONNECTION

definition update_reason_code :: "update_reason \<Rightarrow> int" where
  "update_reason_code r =
     (case r of UPDATE_CONNECTION_UNDEF \<Rightarrow> - 1 | UPDATE_CONNECTION_OK \<Rightarrow> 0 | UPDATE_FAILED_ATTEMPT \<Rightarrow> 1
      | UPDATE_USER_DISCONNECT \<Rightarrow> 2 | UPDATE_LOST_CONNECTION \<Rightarrow> 3)"

record network_info_str =
  nis_ip :: cstr
  nis_gw :: cstr
  nis_netmask :: cstr
  nis_dhcp :: cstr

record net_info =
  ni_ssid :: cstr
  ni_network :: network_info_str
  ni_reason :: update_reason
  ni_is_ssid_null :: bool
  ni_is_time_valid :: bool
  ni_extra :: cstr

definition JSON_NETWORK_EXTRA_INFO_SIZE :: nat where "JSON_NETWORK_EXTRA_INFO_SIZE = 100"
definition JSON_IP_INFO_SIZE :: nat where "JSON_IP_INFO_SIZE = 150 + JSON_NETWORK_EXTRA_INFO_SIZE"
definition IP4ADDR_STRLEN_MAX :: nat where "IP4ADDR_STRLEN_MAX = 16"

definition no_network :: network_info_str where
  "no_network = \<lparr>nis_ip = [], nis_gw = [], nis_netmask = [], nis_dhcp = []\<rparr>"

type_synonym info_action = "bool \<Rightarrow> net_info \<Rightarrow> net_info option"
  \<comment> \<open>whether the callback is given the record, and what it makes of the record\<close>

definition do_action_with_timeout :: "info_action \<Rightarrow> bool \<Rightarrow> net_info \<Rightarrow> net_info option" where
  \<comment> \<open>the flag: the mutex was taken in time\<close>
  "do_action_with_timeout cb_func locked info = cb_func locked info"

definition do_action :: "info_action \<Rightarrow> net_info \<Rightarrow> net_info option" where
  \<comment> \<open>without a limit of time the mutex always is taken\<close>
  "do_action cb_func info = do_action_with_timeout cb_func True info"

definition do_const_action :: "(net_info \<Rightarrow> 'a) \<Rightarrow> net_info \<Rightarrow> 'a" where
  "do_const_action cb_func info = cb_func info"

definition given :: "(net_info \<Rightarrow> net_info) \<Rightarrow> info_action" where
  \<comment> \<open>a callback that uses the record it is given\<close>
  "given f ok info = (if ok then Some (f info) else None)"

definition info_do_clear :: "net_info \<Rightarrow> net_info" where
  "info_do_clear p = p\<lparr>ni_is_ssid_null := True, ni_is_time_valid := False, ni_ssid := [],
     ni_network := no_network, ni_reason := UPDATE_CONNECTION_UNDEF\<rparr>"

definition json_network_info_clear :: "net_info \<Rightarrow> net_info option" where
  "json_network_info_clear = do_action (given info_do_clear)"

definition json_network_info_set_reason_user_disconnect :: "net_info \<Rightarrow> net_info option" where
  "json_network_info_set_reason_user_disconnect = do_action (given (\<lambda>p. p\<lparr>ni_reason := UPDATE_USER_DISCONNECT\<rparr>))"

definition info_do_update :: "cstr option \<Rightarrow> network_info_str option \<Rightarrow> update_reason \<Rightarrow> net_info \<Rightarrow> net_info" where
  "info_do_update p_ssid p_network_info reason p =
     (let p1 = (case p_ssid of None \<Rightarrow> p\<lparr>ni_ssid := [], ni_is_ssid_null := True\<rparr>
                | Some ssid \<Rightarrow> p\<lparr>ni_ssid := ssid, ni_is_ssid_null := False\<rparr>);
          p2 = (case p_network_info of None \<Rightarrow> p1\<lparr>ni_network := no_network\<rparr>
                | Some n \<Rightarrow> p1\<lparr>ni_network := n\<rparr>)
      in p2\<lparr>ni_reason := reason\<rparr>)"

definition json_network_info_update ::
  "cstr option \<Rightarrow> network_info_str option \<Rightarrow> update_reason \<Rightarrow> net_info \<Rightarrow> net_info option" where
  "json_network_info_update p_ssid p_network_info reason =
     do_action (given (info_do_update p_ssid p_network_info reason))"

definition info_do_set_extra :: "cstr option \<Rightarrow> info_action" where
  "info_do_set_extra p_extra ok p =
     (if \<not> ok then Some p
      else Some (p\<lparr>ni_extra := snprintf_s JSON_NETWORK_EXTRA_INFO_SIZE (case p_extra of None \<Rightarrow> [] | Some s \<Rightarrow> s)\<rparr>))"

definition json_network_set_extra_info :: "cstr option \<Rightarrow> net_info \<Rightarrow> net_info option" where
  "json_network_set_extra_info p_extra = do_action (info_do_set_extra p_extra)"

definition update_time_sync_info :: "bool \<Rightarrow> net_info \<Rightarrow> net_info option" where
  \<comment> \<open>\<open>wifi_manager_update_time_sync_info\<close>\<close>
  "update_time_sync_info valid = do_action (given (\<lambda>p. p\<lparr>ni_is_time_valid := valid\<rparr>))"

definition print_if :: "bool \<Rightarrow> ('s \<Rightarrow> bool \<times> 's) \<Rightarrow> 's \<Rightarrow> bool \<times> 's" where
  "print_if c f = (if c then f else Pair True)"

definition print_connection :: "'s strbuf \<Rightarrow> bool \<Rightarrow> net_info \<Rightarrow> 's \<Rightarrow> bool \<times> 's" where
  "print_connection B is_signed p =
     (let out = (\<lambda>t b. sb_print B b t); n = ni_network p in
      then_print (out (quoted ''ssid'' @ '':''))
       (then_print
         (if ni_is_ssid_null p then out ''null''
          else if ni_ssid p \<noteq> [] then (\<lambda>b. json_print_escaped_string B is_signed b (Some (ni_ssid p)))
          else out (quoted []))
        (then_print
          (out ('','' @ quoted ''ip'' @ '':'' @ quoted (nis_ip n) @ '','' @ quoted ''netmask'' @ '':'' @ quoted (nis_netmask n)
            @ '','' @ quoted ''gw'' @ '':'' @ quoted (nis_gw n) @ '','' @ quoted ''dhcp'' @ '':'' @ quoted (nis_dhcp n)
            @ '','' @ quoted ''urc'' @ '':'' @ dec_int (update_reason_code (ni_reason p))))
         (then_print (out ('','' @ quoted ''is_time_valid'' @ '':'' @ (if ni_is_time_valid p then ''1'' else ''0'')))
           (print_if (ni_extra p \<noteq> []) (out '',''))))))"

definition info_generate_internal :: "'s strbuf \<Rightarrow> bool \<Rightarrow> net_info \<Rightarrow> 's \<Rightarrow> bool \<times> 's" where
  "info_generate_internal B is_signed p =
     (let out = (\<lambda>t b. sb_print B b t) in
      then_print (out ''{'')
       (then_print (print_if (ni_reason p \<noteq> UPDATE_CONNECTION_UNDEF) (print_connection B is_signed p))
        (then_print (print_if (ni_extra p \<noteq> []) (out (quoted ''extra'' @ '':{'' @ ni_extra p @ ''}'')))
          (out (''}'' @ [LF])))))"

definition json_network_info_generate :: "'s strbuf \<Rightarrow> bool \<Rightarrow> net_info \<Rightarrow> 's" where
  "json_network_info_generate B is_signed =
     do_const_action (\<lambda>p. snd (info_generate_internal B is_signed p (sb_arr B JSON_IP_INFO_SIZE)))"

subsection \<open>The address of the station\<close>

definition sta_ip_set :: "(32 word \<Rightarrow> cstr) \<Rightarrow> 32 word \<Rightarrow> cstr" where
  \<comment> \<open>\<open>g_sta_ip_str_buf\<close> afterwards; \<open>esp_ip4addr_ntoa\<close> is a parameter\<close>
  "sta_ip_set ntoa ip = ntoa ip"

definition sta_ip_reset :: "(32 word \<Rightarrow> cstr) \<Rightarrow> cstr" where
  "sta_ip_reset ntoa = sta_ip_set ntoa 0"

definition sta_ip_get :: "cstr \<Rightarrow> cstr" where
  "sta_ip_get buf = snprintf_s 17 buf"

section \<open>What is printed\<close>

definition ssid_text :: "net_info \<Rightarrow> cstr" where
  "ssid_text p = (if ni_is_ssid_null p then ''null'' else json_string (ni_ssid p))"

definition connection_text :: "net_info \<Rightarrow> cstr" where
  "connection_text p =
     (let n = ni_network p in
      (quoted ''ssid'' @ '':'') @ ssid_text p
      @ ('','' @ quoted ''ip'' @ '':'' @ quoted (nis_ip n) @ '','' @ quoted ''netmask'' @ '':'' @ quoted (nis_netmask n)
         @ '','' @ quoted ''gw'' @ '':'' @ quoted (nis_gw n) @ '','' @ quoted ''dhcp'' @ '':'' @ quoted (nis_dhcp n)
         @ '','' @ quoted ''urc'' @ '':'' @ dec_int (update_reason_code (ni_reason p)))
      @ ('','' @ quoted ''is_time_valid'' @ '':'' @ (if ni_is_time_valid p then ''1'' else ''0''))
      @ (if ni_extra p \<noteq> [] then '','' else []))"

definition status_text :: "net_info \<Rightarrow> cstr" where
  "status_text p =
     ''{'' @ (if ni_reason p \<noteq> UPDATE_CONNECTION_UNDEF then connection_text p else [])
     @ (if ni_extra p \<noteq> [] then quoted ''extra'' @ '':{'' @ ni_extra p @ ''}'' else []) @ ''}'' @ [LF]"

definition net_info_ok :: "net_info \<Rightarrow> bool" where
  \<comment> \<open>what the arrays of the record can hold\<close>
  "net_info_ok p \<longleftrightarrow> fits 32 (ni_ssid p) \<and> fits IP4ADDR_STRLEN_MAX (nis_ip (ni_network p))
     \<and> fits IP4ADDR_STRLEN_MAX (nis_gw (ni_network p)) \<and> fits IP4ADDR_STRLEN_MAX (nis_netmask (ni_network p))
     \<and> fits IP4ADDR_STRLEN_MAX (nis_dhcp (ni_network p)) \<and> fits JSON_NETWORK_EXTRA_INFO_SIZE (ni_extra p)"

lemma prints_if: "prints B f t \<Longrightarrow> prints B (print_if c f) (if c then t else [])"
  using prints_return [of B] by (simp add: print_if_def)

lemma prints_status:
  assumes "strbuf_doc B"
  shows "prints B (info_generate_internal B False p) (status_text p)"
proof -
  note pr = prints_print [OF assms]
  have ssid: "prints B (if ni_is_ssid_null p then (\<lambda>b. sb_print B b ''null'')
      else if ni_ssid p \<noteq> [] then (\<lambda>b. json_print_escaped_string B False b (Some (ni_ssid p)))
      else (\<lambda>b. sb_print B b (quoted [])))
      (ssid_text p)"
    using pr prints_json_string [OF assms] by (auto simp: ssid_text_def json_string_def quoted_def)
  have conn: "prints B (print_connection B False p) (connection_text p)"
    unfolding print_connection_def connection_text_def Let_def
    by (intro prints_then prints_if ssid pr)
  show ?thesis
    unfolding info_generate_internal_def status_text_def Let_def
    by (intro prints_then prints_if conn pr)
qed

lemma status_text_length:
  assumes "net_info_ok p"
  shows "length (status_text p) \<le> 146 + length (ssid_text p) + length (ni_extra p)"
proof -
  have ips: "length (nis_ip (ni_network p)) \<le> 15" "length (nis_gw (ni_network p)) \<le> 15"
    "length (nis_netmask (ni_network p)) \<le> 15" "length (nis_dhcp (ni_network p)) \<le> 15"
    using assms by (auto simp: net_info_ok_def IP4ADDR_STRLEN_MAX_def fits_def)
  have urc: "length (dec_int (update_reason_code (ni_reason p))) \<le> 1" if "ni_reason p \<noteq> UPDATE_CONNECTION_UNDEF"
    using that by (cases "ni_reason p") (simp_all add: update_reason_code_def dec_int_def dec_nat.simps)
  show ?thesis
  proof (cases "ni_reason p = UPDATE_CONNECTION_UNDEF")
    case False
    then have "length (connection_text p) \<le> 132 + length (ssid_text p) + (if ni_extra p = [] then 0 else 1)"
      using ips urc by (simp add: connection_text_def Let_def)
    with False show ?thesis by (auto simp: status_text_def split: if_splits)
  qed (simp add: status_text_def)
qed

section \<open>Properties\<close>

lemma status_json_text:
  assumes "strbuf_doc B" "net_info_ok p" "length (ssid_text p) + length (ni_extra p) \<le> 103"
  shows "sb_text B (json_network_info_generate B False p) = status_text p
    \<and> (ni_reason p \<noteq> UPDATE_CONNECTION_UNDEF \<and> \<not> ni_is_ssid_null p \<longrightarrow>
      (\<exists>r. read_json_string (drop (length (''{'' @ quoted ''ssid'' @ '':''))
        (sb_text B (json_network_info_generate B False p))) = Some (ni_ssid p, r)))"
proof -
  have "length (status_text p) < JSON_IP_INFO_SIZE"
    using status_text_length [OF assms(2)] assms(3) by (simp add: JSON_IP_INFO_SIZE_def JSON_NETWORK_EXTRA_INFO_SIZE_def)
  then have t: "sb_text B (json_network_info_generate B False p) = status_text p"
    using prints_status [OF assms(1), of p] assms(1)
    by (simp add: prints_def strbuf_doc_def json_network_info_generate_def do_const_action_def JSON_IP_INFO_SIZE_def)
  show ?thesis
    unfolding t by (simp add: status_text_def connection_text_def ssid_text_def Let_def quoted_def read_json_string_inverse)
qed

text \<open>
  The JSON of the status page is the complete text when the escaped and quoted name of the network and
  the extra text together have at most 103 characters; the name then is read back unchanged.
\<close>

theorem status_json_complete:
  assumes "strbuf_doc B" "net_info_ok p" "length (ssid_text p) + length (ni_extra p) \<le> 103"
  shows "sb_text B (json_network_info_generate B False p) = status_text p
    \<and> (ni_reason p \<noteq> UPDATE_CONNECTION_UNDEF \<and> \<not> ni_is_ssid_null p \<longrightarrow>
      (\<exists>r. read_json_string (drop (length (''{'' @ quoted ''ssid'' @ '':''))
        (sb_text B (json_network_info_generate B False p))) = Some (ni_ssid p, r)))"
  by (rule status_json_text [OF assms])

definition long_info :: net_info where
  \<comment> \<open>a name of 31 letters, addresses of full length and 99 characters of extra text\<close>
  "long_info = \<lparr>ni_ssid = replicate 31 CHR ''a'',
     ni_network = \<lparr>nis_ip = ''192.168.100.100'', nis_gw = ''192.168.100.101'', nis_netmask = ''255.255.255.255'',
       nis_dhcp = ''192.168.100.101''\<rparr>,
     ni_reason = UPDATE_CONNECTION_OK, ni_is_ssid_null = False, ni_is_time_valid = True,
     ni_extra = replicate 99 CHR ''b''\<rparr>"

text \<open>
  The buffer of the status page is too small for what its fields may hold: for a name of 31
  letters and a full extra text the JSON is cut off, although every field is within its array.
\<close>

theorem status_json_truncated:
  assumes "strbuf_doc B"
  shows "net_info_ok long_info
    \<and> length (sb_text B (json_network_info_generate B False long_info)) < length (status_text long_info)"
proof -
  let ?b = "json_network_info_generate B False long_info"
  have len: "length (status_text long_info) = 278"
    by (simp add: status_text_def connection_text_def Let_def long_info_def update_reason_code_def dec_int_def
        dec_nat.simps ssid_text_def json_string_def json_char_def)
  have "sb_size B ?b = 250"
    using prints_status [OF assms, of long_info] assms
    by (simp add: prints_def strbuf_doc_def json_network_info_generate_def do_const_action_def
        JSON_IP_INFO_SIZE_def JSON_NETWORK_EXTRA_INFO_SIZE_def)
  moreover have "sb_size B ?b \<noteq> 0 \<Longrightarrow> length (sb_text B ?b) < sb_size B ?b"
    using assms unfolding strbuf_doc_def by blast
  ultimately have "length (sb_text B ?b) < 250" by simp
  with len have "length (sb_text B ?b) < length (status_text long_info)" by simp
  moreover have "net_info_ok long_info"
    by (simp add: net_info_ok_def long_info_def IP4ADDR_STRLEN_MAX_def JSON_NETWORK_EXTRA_INFO_SIZE_def fits_def nul_free_def)
  ultimately show ?thesis by blast
qed

section \<open>Witnesses\<close>

definition info0 :: net_info where
  "info0 = long_info\<lparr>ni_ssid := [DQ, CHR ''x''], ni_extra := ''k''\<rparr>"

lemma status_json_complete_witness:
  "sb_text strbuf0 (json_network_info_generate strbuf0 False info0) = status_text info0"
  by (rule status_json_complete [OF strbuf_doc_strbuf0, THEN conjunct1])
    (simp_all add: net_info_ok_def info0_def long_info_def IP4ADDR_STRLEN_MAX_def JSON_NETWORK_EXTRA_INFO_SIZE_def
      fits_def nul_free_def ssid_text_def json_string_def json_char_def)

lemma status_json_truncated_witness:
  "length (sb_text strbuf0 (json_network_info_generate strbuf0 False long_info)) < length (status_text long_info)"
  using status_json_truncated [OF strbuf_doc_strbuf0] by blast

end
