(* ===== verification/Config.thy ===== *)
theory Config
  imports HttpResp
begin

text \<open>
  The configuration of the Wi-Fi manager: \<^verbatim>\<open>src/wifiman_config.c\<close> (the defaults and the
  configuration in use, every access under its mutex), \<^verbatim>\<open>src/wifiman_cfg_blob.c\<close> and
  \<^verbatim>\<open>src/wifiman_cfg_blob_convert.c\<close> (the configuration that older firmware keeps in the
  non-volatile storage) and \<^verbatim>\<open>src/ap_ssid.c\<close>.

  Character arrays are the C strings they hold. The values of the build configuration are the
  parameter \<open>kconfig\<close>; the non-volatile storage is a map from keys to blobs, with the outcome
  of each of its calls in \<open>nvs_env\<close>.
\<close>

section \<open>Model\<close>

definition WIFI_AUTH_WPA2_PSK :: nat where "WIFI_AUTH_WPA2_PSK = 3"
definition AUTH_OPEN :: nat where "AUTH_OPEN = 0"
definition WIFI_BW_HT20 :: nat where "WIFI_BW_HT20 = 1"
definition WIFI_BW_HT40 :: nat where "WIFI_BW_HT40 = 2"
definition WIFI_PS_NONE :: nat where "WIFI_PS_NONE = 0"
definition WIFI_PS_MIN_MODEM :: nat where "WIFI_PS_MIN_MODEM = 1"
definition WIFI_PS_MAX_MODEM :: nat where "WIFI_PS_MAX_MODEM = 2"
definition WIFI_MAX_AP_CHANNEL :: nat where "WIFI_MAX_AP_CHANNEL = 14"
definition SSID_BUF_SIZE :: nat where "SSID_BUF_SIZE = 32"
definition PASSWORD_BUF_SIZE :: nat where "PASSWORD_BUF_SIZE = 64"

record wifi_ap_config =
  apc_ssid :: cstr
  apc_password :: cstr
  apc_ssid_len :: nat
  apc_channel :: nat
  apc_authmode :: nat
  apc_ssid_hidden :: nat
  apc_max_connection :: nat
  apc_beacon_interval :: nat

record wifi_settings_ap =
  aps_bandwidth :: nat
  aps_ip :: cstr
  aps_gw :: cstr
  aps_netmask :: cstr

record wifi_sta_config =
  stc_ssid :: cstr
  stc_password :: cstr
  stc_scan_method :: nat
  stc_bssid_set :: bool
  stc_bssid :: "nat list"
  stc_channel :: nat
  stc_listen_interval :: nat
  stc_sort_method :: nat
  stc_threshold :: "int \<times> nat" \<comment> \<open>\<open>rssi\<close>, \<open>authmode\<close>\<close>
  stc_pmf_cfg :: "bool \<times> bool"

record ip_info =
  ipi_ip :: "32 word"
  ipi_netmask :: "32 word"
  ipi_gw :: "32 word"

record wifi_settings_sta =
  sts_power_save :: nat
  sts_static_ip :: bool
  sts_static_ip_config :: ip_info

record config_ap =
  cap_wifi :: wifi_ap_config
  cap_settings :: wifi_settings_ap

record config_sta =
  cst_wifi :: wifi_sta_config
  cst_settings :: wifi_settings_sta
  cst_hostinfo :: hostinfo

record config =
  cfg_ap :: config_ap
  cfg_sta :: config_sta

record kconfig =
  k_ap_password :: cstr
  k_ap_channel :: nat
  k_ap_max_connections :: nat
  k_ap_beacon_interval :: nat
  k_ap_ip :: cstr
  k_ap_gateway :: cstr
  k_ap_netmask :: cstr

definition zero_ip :: ip_info where "zero_ip = \<lparr>ipi_ip = 0, ipi_netmask = 0, ipi_gw = 0\<rparr>"

definition zero_sta_config :: wifi_sta_config where
  "zero_sta_config = \<lparr>stc_ssid = [], stc_password = [], stc_scan_method = 0, stc_bssid_set = False,
     stc_bssid = replicate 6 0, stc_channel = 0, stc_listen_interval = 0, stc_sort_method = 0,
     stc_threshold = (0, AUTH_OPEN), stc_pmf_cfg = (False, False)\<rparr>"

definition config_default_const :: "kconfig \<Rightarrow> config" where
  "config_default_const k =
     \<lparr>cfg_ap = \<lparr>cap_wifi = \<lparr>apc_ssid = [], apc_password = k_ap_password k, apc_ssid_len = 0,
          apc_channel = k_ap_channel k, apc_authmode = WIFI_AUTH_WPA2_PSK, apc_ssid_hidden = 0,
          apc_max_connection = k_ap_max_connections k, apc_beacon_interval = k_ap_beacon_interval k\<rparr>,
        cap_settings = \<lparr>aps_bandwidth = WIFI_BW_HT20, aps_ip = k_ap_ip k, aps_gw = k_ap_gateway k,
          aps_netmask = k_ap_netmask k\<rparr>\<rparr>,
      cfg_sta = \<lparr>cst_wifi = zero_sta_config,
        cst_settings = \<lparr>sts_power_save = WIFI_PS_NONE, sts_static_ip = False, sts_static_ip_config = zero_ip\<rparr>,
        cst_hostinfo = \<lparr>hostname = [], fw_ver = [], nrf52_fw_ver = []\<rparr>\<rparr>\<rparr>"

definition upd_ap_wifi :: "(wifi_ap_config \<Rightarrow> wifi_ap_config) \<Rightarrow> config \<Rightarrow> config" where
  "upd_ap_wifi f c = c\<lparr>cfg_ap := (cfg_ap c)\<lparr>cap_wifi := f (cap_wifi (cfg_ap c))\<rparr>\<rparr>"

definition upd_ap_settings :: "(wifi_settings_ap \<Rightarrow> wifi_settings_ap) \<Rightarrow> config \<Rightarrow> config" where
  "upd_ap_settings f c = c\<lparr>cfg_ap := (cfg_ap c)\<lparr>cap_settings := f (cap_settings (cfg_ap c))\<rparr>\<rparr>"

definition upd_sta_wifi :: "(wifi_sta_config \<Rightarrow> wifi_sta_config) \<Rightarrow> config \<Rightarrow> config" where
  "upd_sta_wifi f c = c\<lparr>cfg_sta := (cfg_sta c)\<lparr>cst_wifi := f (cst_wifi (cfg_sta c))\<rparr>\<rparr>"

definition upd_sta_settings :: "(wifi_settings_sta \<Rightarrow> wifi_settings_sta) \<Rightarrow> config \<Rightarrow> config" where
  "upd_sta_settings f c = c\<lparr>cfg_sta := (cfg_sta c)\<lparr>cst_settings := f (cst_settings (cfg_sta c))\<rparr>\<rparr>"

definition default_config_init :: "kconfig \<Rightarrow> cstr \<Rightarrow> hostinfo \<Rightarrow> config" where
  "default_config_init k wifi_ssid h =
     (let c = config_default_const k;
          c = upd_ap_wifi (\<lambda>w. w\<lparr>apc_ssid := snprintf_s SSID_BUF_SIZE wifi_ssid\<rparr>) c;
          c = c\<lparr>cfg_sta := (cfg_sta c)\<lparr>cst_hostinfo :=
                \<lparr>hostname = snprintf_s HOSTNAME_SIZE (hostname h), fw_ver = snprintf_s FW_VERSION_SIZE (fw_ver h),
                 nrf52_fw_ver = snprintf_s FW_VERSION_SIZE (nrf52_fw_ver h)\<rparr>\<rparr>\<rparr>
      in upd_ap_wifi (\<lambda>w. w\<lparr>apc_authmode := if apc_password w = [] then AUTH_OPEN else WIFI_AUTH_WPA2_PSK\<rparr>) c)"

definition default_config_set :: "config \<Rightarrow> config" where
  \<comment> \<open>\<open>wifiman_default_config_set\<close>: the new default\<close>
  "default_config_set wifi_cfg =
     upd_ap_wifi (\<lambda>w.
       if apc_password w = [] then
         (if apc_authmode w \<noteq> AUTH_OPEN then w\<lparr>apc_authmode := AUTH_OPEN\<rparr> else w)
       else if apc_authmode w = AUTH_OPEN then w\<lparr>apc_authmode := WIFI_AUTH_WPA2_PSK\<rparr> else w) wifi_cfg"

subsection \<open>The configuration in use\<close>

definition config_init :: "config \<Rightarrow> config \<Rightarrow> config" where
  "config_init src cfg = src"

definition config_ap_set :: "config_ap \<Rightarrow> config \<Rightarrow> config" where
  "config_ap_set src cfg = cfg\<lparr>cfg_ap := src\<rparr>"

definition config_sta_set :: "config_sta \<Rightarrow> config \<Rightarrow> config" where
  "config_sta_set src cfg = cfg\<lparr>cfg_sta := src\<rparr>"

definition config_sta_save :: "(config_sta \<Rightarrow> 'a) \<Rightarrow> config \<Rightarrow> 'a" where
  \<comment> \<open>with the callback \<open>cb_save_wifi_config_sta\<close>\<close>
  "config_sta_save cb cfg = cb (cfg_sta cfg)"

definition config_sta_get_config :: "config \<Rightarrow> wifi_sta_config" where
  "config_sta_get_config cfg = cst_wifi (cfg_sta cfg)"

definition config_sta_get_settings :: "config \<Rightarrow> wifi_settings_sta" where
  "config_sta_get_settings cfg = cst_settings (cfg_sta cfg)"

definition config_sta_get_ssid :: "config \<Rightarrow> cstr" where
  "config_sta_get_ssid cfg = snprintf_s SSID_BUF_SIZE (stc_ssid (cst_wifi (cfg_sta cfg)))"

definition config_sta_is_ssid_configured :: "config \<Rightarrow> bool" where
  "config_sta_is_ssid_configured cfg \<longleftrightarrow> config_sta_get_ssid cfg \<noteq> []"

definition config_sta_set_ssid_and_password :: "cstr \<Rightarrow> cstr option \<Rightarrow> config \<Rightarrow> config" where
  "config_sta_set_ssid_and_password ssid p_password =
     upd_sta_wifi (\<lambda>_. zero_sta_config
       \<lparr>stc_ssid := snprintf_s SSID_BUF_SIZE ssid,
        stc_password := snprintf_s PASSWORD_BUF_SIZE (case p_password of None \<Rightarrow> [] | Some p \<Rightarrow> p)\<rparr>)"

definition config_sta_get_hostinfo :: "config \<Rightarrow> hostinfo" where
  "config_sta_get_hostinfo cfg = cst_hostinfo (cfg_sta cfg)"

definition config_ap_get_config :: "config \<Rightarrow> wifi_ap_config" where
  "config_ap_get_config cfg = cap_wifi (cfg_ap cfg)"

definition config_ap_get_settings :: "config \<Rightarrow> wifi_settings_ap" where
  "config_ap_get_settings cfg = cap_settings (cfg_ap cfg)"

definition config_ap_get_ip_str :: "config \<Rightarrow> cstr" where
  "config_ap_get_ip_str cfg = aps_ip (config_ap_get_settings cfg)"

definition config_ap_get_ip :: "(cstr \<Rightarrow> 32 word) \<Rightarrow> config \<Rightarrow> 32 word" where
  \<comment> \<open>with \<open>esp_ip4addr_aton\<close>\<close>
  "config_ap_get_ip aton cfg = aton (config_ap_get_ip_str cfg)"

definition hex_digit_upper :: "nat \<Rightarrow> char" where
  "hex_digit_upper d = (if d < 10 then char_of (48 + d) else char_of (55 + d))"

definition hex2_upper :: "nat \<Rightarrow> cstr" where
  \<comment> \<open>\<open>%02X\<close> of a byte\<close>
  "hex2_upper b = [hex_digit_upper (b div 16), hex_digit_upper (b mod 16)]"

definition ap_ssid_generate :: "nat \<Rightarrow> cstr \<Rightarrow> nat list \<Rightarrow> cstr" where
  \<comment> \<open>\<open>%.*s %02X%02X\<close> with the last two bytes of the address\<close>
  "ap_ssid_generate buf_size orig_ap_ssid mac =
     snprintf_s buf_size (take (SSID_BUF_SIZE - 5 - 1) orig_ap_ssid @ '' '' @ hex2_upper (mac ! 4) @ hex2_upper (mac ! 5))"

subsection \<open>The configuration of older firmware\<close>

record blob_settings =
  bs_ap_ssid :: cstr
  bs_ap_pwd :: cstr
  bs_ap_channel :: nat
  bs_ap_ssid_hidden :: nat
  bs_ap_bandwidth :: nat
  bs_sta_only :: bool
  bs_sta_power_save :: nat
  bs_sta_static_ip :: bool
  bs_sta_static_ip_config :: ip_info

record cfg_blob =
  cb_sta_ssid :: cstr
  cb_sta_password :: cstr
  cb_settings :: blob_settings

datatype blob = BlobText cstr | BlobSettings blob_settings

datatype nvs_key = KeySsid | KeyPassword | KeySettings

type_synonym nvs = "nvs_key \<Rightarrow> blob option" \<comment> \<open>the namespace \<open>espwifimgr\<close>\<close>

record nvs_env =
  nvs_open_ok :: bool
  nvs_get_ok :: "nvs_key \<Rightarrow> bool"
  nvs_set_ok :: bool
  nvs_commit_ok :: bool

definition DEPRECATED_BLOB :: cstr where "DEPRECATED_BLOB = ''deprecated_blob''"

definition nvs_get_text :: "nvs_env \<Rightarrow> nvs \<Rightarrow> nvs_key \<Rightarrow> cstr option" where
  "nvs_get_text e n k =
     (if nvs_get_ok e k then (case n k of Some (BlobText t) \<Rightarrow> Some t | _ \<Rightarrow> None) else None)"

definition nvs_get_settings :: "nvs_env \<Rightarrow> nvs \<Rightarrow> blob_settings option" where
  "nvs_get_settings e n =
     (if nvs_get_ok e KeySettings then (case n KeySettings of Some (BlobSettings s) \<Rightarrow> Some s | _ \<Rightarrow> None) else None)"

definition cfg_blob_read_by_handle :: "nvs_env \<Rightarrow> nvs \<Rightarrow> cfg_blob option" where
  "cfg_blob_read_by_handle e n = do {
     ssid \<leftarrow> nvs_get_text e n KeySsid;
     password \<leftarrow> nvs_get_text e n KeyPassword;
     settings \<leftarrow> nvs_get_settings e n;
     Some \<lparr>cb_sta_ssid = ssid, cb_sta_password = password, cb_settings = settings\<rparr> }"

definition cfg_blob_convert :: "config \<Rightarrow> cfg_blob \<Rightarrow> config" where
  \<comment> \<open>with the default configuration\<close>
  "cfg_blob_convert dflt src =
     (let s = cb_settings src;
          c = dflt;
          c = upd_ap_wifi (\<lambda>w. w\<lparr>apc_channel := if bs_ap_channel s \<le> WIFI_MAX_AP_CHANNEL then bs_ap_channel s else 1\<rparr>) c;
          c = upd_ap_wifi (\<lambda>w. w\<lparr>apc_ssid_hidden := if bs_ap_ssid_hidden s \<noteq> 0 then 1 else 0\<rparr>) c;
          c = upd_ap_settings (\<lambda>w. w\<lparr>aps_bandwidth :=
                if bs_ap_bandwidth s \<in> {WIFI_BW_HT20, WIFI_BW_HT40} then bs_ap_bandwidth s
                else aps_bandwidth (cap_settings (cfg_ap dflt))\<rparr>) c;
          c = upd_sta_wifi (\<lambda>w. w\<lparr>stc_ssid := snprintf_s SSID_BUF_SIZE (cb_sta_ssid src),
                stc_password := snprintf_s PASSWORD_BUF_SIZE (cb_sta_password src)\<rparr>) c;
          c = upd_sta_settings (\<lambda>w. w\<lparr>sts_power_save :=
                if bs_sta_power_save s \<in> {WIFI_PS_NONE, WIFI_PS_MIN_MODEM, WIFI_PS_MAX_MODEM} then bs_sta_power_save s
                else sts_power_save w\<rparr>) c
      in upd_sta_settings (\<lambda>w. w\<lparr>sts_static_ip := bs_sta_static_ip s, sts_static_ip_config := bs_sta_static_ip_config s\<rparr>) c)"

definition manager_cfg_blob_read :: "nvs_env \<Rightarrow> config \<Rightarrow> nvs \<Rightarrow> config option" where
  \<comment> \<open>\<open>None\<close>: false is returned and the destination is not touched\<close>
  "manager_cfg_blob_read e dflt n =
     (if \<not> nvs_open_ok e then None
      else case cfg_blob_read_by_handle e n of
          None \<Rightarrow> None
        | Some b \<Rightarrow>
            if bs_ap_ssid (cb_settings b) = DEPRECATED_BLOB then None else Some (cfg_blob_convert dflt b))"

definition manager_cfg_blob_mark_deprecated :: "nvs_env \<Rightarrow> nvs \<Rightarrow> bool \<times> nvs" where
  "manager_cfg_blob_mark_deprecated e n =
     (if \<not> nvs_open_ok e then (False, n)
      else case nvs_get_settings e n of
          None \<Rightarrow> (False, n)
        | Some s \<Rightarrow>
            if bs_ap_ssid s = DEPRECATED_BLOB then (False, n)
            else
              let s1 = s\<lparr>bs_ap_ssid := snprintf_s SSID_BUF_SIZE DEPRECATED_BLOB\<rparr>
              in (nvs_set_ok e \<and> nvs_commit_ok e, if nvs_set_ok e then n(KeySettings \<mapsto> BlobSettings s1) else n))"

section \<open>Properties\<close>

definition config_ok :: "config \<Rightarrow> bool" where
  "config_ok c \<longleftrightarrow> apc_channel (cap_wifi (cfg_ap c)) \<le> WIFI_MAX_AP_CHANNEL
     \<and> apc_ssid_hidden (cap_wifi (cfg_ap c)) \<le> 1
     \<and> aps_bandwidth (cap_settings (cfg_ap c)) \<in> {WIFI_BW_HT20, WIFI_BW_HT40}
     \<and> (apc_authmode (cap_wifi (cfg_ap c)) = AUTH_OPEN) = (apc_password (cap_wifi (cfg_ap c)) = [])
     \<and> sts_power_save (cst_settings (cfg_sta c)) \<in> {WIFI_PS_NONE, WIFI_PS_MIN_MODEM, WIFI_PS_MAX_MODEM}
     \<and> length (stc_ssid (cst_wifi (cfg_sta c))) < SSID_BUF_SIZE
     \<and> length (stc_password (cst_wifi (cfg_sta c))) < PASSWORD_BUF_SIZE"

lemmas upd_defs = upd_ap_wifi_def upd_ap_settings_def upd_sta_wifi_def upd_sta_settings_def

lemma snprintf_s_length [simp]: "0 < n \<Longrightarrow> length (snprintf_s n s) < n"
  by (simp add: snprintf_s_def min_less_iff_disj)

lemma default_config_init_ok:
  assumes "k_ap_channel k \<le> WIFI_MAX_AP_CHANNEL"
  shows "config_ok (default_config_init k ssid h)"
  using assms
  by (simp add: config_ok_def default_config_init_def config_default_const_def upd_defs Let_def zero_sta_config_def
      WIFI_AUTH_WPA2_PSK_def AUTH_OPEN_def SSID_BUF_SIZE_def PASSWORD_BUF_SIZE_def)

lemma default_config_set_authmode:
  "(apc_authmode (cap_wifi (cfg_ap (default_config_set c))) = AUTH_OPEN)
    = (apc_password (cap_wifi (cfg_ap (default_config_set c))) = [])"
  by (simp add: default_config_set_def upd_defs WIFI_AUTH_WPA2_PSK_def AUTH_OPEN_def)

lemma cfg_blob_convert_ok: "config_ok dflt \<Longrightarrow> config_ok (cfg_blob_convert dflt b)"
  by (simp add: config_ok_def cfg_blob_convert_def upd_defs Let_def WIFI_MAX_AP_CHANNEL_def
      SSID_BUF_SIZE_def PASSWORD_BUF_SIZE_def)

lemma deprecated_fits: "snprintf_s SSID_BUF_SIZE DEPRECATED_BLOB = DEPRECATED_BLOB"
  by (simp add: SSID_BUF_SIZE_def DEPRECATED_BLOB_def)

text \<open>
  C35: the configuration of an older firmware is taken over once: what is read from whatever
  the storage contains is a valid configuration, and after it has been marked as taken over it
  is not read again, while the storage still has everything an older firmware needs.
\<close>

theorem old_config_migrates_once:
  assumes "config_ok dflt" "manager_cfg_blob_read e dflt n = Some c"
    and "manager_cfg_blob_mark_deprecated e n = (True, n')"
  shows "config_ok c
    \<and> manager_cfg_blob_read e' dflt n' = None
    \<and> \<not> fst (manager_cfg_blob_mark_deprecated e' n')
    \<and> n' KeySsid = n KeySsid \<and> n' KeyPassword = n KeyPassword
    \<and> (\<exists>s s'. n KeySettings = Some (BlobSettings s) \<and> n' KeySettings = Some (BlobSettings s')
        \<and> s' = s\<lparr>bs_ap_ssid := DEPRECATED_BLOB\<rparr>)"
proof -
  from assms(2) obtain b where c: "c = cfg_blob_convert dflt b"
    by (auto simp: manager_cfg_blob_read_def split: if_splits option.splits)
  from assms(3) obtain s where s: "nvs_get_settings e n = Some s"
    and n': "n' = n(KeySettings \<mapsto> BlobSettings (s\<lparr>bs_ap_ssid := DEPRECATED_BLOB\<rparr>))"
    by (auto simp: manager_cfg_blob_mark_deprecated_def deprecated_fits Let_def split: if_splits option.splits)
  from s have old: "n KeySettings = Some (BlobSettings s)"
    by (auto simp: nvs_get_settings_def split: if_splits option.splits blob.splits)
  have again: "nvs_get_settings e' n' = Some t \<Longrightarrow> bs_ap_ssid t = DEPRECATED_BLOB" for t
    by (auto simp: nvs_get_settings_def n' split: if_splits)
  have "manager_cfg_blob_read e' dflt n' = None"
    using again by (auto simp: manager_cfg_blob_read_def cfg_blob_read_by_handle_def split: option.splits elim!: option_bind_SomeE)
  moreover have "\<not> fst (manager_cfg_blob_mark_deprecated e' n')"
    using again by (auto simp: manager_cfg_blob_mark_deprecated_def split: option.splits)
  ultimately show ?thesis using assms(1) old by (simp add: c n' cfg_blob_convert_ok)
qed

text \<open>
  An unknown power save mode of the older configuration is not replaced by no power saving,
  as the log message says, but by the mode of the default configuration.
\<close>

theorem unknown_power_save_takes_default:
  assumes "bs_sta_power_save (cb_settings b) \<notin> {WIFI_PS_NONE, WIFI_PS_MIN_MODEM, WIFI_PS_MAX_MODEM}"
  shows "sts_power_save (cst_settings (cfg_sta (cfg_blob_convert dflt b))) = sts_power_save (cst_settings (cfg_sta dflt))"
  using assms by (simp add: cfg_blob_convert_def upd_defs Let_def)

section \<open>Witnesses\<close>

definition kconfig0 :: kconfig where
  "kconfig0 = \<lparr>k_ap_password = [], k_ap_channel = 1, k_ap_max_connections = 4, k_ap_beacon_interval = 100,
     k_ap_ip = ''10.10.0.1'', k_ap_gateway = ''10.10.0.1'', k_ap_netmask = ''255.255.255.0''\<rparr>"

definition default0 :: config where
  "default0 = default_config_init kconfig0 ''gw 1234'' \<lparr>hostname = ''gw'', fw_ver = ''1'', nrf52_fw_ver = ''2''\<rparr>"

definition old_settings0 :: blob_settings where
  "old_settings0 = \<lparr>bs_ap_ssid = ''old'', bs_ap_pwd = [], bs_ap_channel = 77, bs_ap_ssid_hidden = 5, bs_ap_bandwidth = 9,
     bs_sta_only = True, bs_sta_power_save = 8, bs_sta_static_ip = False, bs_sta_static_ip_config = zero_ip\<rparr>"

definition nvs0 :: nvs where
  "nvs0 = [KeySsid \<mapsto> BlobText ''home'', KeyPassword \<mapsto> BlobText ''secret'', KeySettings \<mapsto> BlobSettings old_settings0]"

definition nvs_env0 :: nvs_env where
  "nvs_env0 = \<lparr>nvs_open_ok = True, nvs_get_ok = \<lambda>_. True, nvs_set_ok = True, nvs_commit_ok = True\<rparr>"

lemma default0_ok: "config_ok default0"
  unfolding default0_def by (rule default_config_init_ok) (simp add: kconfig0_def WIFI_MAX_AP_CHANNEL_def)

lemma old_config_migrates_once_witness:
  "\<exists>c n'. manager_cfg_blob_read nvs_env0 default0 nvs0 = Some c \<and> config_ok c
    \<and> manager_cfg_blob_mark_deprecated nvs_env0 nvs0 = (True, n') \<and> manager_cfg_blob_read nvs_env0 default0 n' = None"
proof -
  have r: "manager_cfg_blob_read nvs_env0 default0 nvs0
      = Some (cfg_blob_convert default0 \<lparr>cb_sta_ssid = ''home'', cb_sta_password = ''secret'', cb_settings = old_settings0\<rparr>)"
    by (simp add: manager_cfg_blob_read_def cfg_blob_read_by_handle_def nvs_get_text_def nvs_get_settings_def
        nvs_env0_def nvs0_def old_settings0_def DEPRECATED_BLOB_def)
  have m: "manager_cfg_blob_mark_deprecated nvs_env0 nvs0
      = (True, nvs0(KeySettings \<mapsto> BlobSettings (old_settings0\<lparr>bs_ap_ssid := DEPRECATED_BLOB\<rparr>)))"
    by (simp add: manager_cfg_blob_mark_deprecated_def nvs_get_settings_def nvs_env0_def nvs0_def old_settings0_def
        deprecated_fits Let_def) (simp add: DEPRECATED_BLOB_def)
  from old_config_migrates_once [OF default0_ok r m, of nvs_env0] r m show ?thesis by blast
qed

lemma unknown_power_save_takes_default_witness:
  "sts_power_save (cst_settings (cfg_sta (cfg_blob_convert default0
    \<lparr>cb_sta_ssid = ''home'', cb_sta_password = ''secret'', cb_settings = old_settings0\<rparr>)))
    = sts_power_save (cst_settings (cfg_sta default0))"
  by (rule unknown_power_save_takes_default)
    (simp add: old_settings0_def WIFI_PS_NONE_def WIFI_PS_MIN_MODEM_def WIFI_PS_MAX_MODEM_def)

end
