(* ===== verification/WifiMgr.thy ===== *)
theory WifiMgr
  imports WifiMsg ApList NetInfo Config
begin

text \<open>
  The task of the Wi-Fi manager: \<^verbatim>\<open>src/wifi_manager_handle_msg.c\<close> with the functions of
  \<^verbatim>\<open>src/wifi_manager_internal.c\<close> and \<^verbatim>\<open>src/wifi_manager.c\<close> that its handlers call.

  The state extends the queue and the event bits by what the handlers keep in static variables:
  scan, list of access points, WPS flag, the two timers, the semaphore of a synchronous scan,
  the configuration, the status record, and the record of all calls into the driver and of all
  callbacks, oldest first. The driver's answers may depend on everything called before
  (\<open>driver\<close>). A handler's result \<open>None\<close> means that the task waits for room in its own queue.
\<close>

section \<open>State\<close>

record scan_info =
  si_first_chan :: "8 word"
  si_last_chan :: "8 word"
  si_cur_chan :: "8 word"
  si_num_access_points :: nat

datatype wifi_mode = WIFI_MODE_STA | WIFI_MODE_APSTA

datatype callback =
    CbConnectEth | CbDisconnectEth | CbDisconnectSta | CbWpsStarted | CbWpsStopped | CbApStarted | CbApStopped
  | CbApStaConnected | CbApStaDisconnected | CbApStaIpAssigned | CbSaveSta config_sta | CbMessage message_code msg_param

datatype call =
    EspWifiInit | EspWifiSetStorage | EspWifiStart | EspWifiStop | EspWifiDeinit
  | EspSetMode wifi_mode | EspSetConfigSta wifi_sta_config | EspSetConfigAp wifi_ap_config | EspSetBandwidth nat
  | EspConnect | EspDisconnect | EspGetCountry | EspScanStart "8 word" | EspScanGetRecords
  | EspWpsEnable | EspWpsStart | EspWpsDisable | EspGetConfigSta | EspSetPs nat
  | EspSetAntGpio | EspSetAnt | EspNetifGetIpInfo | EspNetifSetIpInfo ip_info | EspNetifSetHostname cstr
  | EspDhcpsStop | EspDhcpsStart | EspDhcpcStop | EspDhcpcStart | EspDhcpcGetStatus
  | EspEventLoopCreate | EspEventRegister nat | EspEventUnregister nat | EspNetifCreateAp | EspNetifCreateSta
  | EspNetifActionStop nat | TaskCreate | WdtAdd | WdtReset | WdtDelete
  | DnsServerInit | DnsServerStart | DnsServerStop | HttpServerInit | HttpServerStart
  | Callback callback

record wm = msg_state +
  wm_scan :: scan_info
  wm_aps :: "ap list" \<comment> \<open>\<open>g_wifi_ap_records\<close>: twice \<open>MAX_AP_NUM\<close> slots\<close>
  wm_ap_num :: nat
  wm_wps :: bool \<comment> \<open>\<open>g_wifi_wps_enabled\<close>\<close>
  wm_scan_timer :: bool
  wm_reconnect :: "nat option" \<comment> \<open>the reconnect timer and its delay in seconds\<close>
  wm_wdog_timer :: bool
  wm_sema :: "bool option" \<comment> \<open>\<open>g_p_scan_sync_sema\<close> and whether it has been signalled\<close>
  wm_scan_waiter :: bool \<comment> \<open>a task waits for that semaphore\<close>
  wm_cfg :: config
  wm_info :: net_info
  wm_sta_ip :: cstr
  wm_msg_cbs :: "message_code set" \<comment> \<open>\<open>g_wifi_cb_ptr_arr\<close>\<close>
  wm_log :: "call list"
  wm_heap :: nat \<comment> \<open>live heap blocks\<close>

record driver =
  d_ok :: "call list \<Rightarrow> call \<Rightarrow> bool"
  d_country :: "call list \<Rightarrow> (8 word \<times> 8 word) option" \<comment> \<open>first channel and number of channels\<close>
  d_records :: "call list \<Rightarrow> ap list option"
  d_ip_info :: "call list \<Rightarrow> ip_info option"
  d_dhcp_ip :: "call list \<Rightarrow> 32 word option"
  d_sta_config :: "call list \<Rightarrow> (cstr \<times> cstr) option" \<comment> \<open>name and password\<close>
  d_dhcp_started :: "call list \<Rightarrow> bool"
  d_malloc :: "call list \<Rightarrow> bool"
  d_qsort :: "(ap \<Rightarrow> ap \<Rightarrow> int) \<Rightarrow> ap list \<Rightarrow> ap list"
  d_ntoa :: "32 word \<Rightarrow> cstr"
  d_aton :: "cstr \<Rightarrow> 32 word"

definition log :: "call \<Rightarrow> wm \<Rightarrow> wm" where
  "log c s = s\<lparr>wm_log := wm_log s @ [c]\<rparr>"

definition esp :: "driver \<Rightarrow> call \<Rightarrow> wm \<Rightarrow> bool \<times> wm" where
  \<comment> \<open>a call into the driver: whether it returns \<open>ESP_OK\<close>\<close>
  "esp d c s = (d_ok d (wm_log s) c, log c s)"

definition upd_info :: "(net_info \<Rightarrow> net_info option) \<Rightarrow> wm \<Rightarrow> wm" where
  \<comment> \<open>an action on the status record, under its mutex without a limit of time\<close>
  "upd_info f s = (case f (wm_info s) of None \<Rightarrow> s | Some i \<Rightarrow> s\<lparr>wm_info := i\<rparr>)"

definition callback :: "callback \<Rightarrow> wm \<Rightarrow> wm" where
  "callback c = log (Callback c)"

definition RECONNECT_STA_DEFAULT_TIMEOUT_SEC :: nat where "RECONNECT_STA_DEFAULT_TIMEOUT_SEC = 1"
definition RECONNECT_STA_AFTER_MIC_FAILURE_TIMEOUT_SEC :: nat where "RECONNECT_STA_AFTER_MIC_FAILURE_TIMEOUT_SEC = 70"
definition COUNTRY_DEFAULT_FIRST_CHANNEL :: "8 word" where "COUNTRY_DEFAULT_FIRST_CHANNEL = 1"
definition COUNTRY_DEFAULT_NUM_CHANNELS :: "8 word" where "COUNTRY_DEFAULT_NUM_CHANNELS = 13"

definition start_timer_reconnect_sta_after_timeout :: "nat \<Rightarrow> wm \<Rightarrow> wm" where
  "start_timer_reconnect_sta_after_timeout delay_sec s = s\<lparr>wm_reconnect := Some delay_sec\<rparr>"

definition stop_timer_reconnect_sta_after_timeout :: "wm \<Rightarrow> wm" where
  "stop_timer_reconnect_sta_after_timeout s = s\<lparr>wm_reconnect := None\<rparr>"

definition scan_timer_start :: "wm \<Rightarrow> wm" where "scan_timer_start s = s\<lparr>wm_scan_timer := True\<rparr>"
definition scan_timer_stop :: "wm \<Rightarrow> wm" where "scan_timer_stop s = s\<lparr>wm_scan_timer := False\<rparr>"

definition notify_scan_done :: "wm \<Rightarrow> wm" where
  "notify_scan_done s =
     (let s = clear_bits {SCAN_BIT} s
      in if wm_sema s \<noteq> None then s\<lparr>wm_sema := Some True\<rparr> else s)"

definition update_network_connection_info ::
  "driver \<Rightarrow> update_reason \<Rightarrow> cstr option \<Rightarrow> ip_info option \<Rightarrow> 32 word option \<Rightarrow> wm \<Rightarrow> wm" where
  "update_network_connection_info d reason p_ssid p_ip_info p_dhcp_ip s =
     (let nis = \<lparr>nis_ip = ''0'', nis_gw = ''0'', nis_netmask = ''0'', nis_dhcp = []\<rparr>;
          (nis, s) =
            (if reason = UPDATE_CONNECTION_OK then
               (let s = (if p_ssid = None then set_bits {ETH_CONNECTED_BIT} s
                         else stop_timer_reconnect_sta_after_timeout (set_bits {WIFI_CONNECTED_BIT} s))
                in case p_ip_info of
                     Some i \<Rightarrow>
                       (nis\<lparr>nis_ip := d_ntoa d (ipi_ip i), nis_netmask := d_ntoa d (ipi_netmask i), nis_gw := d_ntoa d (ipi_gw i),
                          nis_dhcp := (case p_dhcp_ip of None \<Rightarrow> [] | Some ip \<Rightarrow> d_ntoa d ip)\<rparr>,
                        s\<lparr>wm_sta_ip := sta_ip_set (d_ntoa d) (ipi_ip i)\<rparr>)
                   | None \<Rightarrow> (nis, s\<lparr>wm_sta_ip := sta_ip_reset (d_ntoa d)\<rparr>))
             else (nis, clear_bits {WIFI_CONNECTED_BIT, ETH_CONNECTED_BIT} (s\<lparr>wm_sta_ip := sta_ip_reset (d_ntoa d)\<rparr>)))
      in upd_info (json_network_info_update p_ssid (Some nis) reason) s)"

section \<open>Handlers\<close>

definition wifi_scan_next :: "wm \<Rightarrow> bool \<times> wm" where
  \<comment> \<open>true: the scan is finished\<close>
  "wifi_scan_next s =
     (let scan = (wm_scan s)\<lparr>si_cur_chan := si_cur_chan (wm_scan s) + 1\<rparr>;
          s = s\<lparr>wm_scan := scan\<rparr>
      in if si_cur_chan scan > si_last_chan scan then (True, s) else (False, scan_timer_start s))"

definition handle_cmd_start_wifi_scan :: "driver \<Rightarrow> wm \<Rightarrow> wm option" where
  "handle_cmd_start_wifi_scan d s =
     (if SCAN_BIT \<in> ms_ev s then Some s
      else
        let s = set_bits {SCAN_BIT} s;
            (schan, nchan) = (case d_country d (wm_log s) of
                                None \<Rightarrow> (COUNTRY_DEFAULT_FIRST_CHANNEL, COUNTRY_DEFAULT_NUM_CHANNELS)
                              | Some c \<Rightarrow> c);
            s = (log EspGetCountry s)\<lparr>wm_scan := \<lparr>si_first_chan = schan, si_last_chan = schan + nchan - 1,
                   si_cur_chan = 0, si_num_access_points = 0\<rparr>\<rparr>;
            (finished, s) = wifi_scan_next s
        in if finished then map_option snd (msg_send_ev_scan_done s) else Some s)"

definition handle_cmd_connect_eth :: "wm \<Rightarrow> wm" where
  "handle_cmd_connect_eth s = callback CbConnectEth (clear_bits {REQUEST_RESTORE_STA_BIT} s)"

definition conn_req_bits :: "conn_req \<Rightarrow> wm \<Rightarrow> wm" where
  "conn_req_bits req s =
     (case req of
        CONNECTION_REQUEST_NONE \<Rightarrow> s
      | CONNECTION_REQUEST_USER \<Rightarrow> set_bits {REQUEST_STA_CONNECT_BIT} (clear_bits {REQUEST_RESTORE_STA_BIT} s)
      | CONNECTION_REQUEST_AUTO_RECONNECT \<Rightarrow> s
      | CONNECTION_REQUEST_RESTORE_CONNECTION \<Rightarrow> set_bits {REQUEST_RESTORE_STA_BIT} s
      | CONNECTION_REQUEST_WPS \<Rightarrow> set_bits {REQUEST_STA_CONNECT_BIT} (clear_bits {REQUEST_RESTORE_STA_BIT} s)
      | CONNECTION_REQUEST_OTHER \<Rightarrow> s)"

definition handle_cmd_connect_sta :: "driver \<Rightarrow> msg_param \<Rightarrow> wm \<Rightarrow> wm option" where
  "handle_cmd_connect_sta d p_param s =
     (let s = clear_bits {CMD_STA_CONNECT_BIT} s;
          event_bits = ms_ev s;
          s = conn_req_bits (conv_param_to_conn_req p_param) s
      in if STA_ACTIVE_BIT \<in> event_bits
         then map_option snd (msg_send_cmd_disconnect_sta (set_bits {REQUEST_RESTORE_STA_BIT} s))
         else
           let s = set_bits {STA_ACTIVE_BIT} (clear_bits {REQUEST_DISCONNECT_BIT} s);
               (ok, s) = esp d (EspSetConfigSta (config_sta_get_config (wm_cfg s))) s
           in Some (if ok then snd (esp d EspConnect s) else s))"

definition handle_lost_connection :: "driver \<Rightarrow> ev_bit set \<Rightarrow> bool \<Rightarrow> wm \<Rightarrow> wm" where
  "handle_lost_connection d event_bits flag_mic_failure s =
     (if \<not> wm_wps s \<and> STA_ACTIVE_BIT \<in> event_bits then
        (if flag_mic_failure
         then start_timer_reconnect_sta_after_timeout RECONNECT_STA_AFTER_MIC_FAILURE_TIMEOUT_SEC (snd (esp d EspDisconnect s))
         else start_timer_reconnect_sta_after_timeout RECONNECT_STA_DEFAULT_TIMEOUT_SEC s)
      else s)"

definition disconnected_outcome ::
  "driver \<Rightarrow> wifi_reason \<Rightarrow> ev_bit set \<Rightarrow> wm \<Rightarrow> bool \<times> update_reason \<times> wm" where
  \<comment> \<open>the middle of the handler: whether to connect again, and what to tell the status page\<close>
  "disconnected_outcome d reason event_bits s =
     (if REQUEST_STA_CONNECT_BIT \<in> event_bits \<and> REQUEST_RESTORE_STA_BIT \<in> event_bits then
        (True, UPDATE_USER_DISCONNECT, s)
      else if REQUEST_STA_CONNECT_BIT \<in> event_bits then
        (False, UPDATE_FAILED_ATTEMPT, clear_bits {REQUEST_STA_CONNECT_BIT} s)
      else if REQUEST_DISCONNECT_BIT \<in> event_bits then
        (False, UPDATE_USER_DISCONNECT, clear_bits {REQUEST_DISCONNECT_BIT} s)
      else (False, UPDATE_LOST_CONNECTION, handle_lost_connection d event_bits (reason = REASON_MIC_FAILURE) s))"

definition handle_ev_sta_disconnected :: "driver \<Rightarrow> msg_param \<Rightarrow> wm \<Rightarrow> (bool \<times> wm) option" where
  "handle_ev_sta_disconnected d p_param s =
     (let event_bits = ms_ev s;
          s = clear_bits {SCAN_BIT, INITIAL_CONNECTION_BIT, STA_ACTIVE_BIT, WIFI_CONNECTED_BIT} s;
          is_connected_to_wifi = (WIFI_CONNECTED_BIT \<in> event_bits);
          (reconnect, update_reason, s) = disconnected_outcome d (conv_param_to_reason p_param) event_bits s;
          s = update_network_connection_info d update_reason (Some (config_sta_get_ssid (wm_cfg s))) None None s
      in do {
        s \<leftarrow> (if reconnect \<and> CMD_STA_CONNECT_BIT \<notin> event_bits
              then map_option snd (msg_send_cmd_connect_sta CONNECTION_REQUEST_USER s)
              else Some s);
        Some (is_connected_to_wifi \<or> INITIAL_CONNECTION_BIT \<in> event_bits, s) })"

definition handle_cmd_start_ap :: "driver \<Rightarrow> bool \<Rightarrow> wm \<Rightarrow> wm" where
  "handle_cmd_start_ap d flag_block_req_from_lan s =
     callback CbApStarted (set_bits ({AP_ACTIVE} \<union> (if flag_block_req_from_lan then {BLOCK_REQ_FROM_LAN} else {}))
       (snd (esp d (EspSetMode WIFI_MODE_APSTA) s)))"

definition handle_cmd_stop_ap :: "driver \<Rightarrow> wm \<Rightarrow> wm" where
  "handle_cmd_stop_ap d s =
     callback CbApStopped (clear_bits {AP_ACTIVE, BLOCK_REQ_FROM_LAN} (snd (esp d (EspSetMode WIFI_MODE_STA) s)))"

definition handle_cmd_enable_wps :: "driver \<Rightarrow> wm \<Rightarrow> wm" where
  "handle_cmd_enable_wps d s =
     (let s = snd (esp d EspWpsEnable s);
          (ok, s) = esp d EspWpsStart s
      in if \<not> ok then s else callback CbWpsStarted (s\<lparr>wm_wps := True\<rparr>))"

definition handle_cmd_disable_wps :: "driver \<Rightarrow> wm \<Rightarrow> wm" where
  "handle_cmd_disable_wps d s =
     (let (ok, s) = esp d EspWpsDisable s;
          s = s\<lparr>wm_wps := False\<rparr>
      in if \<not> ok then s else callback CbWpsStopped s)"

definition handle_ev_sta_got_ip :: "driver \<Rightarrow> wm \<Rightarrow> wm" where
  "handle_ev_sta_got_ip d s =
     (let event_bits = ms_ev s;
          s = clear_bits {REQUEST_STA_CONNECT_BIT, REQUEST_RESTORE_STA_BIT} s;
          s = (if REQUEST_RESTORE_STA_BIT \<notin> event_bits
               then config_sta_save (\<lambda>cfg. callback (CbSaveSta cfg) s) (wm_cfg s) else s);
          p_ip_info = d_ip_info d (wm_log s);
          s = log EspNetifGetIpInfo s
      in case p_ip_info of
           Some ip_info \<Rightarrow>
             update_network_connection_info d UPDATE_CONNECTION_OK (Some (config_sta_get_ssid (wm_cfg s)))
               (Some ip_info) (d_dhcp_ip d (wm_log s)) s
         | None \<Rightarrow> s)"

definition is_connected_to_wifi :: "wm \<Rightarrow> bool" where
  "is_connected_to_wifi s \<longleftrightarrow> WIFI_CONNECTED_BIT \<in> ms_ev s"

definition handle_ev_ap_sta_connected :: "wm \<Rightarrow> wm" where
  "handle_ev_ap_sta_connected s =
     (let s = clear_bits {AP_STA_IP_ASSIGNED_BIT, INITIAL_CONNECTION_BIT} s;
          s = callback CbApStaConnected (set_bits {AP_STA_CONNECTED_BIT} s)
      in if \<not> is_connected_to_wifi s then log DnsServerStart s else s)"

definition handle_ev_ap_sta_disconnected :: "wm \<Rightarrow> wm" where
  "handle_ev_ap_sta_disconnected s =
     callback CbApStaDisconnected (log DnsServerStop (clear_bits {AP_STA_CONNECTED_BIT, AP_STA_IP_ASSIGNED_BIT} s))"

definition handle_ev_ap_sta_ip_assigned :: "wm \<Rightarrow> wm" where
  "handle_ev_ap_sta_ip_assigned s = callback CbApStaIpAssigned (set_bits {AP_STA_IP_ASSIGNED_BIT} s)"

definition handle_cmd_disconnect_eth :: "wm \<Rightarrow> wm" where
  "handle_cmd_disconnect_eth s = callback CbDisconnectEth s"

definition handle_cmd_disconnect_sta :: "driver \<Rightarrow> wm \<Rightarrow> wm option" where
  "handle_cmd_disconnect_sta d s =
     (let s = stop_timer_reconnect_sta_after_timeout s;
          s = set_bits {REQUEST_DISCONNECT_BIT} s;
          event_bits = ms_ev s;
          s = clear_bits {STA_ACTIVE_BIT} s;
          s = callback CbDisconnectSta (snd (esp d EspDisconnect s));
          s = clear_bits {REQUEST_DISCONNECT_BIT} s
      in if REQUEST_STA_CONNECT_BIT \<in> event_bits
         then map_option snd (msg_send_cmd_connect_sta CONNECTION_REQUEST_USER s)
         else Some s)"

definition handle_ev_scan_next :: "driver \<Rightarrow> wm \<Rightarrow> wm" where
  "handle_ev_scan_next d s =
     (let (ok, s) = esp d (EspScanStart (si_cur_chan (wm_scan s))) s
      in if \<not> ok then notify_scan_done s else s)"

definition handle_ev_scan_done :: "driver \<Rightarrow> wm \<Rightarrow> wm" where
  "handle_ev_scan_done d s =
     (case d_records d (wm_log s) of
        None \<Rightarrow> notify_scan_done (log EspScanGetRecords s)
      | Some found \<Rightarrow>
          let s = log EspScanGetRecords s;
              recs = take MAX_AP_NUM found; \<comment> \<open>no more than the call asks for\<close>
              aps = take MAX_AP_NUM (wm_aps s) @ recs @ drop (MAX_AP_NUM + length recs) (wm_aps s);
              (aps, num) = ap_list_filter_unique aps;
              s = s\<lparr>wm_aps := ap_list_sort_by_rssi (d_qsort d) aps num, wm_ap_num := num,
                    wm_scan := (wm_scan s)\<lparr>si_num_access_points := if num \<ge> MAX_AP_NUM then MAX_AP_NUM else num\<rparr>\<rparr>;
              (finished, s) = wifi_scan_next s
          in if finished then notify_scan_done s else s)"

definition wdt_task_reset :: "wm \<Rightarrow> wm" where
  "wdt_task_reset s = log WdtReset s"

definition handle_msg :: "driver \<Rightarrow> queue_message \<Rightarrow> wm \<Rightarrow> (bool \<times> bool \<times> wm) option" where
  \<comment> \<open>the results: the task is to end; the callback of the message is to be called\<close>
  "handle_msg d msg s =
     (let go = map_option (\<lambda>s. (False, True, s)); p = msg_param msg
      in case msg_code msg of
           ORDER_STOP_AND_DESTROY \<Rightarrow> Some (True, True, s)
         | ORDER_START_WIFI_SCAN \<Rightarrow> go (handle_cmd_start_wifi_scan d s)
         | ORDER_CONNECT_ETH \<Rightarrow> go (Some (handle_cmd_connect_eth s))
         | ORDER_CONNECT_STA \<Rightarrow> go (handle_cmd_connect_sta d p s)
         | ORDER_DISCONNECT_ETH \<Rightarrow> go (Some (handle_cmd_disconnect_eth s))
         | ORDER_DISCONNECT_STA \<Rightarrow> go (handle_cmd_disconnect_sta d s)
         | ORDER_START_AP \<Rightarrow> go (Some (handle_cmd_start_ap d (p = ParamFlag True) s))
         | ORDER_STOP_AP \<Rightarrow> go (Some (handle_cmd_stop_ap d s))
         | EVENT_STA_DISCONNECTED \<Rightarrow> map_option (\<lambda>(call_cb, s). (False, call_cb, s)) (handle_ev_sta_disconnected d p s)
         | EVENT_SCAN_NEXT \<Rightarrow> go (Some (handle_ev_scan_next d s))
         | EVENT_SCAN_DONE \<Rightarrow> go (Some (handle_ev_scan_done d s))
         | EVENT_STA_GOT_IP \<Rightarrow> go (Some (handle_ev_sta_got_ip d s))
         | EVENT_AP_STA_CONNECTED \<Rightarrow> go (Some (handle_ev_ap_sta_connected s))
         | EVENT_AP_STA_DISCONNECTED \<Rightarrow> go (Some (handle_ev_ap_sta_disconnected s))
         | EVENT_AP_STA_IP_ASSIGNED \<Rightarrow> go (Some (handle_ev_ap_sta_ip_assigned s))
         | ORDER_ENABLE_WPS \<Rightarrow> go (Some (handle_cmd_enable_wps d s))
         | ORDER_DISABLE_WPS \<Rightarrow> go (Some (handle_cmd_disable_wps d s))
         | ORDER_TASK_WATCHDOG_FEED \<Rightarrow> go (Some (wdt_task_reset (msg_clear_flag_wdog_feed_active s)))
         | WIFI_MAN_MSG_CODE_NONE \<Rightarrow> go (Some s))"

definition recv_and_handle_msg :: "driver \<Rightarrow> wm \<Rightarrow> (bool \<times> wm) option" where
  \<comment> \<open>\<open>None\<close>: the task waits, for a message or for room in its queue\<close>
  "recv_and_handle_msg d s = do {
     (msg, s) \<leftarrow> msg_recv s;
     (flag_terminate, call_cb, s) \<leftarrow> handle_msg d msg s;
     Some (flag_terminate,
       if msg_code msg \<in> wm_msg_cbs s \<and> call_cb then callback (CbMessage (msg_code msg) (msg_param msg)) s else s) }"

definition set_message_callback :: "message_code \<Rightarrow> bool \<Rightarrow> wm \<Rightarrow> wm" where
  \<comment> \<open>\<open>wifi_manager_set_callback\<close> with a callback or with \<open>NULL\<close>\<close>
  "set_message_callback code given_cb s =
     s\<lparr>wm_msg_cbs := if given_cb then insert code (wm_msg_cbs s) else wm_msg_cbs s - {code}\<rparr>"

definition generate_access_points_json :: "'s strbuf \<Rightarrow> bool \<Rightarrow> wm \<Rightarrow> 's option" where
  "generate_access_points_json B is_signed s = json_access_points_generate B is_signed (wm_aps s) (wm_ap_num s)"

end
