(* ===== verification/WifiTask.thy ===== *)
theory WifiTask
  imports WifiMgr
begin

text \<open>
  The life of the Wi-Fi manager: start and stop, the functions other tasks call, the events of
  the driver, the timers and the synchronous scan (\<^verbatim>\<open>src/wifi_manager.c\<close>,
  \<^verbatim>\<open>src/wifi_manager_internal.c\<close>). The relation \<open>wm_step\<close> is one step of any of the tasks:
  the manager handles a message, or another task, the driver or a timer acts on the state.
\<close>

section \<open>Commands of other tasks\<close>

definition manager_disconnect_eth :: "wm \<Rightarrow> wm option" where
  "manager_disconnect_eth s = map_option snd (msg_send_cmd_disconnect_eth s)"

definition manager_disconnect_wifi :: "wm \<Rightarrow> wm option" where
  "manager_disconnect_wifi s = map_option snd (msg_send_cmd_disconnect_sta s)"

definition manager_connect_async :: "wm \<Rightarrow> wm option" where
  "manager_connect_async s =
     map_option snd (msg_send_cmd_connect_sta CONNECTION_REQUEST_USER (upd_info json_network_info_clear s))"

definition manager_connect_async_by_wps :: "wm \<Rightarrow> wm option" where
  "manager_connect_async_by_wps s =
     map_option snd (msg_send_cmd_connect_sta CONNECTION_REQUEST_WPS (upd_info json_network_info_clear s))"

definition manager_reconnect_sta :: "wm \<Rightarrow> wm option" where
  "manager_reconnect_sta s =
     (if config_sta_is_ssid_configured (wm_cfg s)
      then map_option snd (msg_send_cmd_connect_sta CONNECTION_REQUEST_RESTORE_CONNECTION s) else Some s)"

definition manager_stop_ap :: "wm \<Rightarrow> wm option" where
  "manager_stop_ap s = map_option snd (msg_send_cmd_stop_ap s)"

definition manager_start_ap :: "bool \<Rightarrow> wm \<Rightarrow> wm option" where
  "manager_start_ap flag_block_req_from_lan s = map_option snd (msg_send_cmd_start_ap flag_block_req_from_lan s)"

definition manager_enable_wps :: "wm \<Rightarrow> wm option" where
  "manager_enable_wps s = map_option snd (msg_send_cmd_enable_wps s)"

definition manager_disable_wps :: "wm \<Rightarrow> wm option" where
  "manager_disable_wps s = map_option snd (msg_send_cmd_disable_wps s)"

definition manager_stop :: "wm \<Rightarrow> wm option" where
  \<comment> \<open>once the mutex exists\<close>
  "manager_stop s = map_option snd (msg_send_cmd_stop_and_destroy s)"

definition manager_update_time_sync_info :: "bool \<Rightarrow> wm \<Rightarrow> wm" where
  "manager_update_time_sync_info is_time_valid = upd_info (update_time_sync_info is_time_valid)"

definition manager_set_extra_info :: "cstr option \<Rightarrow> wm \<Rightarrow> wm" where
  "manager_set_extra_info p_extra = upd_info (json_network_set_extra_info p_extra)"

definition is_working :: "wm \<Rightarrow> bool" where "is_working s \<longleftrightarrow> IS_WORKING \<in> ms_ev s"
definition is_ap_active :: "wm \<Rightarrow> bool" where "is_ap_active s \<longleftrightarrow> AP_ACTIVE \<in> ms_ev s"
definition is_sta_active :: "wm \<Rightarrow> bool" where "is_sta_active s \<longleftrightarrow> STA_ACTIVE_BIT \<in> ms_ev s"

definition is_req_from_lan_blocked :: "wm \<Rightarrow> bool" where
  \<comment> \<open>\<open>wifi_manager_is_req_from_lan_blocked_while_ap_is_active\<close>\<close>
  "is_req_from_lan_blocked s \<longleftrightarrow> AP_ACTIVE \<in> ms_ev s \<and> BLOCK_REQ_FROM_LAN \<in> ms_ev s"

definition is_connected_to_ethernet :: "wm \<Rightarrow> bool" where
  "is_connected_to_ethernet s \<longleftrightarrow> ETH_CONNECTED_BIT \<in> ms_ev s"

definition is_connected_to_wifi_or_ethernet :: "wm \<Rightarrow> bool" where
  "is_connected_to_wifi_or_ethernet s \<longleftrightarrow> WIFI_CONNECTED_BIT \<in> ms_ev s \<or> ETH_CONNECTED_BIT \<in> ms_ev s"

definition is_ap_sta_ip_assigned :: "wm \<Rightarrow> bool" where
  "is_ap_sta_ip_assigned s \<longleftrightarrow> AP_STA_IP_ASSIGNED_BIT \<in> ms_ev s"

section \<open>Configuring the driver\<close>

definition esp_wifi_configure_ap :: "driver \<Rightarrow> wm \<Rightarrow> wm" where
  "esp_wifi_configure_ap d s =
     (let (ok, s) = esp d (EspSetMode WIFI_MODE_APSTA) s
      in if \<not> ok then s
         else let (ok, s) = esp d (EspSetConfigAp (config_ap_get_config (wm_cfg s))) s
              in if \<not> ok then s
                 else snd (esp d (EspSetBandwidth (aps_bandwidth (config_ap_get_settings (wm_cfg s)))) s))"

definition netif_set_default_ip :: "driver \<Rightarrow> wm \<Rightarrow> wm" where
  "netif_set_default_ip d s =
     (let a = config_ap_get_settings (wm_cfg s);
          info = \<lparr>ipi_ip = d_aton d (aps_ip a), ipi_netmask = d_aton d (aps_netmask a), ipi_gw = d_aton d (aps_gw a)\<rparr>;
          (ok, s) = esp d EspDhcpsStop s
      in if \<not> ok then s
         else let (ok, s) = esp d (EspNetifSetIpInfo info) s
              in if \<not> ok then s else snd (esp d EspDhcpsStart s))"

definition netif_configure_sta :: "driver \<Rightarrow> wm \<Rightarrow> wm" where
  "netif_configure_sta d s =
     (let settings = config_sta_get_settings (wm_cfg s);
          (go_on, s) =
            (if sts_static_ip settings then
               (let (ok, s) = esp d EspDhcpcStop s
                in if \<not> ok then (False, s) else esp d (EspNetifSetIpInfo (sts_static_ip_config settings)) s)
             else
               (let started = d_dhcp_started d (wm_log s);
                    (ok, s) = esp d EspDhcpcGetStatus s
                in if \<not> ok then (False, s)
                   else if \<not> started then esp d EspDhcpcStart s else (True, s)))
      in if \<not> go_on then s else snd (esp d (EspSetPs (sts_power_save settings)) s))"

definition manager_set_config_ap :: "driver \<Rightarrow> config_ap \<Rightarrow> wm \<Rightarrow> wm" where
  "manager_set_config_ap d cap s = esp_wifi_configure_ap d (s\<lparr>wm_cfg := config_ap_set cap (wm_cfg s)\<rparr>)"

definition manager_set_config_sta :: "driver \<Rightarrow> config_sta \<Rightarrow> wm \<Rightarrow> wm" where
  "manager_set_config_sta d cst s =
     snd (esp d (EspSetMode WIFI_MODE_STA) (netif_configure_sta d (s\<lparr>wm_cfg := config_sta_set cst (wm_cfg s)\<rparr>)))"

definition manager_reconfigure :: "driver \<Rightarrow> bool \<Rightarrow> config \<Rightarrow> wm \<Rightarrow> wm option" where
  "manager_reconfigure d flag_connect_sta cfg s =
     (let s = manager_set_config_sta d (cfg_sta cfg) (manager_set_config_ap d (cfg_ap cfg) s);
          s = snd (esp d (EspNetifSetHostname (hostname (config_sta_get_hostinfo (wm_cfg s)))) s)
      in if flag_connect_sta then manager_reconnect_sta s else Some s)"

section \<open>Events of the driver\<close>

datatype wifi_event =
    WIFI_EVENT_WIFI_READY | WIFI_EVENT_SCAN_DONE | WIFI_EVENT_STA_AUTHMODE_CHANGE | WIFI_EVENT_AP_START
  | WIFI_EVENT_AP_STOP | WIFI_EVENT_AP_PROBEREQRECVED | WIFI_EVENT_AP_STACONNECTED | WIFI_EVENT_AP_STADISCONNECTED
  | WIFI_EVENT_STA_START | WIFI_EVENT_STA_STOP | WIFI_EVENT_STA_CONNECTED | WIFI_EVENT_STA_DISCONNECTED wifi_reason
  | WIFI_EVENT_STA_WPS_ER_SUCCESS "(nat \<times> cstr \<times> cstr) option" \<comment> \<open>number of credentials, the first one\<close>
  | WIFI_EVENT_STA_WPS_ER_FAILED | WIFI_EVENT_STA_WPS_ER_TIMEOUT | WIFI_EVENT_OTHER
  | IP_EVENT_STA_GOT_IP "32 word" | IP_EVENT_AP_STAIPASSIGNED | IP_EVENT_OTHER

definition wps_er_success :: "driver \<Rightarrow> (nat \<times> cstr \<times> cstr) option \<Rightarrow> wm \<Rightarrow> wm option" where
  "wps_er_success d p_evt s =
     (let s = snd (esp d EspWpsDisable s);
          s = callback CbWpsStopped (s\<lparr>wm_wps := False\<rparr>)
      in if \<not> d_malloc d (wm_log s) then Some s
         else
           let s = s\<lparr>wm_heap := wm_heap s + 1\<rparr>;
               conf_ssid = []; \<comment> \<open>the block is zeroed\<close>
               (failed, ssid, password, conf_ssid, s) =
                 (case p_evt of
                    Some (ap_cred_cnt, cred_ssid, cred_pass) \<Rightarrow>
                      if ap_cred_cnt = 0 then (True, [], [], conf_ssid, s)
                      else (False, snprintf_s SSID_BUF_SIZE cred_ssid, snprintf_s PASSWORD_BUF_SIZE cred_pass, conf_ssid, s)
                  | None \<Rightarrow>
                      (case d_sta_config d (wm_log s) of
                         None \<Rightarrow> (True, [], [], conf_ssid, log EspGetConfigSta s)
                       | Some (sta_ssid, sta_pass) \<Rightarrow>
                           (False, snprintf_s SSID_BUF_SIZE sta_ssid, snprintf_s PASSWORD_BUF_SIZE sta_pass, sta_ssid,
                            log EspGetConfigSta s)))
           in if failed then Some (s\<lparr>wm_heap := wm_heap s - 1\<rparr>)
              else if conf_ssid \<noteq> [] then
                let s = s\<lparr>wm_cfg := config_sta_set_ssid_and_password ssid (Some password) (wm_cfg s),
                          wm_heap := wm_heap s - 1\<rparr>
                in manager_connect_async_by_wps s
              else Some s)"

definition restart_wps :: "driver \<Rightarrow> wm \<Rightarrow> wm" where
  "restart_wps d s = snd (esp d EspWpsStart (snd (esp d EspWpsEnable (snd (esp d EspWpsDisable s)))))"

definition event_handler :: "driver \<Rightarrow> wifi_event \<Rightarrow> wm \<Rightarrow> wm option" where
  "event_handler d ev s =
     (case ev of
        WIFI_EVENT_SCAN_DONE \<Rightarrow> map_option snd (msg_send_ev_scan_done s)
      | WIFI_EVENT_AP_START \<Rightarrow> Some (set_bits {AP_STARTED_BIT} s)
      | WIFI_EVENT_AP_STACONNECTED \<Rightarrow> map_option snd (msg_send_ev_ap_sta_connected s)
      | WIFI_EVENT_AP_STADISCONNECTED \<Rightarrow> map_option snd (msg_send_ev_ap_sta_disconnected s)
      | WIFI_EVENT_STA_DISCONNECTED reason \<Rightarrow> map_option snd (msg_send_ev_disconnected reason s)
      | WIFI_EVENT_STA_WPS_ER_SUCCESS p_evt \<Rightarrow> wps_er_success d p_evt s
      | WIFI_EVENT_STA_WPS_ER_FAILED \<Rightarrow> Some (restart_wps d s)
      | WIFI_EVENT_STA_WPS_ER_TIMEOUT \<Rightarrow> Some (restart_wps d s)
      | IP_EVENT_STA_GOT_IP ip \<Rightarrow> map_option snd (msg_send_ev_got_ip ip s)
      | IP_EVENT_AP_STAIPASSIGNED \<Rightarrow> map_option snd (msg_send_ev_ap_sta_ip_assigned s)
      | _ \<Rightarrow> Some s)"

section \<open>Start and stop\<close>

definition set_ant_config :: "driver \<Rightarrow> bool \<Rightarrow> wm \<Rightarrow> wm" where
  \<comment> \<open>whether an antenna configuration is given\<close>
  "set_ant_config d given_cfg s =
     (if \<not> given_cfg then s else snd (esp d EspSetAnt (snd (esp d EspSetAntGpio s))))"

fun esp_all :: "driver \<Rightarrow> call list \<Rightarrow> wm \<Rightarrow> bool \<times> wm" where
  \<comment> \<open>calls in order, up to the first that fails\<close>
  "esp_all d [] s = (True, s)"
| "esp_all d (c # cs) s = (let (ok, s) = esp d c s in if \<not> ok then (False, s) else esp_all d cs s)"

definition manager_init_start_wifi :: "driver \<Rightarrow> bool \<Rightarrow> bool \<Rightarrow> wm \<Rightarrow> bool \<times> wm" where
  \<comment> \<open>whether the queue can be created and an antenna configuration is given\<close>
  "manager_init_start_wifi d queue_created given_ant s =
     (let (ok, s) = msg_init queue_created s
      in if \<not> ok then (False, s)
         else
           let s = s\<lparr>wm_msg_cbs := {}\<rparr>;
               (ok, s) = esp_all d [EspEventRegister 0, EspEventRegister 1, EspEventRegister 2, EspWifiInit, EspWifiSetStorage] s
           in if \<not> ok then (False, s)
              else
                let s = netif_configure_sta d (esp_wifi_configure_ap d (netif_set_default_ip d s));
                    (ok, s) = esp_all d [EspSetMode WIFI_MODE_STA, EspWifiStart] s
                in if \<not> ok then (False, s)
                   else esp_all d [EspNetifSetHostname (hostname (config_sta_get_hostinfo (wm_cfg s))), TaskCreate]
                     (set_ant_config d given_ant s))"

definition manager_init :: "driver \<Rightarrow> bool \<Rightarrow> bool \<Rightarrow> bool \<Rightarrow> config \<Rightarrow> wm \<Rightarrow> (bool \<times> wm) option" where
  "manager_init d queue_created given_ant flag_connect_sta cfg s =
     (if is_working s then Some (False, s)
      else
        let s = set_bits {IS_WORKING} s;
            s = s\<lparr>wm_scan_timer := False, wm_reconnect := None, wm_cfg := config_init cfg (wm_cfg s)\<rparr>;
            s = upd_info json_network_info_clear s;
            s = s\<lparr>wm_sta_ip := sta_ip_reset (d_ntoa d)\<rparr>;
            (ok, s) = esp_all d [EspEventLoopCreate, EspNetifCreateAp, EspNetifCreateSta] s
        in if \<not> ok then Some (False, s)
           else
             let s = log HttpServerStart (log HttpServerInit (log DnsServerInit s));
                 s = snd (manager_init_start_wifi d queue_created given_ant s)
             in if flag_connect_sta
                then map_option (Pair True) (manager_reconnect_sta (set_bits {INITIAL_CONNECTION_BIT} s))
                else Some (True, s))"

definition manager_start :: "driver \<Rightarrow> bool \<Rightarrow> bool \<Rightarrow> bool \<Rightarrow> bool \<Rightarrow> config \<Rightarrow> wm \<Rightarrow> (bool \<times> wm) option" where
  \<comment> \<open>the first flag: \<open>http_server_ecdh_init\<close> succeeds\<close>
  "manager_start d ecdh_ok queue_created given_ant flag_connect_sta cfg s =
     (if \<not> ecdh_ok then Some (False, clear_bits {IS_WORKING} s)
      else do {
        (ok, s) \<leftarrow> manager_init d queue_created given_ant flag_connect_sta cfg s;
        (if \<not> ok then Some (False, clear_bits {IS_WORKING} s) else Some (True, s)) })"

definition task_begin :: "wm \<Rightarrow> wm" where
  \<comment> \<open>\<open>wifi_manager_task\<close> up to its loop\<close>
  "task_begin s = (log WdtAdd s)\<lparr>wm_wdog_timer := True\<rparr>"

definition task_end :: "wm \<Rightarrow> wm" where
  \<comment> \<open>\<open>wifi_manager_task\<close> after its loop\<close>
  "task_end s =
     (let s = (log WdtDelete s)\<lparr>wm_wdog_timer := False\<rparr>;
          s = scan_timer_stop (stop_timer_reconnect_sta_after_timeout s);
          s = clear_bits {IS_WORKING, WIFI_CONNECTED_BIT, AP_STA_CONNECTED_BIT, AP_STA_IP_ASSIGNED_BIT, AP_STARTED_BIT,
                REQUEST_STA_CONNECT_BIT, REQUEST_RESTORE_STA_BIT, SCAN_BIT, REQUEST_DISCONNECT_BIT, AP_ACTIVE} s;
          s = fold log [EspEventUnregister 0, EspEventUnregister 1, EspEventUnregister 2,
                EspDisconnect, EspWifiStop, EspWifiDeinit] s;
          s = msg_deinit (s\<lparr>wm_sta_ip := []\<rparr>)
      in log (EspNetifActionStop 1) (log (EspNetifActionStop 0) s))"

section \<open>The synchronous scan\<close>

definition scan_sync_begin :: "wm \<Rightarrow> (bool \<times> wm) option" where
  \<comment> \<open>true: the caller now waits for the semaphore; false: the caller gets no list\<close>
  "scan_sync_begin s =
     (if wm_sema s \<noteq> None then Some (False, s)
      else do {
        (ok, s) \<leftarrow> msg_send_cmd_start_wifi_scan (s\<lparr>wm_sema := Some False\<rparr>);
        Some (ok, s\<lparr>wm_scan_waiter := ok\<rparr>) })"

definition scan_sync_wake :: "wm \<Rightarrow> wm option" where
  \<comment> \<open>the caller goes on once the semaphore is signalled\<close>
  "scan_sync_wake s =
     (if wm_scan_waiter s \<and> wm_sema s = Some True then Some (s\<lparr>wm_sema := None, wm_scan_waiter := False\<rparr>) else None)"

definition scan_sync_result :: "'s strbuf \<Rightarrow> bool \<Rightarrow> wm \<Rightarrow> 's option" where
  "scan_sync_result B is_signed s = generate_access_points_json B is_signed s"

section \<open>Steps\<close>

inductive wm_step :: "wm \<Rightarrow> wm \<Rightarrow> bool" where
  Handle: "wm_step s s'" if "recv_and_handle_msg d s = Some (False, s')"
| Stopped: "wm_step s (task_end s')" if "recv_and_handle_msg d s = Some (True, s')"
| Start: "wm_step s s'"
    if "manager_start d ecdh_ok queue_created given_ant flag_connect_sta cfg s = Some (ok, s')"
| TaskBegin: "wm_step s (task_begin s)" if "TaskCreate \<in> set (wm_log s)"
| Event: "wm_step s s'" if "event_handler d ev s = Some s'"
| Command: "wm_step s s'"
    if "f \<in> {manager_disconnect_eth, manager_disconnect_wifi, manager_connect_async, manager_reconnect_sta,
          manager_stop_ap, manager_start_ap b, manager_enable_wps, manager_disable_wps, manager_stop}" "f s = Some s'"
| Reconfigure: "wm_step s s'" if "manager_reconfigure d b cfg s = Some s'"
| Network: "wm_step s (update_network_connection_info d reason None p_ip p_dhcp s)"
| Status: "wm_step s (upd_info f s)"
| SetConfig: "wm_step s (s\<lparr>wm_cfg := cfg\<rparr>)"
| ScanTimer: "wm_step s s'"
    if "wm_scan_timer s" "msg_send_ev_scan_next (s\<lparr>wm_scan_timer := False\<rparr>) = Some (ok, s')"
| ReconnectTimer: "wm_step s s'"
    if "wm_reconnect s \<noteq> None"
      "msg_send_cmd_connect_sta CONNECTION_REQUEST_AUTO_RECONNECT (s\<lparr>wm_reconnect := None\<rparr>) = Some (ok, s')"
| WdogTimer: "wm_step s s'" if "wm_wdog_timer s" "msg_send_cmd_task_watchdog_feed s = Some s'"
| ScanSync: "wm_step s s'" if "scan_sync_begin s = Some (ok, s')"
| ScanSyncWake: "wm_step s s'" if "scan_sync_wake s = Some s'"
| MessageCallback: "wm_step s (set_message_callback code given_cb s)"

abbreviation wm_steps :: "wm \<Rightarrow> wm \<Rightarrow> bool" where
  "wm_steps \<equiv> wm_step\<^sup>*\<^sup>*"

end
