(* ===== verification/WifiInv.thy ===== *)
theory WifiInv
  imports WifiTask
begin

text \<open>
  What the steps of the Wi-Fi manager keep, and what its handlers do to the connection.

  The relation \<open>quiet\<close> says of two states what every operation guarantees: no visible
  disconnect request, a bounded queue, and the two conditions the program cannot leave: a
  watchdog command that is marked as sent but was lost, and a semaphore no task waits for.
\<close>

section \<open>The frame of the operations\<close>

definition queue_ok :: "wm \<Rightarrow> bool" where
  "queue_ok s \<longleftrightarrow> (\<forall>q. ms_queue s = Some q \<longrightarrow> length q \<le> QUEUE_LENGTH)"

definition feed_lost :: "wm \<Rightarrow> bool" where
  \<comment> \<open>a watchdog command is marked as sent, and it is not in the queue\<close>
  "feed_lost s \<longleftrightarrow> ms_wdog_feed s \<and> (\<forall>q. ms_queue s = Some q \<longrightarrow> ORDER_TASK_WATCHDOG_FEED \<notin> msg_code ` set q)"

definition sema_lost :: "wm \<Rightarrow> bool" where
  \<comment> \<open>the semaphore of the synchronous scan exists, and no task waits for it\<close>
  "sema_lost s \<longleftrightarrow> wm_sema s \<noteq> None \<and> \<not> wm_scan_waiter s"

definition no_disc_req :: "wm \<Rightarrow> bool" where
  "no_disc_req s \<longleftrightarrow> REQUEST_DISCONNECT_BIT \<notin> ms_ev s"

definition quiet :: "wm \<Rightarrow> wm \<Rightarrow> bool" where
  "quiet s s' \<longleftrightarrow> (queue_ok s \<longrightarrow> queue_ok s') \<and> (feed_lost s \<longrightarrow> feed_lost s') \<and> (sema_lost s \<longrightarrow> sema_lost s')
     \<and> (no_disc_req s \<longrightarrow> no_disc_req s')"

named_theorems quiet_rules \<open>the frame of the operations\<close>

lemmas kept_defs = quiet_def queue_ok_def feed_lost_def sema_lost_def no_disc_req_def

lemma quiet_refl [quiet_rules]: "quiet s s"
  by (simp add: quiet_def)

lemma quiet_trans: "quiet s t \<Longrightarrow> quiet t u \<Longrightarrow> quiet s u"
  unfolding quiet_def by blast

lemma quiet_same:
  assumes "ms_queue u = ms_queue t" "ms_wdog_feed u = ms_wdog_feed t" "(wm_sema u = None) = (wm_sema t = None)"
    and "wm_scan_waiter u = wm_scan_waiter t" "REQUEST_DISCONNECT_BIT \<in> ms_ev u \<Longrightarrow> REQUEST_DISCONNECT_BIT \<in> ms_ev t"
    and "quiet s t"
  shows "quiet s u"
proof -
  have "quiet t u"
    unfolding quiet_def queue_ok_def feed_lost_def sema_lost_def no_disc_req_def assms(1-4) using assms(5) by blast
  with assms(6) show ?thesis by (rule quiet_trans)
qed

lemma quiet_log [quiet_rules]: "quiet s t \<Longrightarrow> quiet s (log c t)"
  by (rule quiet_same) (simp_all add: log_def)

lemma quiet_callback [quiet_rules]: "quiet s t \<Longrightarrow> quiet s (callback c t)"
  unfolding callback_def by (rule quiet_log)

lemma quiet_esp [quiet_rules]: "quiet s t \<Longrightarrow> quiet s (snd (esp d c t))"
  unfolding esp_def snd_conv by (rule quiet_log)

lemma quiet_upd_info [quiet_rules]: "quiet s t \<Longrightarrow> quiet s (upd_info f t)"
  by (rule quiet_same; cases "f (wm_info t)"; simp add: upd_info_def)

lemma quiet_clear_bits [quiet_rules]: "quiet s t \<Longrightarrow> quiet s (clear_bits B t)"
  by (rule quiet_same) (simp_all add: clear_bits_def)

lemma quiet_set_bits [quiet_rules]: "REQUEST_DISCONNECT_BIT \<notin> B \<Longrightarrow> quiet s t \<Longrightarrow> quiet s (set_bits B t)"
  by (rule quiet_same) (simp_all add: set_bits_def)

lemma quiet_fields [quiet_rules]:
  "quiet s t \<Longrightarrow> quiet s (t\<lparr>wm_scan := x1\<rparr>)" "quiet s t \<Longrightarrow> quiet s (t\<lparr>wm_aps := x2\<rparr>)"
  "quiet s t \<Longrightarrow> quiet s (t\<lparr>wm_ap_num := x3\<rparr>)" "quiet s t \<Longrightarrow> quiet s (t\<lparr>wm_wps := x4\<rparr>)"
  "quiet s t \<Longrightarrow> quiet s (t\<lparr>wm_scan_timer := x5\<rparr>)" "quiet s t \<Longrightarrow> quiet s (t\<lparr>wm_reconnect := x6\<rparr>)"
  "quiet s t \<Longrightarrow> quiet s (t\<lparr>wm_wdog_timer := x7\<rparr>)" "quiet s t \<Longrightarrow> quiet s (t\<lparr>wm_cfg := x8\<rparr>)"
  "quiet s t \<Longrightarrow> quiet s (t\<lparr>wm_sta_ip := x9\<rparr>)" "quiet s t \<Longrightarrow> quiet s (t\<lparr>wm_msg_cbs := x10\<rparr>)"
  "quiet s t \<Longrightarrow> quiet s (t\<lparr>wm_heap := x11\<rparr>)"
  by (rule quiet_same; simp)+

lemma quiet_if [quiet_rules]: "quiet s t \<Longrightarrow> quiet s u \<Longrightarrow> quiet s (if c then t else u)"
  by simp

lemma quiet_queue:
  assumes "ms_wdog_feed u = ms_wdog_feed t" "wm_sema u = wm_sema t" "wm_scan_waiter u = wm_scan_waiter t" "ms_ev u = ms_ev t"
    and "\<And>q. ms_queue u = Some q \<Longrightarrow> queue_ok t \<Longrightarrow> length q \<le> QUEUE_LENGTH"
    and "\<And>q. ms_queue u = Some q \<Longrightarrow> feed_lost t \<Longrightarrow> ORDER_TASK_WATCHDOG_FEED \<notin> msg_code ` set q"
    and "quiet s t"
  shows "quiet s u"
proof -
  have "queue_ok t \<longrightarrow> queue_ok u" using assms(5) by (simp add: queue_ok_def)
  moreover have "feed_lost t \<longrightarrow> feed_lost u" using assms(6) by (simp add: feed_lost_def assms(1))
  ultimately have "quiet t u" by (simp add: quiet_def sema_lost_def no_disc_req_def assms(2-4))
  with assms(7) show ?thesis by (rule quiet_trans)
qed

lemma quiet_msg_deinit [quiet_rules]: "quiet s t \<Longrightarrow> quiet s (msg_deinit t)"
  by (rule quiet_queue) (simp_all add: msg_deinit_def)

lemma quiet_msg_init [quiet_rules]: "quiet s t \<Longrightarrow> quiet s (snd (msg_init b t))"
  by (rule quiet_queue) (auto simp: msg_init_def split: if_splits)

lemma quiet_notify [quiet_rules]: "quiet s t \<Longrightarrow> quiet s (notify_scan_done t)"
  by (rule quiet_same) (auto simp: notify_scan_done_def clear_bits_def Let_def split: if_splits)

lemma quiet_send_code:
  assumes "msg_send_with_timeout code p b t = Some (ok, u)" "quiet s t" "code \<noteq> ORDER_TASK_WATCHDOG_FEED"
  shows "quiet s u"
proof (cases "ms_queue t")
  case None
  with assms(1,2) show ?thesis by (simp add: msg_send_with_timeout_def)
next
  case (Some q)
  show ?thesis
  proof (cases "length q < QUEUE_LENGTH")
    case True
    with assms(1) Some have u: "u = t\<lparr>ms_queue := Some (q @ [\<lparr>msg_code = code, msg_param = p\<rparr>])\<rparr>"
      by (simp add: msg_send_with_timeout_def)
    show ?thesis
      by (rule quiet_queue [OF _ _ _ _ _ _ assms(2)]) (use True Some assms(3) in \<open>auto simp: u feed_lost_def\<close>)
  next
    case False
    with assms(1,2) Some show ?thesis by (simp add: msg_send_with_timeout_def split: if_splits)
  qed
qed

lemma quiet_send: "msg_send code p t = Some (ok, u) \<Longrightarrow> code \<noteq> ORDER_TASK_WATCHDOG_FEED \<Longrightarrow> quiet s t \<Longrightarrow> quiet s u"
  unfolding msg_send_def by (rule quiet_send_code)

lemmas quiet_unfold = Let_def case_prod_beta fst_conv snd_conv

lemma quiet_cases [quiet_rules]:
  "(\<And>x. p = Some x \<Longrightarrow> quiet s (f x)) \<Longrightarrow> (p = None \<Longrightarrow> quiet s t) \<Longrightarrow> quiet s (case p of None \<Rightarrow> t | Some x \<Rightarrow> f x)"
  by (cases p) simp_all

section \<open>The operations\<close>

lemma quiet_timers [quiet_rules]:
  "quiet s t \<Longrightarrow> quiet s (start_timer_reconnect_sta_after_timeout n t)" "quiet s t \<Longrightarrow> quiet s (stop_timer_reconnect_sta_after_timeout t)"
  "quiet s t \<Longrightarrow> quiet s (scan_timer_start t)" "quiet s t \<Longrightarrow> quiet s (scan_timer_stop t)"
  unfolding start_timer_reconnect_sta_after_timeout_def stop_timer_reconnect_sta_after_timeout_def
    scan_timer_start_def scan_timer_stop_def
  by (intro quiet_rules; assumption)+

lemma quiet_update_network [quiet_rules]:
  assumes "quiet s t"
  shows "quiet s (update_network_connection_info d reason p_ssid p_ip p_dhcp t)"
  unfolding update_network_connection_info_def quiet_unfold
  using assms by (cases "reason = UPDATE_CONNECTION_OK"; cases p_ip; cases p_ssid; simp; intro quiet_rules; simp)

lemma quiet_scan_next [quiet_rules]: "quiet s t \<Longrightarrow> quiet s (snd (wifi_scan_next t))"
  unfolding wifi_scan_next_def quiet_unfold
  by (cases "si_cur_chan (wm_scan t) + 1 > si_last_chan (wm_scan t)"; simp; intro quiet_rules; assumption)

lemma quiet_conn_req_bits [quiet_rules]: "quiet s t \<Longrightarrow> quiet s (conn_req_bits req t)"
  unfolding conn_req_bits_def by (cases req; simp; intro quiet_rules; simp)

lemma quiet_handlers [quiet_rules]:
  assumes "quiet s t"
  shows "quiet s (handle_cmd_connect_eth t)" "quiet s (handle_lost_connection d bits mic t)"
    "quiet s (handle_cmd_start_ap d b t)" "quiet s (handle_cmd_stop_ap d t)"
    "quiet s (handle_cmd_enable_wps d t)" "quiet s (handle_cmd_disable_wps d t)"
    "quiet s (handle_ev_sta_got_ip d t)" "quiet s (handle_ev_ap_sta_connected t)"
    "quiet s (handle_ev_ap_sta_disconnected t)" "quiet s (handle_ev_ap_sta_ip_assigned t)"
    "quiet s (handle_cmd_disconnect_eth t)" "quiet s (handle_ev_scan_next d t)"
    "quiet s (handle_ev_scan_done d t)" "quiet s (wdt_task_reset t)"
  unfolding handle_cmd_connect_eth_def handle_lost_connection_def handle_cmd_start_ap_def handle_cmd_stop_ap_def
    handle_cmd_enable_wps_def handle_cmd_disable_wps_def handle_ev_sta_got_ip_def handle_ev_ap_sta_connected_def
    handle_ev_ap_sta_disconnected_def handle_ev_ap_sta_ip_assigned_def handle_cmd_disconnect_eth_def
    handle_ev_scan_next_def handle_ev_scan_done_def wdt_task_reset_def config_sta_save_def quiet_unfold
  by (intro quiet_rules assms; simp)+

lemma quiet_start_scan: "handle_cmd_start_wifi_scan d t = Some u \<Longrightarrow> quiet s t \<Longrightarrow> quiet s u"
proof -
  assume run: "handle_cmd_start_wifi_scan d t = Some u" and q: "quiet s t"
  define c where "c = (case d_country d (wm_log (set_bits {SCAN_BIT} t)) of
      None \<Rightarrow> (COUNTRY_DEFAULT_FIRST_CHANNEL, COUNTRY_DEFAULT_NUM_CHANNELS) | Some c \<Rightarrow> c)"
  let ?v = "wifi_scan_next ((log EspGetCountry (set_bits {SCAN_BIT} t))\<lparr>wm_scan := \<lparr>si_first_chan = fst c,
      si_last_chan = fst c + snd c - 1, si_cur_chan = 0, si_num_access_points = 0\<rparr>\<rparr>)"
  have v: "quiet s (snd ?v)" by (intro quiet_rules q) simp
  show "quiet s u"
  proof (cases "SCAN_BIT \<in> ms_ev t")
    case True
    with run q show ?thesis by (simp add: handle_cmd_start_wifi_scan_def)
  next
    case False
    with run have "(if fst ?v then map_option snd (msg_send_ev_scan_done (snd ?v)) else Some (snd ?v)) = Some u"
      unfolding handle_cmd_start_wifi_scan_def quiet_unfold c_def by simp
    with v show ?thesis by (auto simp: step_defs split: if_splits elim!: quiet_send)
  qed
qed

lemma quiet_connect_sta: "handle_cmd_connect_sta d p t = Some u \<Longrightarrow> quiet s t \<Longrightarrow> quiet s u"
  unfolding handle_cmd_connect_sta_def quiet_unfold
  by (auto simp: step_defs split: if_splits elim!: quiet_send intro!: quiet_rules)

lemma quiet_outcome [quiet_rules]: "quiet s t \<Longrightarrow> quiet s (snd (snd (disconnected_outcome d r bits t)))"
  unfolding disconnected_outcome_def by (simp add: quiet_rules)

lemma quiet_ev_disconnected: "handle_ev_sta_disconnected d p t = Some (b, u) \<Longrightarrow> quiet s t \<Longrightarrow> quiet s u"
proof -
  assume run: "handle_ev_sta_disconnected d p t = Some (b, u)" and q: "quiet s t"
  let ?o = "disconnected_outcome d (conv_param_to_reason p) (ms_ev t)
      (clear_bits {SCAN_BIT, INITIAL_CONNECTION_BIT, STA_ACTIVE_BIT, WIFI_CONNECTED_BIT} t)"
  define v where "v = update_network_connection_info d (fst (snd ?o)) (Some (config_sta_get_ssid (wm_cfg (snd (snd ?o)))))
      None None (snd (snd ?o))"
  have v: "quiet s v" unfolding v_def by (intro quiet_rules q)
  have "u = v \<or> map_option snd (msg_send_cmd_connect_sta CONNECTION_REQUEST_USER v) = Some u"
    using run unfolding handle_ev_sta_disconnected_def quiet_unfold v_def [symmetric]
    by (auto split: if_splits elim!: option_bind_SomeE)
  with v show "quiet s u" by (auto simp: step_defs elim!: quiet_send intro!: quiet_rules)
qed

lemma quiet_disconnect_sta: "handle_cmd_disconnect_sta d t = Some u \<Longrightarrow> quiet s t \<Longrightarrow> quiet s u"
proof -
  assume run: "handle_cmd_disconnect_sta d t = Some u" and q: "quiet s t"
  define v where "v = clear_bits {REQUEST_DISCONNECT_BIT} (callback CbDisconnectSta (snd (esp d EspDisconnect
      (clear_bits {STA_ACTIVE_BIT} (set_bits {REQUEST_DISCONNECT_BIT} (stop_timer_reconnect_sta_after_timeout t))))))"
  have v: "quiet s v"
    by (rule quiet_same [OF _ _ _ _ _ q])
      (simp_all add: v_def clear_bits_def set_bits_def callback_def log_def esp_def stop_timer_reconnect_sta_after_timeout_def)
  have "Some u = Some v \<or> map_option snd (msg_send_cmd_connect_sta CONNECTION_REQUEST_USER v) = Some u"
    using run unfolding handle_cmd_disconnect_sta_def quiet_unfold v_def by (simp split: if_splits)
  with v show "quiet s u" by (auto simp: step_defs elim!: quiet_send intro!: quiet_rules)
qed

lemma quiet_recv: "msg_recv s = Some (m, t) \<Longrightarrow> quiet s t"
  by (rule quiet_queue [OF _ _ _ _ _ _ quiet_refl])
    (auto simp: msg_recv_def queue_ok_def feed_lost_def split: option.splits list.splits)

lemma quiet_feed:
  assumes "msg_recv s = Some (m, t)" "msg_code m = ORDER_TASK_WATCHDOG_FEED"
  shows "quiet s (msg_clear_flag_wdog_feed_active t)"
proof -
  have "\<not> feed_lost s"
    using assms by (auto simp: msg_recv_def feed_lost_def split: option.splits list.splits)
  moreover have "quiet s t" using assms(1) by (rule quiet_recv)
  moreover have "queue_ok (msg_clear_flag_wdog_feed_active t) = queue_ok t"
    "sema_lost (msg_clear_flag_wdog_feed_active t) = sema_lost t"
    "no_disc_req (msg_clear_flag_wdog_feed_active t) = no_disc_req t"
    by (simp_all add: msg_clear_flag_wdog_feed_active_def queue_ok_def sema_lost_def no_disc_req_def)
  ultimately show ?thesis unfolding quiet_def by blast
qed

lemma handle_msg_quiet:
  assumes "handle_msg d m t = Some (stop, call_cb, u)" "msg_code m \<noteq> ORDER_TASK_WATCHDOG_FEED"
  shows "quiet t u"
proof -
  note sending = quiet_start_scan [OF _ quiet_refl] quiet_connect_sta [OF _ quiet_refl]
    quiet_ev_disconnected [OF _ quiet_refl] quiet_disconnect_sta [OF _ quiet_refl]
  note plain = quiet_refl quiet_handlers [OF quiet_refl]
  show ?thesis
    by (cases "msg_code m"; use assms in \<open>simp add: handle_msg_def\<close>;
        (elim conjE exE)?; (hypsubst, rule plain | rule sending, assumption)?)
      (use plain sending in \<open>auto\<close>)
qed

lemma quiet_recv_and_handle: "recv_and_handle_msg d s = Some (stop, u) \<Longrightarrow> quiet s u"
proof -
  assume run: "recv_and_handle_msg d s = Some (stop, u)"
  then obtain m t call_cb v where m: "msg_recv s = Some (m, t)" "handle_msg d m t = Some (stop, call_cb, v)"
    and u: "u = (if msg_code m \<in> wm_msg_cbs v \<and> call_cb then callback (CbMessage (msg_code m) (msg_param m)) v else v)"
    unfolding recv_and_handle_msg_def by (auto elim!: option_bind_SomeE)
  have "quiet s v"
  proof (cases "msg_code m = ORDER_TASK_WATCHDOG_FEED")
    case True
    with m(2) have "v = wdt_task_reset (msg_clear_flag_wdog_feed_active t)" by (simp add: handle_msg_def)
    with quiet_feed [OF m(1) True] show ?thesis by (simp add: quiet_rules)
  next
    case False
    from quiet_trans [OF quiet_recv [OF m(1)] handle_msg_quiet [OF m(2) False]] show ?thesis .
  qed
  then show ?thesis unfolding u by (intro quiet_rules)
qed

section \<open>Steps of all tasks\<close>

lemma quiet_esp_all [quiet_rules]: "quiet s t \<Longrightarrow> quiet s (snd (esp_all d cs t))"
proof (induction cs arbitrary: t)
  case (Cons c cs)
  then show ?case by (simp add: case_prod_beta Let_def quiet_esp)
qed simp

lemma quiet_config [quiet_rules]:
  assumes "quiet s t"
  shows "quiet s (esp_wifi_configure_ap d t)" "quiet s (netif_set_default_ip d t)" "quiet s (netif_configure_sta d t)"
    "quiet s (set_ant_config d b t)" "quiet s (restart_wps d t)" "quiet s (task_begin t)"
proof -
  show "quiet s (netif_configure_sta d t)"
  proof (cases "sts_static_ip (config_sta_get_settings (wm_cfg t))")
    case True
    with assms show ?thesis
      by (cases "fst (esp d EspDhcpcStop t)") (simp_all add: netif_configure_sta_def quiet_unfold quiet_esp)
  next
    case False
    with assms show ?thesis
      by (cases "fst (esp d EspDhcpcGetStatus t)"; cases "d_dhcp_started d (wm_log t)")
        (simp_all add: netif_configure_sta_def quiet_unfold quiet_esp)
  qed
  show "quiet s (esp_wifi_configure_ap d t)" "quiet s (netif_set_default_ip d t)" "quiet s (set_ant_config d b t)"
    "quiet s (restart_wps d t)" "quiet s (task_begin t)"
    unfolding esp_wifi_configure_ap_def netif_set_default_ip_def set_ant_config_def restart_wps_def task_begin_def quiet_unfold
    by (intro quiet_rules assms; simp)+
qed

lemma quiet_set_config [quiet_rules]:
  "quiet s t \<Longrightarrow> quiet s (manager_set_config_ap d a t)" "quiet s t \<Longrightarrow> quiet s (manager_set_config_sta d c t)"
  unfolding manager_set_config_ap_def manager_set_config_sta_def by (intro quiet_rules; assumption)+

lemma quiet_reconnect_sta: "manager_reconnect_sta t = Some u \<Longrightarrow> quiet s t \<Longrightarrow> quiet s u"
  unfolding manager_reconnect_sta_def
  by (auto simp: step_defs split: if_splits elim!: quiet_send intro!: quiet_rules)

lemma quiet_command:
  assumes "f \<in> {manager_disconnect_eth, manager_disconnect_wifi, manager_connect_async, manager_reconnect_sta,
      manager_stop_ap, manager_start_ap b, manager_enable_wps, manager_disable_wps, manager_stop}" "f s = Some s'"
  shows "quiet s s'"
proof (cases "f = manager_reconnect_sta")
  case True
  with assms(2) quiet_reconnect_sta [OF _ quiet_refl] show ?thesis by blast
next
  case False
  with assms obtain code p t ok where "msg_send code p t = Some (ok, s')" "code \<noteq> ORDER_TASK_WATCHDOG_FEED"
    "t \<in> {s, set_bits {CMD_STA_CONNECT_BIT} (upd_info json_network_info_clear s)}"
    by (auto simp: manager_disconnect_eth_def manager_disconnect_wifi_def manager_connect_async_def manager_stop_ap_def
        manager_start_ap_def manager_enable_wps_def manager_disable_wps_def manager_stop_def step_defs)
  moreover have "quiet s s" "quiet s (set_bits {CMD_STA_CONNECT_BIT} (upd_info json_network_info_clear s))"
    by (intro quiet_rules; simp)+
  ultimately show ?thesis by (blast intro: quiet_send)
qed

lemma quiet_connect_by_wps: "manager_connect_async_by_wps t = Some u \<Longrightarrow> quiet s t \<Longrightarrow> quiet s u"
  unfolding manager_connect_async_by_wps_def
  by (auto simp: step_defs elim!: quiet_send intro!: quiet_rules)

lemma quiet_snd:
  "quiet s (snd p) \<Longrightarrow> quiet s (snd q) \<Longrightarrow> quiet s (snd (if c then p else q))" "quiet s t \<Longrightarrow> quiet s (snd (b, t))"
  by simp_all

lemma quiet_wps_er_success: "wps_er_success d p_evt t = Some u \<Longrightarrow> quiet s t \<Longrightarrow> quiet s u"
proof -
  assume run: "wps_er_success d p_evt t = Some u" and q: "quiet s t"
  let ?t = "callback CbWpsStopped ((snd (esp d EspWpsDisable t))\<lparr>wm_wps := False\<rparr>)"
  have t: "quiet s ?t" by (intro quiet_rules q)
  show "quiet s u"
  proof (cases p_evt)
    case (Some c)
    obtain n a b where "c = (n, a, b)" by (metis prod.exhaust)
    with run t Some show ?thesis
      by (auto simp: wps_er_success_def quiet_unfold split: if_splits intro!: quiet_fields)
  next
    case None
    from run t None show ?thesis
      by (auto simp: wps_er_success_def quiet_unfold split: if_splits option.splits
          intro!: quiet_fields quiet_log elim!: quiet_connect_by_wps)
  qed
qed

lemma quiet_event: "event_handler d ev t = Some u \<Longrightarrow> quiet t u"
  by (cases ev)
    (auto simp: event_handler_def step_defs elim!: quiet_send intro: quiet_wps_er_success intro!: quiet_rules)

lemma quiet_init_start_wifi [quiet_rules]: "quiet s t \<Longrightarrow> quiet s (snd (manager_init_start_wifi d b1 b2 t))"
  unfolding manager_init_start_wifi_def quiet_unfold
  by (intro quiet_snd quiet_rules; assumption)

lemma quiet_manager_init: "manager_init d b1 b2 b3 cfg t = Some (ok, u) \<Longrightarrow> quiet t u"
proof -
  assume run: "manager_init d b1 b2 b3 cfg t = Some (ok, u)"
  define v where "v = esp_all d [EspEventLoopCreate, EspNetifCreateAp, EspNetifCreateSta]
     ((upd_info json_network_info_clear ((set_bits {IS_WORKING} t)\<lparr>wm_scan_timer := False, wm_reconnect := None,
        wm_cfg := config_init cfg (wm_cfg (set_bits {IS_WORKING} t))\<rparr>))\<lparr>wm_sta_ip := sta_ip_reset (d_ntoa d)\<rparr>)"
  define w where "w = snd (manager_init_start_wifi d b1 b2 (log HttpServerStart (log HttpServerInit (log DnsServerInit (snd v)))))"
  have v: "quiet t (snd v)" unfolding v_def by (intro quiet_rules; simp)
  have w: "quiet t w" unfolding w_def by (intro quiet_rules v)
  have "u = t \<or> u = snd v \<or> u = w \<or> manager_reconnect_sta (set_bits {INITIAL_CONNECTION_BIT} w) = Some u"
    using run unfolding manager_init_def quiet_unfold v_def [symmetric] w_def [symmetric]
    by (auto split: if_splits)
  moreover have "quiet t (set_bits {INITIAL_CONNECTION_BIT} w)" by (intro quiet_rules w) simp
  ultimately show ?thesis using v w by (blast intro: quiet_refl quiet_reconnect_sta)
qed

lemma quiet_start: "manager_start d b0 b1 b2 b3 cfg t = Some (ok, u) \<Longrightarrow> quiet t u"
  unfolding manager_start_def
  by (auto split: if_splits elim!: option_bind_SomeE intro!: quiet_rules intro: quiet_manager_init)

lemma quiet_task_end [quiet_rules]: "quiet s t \<Longrightarrow> quiet s (task_end t)"
  unfolding task_end_def quiet_unfold by (simp, intro quiet_rules, assumption)

lemma kept_upd [simp]:
  "queue_ok (s\<lparr>ms_wdog_feed := b\<rparr>) = queue_ok s" "queue_ok (s\<lparr>wm_sema := x\<rparr>) = queue_ok s"
  "queue_ok (s\<lparr>wm_scan_waiter := b\<rparr>) = queue_ok s" "feed_lost (s\<lparr>wm_sema := x\<rparr>) = feed_lost s"
  "feed_lost (s\<lparr>wm_scan_waiter := b\<rparr>) = feed_lost s" "no_disc_req (s\<lparr>wm_sema := x\<rparr>) = no_disc_req s"
  "no_disc_req (s\<lparr>wm_scan_waiter := b\<rparr>) = no_disc_req s" "no_disc_req (s\<lparr>ms_wdog_feed := b\<rparr>) = no_disc_req s"
  by (simp_all add: queue_ok_def feed_lost_def no_disc_req_def)

lemma send_frame:
  assumes "msg_send_with_timeout code p b t = Some (ok, u)"
  shows "queue_ok t \<longrightarrow> queue_ok u" "wm_sema u = wm_sema t" "wm_scan_waiter u = wm_scan_waiter t" "ms_ev u = ms_ev t"
proof -
  have "u = t \<or> (\<exists>q. ms_queue t = Some q \<and> length q < QUEUE_LENGTH
      \<and> u = t\<lparr>ms_queue := Some (q @ [\<lparr>msg_code = code, msg_param = p\<rparr>])\<rparr>)"
    using assms by (auto simp: msg_send_with_timeout_def split: option.splits if_splits)
  then show "queue_ok t \<longrightarrow> queue_ok u" "wm_sema u = wm_sema t" "wm_scan_waiter u = wm_scan_waiter t" "ms_ev u = ms_ev t"
    by (auto simp: queue_ok_def)
qed

lemma quiet_wdog: "msg_send_cmd_task_watchdog_feed s = Some u \<Longrightarrow> quiet s u"
proof -
  assume run: "msg_send_cmd_task_watchdog_feed s = Some u"
  show ?thesis
  proof (cases "ms_wdog_feed s")
    case True
    with run show ?thesis by (simp add: msg_send_cmd_task_watchdog_feed_def quiet_refl)
  next
    case False
    with run obtain ok where
      "msg_send_with_timeout ORDER_TASK_WATCHDOG_FEED ParamNone False (s\<lparr>ms_wdog_feed := True\<rparr>) = Some (ok, u)"
      by (auto simp: msg_send_cmd_task_watchdog_feed_def msg_try_send_def)
    note f = send_frame [OF this]
    have "queue_ok s \<longrightarrow> queue_ok u" using f(1) by simp
    moreover have "sema_lost u = sema_lost s" "no_disc_req u = no_disc_req s"
      unfolding sema_lost_def no_disc_req_def f(2-4) by simp_all
    moreover have "\<not> feed_lost s" using False by (simp add: feed_lost_def)
    ultimately show ?thesis unfolding quiet_def by blast
  qed
qed

lemma quiet_scan_sync: "scan_sync_begin s = Some (ok, u) \<Longrightarrow> quiet s u"
proof -
  assume run: "scan_sync_begin s = Some (ok, u)"
  show ?thesis
  proof (cases "wm_sema s")
    case None
    let ?t = "s\<lparr>wm_sema := Some False\<rparr>"
    from run None obtain v where v: "msg_send ORDER_START_WIFI_SCAN ParamNone ?t = Some (ok, v)" "u = v\<lparr>wm_scan_waiter := ok\<rparr>"
      by (auto simp: scan_sync_begin_def step_defs elim!: option_bind_SomeE)
    from quiet_send [OF v(1) _ quiet_refl] have "quiet ?t v" by simp
    then have "queue_ok s \<longrightarrow> queue_ok u" "feed_lost s \<longrightarrow> feed_lost u" "no_disc_req s \<longrightarrow> no_disc_req u"
      unfolding quiet_def v(2) kept_upd by blast+
    moreover have "\<not> sema_lost s" using None by (simp add: sema_lost_def)
    ultimately show ?thesis unfolding quiet_def by blast
  next
    case (Some b)
    with run show ?thesis by (simp add: scan_sync_begin_def quiet_refl)
  qed
qed

lemma quiet_wake: "scan_sync_wake s = Some u \<Longrightarrow> quiet s u"
proof -
  assume "scan_sync_wake s = Some u"
  then have "u = s\<lparr>wm_sema := None\<rparr>\<lparr>wm_scan_waiter := False\<rparr>" "\<not> sema_lost s"
    by (auto simp: scan_sync_wake_def sema_lost_def split: if_splits)
  then show ?thesis unfolding quiet_def by (simp only: kept_upd) blast
qed

lemma step_quiet: "wm_step s s' \<Longrightarrow> quiet s s'"
proof (induction rule: wm_step.induct)
  case (Handle d s s')
  then show ?case by (rule quiet_recv_and_handle)
next
  case (Stopped d s s')
  then show ?case by (intro quiet_task_end quiet_recv_and_handle)
next
  case (Start d b0 b1 b2 b3 cfg s ok s')
  then show ?case by (rule quiet_start)
next
  case (Event d ev s s')
  then show ?case by (rule quiet_event)
next
  case (Command f b s s')
  then show ?case by (rule quiet_command)
next
  case (Reconfigure d b cfg s s')
  then show ?case unfolding manager_reconfigure_def quiet_unfold
    by (auto split: if_splits intro!: quiet_rules elim!: quiet_reconnect_sta)
next
  case (ScanTimer s ok s')
  then show ?case by (auto simp: step_defs elim!: quiet_send intro!: quiet_rules)
next
  case (ReconnectTimer s ok s')
  then show ?case by (auto simp: step_defs elim!: quiet_send intro!: quiet_rules)
next
  case (WdogTimer s s')
  then show ?case by (intro quiet_wdog)
next
  case (ScanSync s ok s')
  then show ?case by (rule quiet_scan_sync)
next
  case (ScanSyncWake s s')
  then show ?case by (rule quiet_wake)
next
  case (MessageCallback code given_cb s)
  show ?case unfolding set_message_callback_def by (intro quiet_rules)
qed (intro quiet_rules)+

text \<open>A relation between states that every step keeps, and every run of steps with it.\<close>

locale step_frame =
  fixes step :: "'s \<Rightarrow> 's \<Rightarrow> bool" and frame :: "'s \<Rightarrow> 's \<Rightarrow> bool"
  assumes frame_refl: "frame s s"
    and frame_trans: "frame s t \<Longrightarrow> frame t u \<Longrightarrow> frame s u"
    and step_in_frame: "step s t \<Longrightarrow> frame s t"
begin

lemma run_in_frame: "step\<^sup>*\<^sup>* s t \<Longrightarrow> frame s t"
  by (induction rule: rtranclp_induct) (auto intro: frame_refl frame_trans step_in_frame)

end

interpretation manager_frame: step_frame wm_step quiet
  by unfold_locales (auto intro: quiet_refl quiet_trans step_quiet)

lemmas steps_quiet = manager_frame.run_in_frame

end
