(* ===== verification/WifiProps.thy ===== *)
theory WifiProps
  imports WifiInv
begin

text \<open>
  Properties of the Wi-Fi manager over its handlers (\<open>WifiMgr\<close>) and over all interleavings of
  its steps (\<open>WifiTask\<close>), from the frame theorem \<open>step_quiet\<close> (\<open>WifiInv\<close>).
\<close>

section \<open>Lemmas\<close>

lemma ev_simps [simp]:
  "ms_ev (log c s) = ms_ev s" "ms_ev (callback b s) = ms_ev s" "ms_ev (snd (esp d c s)) = ms_ev s"
  "ms_ev (upd_info f s) = ms_ev s" "ms_ev (set_bits B s) = ms_ev s \<union> B" "ms_ev (clear_bits B s) = ms_ev s - B"
  "ms_ev (start_timer_reconnect_sta_after_timeout n s) = ms_ev s" "ms_ev (stop_timer_reconnect_sta_after_timeout s) = ms_ev s"
  "ms_ev (scan_timer_start s) = ms_ev s" "ms_ev (scan_timer_stop s) = ms_ev s"
  by (simp_all add: log_def callback_def esp_def upd_info_def set_bits_def clear_bits_def scan_timer_start_def
      start_timer_reconnect_sta_after_timeout_def stop_timer_reconnect_sta_after_timeout_def scan_timer_stop_def
      split: option.split)

lemma queue_simps [simp]:
  "ms_queue (log c s) = ms_queue s" "ms_queue (callback b s) = ms_queue s" "ms_queue (snd (esp d c s)) = ms_queue s"
  "ms_queue (upd_info f s) = ms_queue s" "ms_queue (set_bits B s) = ms_queue s" "ms_queue (clear_bits B s) = ms_queue s"
  "ms_queue (start_timer_reconnect_sta_after_timeout n s) = ms_queue s"
  "ms_queue (stop_timer_reconnect_sta_after_timeout s) = ms_queue s"
  "ms_queue (scan_timer_start s) = ms_queue s" "ms_queue (scan_timer_stop s) = ms_queue s"
  by (simp_all add: log_def callback_def esp_def upd_info_def set_bits_def clear_bits_def scan_timer_start_def
      start_timer_reconnect_sta_after_timeout_def stop_timer_reconnect_sta_after_timeout_def scan_timer_stop_def
      split: option.split)

lemma reconnect_simps [simp]:
  "wm_reconnect (log c s) = wm_reconnect s" "wm_reconnect (snd (esp d c s)) = wm_reconnect s"
  "wm_reconnect (upd_info f s) = wm_reconnect s" "wm_reconnect (set_bits B s) = wm_reconnect s"
  "wm_reconnect (clear_bits B s) = wm_reconnect s"
  "wm_reconnect (start_timer_reconnect_sta_after_timeout n s) = Some n"
  by (simp_all add: log_def esp_def upd_info_def set_bits_def clear_bits_def
      start_timer_reconnect_sta_after_timeout_def split: option.split)

lemma wps_simps [simp]: "wm_wps (clear_bits B s) = wm_wps s" "wm_cfg (clear_bits B s) = wm_cfg s"
  by (simp_all add: clear_bits_def)

lemma info_simps:
  "wm_info (upd_info (json_network_info_update p_ssid n r) s) = info_do_update p_ssid n r (wm_info s)"
  by (simp add: upd_info_def json_network_info_update_def do_action_def do_action_with_timeout_def given_def)

lemma not_ok_update:
  assumes "reason \<noteq> UPDATE_CONNECTION_OK"
  shows "ms_ev (update_network_connection_info d reason p_ssid i dhcp s) = ms_ev s - {WIFI_CONNECTED_BIT, ETH_CONNECTED_BIT}"
    "ms_queue (update_network_connection_info d reason p_ssid i dhcp s) = ms_queue s"
    "wm_reconnect (update_network_connection_info d reason p_ssid i dhcp s) = wm_reconnect s"
    "ni_reason (wm_info (update_network_connection_info d reason p_ssid i dhcp s)) = reason"
  using assms by (simp_all add: update_network_connection_info_def Let_def info_simps info_do_update_def
      split: option.split)

lemma send_cases:
  assumes "msg_send code p s = Some (ok, u)"
  obtains "ms_queue s = None" "u = s"
  | q where "ms_queue s = Some q" "length q < QUEUE_LENGTH" "u = s\<lparr>ms_queue := Some (q @ [\<lparr>msg_code = code, msg_param = p\<rparr>])\<rparr>"
  using assms by (auto simp: msg_send_def msg_send_with_timeout_def split: option.splits if_splits)

lemma send_room: "ms_queue s = Some q \<Longrightarrow> length q < QUEUE_LENGTH \<Longrightarrow> \<exists>u. msg_send code p s = Some (True, u)"
  by (simp add: msg_send_def msg_send_with_timeout_def)

section \<open>Disconnection\<close>

lemma lost_connection_simps [simp]:
  "ms_ev (handle_lost_connection d bits mic s) = ms_ev s" "ms_queue (handle_lost_connection d bits mic s) = ms_queue s"
  by (simp_all add: handle_lost_connection_def)

lemma disconnected_run:
  assumes "handle_ev_sta_disconnected d p s = Some (call_cb, s')"
  obtains o1 o2 o3 where
    "disconnected_outcome d (conv_param_to_reason p) (ms_ev s)
      (clear_bits {SCAN_BIT, INITIAL_CONNECTION_BIT, STA_ACTIVE_BIT, WIFI_CONNECTED_BIT} s) = (o1, o2, o3)"
    "let v = update_network_connection_info d o2 (Some (config_sta_get_ssid (wm_cfg o3))) None None o3
     in if o1 \<and> CMD_STA_CONNECT_BIT \<notin> ms_ev s then map_option snd (msg_send_cmd_connect_sta CONNECTION_REQUEST_USER v) = Some s'
        else s' = v"
proof -
  let ?o = "disconnected_outcome d (conv_param_to_reason p) (ms_ev s)
      (clear_bits {SCAN_BIT, INITIAL_CONNECTION_BIT, STA_ACTIVE_BIT, WIFI_CONNECTED_BIT} s)"
  show thesis
    by (rule that [of "fst ?o" "fst (snd ?o)" "snd (snd ?o)"])
      (use assms in \<open>auto simp: handle_ev_sta_disconnected_def Let_def case_prod_beta split: if_splits elim!: option_bind_SomeE\<close>)
qed

text \<open>
  C9: what a disconnection means: a connection the user asked for has failed and is not tried
  again; a lost connection is tried again after one second, or after 70 when the access point
  reported a MIC failure, unless WPS is running; and a connection request that had to
  disconnect first is sent again, unless it is already on its way: in both cases it is marked as on its way.
\<close>

theorem disconnection_policy:
  assumes "handle_ev_sta_disconnected d p s = Some (call_cb, s')" "REQUEST_DISCONNECT_BIT \<notin> ms_ev s"
  shows "ms_ev s' \<inter> {SCAN_BIT, INITIAL_CONNECTION_BIT, STA_ACTIVE_BIT, WIFI_CONNECTED_BIT} = {}
    \<and> (if REQUEST_STA_CONNECT_BIT \<in> ms_ev s \<and> REQUEST_RESTORE_STA_BIT \<in> ms_ev s then
         ni_reason (wm_info s') = UPDATE_USER_DISCONNECT
         \<and> CMD_STA_CONNECT_BIT \<in> ms_ev s' \<and> REQUEST_STA_CONNECT_BIT \<in> ms_ev s'
         \<and> ms_queue s' = (if CMD_STA_CONNECT_BIT \<in> ms_ev s then ms_queue s
             else map_option (\<lambda>q. q @ [\<lparr>msg_code = ORDER_CONNECT_STA, msg_param = ParamConnReq CONNECTION_REQUEST_USER\<rparr>]) (ms_queue s))
       else if REQUEST_STA_CONNECT_BIT \<in> ms_ev s then
         ni_reason (wm_info s') = UPDATE_FAILED_ATTEMPT \<and> REQUEST_STA_CONNECT_BIT \<notin> ms_ev s'
         \<and> ms_queue s' = ms_queue s \<and> wm_reconnect s' = wm_reconnect s
       else ni_reason (wm_info s') = UPDATE_LOST_CONNECTION \<and> ms_queue s' = ms_queue s
         \<and> wm_reconnect s' =
             (if \<not> wm_wps s \<and> STA_ACTIVE_BIT \<in> ms_ev s
              then Some (if conv_param_to_reason p = REASON_MIC_FAILURE then 70 else 1) else wm_reconnect s))"
proof -
  obtain o1 o2 o3 where o: "disconnected_outcome d (conv_param_to_reason p) (ms_ev s)
      (clear_bits {SCAN_BIT, INITIAL_CONNECTION_BIT, STA_ACTIVE_BIT, WIFI_CONNECTED_BIT} s) = (o1, o2, o3)"
    and v: "let v = update_network_connection_info d o2 (Some (config_sta_get_ssid (wm_cfg o3))) None None o3
     in if o1 \<and> CMD_STA_CONNECT_BIT \<notin> ms_ev s then map_option snd (msg_send_cmd_connect_sta CONNECTION_REQUEST_USER v) = Some s'
        else s' = v"
    by (rule disconnected_run [OF assms(1)])
  consider (again) "REQUEST_STA_CONNECT_BIT \<in> ms_ev s" "REQUEST_RESTORE_STA_BIT \<in> ms_ev s"
    | (failed) "REQUEST_STA_CONNECT_BIT \<in> ms_ev s" "REQUEST_RESTORE_STA_BIT \<notin> ms_ev s"
    | (lost) "REQUEST_STA_CONNECT_BIT \<notin> ms_ev s" by blast
  then show ?thesis
  proof cases
    case again
    define w where "w = update_network_connection_info d UPDATE_USER_DISCONNECT
      (Some (config_sta_get_ssid (wm_cfg o3))) None None o3"
    from again have "o1 = True" "o2 = UPDATE_USER_DISCONNECT"
      and o3: "o3 = clear_bits {SCAN_BIT, INITIAL_CONNECTION_BIT, STA_ACTIVE_BIT, WIFI_CONNECTED_BIT} s"
      using o by (simp_all add: disconnected_outcome_def)
    with v have v: "if CMD_STA_CONNECT_BIT \<notin> ms_ev s then map_option snd (msg_send_cmd_connect_sta CONNECTION_REQUEST_USER w) = Some s'
        else s' = w"
      by (simp add: w_def Let_def)
    have w: "ms_ev w = ms_ev s - {SCAN_BIT, INITIAL_CONNECTION_BIT, STA_ACTIVE_BIT, WIFI_CONNECTED_BIT} - {WIFI_CONNECTED_BIT, ETH_CONNECTED_BIT}"
      "ms_queue w = ms_queue s" "ni_reason (wm_info w) = UPDATE_USER_DISCONNECT"
      by (simp_all add: w_def not_ok_update o3)
    show ?thesis
    proof (cases "CMD_STA_CONNECT_BIT \<in> ms_ev s")
      case True
      with v w again show ?thesis by simp
    next
      case False
      with v obtain ok where "msg_send ORDER_CONNECT_STA (ParamConnReq CONNECTION_REQUEST_USER) (set_bits {CMD_STA_CONNECT_BIT} w) = Some (ok, s')"
        by (auto simp: step_defs)
      then show ?thesis
        by (rule send_cases) (use w again False in \<open>auto simp: set_bits_def\<close>)
    qed
  next
    case failed
    then have "o1 = False" "o2 = UPDATE_FAILED_ATTEMPT"
      "o3 = clear_bits {REQUEST_STA_CONNECT_BIT} (clear_bits {SCAN_BIT, INITIAL_CONNECTION_BIT, STA_ACTIVE_BIT, WIFI_CONNECTED_BIT} s)"
      using o by (simp_all add: disconnected_outcome_def)
    with v failed show ?thesis by (simp add: not_ok_update) 
  next
    case lost
    then have "o1 = False" "o2 = UPDATE_LOST_CONNECTION"
      "o3 = handle_lost_connection d (ms_ev s) (conv_param_to_reason p = REASON_MIC_FAILURE)
         (clear_bits {SCAN_BIT, INITIAL_CONNECTION_BIT, STA_ACTIVE_BIT, WIFI_CONNECTED_BIT} s)"
      using o assms(2) by (auto simp: disconnected_outcome_def)
    with v lost show ?thesis
      by (simp add: not_ok_update handle_lost_connection_def RECONNECT_STA_DEFAULT_TIMEOUT_SEC_def
          RECONNECT_STA_AFTER_MIC_FAILURE_TIMEOUT_SEC_def)
  qed
qed

section \<open>Reachable states\<close>

text \<open>
  C10: in whatever order the tasks act, the queue never holds more than three messages, and a
  request of the user to disconnect is never visible to the handler of the disconnection: the
  handler reports a lost connection (or a failed one), never the disconnection the user
  ordered.
\<close>

theorem user_disconnect_never_reported:
  assumes "wm_steps s0 s" "queue_ok s0" "no_disc_req s0"
  shows "queue_ok s \<and> REQUEST_DISCONNECT_BIT \<notin> ms_ev s
    \<and> (\<forall>d p call_cb s'. handle_ev_sta_disconnected d p s = Some (call_cb, s') \<and> REQUEST_STA_CONNECT_BIT \<notin> ms_ev s
        \<longrightarrow> ni_reason (wm_info s') = UPDATE_LOST_CONNECTION)"
proof -
  from steps_quiet [OF assms(1)] assms(2,3) have k: "queue_ok s" "REQUEST_DISCONNECT_BIT \<notin> ms_ev s"
    unfolding quiet_def by (blast, simp add: no_disc_req_def)
  moreover have "ni_reason (wm_info s') = UPDATE_LOST_CONNECTION"
    if "handle_ev_sta_disconnected d p s = Some (call_cb, s')" "REQUEST_STA_CONNECT_BIT \<notin> ms_ev s" for d p call_cb s'
  proof (rule disconnected_run [OF that(1)])
    fix o1 o2 o3
    assume o: "disconnected_outcome d (conv_param_to_reason p) (ms_ev s)
        (clear_bits {SCAN_BIT, INITIAL_CONNECTION_BIT, STA_ACTIVE_BIT, WIFI_CONNECTED_BIT} s) = (o1, o2, o3)"
      "let v = update_network_connection_info d o2 (Some (config_sta_get_ssid (wm_cfg o3))) None None o3
       in if o1 \<and> CMD_STA_CONNECT_BIT \<notin> ms_ev s then map_option snd (msg_send_cmd_connect_sta CONNECTION_REQUEST_USER v) = Some s'
          else s' = v"
    from o(1) that(2) k(2) have "\<not> o1" "o2 = UPDATE_LOST_CONNECTION" by (auto simp: disconnected_outcome_def)
    with o(2) show ?thesis by (simp add: not_ok_update)
  qed
  ultimately show ?thesis by blast
qed

text \<open>
  C33: when the queue is full at the moment the watchdog timer fires, the command is lost but
  stays marked as sent, and the task of the manager never again receives a command to feed its
  watchdog, whatever happens, a restart of the manager included.
\<close>

theorem watchdog_starves:
  assumes "wm_wdog_timer s" "\<not> ms_wdog_feed s" "ms_queue s = Some q" "length q = QUEUE_LENGTH"
    and "ORDER_TASK_WATCHDOG_FEED \<notin> msg_code ` set q"
  shows "\<exists>s'. wm_step s s' \<and>
    (\<forall>s'' m t. wm_steps s' s'' \<and> msg_recv s'' = Some (m, t) \<longrightarrow> msg_code m \<noteq> ORDER_TASK_WATCHDOG_FEED)"
proof -
  let ?s = "s\<lparr>ms_wdog_feed := True\<rparr>"
  have "msg_send_cmd_task_watchdog_feed s = Some ?s"
    using assms(2-4) by (simp add: msg_send_cmd_task_watchdog_feed_def msg_try_send_def msg_send_with_timeout_def)
  with assms(1) have step: "wm_step s ?s" by (rule WdogTimer)
  have lost: "feed_lost ?s" using assms(3,5) by (simp add: feed_lost_def)
  have "msg_code m \<noteq> ORDER_TASK_WATCHDOG_FEED" if "wm_steps ?s s''" "msg_recv s'' = Some (m, t)" for s'' m t
  proof -
    from steps_quiet [OF that(1)] lost have "feed_lost s''" unfolding quiet_def by blast
    with that(2) show ?thesis by (auto simp: feed_lost_def msg_recv_def split: option.splits list.splits)
  qed
  with step show ?thesis by blast
qed

text \<open>
  C34: a synchronous scan that is requested while the manager is stopped fails, and leaves its
  semaphore behind: from then on every synchronous scan is refused, whatever happens, a restart
  of the manager included.
\<close>

theorem scans_dead_after_failed_request:
  assumes "ms_queue s = None" "wm_sema s = None"
  shows "\<exists>s'. scan_sync_begin s = Some (False, s')
    \<and> (\<forall>s''. wm_steps s' s'' \<longrightarrow> scan_sync_begin s'' = Some (False, s''))"
proof -
  let ?s = "s\<lparr>wm_sema := Some False\<rparr>\<lparr>wm_scan_waiter := False\<rparr>"
  have run: "scan_sync_begin s = Some (False, ?s)"
    using assms by (simp add: scan_sync_begin_def step_defs msg_send_def msg_send_with_timeout_def)
  have "sema_lost ?s" by (simp add: sema_lost_def)
  then have "scan_sync_begin s'' = Some (False, s'')" if "wm_steps ?s s''" for s''
    using steps_quiet [OF that] by (simp add: quiet_def sema_lost_def scan_sync_begin_def)
  with run show ?thesis by blast
qed

definition has_room :: "wm \<Rightarrow> bool" where
  "has_room s \<longleftrightarrow> (\<exists>q. ms_queue s = Some q \<and> length q < QUEUE_LENGTH)"

lemma room_sent: "has_room s \<Longrightarrow> msg_send code p s \<noteq> None"
  by (auto simp: has_room_def msg_send_def msg_send_with_timeout_def)

lemma queue_ops:
  "ms_queue (snd (wifi_scan_next s)) = ms_queue s" "ms_queue (conn_req_bits r s) = ms_queue s"
  "ms_queue (s\<lparr>wm_scan := i\<rparr>) = ms_queue s" "ms_queue (snd (snd (disconnected_outcome d x bits s))) = ms_queue s"
  by (simp_all add: wifi_scan_next_def Let_def conn_req_bits_def disconnected_outcome_def split: conn_req.split)

lemma queue_update [simp]: "ms_queue (update_network_connection_info d r n i dhcp s) = ms_queue s"
proof (cases "r = UPDATE_CONNECTION_OK")
  case True
  then show ?thesis
    by (cases i; cases n; simp add: update_network_connection_info_def Let_def)
qed (simp add: not_ok_update)

lemma returns:
  "Some x \<noteq> None" "x \<noteq> None \<Longrightarrow> map_option f x \<noteq> None"
  "(c \<Longrightarrow> x \<noteq> None) \<Longrightarrow> (\<not> c \<Longrightarrow> y \<noteq> None) \<Longrightarrow> (if c then x else y) \<noteq> None"
  "x \<noteq> None \<Longrightarrow> (\<And>y. g y \<noteq> None) \<Longrightarrow> Option.bind x g \<noteq> None"
  by (auto simp: bind_eq_None_conv)

lemma handlers_return:
  assumes "has_room s"
  shows "handle_cmd_start_wifi_scan d s \<noteq> None" "handle_cmd_connect_sta d p s \<noteq> None"
    "handle_ev_sta_disconnected d p s \<noteq> None" "handle_cmd_disconnect_sta d s \<noteq> None"
proof -
  have sent: "ms_queue t = ms_queue s \<Longrightarrow> msg_send code par t \<noteq> None" for code par and t :: wm
    using assms by (intro room_sent) (simp add: has_room_def)
  show "handle_cmd_start_wifi_scan d s \<noteq> None"
    unfolding handle_cmd_start_wifi_scan_def quiet_unfold step_defs
    by (intro returns sent; simp add: queue_ops)
  show "handle_cmd_connect_sta d p s \<noteq> None"
    unfolding handle_cmd_connect_sta_def quiet_unfold step_defs
    by (intro returns sent; simp add: queue_ops)
  show "handle_cmd_disconnect_sta d s \<noteq> None"
    unfolding handle_cmd_disconnect_sta_def quiet_unfold step_defs
    by (intro returns sent; simp)
  show "handle_ev_sta_disconnected d p s \<noteq> None"
    unfolding handle_ev_sta_disconnected_def quiet_unfold step_defs
    by (intro returns sent; simp add: queue_ops)
qed

text \<open>
  C17: the manager's task makes progress: while no other task fills the queue, handling a
  message never waits for room in the manager's own queue.
\<close>

theorem manager_progress:
  assumes "queue_ok s" "ms_queue s = Some (m # q)"
  shows "\<exists>stop s'. recv_and_handle_msg d s = Some (stop, s')"
proof -
  let ?t = "s\<lparr>ms_queue := Some q\<rparr>"
  have recv: "msg_recv s = Some (m, ?t)" using assms(2) by (simp add: msg_recv_def)
  have room: "length q < QUEUE_LENGTH" using assms by (simp add: queue_ok_def)
  then have "has_room ?t" by (simp add: has_room_def)
  note ret = handlers_return [OF this, where d = d]
  have "handle_msg d m ?t \<noteq> None"
    by (cases "msg_code m") (use ret in \<open>simp_all add: handle_msg_def del: not_None_eq\<close>)
  then obtain x where "handle_msg d m ?t = Some x" by blast
  with recv show ?thesis by (cases x) (simp add: recv_and_handle_msg_def)
qed

section \<open>The scan\<close>

definition scan_round :: "driver \<Rightarrow> wm \<Rightarrow> wm option" where
  \<comment> \<open>the timer fires, the manager asks the driver to scan a channel, and the driver reports that it has done so\<close>
  "scan_round d s =
     (if \<not> wm_scan_timer s then Some s
      else do {
        (ok, s) \<leftarrow> msg_send_ev_scan_next (s\<lparr>wm_scan_timer := False\<rparr>);
        (stop, s) \<leftarrow> recv_and_handle_msg d s;
        (if SCAN_BIT \<notin> ms_ev s then Some s
         else do {
           s \<leftarrow> event_handler d WIFI_EVENT_SCAN_DONE s;
           (stop, s) \<leftarrow> recv_and_handle_msg d s;
           Some s }) })"

fun scan_rounds :: "driver \<Rightarrow> nat \<Rightarrow> wm \<Rightarrow> wm option" where
  "scan_rounds d 0 s = Some s"
| "scan_rounds d (Suc n) s = Option.bind (scan_round d s) (scan_rounds d n)"

definition scan_running :: "wm \<Rightarrow> bool" where
  \<comment> \<open>a scan waits for its timer, with no other message under way\<close>
  "scan_running s \<longleftrightarrow> ms_queue s = Some [] \<and> SCAN_BIT \<in> ms_ev s \<and> wm_scan_timer s
     \<and> si_cur_chan (wm_scan s) \<le> si_last_chan (wm_scan s)"

definition scan_over :: "bool \<Rightarrow> wm \<Rightarrow> bool" where
  \<comment> \<open>the scan has ended, and the task that waits for it, if any, is woken\<close>
  "scan_over waiting s \<longleftrightarrow> SCAN_BIT \<notin> ms_ev s \<and> \<not> wm_scan_timer s \<and> (waiting \<longrightarrow> wm_sema s = Some True)"

lemma scan_simps [simp]:
  "wm_scan (log c s) = wm_scan s" "wm_scan_timer (log c s) = wm_scan_timer s" "wm_sema (log c s) = wm_sema s"
  "wm_scan (notify_scan_done s) = wm_scan s" "wm_scan_timer (notify_scan_done s) = wm_scan_timer s"
  "ms_queue (notify_scan_done s) = ms_queue s" "ms_ev (notify_scan_done s) = ms_ev s - {SCAN_BIT}"
  "wm_sema s \<noteq> None \<Longrightarrow> wm_sema (notify_scan_done s) = Some True"
  by (simp_all add: log_def notify_scan_done_def clear_bits_def Let_def)

lemma scan_next_cases:
  obtains (started) "handle_ev_scan_next d s = log (EspScanStart (si_cur_chan (wm_scan s))) s"
    "d_ok d (wm_log s) (EspScanStart (si_cur_chan (wm_scan s)))"
  | (failed) "handle_ev_scan_next d s = notify_scan_done (log (EspScanStart (si_cur_chan (wm_scan s))) s)"
    "\<not> d_ok d (wm_log s) (EspScanStart (si_cur_chan (wm_scan s)))"
  by (auto simp: handle_ev_scan_next_def esp_def)

lemma scan_done_cases:
  fixes d s
  defines "t \<equiv> handle_ev_scan_done d s"
  assumes "\<not> wm_scan_timer s"
  obtains (over) "SCAN_BIT \<notin> ms_ev t" "\<not> wm_scan_timer t" "wm_sema s \<noteq> None \<Longrightarrow> wm_sema t = Some True" "ms_queue t = ms_queue s"
    "d_records d (wm_log s) = None \<or> \<not> si_cur_chan (wm_scan s) + 1 \<le> si_last_chan (wm_scan s)"
  | (next_chan) "si_cur_chan (wm_scan s) + 1 \<le> si_last_chan (wm_scan s)" "wm_scan_timer t" "ms_ev t = ms_ev s" "wm_sema t = wm_sema s"
    "si_cur_chan (wm_scan t) = si_cur_chan (wm_scan s) + 1" "si_last_chan (wm_scan t) = si_last_chan (wm_scan s)" "ms_queue t = ms_queue s"
proof (cases "d_records d (wm_log s)")
  case None
  then show thesis using assms(2) by (intro over) (simp_all add: t_def handle_ev_scan_done_def)
next
  case (Some recs)
  obtain aps num where fu: "ap_list_filter_unique
      (take MAX_AP_NUM (wm_aps (log EspScanGetRecords s)) @ take MAX_AP_NUM recs
        @ drop (MAX_AP_NUM + length (take MAX_AP_NUM recs)) (wm_aps (log EspScanGetRecords s))) = (aps, num)"
    by force
  show thesis
  proof (cases "si_cur_chan (wm_scan s) + 1 \<le> si_last_chan (wm_scan s)")
    case True
    then show thesis using Some assms(2) fu
      by (intro next_chan) (simp_all add: t_def handle_ev_scan_done_def Let_def wifi_scan_next_def scan_timer_start_def log_def linorder_not_le [symmetric])
  next
    case False
    then show thesis using Some assms(2) fu
      by (intro over) (simp_all add: t_def handle_ev_scan_done_def Let_def wifi_scan_next_def log_def notify_scan_done_def
          clear_bits_def linorder_not_le [symmetric])
  qed
qed

lemma queue_self: "ms_queue s = Some [] \<Longrightarrow> s\<lparr>ms_queue := Some []\<rparr> = (s :: wm)"
  by (cases s) simp

definition after_callback :: "queue_message \<Rightarrow> bool \<Rightarrow> wm \<Rightarrow> wm" where
  "after_callback m call_cb s =
     (if msg_code m \<in> wm_msg_cbs s \<and> call_cb then callback (CbMessage (msg_code m) (msg_param m)) s else s)"

lemma after_callback_simps [simp]:
  "ms_queue (after_callback m b s) = ms_queue s" "ms_ev (after_callback m b s) = ms_ev s"
  "wm_scan (after_callback m b s) = wm_scan s" "wm_scan_timer (after_callback m b s) = wm_scan_timer s"
  "wm_sema (after_callback m b s) = wm_sema s"
  by (simp_all add: after_callback_def callback_def)

lemma deliver:
  assumes "ms_queue s = Some []"
  shows "Option.bind (msg_send code p s) (\<lambda>y. recv_and_handle_msg d (snd y)) =
    map_option (\<lambda>(stop, call_cb, s). (stop, after_callback \<lparr>msg_code = code, msg_param = p\<rparr> call_cb s))
      (handle_msg d \<lparr>msg_code = code, msg_param = p\<rparr> s)"
  using assms
  by (cases "handle_msg d \<lparr>msg_code = code, msg_param = p\<rparr> s")
    (auto simp: msg_send_def msg_send_with_timeout_def QUEUE_LENGTH_def recv_and_handle_msg_def msg_recv_def queue_self
      after_callback_def)

lemma scan_round_run:
  assumes "scan_running s"
  obtains v where
    "v = after_callback \<lparr>msg_code = EVENT_SCAN_NEXT, msg_param = ParamNone\<rparr> True (handle_ev_scan_next d (s\<lparr>wm_scan_timer := False\<rparr>))"
    "scan_round d s = (if SCAN_BIT \<notin> ms_ev v then Some v
       else Some (after_callback \<lparr>msg_code = EVENT_SCAN_DONE, msg_param = ParamNone\<rparr> True (handle_ev_scan_done d v)))"
proof -
  let ?s = "s\<lparr>wm_scan_timer := False\<rparr>"
  define v where "v = after_callback \<lparr>msg_code = EVENT_SCAN_NEXT, msg_param = ParamNone\<rparr> True (handle_ev_scan_next d ?s)"
  from assms have q: "ms_queue ?s = Some []" and timer: "wm_scan_timer s" by (simp_all add: scan_running_def)
  have first: "Option.bind (msg_send_ev_scan_next ?s) (\<lambda>y. recv_and_handle_msg d (snd y)) = Some (False, v)"
    unfolding step_defs deliver [OF q] by (simp add: handle_msg_def v_def)
  have qv: "ms_queue v = Some []"
    by (rule scan_next_cases [of d ?s]) (use q in \<open>simp_all add: v_def\<close>)
  have second: "Option.bind (event_handler d WIFI_EVENT_SCAN_DONE v) (\<lambda>s. recv_and_handle_msg d s)
      = Some (False, after_callback \<lparr>msg_code = EVENT_SCAN_DONE, msg_param = ParamNone\<rparr> True (handle_ev_scan_done d v))"
    using deliver [OF qv, where code = EVENT_SCAN_DONE and p = ParamNone and d = d]
    by (simp add: event_handler_def step_defs handle_msg_def case_prod_beta map_conv_bind_option)
  show thesis
  proof (rule that [OF v_def])
    show "scan_round d s = (if SCAN_BIT \<notin> ms_ev v then Some v
       else Some (after_callback \<lparr>msg_code = EVENT_SCAN_DONE, msg_param = ParamNone\<rparr> True (handle_ev_scan_done d v)))"
      using first second timer
      by (auto simp: scan_round_def case_prod_beta split: bind_splits)
  qed
qed

lemma next_chan_word:
  fixes c l :: "8 word"
  assumes "c \<le> l" "l < 255"
  shows "unat (c + 1) = Suc (unat c)"
proof -
  from assms have "c < 255" by (rule le_less_trans)
  then have "unat c < 255" by (simp add: word_less_nat_alt)
  then show ?thesis by (simp add: unat_plus_if')
qed

lemma scan_round_step:
  assumes "scan_running s" "si_last_chan (wm_scan s) < 255"
  shows "\<exists>t. scan_round d s = Some t \<and>
    (scan_over (wm_sema s \<noteq> None) t
     \<or> scan_running t \<and> si_last_chan (wm_scan t) = si_last_chan (wm_scan s) \<and> si_cur_chan (wm_scan t) = si_cur_chan (wm_scan s) + 1
       \<and> wm_sema t = wm_sema s)"
proof -
  let ?s = "s\<lparr>wm_scan_timer := False\<rparr>"
  obtain v where v: "v = after_callback \<lparr>msg_code = EVENT_SCAN_NEXT, msg_param = ParamNone\<rparr> True (handle_ev_scan_next d ?s)"
    and run: "scan_round d s = (if SCAN_BIT \<notin> ms_ev v then Some v
       else Some (after_callback \<lparr>msg_code = EVENT_SCAN_DONE, msg_param = ParamNone\<rparr> True (handle_ev_scan_done d v)))"
    by (rule scan_round_run [OF assms(1)])
  show ?thesis
  proof (cases rule: scan_next_cases [of d ?s])
    case started
    with v assms(1) have eq: "ms_queue v = Some []" "SCAN_BIT \<in> ms_ev v" "\<not> wm_scan_timer v" "wm_sema v = wm_sema s"
      "wm_scan v = wm_scan s" by (simp_all add: scan_running_def)
    show ?thesis
      by (rule scan_done_cases [OF eq(3), of d]) (use run eq in \<open>simp_all add: scan_over_def scan_running_def\<close>)
  next
    case failed
    with v run show ?thesis by (simp add: scan_over_def)
  qed
qed

lemma scan_rounds_end:
  assumes "scan_running s" "si_last_chan (wm_scan s) < 255"
  shows "\<exists>n t. n \<le> Suc (unat (si_last_chan (wm_scan s)) - unat (si_cur_chan (wm_scan s))) \<and> scan_rounds d n s = Some t
    \<and> scan_over (wm_sema s \<noteq> None) t"
  using assms
proof (induction "unat (si_last_chan (wm_scan s)) - unat (si_cur_chan (wm_scan s))" arbitrary: s rule: less_induct)
  case less
  from scan_round_step [OF less.prems] obtain t where t: "scan_round d s = Some t"
    "scan_over (wm_sema s \<noteq> None) t
     \<or> scan_running t \<and> si_last_chan (wm_scan t) = si_last_chan (wm_scan s) \<and> si_cur_chan (wm_scan t) = si_cur_chan (wm_scan s) + 1
       \<and> wm_sema t = wm_sema s" by blast
  then show ?case
  proof (elim disjE conjE)
    assume "scan_over (wm_sema s \<noteq> None) t"
    with t(1) have "scan_rounds d 1 s = Some t \<and> scan_over (wm_sema s \<noteq> None) t" by simp
    then show ?thesis by (metis Suc_leI zero_less_Suc One_nat_def)
  next
    assume on: "scan_running t" "si_last_chan (wm_scan t) = si_last_chan (wm_scan s)"
      "si_cur_chan (wm_scan t) = si_cur_chan (wm_scan s) + 1" "wm_sema t = wm_sema s"
    have cur: "unat (si_cur_chan (wm_scan t)) = Suc (unat (si_cur_chan (wm_scan s)))"
      using less.prems next_chan_word [of "si_cur_chan (wm_scan s)" "si_last_chan (wm_scan s)"]
      unfolding on(3) by (simp add: scan_running_def)
    have "unat (si_cur_chan (wm_scan t)) \<le> unat (si_last_chan (wm_scan s))"
      using on(1,2) by (simp add: scan_running_def word_le_nat_alt)
    with cur have closer: "unat (si_last_chan (wm_scan t)) - unat (si_cur_chan (wm_scan t))
        < unat (si_last_chan (wm_scan s)) - unat (si_cur_chan (wm_scan s))" using on(2) by simp
    from less.hyps [OF closer on(1)] less.prems(2) on(2) obtain n u where
      "n \<le> Suc (unat (si_last_chan (wm_scan t)) - unat (si_cur_chan (wm_scan t)))" "scan_rounds d n t = Some u"
      "scan_over (wm_sema t \<noteq> None) u" by auto
    with t(1) on(4) closer have "Suc n \<le> Suc (unat (si_last_chan (wm_scan s)) - unat (si_cur_chan (wm_scan s)))
      \<and> scan_rounds d (Suc n) s = Some u \<and> scan_over (wm_sema s \<noteq> None) u" by simp
    then show ?thesis by blast
  qed
qed

lemma top_channel: "(c :: 8 word) \<le> 255"
proof -
  have "(255 :: 8 word) = - 1" by simp
  then show ?thesis by (metis word_order.extremum)
qed

lemma scan_round_endless:
  assumes "scan_running s" "si_last_chan (wm_scan s) = 255"
    and "\<forall>l c. d_ok d l (EspScanStart c)" "\<forall>l. d_records d l \<noteq> None"
  shows "\<exists>t. scan_round d s = Some t \<and> scan_running t \<and> si_last_chan (wm_scan t) = 255"
proof -
  let ?s = "s\<lparr>wm_scan_timer := False\<rparr>"
  obtain v where v: "v = after_callback \<lparr>msg_code = EVENT_SCAN_NEXT, msg_param = ParamNone\<rparr> True (handle_ev_scan_next d ?s)"
    and run: "scan_round d s = (if SCAN_BIT \<notin> ms_ev v then Some v
       else Some (after_callback \<lparr>msg_code = EVENT_SCAN_DONE, msg_param = ParamNone\<rparr> True (handle_ev_scan_done d v)))"
    by (rule scan_round_run [OF assms(1)])
  have "handle_ev_scan_next d ?s = log (EspScanStart (si_cur_chan (wm_scan ?s))) ?s"
    using assms(3) by (simp add: handle_ev_scan_next_def esp_def)
  with v assms(1) have eq: "ms_queue v = Some []" "SCAN_BIT \<in> ms_ev v" "\<not> wm_scan_timer v" "wm_scan v = wm_scan s"
    by (simp_all add: scan_running_def)
  show ?thesis
    by (rule scan_done_cases [OF eq(3), of d]) (use run eq assms(2,4) top_channel in \<open>simp_all add: scan_running_def\<close>)
qed

lemma scan_rounds_endless:
  assumes "scan_running s" "si_last_chan (wm_scan s) = 255"
    and "\<forall>l c. d_ok d l (EspScanStart c)" "\<forall>l. d_records d l \<noteq> None"
  shows "\<exists>t. scan_rounds d n s = Some t \<and> scan_running t"
  using assms(1,2)
proof (induction n arbitrary: s)
  case (Suc n)
  from scan_round_endless [OF Suc.prems assms(3,4)] obtain t where
    "scan_round d s = Some t" "scan_running t" "si_last_chan (wm_scan t) = 255" by blast
  with Suc.IH show ?case by simp
qed simp

definition last_channel :: "driver \<Rightarrow> wm \<Rightarrow> 8 word" where
  \<comment> \<open>of the country, or of the default when the driver does not tell the country\<close>
  "last_channel d s = (case d_country d (wm_log s) of
     None \<Rightarrow> COUNTRY_DEFAULT_FIRST_CHANNEL + COUNTRY_DEFAULT_NUM_CHANNELS - 1
   | Some (schan, nchan) \<Rightarrow> schan + nchan - 1)"

definition scan_started :: "driver \<Rightarrow> wm \<Rightarrow> wm" where
  \<comment> \<open>what the start of a scan leaves before the first channel is chosen\<close>
  "scan_started d s = (log EspGetCountry (set_bits {SCAN_BIT} s))\<lparr>wm_scan :=
     \<lparr>si_first_chan = (case d_country d (wm_log s) of None \<Rightarrow> COUNTRY_DEFAULT_FIRST_CHANNEL | Some (schan, nchan) \<Rightarrow> schan),
      si_last_chan = last_channel d s, si_cur_chan = 0, si_num_access_points = 0\<rparr>\<rparr>"

lemma start_scan_run:
  assumes "SCAN_BIT \<notin> ms_ev s"
  shows "handle_cmd_start_wifi_scan d s =
    (case wifi_scan_next (scan_started d s) of (finished, t) \<Rightarrow> if finished then map_option snd (msg_send_ev_scan_done t) else Some t)"
  using assms
  by (auto simp: handle_cmd_start_wifi_scan_def scan_started_def last_channel_def set_bits_def Let_def split: option.splits)

lemma no_channel_scan:
  assumes "ms_queue s = Some []" "SCAN_BIT \<notin> ms_ev s" "last_channel d s = 0"
  shows "\<exists>s' t. handle_cmd_start_wifi_scan d s = Some s' \<and> recv_and_handle_msg d s' = Some (False, t)
    \<and> SCAN_BIT \<notin> ms_ev t \<and> (wm_sema s \<noteq> None \<longrightarrow> wm_sema t = Some True)"
proof -
  define v where "v = snd (wifi_scan_next (scan_started d s))"
  have v: "wifi_scan_next (scan_started d s) = (True, v)" "ms_queue v = Some []" "wm_sema v = wm_sema s"
    "si_cur_chan (wm_scan v) = 1" "si_last_chan (wm_scan v) = 0"
    using assms(1,3) by (simp_all add: v_def wifi_scan_next_def scan_started_def Let_def log_def set_bits_def)
  have "handle_cmd_start_wifi_scan d s = map_option snd (msg_send EVENT_SCAN_DONE ParamNone v)"
    using start_scan_run [OF assms(2)] v(1) by (simp add: step_defs)
  moreover have "\<exists>ok s'. msg_send EVENT_SCAN_DONE ParamNone v = Some (ok, s')"
    using send_room [OF v(2), of EVENT_SCAN_DONE ParamNone] by (auto simp: QUEUE_LENGTH_def)
  moreover define t where "t = handle_ev_scan_done d v"
  moreover have "SCAN_BIT \<notin> ms_ev t \<and> (wm_sema s \<noteq> None \<longrightarrow> wm_sema t = Some True)"
    using v(3-5) by (cases "d_records d (wm_log v)")
      (simp_all add: t_def handle_ev_scan_done_def Let_def case_prod_beta wifi_scan_next_def log_def notify_scan_done_def clear_bits_def)
  ultimately show ?thesis
    using deliver [OF v(2), of EVENT_SCAN_DONE ParamNone d] by (auto simp: handle_msg_def)
qed

text \<open>
  C18: With no other message in between, and with every channel scan that was started reported as done, a scan ends
  for every country the driver names, or when it names none: after at most one round for each channel up to the last
  one, whichever of the requests to the driver fail, the timer is off, the scan bit is cleared, and the task that asked
  for the list is woken. A country without channels ends the scan at once. One case never ends when the driver never fails: a
  last channel of 255, which the counter of 8 bits cannot exceed.
\<close>

theorem scan_terminates:
  assumes "ms_queue s = Some []" "SCAN_BIT \<notin> ms_ev s"
  shows "\<exists>s'. handle_cmd_start_wifi_scan d s = Some s' \<and>
    (if last_channel d s = 0 then
       \<exists>t. recv_and_handle_msg d s' = Some (False, t) \<and> SCAN_BIT \<notin> ms_ev t \<and> (wm_sema s \<noteq> None \<longrightarrow> wm_sema t = Some True)
     else if last_channel d s < 255 then
       \<exists>n t. n \<le> unat (last_channel d s) \<and> scan_rounds d n s' = Some t \<and> scan_over (wm_sema s \<noteq> None) t
     else (\<forall>l c. d_ok d l (EspScanStart c)) \<and> (\<forall>l. d_records d l \<noteq> None) \<longrightarrow>
       (\<forall>n. \<exists>t. scan_rounds d n s' = Some t \<and> scan_running t))"
proof (cases "last_channel d s = 0")
  case True
  with no_channel_scan [OF assms True] show ?thesis by auto
next
  case False
  then have one: "1 \<le> last_channel d s" by (simp add: word_le_nat_alt unat_gt_0 Suc_le_eq)
  define s' where "s' = snd (wifi_scan_next (scan_started d s))"
  have s': "wifi_scan_next (scan_started d s) = (False, s')" "scan_running s'" "si_last_chan (wm_scan s') = last_channel d s"
    "si_cur_chan (wm_scan s') = 1" "wm_sema s' = wm_sema s"
    using assms one by (simp_all add: s'_def wifi_scan_next_def scan_started_def scan_running_def Let_def linorder_not_le [symmetric]
        scan_timer_start_def set_bits_def log_def)
  have run: "handle_cmd_start_wifi_scan d s = Some s'" using start_scan_run [OF assms(2), of d] s'(1) by simp
  have "Suc (unat (last_channel d s) - unat (1 :: 8 word)) \<le> unat (last_channel d s)"
    using one by (simp add: word_le_nat_alt)
  moreover have "last_channel d s = 255" if "\<not> last_channel d s < 255"
    using that top_channel [of "last_channel d s"] by simp
  ultimately show ?thesis
    using scan_rounds_end [OF s'(2), of d] scan_rounds_endless [OF s'(2)] s'(3-5) run False
    by (cases "last_channel d s < 255") (auto intro: order_trans)
qed

section \<open>Restarting\<close>

lemma start_without_event_loop:
  assumes "\<not> is_working s" "\<not> d_ok d (wm_log s) EspEventLoopCreate"
  shows "\<exists>u. manager_start d True queue_created given_ant connect cfg s = Some (False, u) \<and> \<not> is_working u
    \<and> ms_queue u = ms_queue s \<and> wm_reconnect u = None \<and> \<not> wm_scan_timer u"
  using assms by (simp add: manager_start_def manager_init_def Let_def esp_def upd_info_def is_working_def set_bits_def
      clear_bits_def log_def split: option.split)

text \<open>
  The default event loop of the system can be created once, and stopping the manager does
  not delete it: a manager that has been stopped cannot be started again.
\<close>

theorem restart_refused:
  assumes "\<And>l. EspEventLoopCreate \<in> set l \<Longrightarrow> \<not> d_ok d l EspEventLoopCreate" "EspEventLoopCreate \<in> set (wm_log s)"
  shows "\<exists>u. manager_start d True queue_created given_ant connect cfg (task_end s) = Some (False, u) \<and> \<not> is_working u
    \<and> ms_queue u = None"
proof -
  have "ms_ev (fold log cs t) = ms_ev t" "wm_log (fold log cs t) = wm_log t @ cs" for cs t
    by (induction cs arbitrary: t) (simp_all add: log_def)
  then have "IS_WORKING \<notin> ms_ev (task_end s)" "set (wm_log s) \<subseteq> set (wm_log (task_end s))" "ms_queue (task_end s) = None"
    unfolding task_end_def Let_def
    by (auto simp: msg_deinit_def log_def clear_bits_def scan_timer_stop_def stop_timer_reconnect_sta_after_timeout_def)
  moreover from this(2) assms have "\<not> d_ok d (wm_log (task_end s)) EspEventLoopCreate" by blast
  ultimately show ?thesis using start_without_event_loop [of "task_end s" d] unfolding is_working_def by metis
qed

text \<open>
  Starting the manager while it works is refused, but marks it as not working; a further
  start is then no longer refused at once, but stops the two timers of the running manager.
\<close>

theorem second_start_clears_working:
  assumes "\<And>l. EspEventLoopCreate \<in> set l \<Longrightarrow> \<not> d_ok d l EspEventLoopCreate" "EspEventLoopCreate \<in> set (wm_log s)"
    and "is_working s"
  shows "\<exists>t u. manager_start d True queue_created given_ant connect cfg s = Some (False, t) \<and> \<not> is_working t
    \<and> wm_reconnect t = wm_reconnect s \<and> wm_scan_timer t = wm_scan_timer s
    \<and> manager_start d True queue_created given_ant connect cfg t = Some (False, u)
    \<and> wm_reconnect u = None \<and> \<not> wm_scan_timer u"
proof -
  let ?t = "clear_bits {IS_WORKING} s"
  have "manager_start d True queue_created given_ant connect cfg s = Some (False, ?t)"
    using assms(3) by (simp add: manager_start_def manager_init_def)
  moreover have "\<not> is_working ?t" "wm_log ?t = wm_log s" "wm_reconnect ?t = wm_reconnect s" "wm_scan_timer ?t = wm_scan_timer s"
    by (simp_all add: is_working_def clear_bits_def)
  ultimately show ?thesis using start_without_event_loop [of ?t d] assms(1,2) by fastforce
qed

text \<open>
  When WPS delivers its credentials with the event, they are dropped: the configuration
  and the queue stay as they are, and a heap block is lost.
\<close>

theorem wps_credentials_dropped:
  assumes "n \<noteq> 0" "d_malloc d (wm_log s @ [EspWpsDisable, Callback CbWpsStopped])"
  shows "\<exists>s'. event_handler d (WIFI_EVENT_STA_WPS_ER_SUCCESS (Some (n, ssid, password))) s = Some s'
    \<and> wm_cfg s' = wm_cfg s \<and> ms_queue s' = ms_queue s \<and> wm_heap s' = wm_heap s + 1"
  using assms by (simp add: event_handler_def wps_er_success_def esp_def log_def callback_def Let_def)

section \<open>Witnesses\<close>

definition driver0 :: driver where
  "driver0 = \<lparr>d_ok = (\<lambda>l c. c \<noteq> EspEventLoopCreate \<or> EspEventLoopCreate \<notin> set l),
     d_country = (\<lambda>l. Some (1, 13)), d_records = (\<lambda>l. Some []), d_ip_info = (\<lambda>l. None), d_dhcp_ip = (\<lambda>l. None),
     d_sta_config = (\<lambda>l. None), d_dhcp_started = (\<lambda>l. False), d_malloc = (\<lambda>l. True),
     d_qsort = (\<lambda>cmp xs. xs), d_ntoa = (\<lambda>ip. ''10.0.0.1''), d_aton = (\<lambda>t. 0)\<rparr>"

definition wm0 :: "queue_message list option \<Rightarrow> ev_bit set \<Rightarrow> wm" where
  "wm0 q bits = \<lparr>ms_queue = q, ms_wdog_feed = False, ms_ev = bits,
     wm_scan = \<lparr>si_first_chan = 0, si_last_chan = 0, si_cur_chan = 0, si_num_access_points = 0\<rparr>,
     wm_aps = [], wm_ap_num = 0, wm_wps = False, wm_scan_timer = False, wm_reconnect = None, wm_wdog_timer = True,
     wm_sema = None, wm_scan_waiter = False, wm_cfg = default0, wm_info = info0, wm_sta_ip = [], wm_msg_cbs = {},
     wm_log = [EspEventLoopCreate], wm_heap = 0\<rparr>"

lemmas concrete = wm0_def driver0_def

lemma disconnection_policy_witness:
  "\<exists>s'. handle_ev_sta_disconnected driver0 (ParamReason REASON_MIC_FAILURE) (wm0 (Some []) {STA_ACTIVE_BIT, WIFI_CONNECTED_BIT})
      = Some (True, s')
    \<and> ni_reason (wm_info s') = UPDATE_LOST_CONNECTION \<and> wm_reconnect s' = Some 70 \<and> WIFI_CONNECTED_BIT \<notin> ms_ev s'"
proof -
  let ?s = "wm0 (Some []) {STA_ACTIVE_BIT, WIFI_CONNECTED_BIT}"
  obtain s' where s': "handle_ev_sta_disconnected driver0 (ParamReason REASON_MIC_FAILURE) ?s = Some (True, s')"
    by (simp add: handle_ev_sta_disconnected_def disconnected_outcome_def Let_def wm0_def case_prod_beta)
  have "REQUEST_DISCONNECT_BIT \<notin> ms_ev ?s" by (simp add: wm0_def)
  from disconnection_policy [OF s' this] s' show ?thesis by (auto simp: wm0_def conv_param_to_reason_def)
qed

lemma user_disconnect_never_reported_witness:
  "\<exists>s. wm_step (wm0 (Some []) {STA_ACTIVE_BIT}) s \<and> map_option length (ms_queue s) = Some 1 \<and> queue_ok s
    \<and> REQUEST_DISCONNECT_BIT \<notin> ms_ev s"
proof -
  let ?s = "wm0 (Some []) {STA_ACTIVE_BIT}"
  obtain s where s: "manager_disconnect_wifi ?s = Some s" "map_option length (ms_queue s) = Some 1"
    by (simp add: manager_disconnect_wifi_def step_defs msg_send_def msg_send_with_timeout_def wm0_def QUEUE_LENGTH_def)
  then have step: "wm_step ?s s" by (intro Command [where f = manager_disconnect_wifi and b = False]) simp_all
  from user_disconnect_never_reported [OF r_into_rtranclp [of wm_step, OF step]] step s(2) show ?thesis
    by (auto simp: wm0_def queue_ok_def no_disc_req_def)
qed

lemma watchdog_starves_witness:
  "\<exists>s'. wm_step (wm0 (Some (replicate 3 \<lparr>msg_code = ORDER_STOP_AP, msg_param = ParamNone\<rparr>)) {}) s'
    \<and> {m. \<exists>s'' t. wm_steps s' s'' \<and> msg_recv s'' = Some (m, t)} \<inter> {m. msg_code m = ORDER_TASK_WATCHDOG_FEED} = {}"
proof -
  let ?s = "wm0 (Some (replicate 3 \<lparr>msg_code = ORDER_STOP_AP, msg_param = ParamNone\<rparr>)) {}"
  have "\<exists>s'. wm_step ?s s' \<and>
    (\<forall>s'' m t. wm_steps s' s'' \<and> msg_recv s'' = Some (m, t) \<longrightarrow> msg_code m \<noteq> ORDER_TASK_WATCHDOG_FEED)"
    by (rule watchdog_starves [where q = "replicate 3 \<lparr>msg_code = ORDER_STOP_AP, msg_param = ParamNone\<rparr>"])
      (simp_all add: wm0_def QUEUE_LENGTH_def)
  then show ?thesis by blast
qed

lemma scans_dead_after_failed_request_witness:
  "\<exists>s'. scan_sync_begin (wm0 None {}) = Some (False, s')
    \<and> {s''. wm_steps s' s'' \<and> scan_sync_begin s'' \<noteq> Some (False, s'')} = {}"
  using scans_dead_after_failed_request [of "wm0 None {}"] by (simp add: wm0_def)

lemma manager_progress_witness:
  "\<exists>stop s'. recv_and_handle_msg driver0
     (wm0 (Some (replicate 3 \<lparr>msg_code = ORDER_CONNECT_STA, msg_param = ParamConnReq CONNECTION_REQUEST_USER\<rparr>)) {STA_ACTIVE_BIT})
     = Some (stop, s')"
  by (rule manager_progress) (simp_all add: wm0_def queue_ok_def QUEUE_LENGTH_def numeral_3_eq_3)

lemma scan_terminates_witness:
  "\<exists>s' n t. handle_cmd_start_wifi_scan driver0 (wm0 (Some []) {}) = Some s' \<and> n \<le> 13
    \<and> scan_rounds driver0 n s' = Some t \<and> scan_over False t"
  using scan_terminates [of "wm0 (Some []) {}" driver0] by (simp add: concrete last_channel_def)

lemma restart_refused_witness:
  "\<exists>u. manager_start driver0 True True False True default0 (task_end (wm0 (Some []) {IS_WORKING})) = Some (False, u)
    \<and> \<not> is_working u \<and> ms_queue u = None"
  by (rule restart_refused) (simp_all add: concrete)

lemma second_start_clears_working_witness:
  "\<exists>t u. manager_start driver0 True True False True default0 ((wm0 (Some []) {IS_WORKING, SCAN_BIT})\<lparr>wm_scan_timer := True\<rparr>)
      = Some (False, t)
    \<and> wm_scan_timer t \<and> manager_start driver0 True True False True default0 t = Some (False, u) \<and> \<not> wm_scan_timer u"
  using second_start_clears_working [of driver0 "(wm0 (Some []) {IS_WORKING, SCAN_BIT})\<lparr>wm_scan_timer := True\<rparr>" True False True default0]
  by (simp add: concrete is_working_def) blast

lemma wps_credentials_dropped_witness:
  "\<exists>s'. event_handler driver0 (WIFI_EVENT_STA_WPS_ER_SUCCESS (Some (2, ''home'', ''secret''))) (wm0 (Some []) {}) = Some s'
    \<and> wm_cfg s' = wm_cfg (wm0 (Some []) {}) \<and> ms_queue s' = ms_queue (wm0 (Some []) {}) \<and> wm_heap s' = wm_heap (wm0 (Some []) {}) + 1"
  by (rule wps_credentials_dropped) (simp_all add: driver0_def)

end
