(* ===== verification/System.thy ===== *)
theory System
  imports Tasks WifiProps
begin

text \<open>
  The HTTP server and the Wi-Fi manager together: the calls a request makes
  (\<open>HandleReq\<close>) are carried out on the state of the manager (\<open>WifiTask\<close>), whose task then
  handles the messages they have left in its queue (\<open>WifiMgr\<close>).
\<close>

section \<open>Carrying out the calls of a request\<close>

fun perform :: "action \<Rightarrow> wm \<Rightarrow> wm option" where
  "perform ActScan s = map_option snd (scan_sync_begin s)"
| "perform ActStatusRequested s = Some s"
| "perform ActDnsServerStop s = Some s"
| "perform ActDisableWps s = manager_disable_wps s"
| "perform ActReasonUserDisconnect s = Some (upd_info json_network_info_set_reason_user_disconnect s)"
| "perform ActDisconnectEth s = manager_disconnect_eth s"
| "perform ActDisconnectWifi s = manager_disconnect_wifi s"
| "perform ActConnectEth s = map_option snd (msg_send_cmd_connect_eth s)"
| "perform (ActSetSsidPassword ssid p_password) s = Some (s\<lparr>wm_cfg := config_sta_set_ssid_and_password ssid p_password (wm_cfg s)\<rparr>)"
| "perform ActNetworkInfoClear s = Some (upd_info json_network_info_clear s)"
| "perform ActConnectAsync s = manager_connect_async s"
| "perform ActEnableWps s = manager_enable_wps s"
| "perform (ActFreeResp r) s = Some s"
| "perform (CbGet file params lan) s = Some s"
| "perform (CbPost file params body lan) s = Some s"
| "perform (CbDelete file params lan) s = Some s"

fun perform_all :: "action list \<Rightarrow> wm \<Rightarrow> wm option" where
  "perform_all [] s = Some s"
| "perform_all (x # xs) s = Option.bind (perform x s) (perform_all xs)"

fun handle_messages :: "driver \<Rightarrow> nat \<Rightarrow> wm \<Rightarrow> wm option" where
  \<comment> \<open>the manager's task handles that many messages, none of which stops it\<close>
  "handle_messages d 0 s = Some s"
| "handle_messages d (Suc n) s =
     (case recv_and_handle_msg d s of Some (False, t) \<Rightarrow> handle_messages d n t | _ \<Rightarrow> None)"

section \<open>Lemmas\<close>

lemma upd_info_run: "f (wm_info s) \<noteq> None \<Longrightarrow> upd_info f s = s\<lparr>wm_info := the (f (wm_info s))\<rparr>"
  by (auto simp: upd_info_def)

lemma info_total: "json_network_info_clear i \<noteq> None" "json_network_info_set_reason_user_disconnect i \<noteq> None"
  by (simp_all add: json_network_info_clear_def json_network_info_set_reason_user_disconnect_def do_action_def
      do_action_with_timeout_def given_def)

lemma reason_user_disconnect:
  "ni_reason (the (json_network_info_set_reason_user_disconnect i)) = UPDATE_USER_DISCONNECT"
  by (simp add: json_network_info_set_reason_user_disconnect_def do_action_def do_action_with_timeout_def given_def)

lemma recv_first:
  "ms_queue s = Some (m # q) \<Longrightarrow> recv_and_handle_msg d s =
     map_option (\<lambda>(stop, call_cb, t). (stop, after_callback m call_cb t)) (handle_msg d m (s\<lparr>ms_queue := Some q\<rparr>))"
  by (cases "handle_msg d m (s\<lparr>ms_queue := Some q\<rparr>)")
    (auto simp: recv_and_handle_msg_def msg_recv_def after_callback_def)

section \<open>Properties\<close>

lemma perform_connect:
  assumes "ms_queue m = Some []"
  shows "\<exists>m1. perform_all [ActSetSsidPassword ssid p, ActNetworkInfoClear, ActConnectAsync] m = Some m1
    \<and> ms_queue m1 = Some [\<lparr>msg_code = ORDER_CONNECT_STA, msg_param = ParamConnReq CONNECTION_REQUEST_USER\<rparr>]
    \<and> ms_ev m1 = ms_ev m \<union> {CMD_STA_CONNECT_BIT} \<and> wm_log m1 = wm_log m
    \<and> wm_cfg m1 = config_sta_set_ssid_and_password ssid p (wm_cfg m)"
  using assms
  by (simp add: upd_info_run info_total manager_connect_async_def step_defs msg_send_def msg_send_with_timeout_def
      set_bits_def QUEUE_LENGTH_def)

lemma connect_order_run:
  assumes "ms_queue m = Some [\<lparr>msg_code = ORDER_CONNECT_STA, msg_param = ParamConnReq CONNECTION_REQUEST_USER\<rparr>]"
    and "STA_ACTIVE_BIT \<notin> ms_ev m" "\<And>l conf. d_ok d l (EspSetConfigSta conf)"
  shows "\<exists>m2 rest. handle_messages d 1 m = Some m2
    \<and> wm_log m2 = wm_log m @ [EspSetConfigSta (config_sta_get_config (wm_cfg m)), EspConnect] @ rest
    \<and> STA_ACTIVE_BIT \<in> ms_ev m2 \<and> REQUEST_STA_CONNECT_BIT \<in> ms_ev m2"
  using assms
  by (auto simp: recv_first handle_msg_def handle_cmd_connect_sta_def conv_param_to_conn_req_def conn_req_bits_def
      set_bits_def clear_bits_def esp_def log_def callback_def after_callback_def Let_def)

lemma perform_disconnect:
  assumes "ms_queue m = Some []"
  shows "\<exists>m1. perform_all [ActDnsServerStop, ActDisableWps, ActReasonUserDisconnect, ActDisconnectWifi] m = Some m1
    \<and> ms_queue m1 = Some [\<lparr>msg_code = ORDER_DISABLE_WPS, msg_param = ParamNone\<rparr>, \<lparr>msg_code = ORDER_DISCONNECT_STA, msg_param = ParamNone\<rparr>]
    \<and> ms_ev m1 = ms_ev m \<and> ni_reason (wm_info m1) = UPDATE_USER_DISCONNECT"
  using assms
  by (simp add: upd_info_run info_total reason_user_disconnect manager_disable_wps_def manager_disconnect_wifi_def step_defs
      msg_send_def msg_send_with_timeout_def QUEUE_LENGTH_def)

lemma disconnect_order_run:
  assumes "ms_queue m = Some [\<lparr>msg_code = ORDER_DISABLE_WPS, msg_param = ParamNone\<rparr>, \<lparr>msg_code = ORDER_DISCONNECT_STA, msg_param = ParamNone\<rparr>]"
    and "REQUEST_STA_CONNECT_BIT \<notin> ms_ev m"
  shows "\<exists>m2. handle_messages d 2 m = Some m2 \<and> ms_queue m2 = Some [] \<and> wm_info m2 = wm_info m
    \<and> EspDisconnect \<in> set (wm_log m2) \<and> ms_ev m2 = ms_ev m - {STA_ACTIVE_BIT, REQUEST_DISCONNECT_BIT}"
  using assms
  by (auto simp: numeral_2_eq_2 recv_first handle_msg_def handle_cmd_disable_wps_def handle_cmd_disconnect_sta_def
      stop_timer_reconnect_sta_after_timeout_def
      set_bits_def clear_bits_def esp_def log_def callback_def after_callback_def Let_def)

lemma update_reason_run:
  "ni_reason (wm_info (update_network_connection_info d reason ssid ip dhcp s)) = reason"
  by (auto simp: update_network_connection_info_def Let_def upd_info_def json_network_info_update_def do_action_def
      do_action_with_timeout_def given_def info_do_update_def split: prod.splits option.splits)

lemma lost_event_run:
  assumes "ms_queue m = Some []" "REQUEST_STA_CONNECT_BIT \<notin> ms_ev m" "REQUEST_DISCONNECT_BIT \<notin> ms_ev m"
  shows "\<exists>m1 m2. event_handler d (WIFI_EVENT_STA_DISCONNECTED reason) m = Some m1 \<and> handle_messages d 1 m1 = Some m2
    \<and> ni_reason (wm_info m2) = UPDATE_LOST_CONNECTION"
  using assms
  by (auto simp: event_handler_def step_defs msg_send_def msg_send_with_timeout_def QUEUE_LENGTH_def recv_first handle_msg_def
      handle_ev_sta_disconnected_def disconnected_outcome_def clear_bits_def Let_def update_reason_run after_callback_def
      callback_def log_def)

section \<open>Properties\<close>

text \<open>
  C15: a user who asks for a network from the access point side gets it tried: the accepted
  request leaves a message, and the manager's task, which is idle and not connected, hands the
  driver the name and the password of the request and tells it to connect, if the request has made its calls before the task goes on.
\<close>

theorem web_connect_reaches_driver:
  assumes "\<not> rp_lan q" "v_cmd (rp_req q) = ''POST''" "req_path q = ''connect.json''" "\<not> flag_encrypted q"
    and "length (v_body (rp_req q)) \<le> 8192"
    and "cjson_parse e (v_body (rp_req q)) = Some root" "root ''ssid'' = Some (Some ssid)" "root ''password'' = Some (Some password)"
    and "length ssid < MAX_SSID_SIZE" "length password < MAX_PASSWORD_SIZE"
    and "ms_queue m = Some []" "STA_ACTIVE_BIT \<notin> ms_ev m" "\<And>l conf. d_ok d l (EspSetConfigSta conf)"
  shows "\<exists>r s' m1 m2 conf rest. handle_req e c a q s = Some (r, s') \<and> resp_code r = 200
    \<and> perform_all (drop (length (sv_acts s)) (sv_acts s')) m = Some m1 \<and> handle_messages d 1 m1 = Some m2
    \<and> wm_log m2 = wm_log m @ [EspSetConfigSta conf, EspConnect] @ rest
    \<and> stc_ssid conf = ssid \<and> stc_password conf = password \<and> STA_ACTIVE_BIT \<in> ms_ev m2 \<and> REQUEST_STA_CONNECT_BIT \<in> ms_ev m2"
proof -
  from connect_request_run [OF assms(1-5), of e c a s] assms(6-10) obtain w where
    run: "handle_req e c a q s = Some (resp_200_json ''{}'',
      act [ActSetSsidPassword ssid (Some password), ActNetworkInfoClear, ActConnectAsync] (s\<lparr>sv_web := w\<rparr>))"
    by (auto simp: post_connect_json_run connect_actions_def)
  from perform_connect [OF assms(11), of ssid "Some password"] obtain m1 where
    m1: "perform_all [ActSetSsidPassword ssid (Some password), ActNetworkInfoClear, ActConnectAsync] m = Some m1"
      "ms_queue m1 = Some [\<lparr>msg_code = ORDER_CONNECT_STA, msg_param = ParamConnReq CONNECTION_REQUEST_USER\<rparr>]"
      "ms_ev m1 = ms_ev m \<union> {CMD_STA_CONNECT_BIT}" "wm_log m1 = wm_log m"
      "wm_cfg m1 = config_sta_set_ssid_and_password ssid (Some password) (wm_cfg m)" by blast
  let ?conf = "config_sta_get_config (wm_cfg m1)"
  have "stc_ssid ?conf = ssid" "stc_password ?conf = password"
    using assms(9,10) m1(5) by (simp_all add: config_sta_get_config_def config_sta_set_ssid_and_password_def
        MAX_SSID_SIZE_def MAX_PASSWORD_SIZE_def SSID_BUF_SIZE_def PASSWORD_BUF_SIZE_def snprintf_s_def upd_sta_wifi_def)
  moreover from connect_order_run [OF m1(2) _ assms(13)] assms(12) m1(3) obtain m2 rest where
    "handle_messages d 1 m1 = Some m2" "wm_log m2 = wm_log m @ [EspSetConfigSta ?conf, EspConnect] @ rest"
    "STA_ACTIVE_BIT \<in> ms_ev m2" "REQUEST_STA_CONNECT_BIT \<in> ms_ev m2" using m1(4) by auto
  ultimately show ?thesis using run m1(1) by (auto simp: act_def simp del: handle_messages.simps perform_all.simps)
qed

lemma web_connect_reaches_driver_witness:
  "\<exists>r s' m1 m2 conf rest. handle_req env_wifi crypto0 app0 (request ''POST'' ''/connect.json'' [] ''{}'' False) server1 = Some (r, s')
    \<and> resp_code r = 200 \<and> perform_all (drop (length (sv_acts server1)) (sv_acts s')) (wm0 (Some []) {IS_WORKING}) = Some m1
    \<and> handle_messages driver0 1 m1 = Some m2
    \<and> wm_log m2 = wm_log (wm0 (Some []) {IS_WORKING}) @ [EspSetConfigSta conf, EspConnect] @ rest
    \<and> stc_ssid conf = ''work'' \<and> stc_password conf = ''secret'' \<and> STA_ACTIVE_BIT \<in> ms_ev m2 \<and> REQUEST_STA_CONNECT_BIT \<in> ms_ev m2"
proof (rule web_connect_reaches_driver [where root = "the (cjson_parse env_wifi [])"])
  show "\<not> flag_encrypted (request ''POST'' ''/connect.json'' [] ''{}'' False)" by code_simp
qed (simp_all add: request_def req_path_def env_wifi_def concrete MAX_SSID_SIZE_def MAX_PASSWORD_SIZE_def)

text \<open>
  A user who disconnects from the access point side is told so only until the driver
  confirms it: the request sets the reason ``user disconnect'', the manager then handles the two
  messages of the request, and the event of the driver is recorded as a lost connection.
\<close>

theorem web_disconnect_reported_as_lost:
  assumes "\<not> rp_lan q" "v_cmd (rp_req q) = ''DELETE''" "req_path q = ''connect.json''" "\<not> app_eth_connected a"
    and "ms_queue m = Some []" "REQUEST_STA_CONNECT_BIT \<notin> ms_ev m"
  shows "\<exists>r s' m1 m2 m3 m4. handle_req e c a q s = Some (r, s') \<and> resp_code r = 200
    \<and> perform_all (drop (length (sv_acts s)) (sv_acts s')) m = Some m1 \<and> ni_reason (wm_info m1) = UPDATE_USER_DISCONNECT
    \<and> handle_messages d 2 m1 = Some m2 \<and> EspDisconnect \<in> set (wm_log m2) \<and> ni_reason (wm_info m2) = UPDATE_USER_DISCONNECT
    \<and> event_handler d (WIFI_EVENT_STA_DISCONNECTED reason) m2 = Some m3
    \<and> handle_messages d 1 m3 = Some m4 \<and> ni_reason (wm_info m4) = UPDATE_LOST_CONNECTION"
proof -
  from disconnect_request_run [OF assms(1-3), of e c a s] assms(1,4) obtain w where
    run: "handle_req e c a q s = Some (resp_200_json ''{}'',
      act [ActDnsServerStop, ActDisableWps, ActReasonUserDisconnect, ActDisconnectWifi] (s\<lparr>sv_web := w\<rparr>))"
    by (auto simp: delete_connect_json_def)
  from perform_disconnect [OF assms(5)] obtain m1 where
    m1: "perform_all [ActDnsServerStop, ActDisableWps, ActReasonUserDisconnect, ActDisconnectWifi] m = Some m1"
      "ms_queue m1 = Some [\<lparr>msg_code = ORDER_DISABLE_WPS, msg_param = ParamNone\<rparr>, \<lparr>msg_code = ORDER_DISCONNECT_STA, msg_param = ParamNone\<rparr>]"
      "ms_ev m1 = ms_ev m" "ni_reason (wm_info m1) = UPDATE_USER_DISCONNECT" by blast
  from disconnect_order_run [OF m1(2), of d] assms(6) m1(3) obtain m2 where
    m2: "handle_messages d 2 m1 = Some m2" "ms_queue m2 = Some []" "wm_info m2 = wm_info m1"
      "EspDisconnect \<in> set (wm_log m2)" "ms_ev m2 = ms_ev m - {STA_ACTIVE_BIT, REQUEST_DISCONNECT_BIT}" by auto
  from lost_event_run [OF m2(2), of d reason] assms(6) m2(5) obtain m3 m4 where
    "event_handler d (WIFI_EVENT_STA_DISCONNECTED reason) m2 = Some m3" "handle_messages d 1 m3 = Some m4"
    "ni_reason (wm_info m4) = UPDATE_LOST_CONNECTION" by auto
  with run m1 m2 show ?thesis by (auto simp: act_def simp del: handle_messages.simps perform_all.simps)
qed

lemma web_disconnect_reported_as_lost_witness:
  "\<exists>r s' m1 m2 m3 m4. handle_req env0 crypto0 app0 (request ''DELETE'' ''/connect.json'' [] [] False) server1 = Some (r, s')
    \<and> resp_code r = 200
    \<and> perform_all (drop (length (sv_acts server1)) (sv_acts s')) (wm0 (Some []) {STA_ACTIVE_BIT, WIFI_CONNECTED_BIT}) = Some m1
    \<and> ni_reason (wm_info m1) = UPDATE_USER_DISCONNECT
    \<and> handle_messages driver0 2 m1 = Some m2 \<and> EspDisconnect \<in> set (wm_log m2) \<and> ni_reason (wm_info m2) = UPDATE_USER_DISCONNECT
    \<and> event_handler driver0 (WIFI_EVENT_STA_DISCONNECTED REASON_ASSOC_LEAVE) m2 = Some m3
    \<and> handle_messages driver0 1 m3 = Some m4 \<and> ni_reason (wm_info m4) = UPDATE_LOST_CONNECTION"
  by (rule web_disconnect_reported_as_lost) (simp_all add: request_def req_path_def app0_def concrete)

end
