(* ===== verification/Mutex.thy ===== *)
theory Mutex
  imports Prelude "HOL-Library.Multiset"
begin

text \<open>
  Tasks that share data under one mutex of the operating system, step by step: what a task does
  between two switches is one instruction of its program, and a switch can happen between any
  two. The mutexes of the status record, of the configuration and of the station's address are
  plain ones; the mutex of the Wi-Fi manager is recursive (\<open>ManagerLock\<close>).

  A call into a component that keeps its data under a plain mutex is a list of writes followed
  by a read, all between the lock and the unlock (\<open>call\<close>). The locale \<open>atomic_object\<close> states what
  such calls promise: each has the effect of one step of the component's sequential model. Its
  lemmas show that every execution of tasks that make such calls ends, and that its outcome is
  the one of the calls made one after the other in some order. Sequential models of the components
  (\<open>NetInfo\<close>, \<open>Config\<close>) therefore say all about their concurrent use.
\<close>

section \<open>Programs and their steps\<close>

datatype ('s, 'a) prog =
    Return 'a
  | Lock "('s, 'a) prog"
  | Unlock "('s, 'a) prog"
  | LockFor "('s, 'a) prog" "('s, 'a) prog" \<comment> \<open>with a limit of time: the mutex was taken, or was not\<close>
  | Step "'s \<Rightarrow> bool" "'s \<Rightarrow> 's" "'s \<Rightarrow> ('s, 'a) prog"
      \<comment> \<open>waits for the guard; the continuation may depend on the state before the step\<close>

record ('s, 'a) sys =
  sy_owner :: "(nat \<times> nat) option" \<comment> \<open>the task that holds the mutex, and how often\<close>
  sy_state :: 's
  sy_tasks :: "('s, 'a) prog list"

definition free_for :: "bool \<Rightarrow> nat \<Rightarrow> (nat \<times> nat) option \<Rightarrow> bool" where
  \<comment> \<open>a recursive mutex can be taken again by its owner\<close>
  "free_for recursive i owner = (case owner of None \<Rightarrow> True | Some (j, _) \<Rightarrow> recursive \<and> j = i)"

definition taken :: "nat \<Rightarrow> (nat \<times> nat) option \<Rightarrow> (nat \<times> nat) option" where
  "taken i owner = Some (i, case owner of None \<Rightarrow> 1 | Some (_, n) \<Rightarrow> n + 1)"

definition prog_step ::
  "bool \<Rightarrow> nat \<Rightarrow> ('s, 'a) prog \<Rightarrow> (nat \<times> nat) option \<Rightarrow> 's \<Rightarrow> ((nat \<times> nat) option \<times> 's \<times> ('s, 'a) prog) option" where
  \<comment> \<open>\<open>None\<close>: the task has returned, or it waits\<close>
  "prog_step recursive i p owner s =
     (case p of
        Return a \<Rightarrow> None
      | Lock q \<Rightarrow> if free_for recursive i owner then Some (taken i owner, s, q) else None
      | LockFor q q' \<Rightarrow> if free_for recursive i owner then Some (taken i owner, s, q) else Some (owner, s, q')
      | Unlock q \<Rightarrow>
          (case owner of
             Some (j, n) \<Rightarrow> if j = i then Some (if n \<le> 1 then None else Some (i, n - 1), s, q) else None
           | None \<Rightarrow> None)
      | Step g f k \<Rightarrow> if g s then Some (owner, f s, k s) else None)"

definition task_step :: "bool \<Rightarrow> nat \<Rightarrow> ('s, 'a) sys \<Rightarrow> ('s, 'a) sys option" where
  "task_step recursive i y =
     (if i < length (sy_tasks y)
      then map_option (\<lambda>(owner, s, p). \<lparr>sy_owner = owner, sy_state = s, sy_tasks = (sy_tasks y)[i := p]\<rparr>)
             (prog_step recursive i (sy_tasks y ! i) (sy_owner y) (sy_state y))
      else None)"

inductive sys_step :: "bool \<Rightarrow> ('s, 'a) sys \<Rightarrow> ('s, 'a) sys \<Rightarrow> bool" for recursive where
  Task: "sys_step recursive y y'" if "task_step recursive i y = Some y'"

abbreviation sys_steps :: "bool \<Rightarrow> ('s, 'a) sys \<Rightarrow> ('s, 'a) sys \<Rightarrow> bool" where
  "sys_steps recursive \<equiv> (sys_step recursive)\<^sup>*\<^sup>*"

fun schedule :: "bool \<Rightarrow> nat list \<Rightarrow> ('s, 'a) sys \<Rightarrow> ('s, 'a) sys option" where
  \<comment> \<open>the execution in which the tasks take their steps in this order\<close>
  "schedule recursive [] y = Some y"
| "schedule recursive (i # is) y = Option.bind (task_step recursive i y) (schedule recursive is)"

lemma schedule_steps: "schedule recursive is y = Some y' \<Longrightarrow> sys_steps recursive y y'"
proof (induction "is" arbitrary: y)
  case (Cons i "is")
  then obtain z where "task_step recursive i y = Some z" "schedule recursive is z = Some y'"
    by (auto split: Option.bind_splits)
  with Cons.IH show ?case by (meson Task converse_rtranclp_into_rtranclp)
qed simp

lemma step_then: "task_step recursive i y = Some z \<Longrightarrow> sys_steps recursive z z' \<Longrightarrow> sys_steps recursive y z'"
  by (meson sys_step.Task converse_rtranclp_into_rtranclp)

definition returned :: "('s, 'a) prog \<Rightarrow> bool" where
  "returned p = (case p of Return a \<Rightarrow> True | _ \<Rightarrow> False)"

subsection \<open>Every execution ends\<close>

inductive next_of :: "('s, 'a) prog \<Rightarrow> ('s, 'a) prog \<Rightarrow> bool" where
  "next_of q (Lock q)" | "next_of q (Unlock q)" | "next_of q (LockFor q q')" | "next_of q' (LockFor q q')"
| "next_of (k s) (Step g f k)"

inductive_cases next_of_cases [elim!]:
  "next_of p (Return a)" "next_of p (Lock q)" "next_of p (Unlock q)" "next_of p (LockFor q q')" "next_of p (Step g f k)"

lemma wf_next_of: "wf {(p, q). next_of p q}"
proof -
  have "p \<in> Wellfounded.acc {(p, q). next_of p q}" for p :: "('a, 'b) prog"
    by (induction p) (auto intro: accI)
  then show ?thesis by (simp add: acc_wfI)
qed

lemma task_step_next:
  assumes "task_step recursive i y = Some y'"
  shows "i < length (sy_tasks y) \<and> (\<exists>p. sy_tasks y' = (sy_tasks y)[i := p] \<and> next_of p (sy_tasks y ! i))"
  using assms
  by (auto simp: task_step_def prog_step_def split: if_splits prog.splits option.splits prod.splits
      intro: next_of.intros)

lemma mult_list_update:
  assumes "i < length xs" "(x, xs ! i) \<in> r" "trans r"
  shows "(mset (xs[i := x]), mset xs) \<in> mult r"
proof -
  have "mset (xs[i := x]) = mset xs - {#xs ! i#} + {#x#}" using assms(1) by (simp add: mset_update)
  moreover have "mset xs = mset xs - {#xs ! i#} + {#xs ! i#}" using assms(1) by simp
  ultimately show ?thesis using assms(2,3)
    by (metis one_step_implies_mult empty_iff insert_iff set_mset_empty set_mset_add_mset_insert
        add_mset_not_empty)
qed

lemma executions_end: "wfp (\<lambda>y' y. sys_step recursive y y')"
proof -
  let ?r = "{(p, q). next_of p q}\<^sup>+"
  have "wf (mult ?r)" by (intro wf_mult wf_trancl wf_next_of)
  then have "wf (inv_image (mult ?r) (\<lambda>y. mset (sy_tasks y)))" by (rule wf_inv_image)
  moreover have "(y', y) \<in> inv_image (mult ?r) (\<lambda>y. mset (sy_tasks y))" if "sys_step recursive y y'" for y y' :: "('a, 'b) sys"
    using that
  proof cases
    case (Task i)
    from task_step_next [OF this] obtain p where
      p: "i < length (sy_tasks y)" "sy_tasks y' = (sy_tasks y)[i := p]" "next_of p (sy_tasks y ! i)" by blast
    then show ?thesis using mult_list_update [OF p(1), of p ?r] by auto
  qed
  ultimately show ?thesis unfolding wfp_def by (auto intro: wf_subset)
qed

definition ends_with :: "bool \<Rightarrow> ('s, 'a) sys \<Rightarrow> (('s, 'a) sys \<Rightarrow> bool) \<Rightarrow> bool" where
  \<comment> \<open>however the tasks are scheduled, the execution ends, and it ends like this\<close>
  "ends_with recursive y P \<longleftrightarrow>
     (\<nexists>e. e 0 = y \<and> (\<forall>n. sys_step recursive (e n) (e (Suc n))))
     \<and> (\<forall>y'. sys_steps recursive y y' \<and> (\<nexists>y''. sys_step recursive y' y'') \<longrightarrow> P y')"

lemma no_endless_execution: "\<nexists>e. e 0 = y \<and> (\<forall>n. sys_step recursive (e n) (e (Suc n)))"
  using executions_end [of recursive] unfolding wfp_def wf_iff_no_infinite_down_chain by blast

lemma ends_withI:
  assumes "\<And>y'. sys_steps recursive y y' \<Longrightarrow> \<nexists>y''. sys_step recursive y' y'' \<Longrightarrow> P y'"
  shows "ends_with recursive y P"
  unfolding ends_with_def using assms no_endless_execution by blast

lemma ends_with_some:
  assumes "ends_with recursive y P"
  shows "\<exists>y'. sys_steps recursive y y' \<and> P y'"
proof -
  have "\<exists>y'. sys_steps recursive x y' \<and> (\<nexists>y''. sys_step recursive y' y'')" for x :: "('a, 'b) sys"
    using executions_end [of recursive]
  proof (induction x rule: wfp_induct_rule)
    case (less x)
    show ?case
    proof (cases "\<exists>z. sys_step recursive x z")
      case True
      with less show ?thesis by (meson converse_rtranclp_into_rtranclp)
    qed auto
  qed
  with assms show ?thesis unfolding ends_with_def by blast
qed

section \<open>Sections under a plain mutex\<close>

primrec guarded :: "('s, 'a) prog \<Rightarrow> nat \<Rightarrow> bool" where
  \<comment> \<open>works on the data only while it holds the mutex, takes it once, never waits in between, releases it\<close>
  "guarded (Return a) = (\<lambda>n. n = 0)"
| "guarded (Lock p) = (\<lambda>n. n = 0 \<and> guarded p 1)"
| "guarded (Unlock p) = (\<lambda>n. n = 1 \<and> guarded p 0)"
| "guarded (LockFor p q) = (\<lambda>n. n = 0 \<and> guarded p 1 \<and> guarded q 0)"
| "guarded (Step g f k) = (\<lambda>n. n = 1 \<and> (\<forall>s. g s \<and> guarded (k s) 1))"

definition held :: "(nat \<times> nat) option \<Rightarrow> nat \<Rightarrow> nat" where
  "held owner i = (case owner of Some (j, n) \<Rightarrow> if j = i then n else 0 | None \<Rightarrow> 0)"

definition guarded_sys :: "('s, 'a) sys \<Rightarrow> bool" where
  "guarded_sys y \<longleftrightarrow> (\<forall>i<length (sy_tasks y). guarded (sy_tasks y ! i) (held (sy_owner y) i))
     \<and> (case sy_owner y of None \<Rightarrow> True | Some (i, n) \<Rightarrow> i < length (sy_tasks y) \<and> n = 1)"

primrec section_end :: "('s, 'a) prog \<Rightarrow> 's \<Rightarrow> ('s \<times> ('s, 'a) prog) option" where
  \<comment> \<open>the rest of a section without a switch\<close>
  "section_end (Return a) = (\<lambda>s. None)"
| "section_end (Lock p) = (\<lambda>s. None)"
| "section_end (Unlock p) = (\<lambda>s. Some (s, p))"
| "section_end (LockFor p q) = (\<lambda>s. None)"
| "section_end (Step g f k) = (\<lambda>s. section_end (k s) (f s))"

inductive enters :: "('s, 'a) prog \<Rightarrow> ('s, 'a) prog \<Rightarrow> bool" where
  "enters (Lock p) p" | "enters (LockFor p q) p"

inductive atomic_step :: "('s, 'a) sys \<Rightarrow> ('s, 'a) sys \<Rightarrow> bool" where
  Section: "atomic_step y (y\<lparr>sy_state := s, sy_tasks := (sy_tasks y)[i := q]\<rparr>)"
    if "i < length (sy_tasks y)" "enters (sy_tasks y ! i) p" "section_end p (sy_state y) = Some (s, q)"
| Late: "atomic_step y (y\<lparr>sy_tasks := (sy_tasks y)[i := q]\<rparr>)"
    if "i < length (sy_tasks y)" "sy_tasks y ! i = LockFor p q"

definition behind :: "('s, 'a) sys \<Rightarrow> ('s, 'a) sys \<Rightarrow> bool" where
  \<comment> \<open>\<open>z\<close> is \<open>y\<close> before the section that is under way\<close>
  "behind z y \<longleftrightarrow> sy_owner z = None \<and>
     (case sy_owner y of
        None \<Rightarrow> z = y
      | Some (i, _) \<Rightarrow> i < length (sy_tasks z) \<and> sy_tasks y = (sy_tasks z)[i := sy_tasks y ! i]
          \<and> (\<exists>p. enters (sy_tasks z ! i) p \<and> section_end p (sy_state z) = section_end (sy_tasks y ! i) (sy_state y)))"

lemma guarded_step:
  assumes "guarded_sys y" "task_step False i y = Some y'"
  shows "guarded_sys y'"
proof -
  have i: "i < length (sy_tasks y)" "guarded (sy_tasks y ! i) (held (sy_owner y) i)"
    using assms by (auto simp: guarded_sys_def task_step_def split: if_splits)
  show ?thesis
    using assms i
    by (cases "sy_owner y"; cases "sy_tasks y ! i")
      (auto simp: guarded_sys_def task_step_def prog_step_def held_def free_for_def taken_def nth_list_update
        split: if_splits)
qed

lemma behind_held:
  assumes "guarded_sys y" "behind z y" "sy_owner y = Some (j, n)"
  obtains p where "n = 1" "sy_owner z = None" "j < length (sy_tasks z)" "sy_tasks y = (sy_tasks z)[j := sy_tasks y ! j]"
    "enters (sy_tasks z ! j) p" "section_end p (sy_state z) = section_end (sy_tasks y ! j) (sy_state y)"
  using assms by (auto simp: behind_def guarded_sys_def)

lemma behind_own_step:
  assumes "guarded_sys y" "behind z y" "sy_owner y = Some (i, n)" "task_step False i y = Some y'"
  shows "\<exists>z'. atomic_step\<^sup>*\<^sup>* z z' \<and> behind z' y'"
proof -
  obtain p where z: "n = 1" "sy_owner z = None" "i < length (sy_tasks z)" "sy_tasks y = (sy_tasks z)[i := sy_tasks y ! i]"
    "enters (sy_tasks z ! i) p" "section_end p (sy_state z) = section_end (sy_tasks y ! i) (sy_state y)"
    by (rule behind_held [OF assms(1-3)])
  have i: "i < length (sy_tasks y)" "guarded (sy_tasks y ! i) 1"
    using assms(1,3) z(1) by (auto simp: guarded_sys_def held_def)
  show ?thesis
  proof (cases "sy_tasks y ! i")
    case (Unlock q)
    have "atomic_step z (z\<lparr>sy_state := sy_state y, sy_tasks := (sy_tasks z)[i := q]\<rparr>)"
      using z Unlock by (intro atomic_step.Section) auto
    moreover have "y' = z\<lparr>sy_state := sy_state y, sy_tasks := (sy_tasks z)[i := q]\<rparr>"
      using assms(3,4) Unlock z(1-3) arg_cong [OF z(4), of "\<lambda>l. l[i := q]"]
      by (cases z) (auto simp: task_step_def prog_step_def split: if_splits)
    ultimately show ?thesis using z(2) by (auto simp: behind_def)
  next
    case (Step g f k)
    then have "behind z y'"
      using assms(3,4) z i arg_cong [OF z(4), of "\<lambda>l. l[i := k (sy_state y)]"]
      by (auto simp: behind_def task_step_def prog_step_def split: if_splits)
    then show ?thesis by auto
  qed (use i in auto)
qed

lemma behind_other_step:
  assumes "guarded_sys y" "behind z y" "sy_owner y = Some (j, n)" "task_step False i y = Some y'" "i \<noteq> j"
  shows "\<exists>z'. atomic_step\<^sup>*\<^sup>* z z' \<and> behind z' y'"
proof -
  obtain p where z: "n = 1" "sy_owner z = None" "j < length (sy_tasks z)" "sy_tasks y = (sy_tasks z)[j := sy_tasks y ! j]"
    "enters (sy_tasks z ! j) p" "section_end p (sy_state z) = section_end (sy_tasks y ! j) (sy_state y)"
    by (rule behind_held [OF assms(1-3)])
  have i: "i < length (sy_tasks y)" "guarded (sy_tasks y ! i) 0"
    using assms by (auto simp: guarded_sys_def held_def task_step_def split: if_splits)
  then obtain q q' where late: "sy_tasks y ! i = LockFor q q'"
    using assms(3-5) by (cases "sy_tasks y ! i") (auto simp: task_step_def prog_step_def free_for_def)
  have zi: "sy_tasks z ! i = LockFor q q'" "length (sy_tasks z) = length (sy_tasks y)"
    using z(4) late assms(5) by (metis nth_list_update_neq, metis length_list_update)
  then have "atomic_step z (z\<lparr>sy_tasks := (sy_tasks z)[i := q']\<rparr>)" using i(1) by (auto intro: atomic_step.Late)
  moreover have "behind (z\<lparr>sy_tasks := (sy_tasks z)[i := q']\<rparr>) y'"
  proof -
    have y': "y' = y\<lparr>sy_tasks := (sy_tasks y)[i := q']\<rparr>"
      using assms(3-5) late i(1) by (cases y) (simp add: task_step_def prog_step_def free_for_def)
    have "(sy_tasks y)[i := q'] = (sy_tasks z)[i := q', j := sy_tasks y ! j]"
      by (metis z(4) assms(5) list_update_swap)
    with y' assms(3,5) z(1-3,5,6) show ?thesis by (auto simp: behind_def)
  qed
  ultimately show ?thesis by blast
qed

lemma behind_step:
  assumes "guarded_sys y" "task_step False i y = Some y'" "behind z y"
  shows "\<exists>z'. atomic_step\<^sup>*\<^sup>* z z' \<and> behind z' y'"
proof (cases "sy_owner y")
  case None
  have "i < length (sy_tasks y)" "guarded (sy_tasks y ! i) (held (sy_owner y) i)"
    using assms by (auto simp: guarded_sys_def task_step_def split: if_splits)
  with None assms(2,3) show ?thesis
    by (cases "sy_tasks y ! i")
      (auto simp: task_step_def prog_step_def held_def free_for_def taken_def behind_def intro!: exI [of _ y] enters.intros)
next
  case (Some o')
  then obtain j n where j: "sy_owner y = Some (j, n)" by (cases o') auto
  show ?thesis
  proof (cases "i = j")
    case True
    with j show ?thesis using behind_own_step [OF assms(1,3) _ assms(2)] by blast
  next
    case False
    with j show ?thesis using behind_other_step [OF assms(1,3) _ assms(2)] by blast
  qed
qed

lemma sections_atomic:
  assumes "guarded_sys y" "sy_owner y = None" "sys_steps False y y'"
  shows "guarded_sys y' \<and> (\<exists>z. atomic_step\<^sup>*\<^sup>* y z \<and> behind z y')"
  using assms(3)
proof (induction rule: rtranclp_induct)
  case base
  show ?case using assms(1,2) by (auto simp: behind_def)
next
  case (step u v)
  then obtain z i where "atomic_step\<^sup>*\<^sup>* y z" "behind z u" "guarded_sys u" "task_step False i u = Some v"
    by (auto elim: sys_step.cases)
  then show ?case using guarded_step behind_step by (meson rtranclp_trans)
qed

lemma stuck_step:
  assumes "\<nexists>y'. sys_step recursive y y'" "i < length (sy_tasks y)"
  shows "prog_step recursive i (sy_tasks y ! i) (sy_owner y) (sy_state y) = None"
proof (cases "task_step recursive i y")
  case None
  with assms(2) show ?thesis by (simp add: task_step_def)
next
  case (Some y')
  with assms(1) show ?thesis by (meson sys_step.Task)
qed

lemma guarded_progress:
  assumes "guarded_sys y" "\<nexists>y'. sys_step False y y'"
  shows "sy_owner y = None \<and> list_all returned (sy_tasks y)"
proof -
  note stuck = stuck_step [OF assms(2)]
  have none: "sy_owner y = None"
  proof (rule ccontr)
    assume "sy_owner y \<noteq> None"
    then obtain i where i: "sy_owner y = Some (i, 1)" "i < length (sy_tasks y)"
      using assms(1) by (auto simp: guarded_sys_def)
    with assms(1) have "guarded (sy_tasks y ! i) 1" by (auto simp: guarded_sys_def held_def)
    with stuck [OF i(2)] i(1) show False by (cases "sy_tasks y ! i") (auto simp: prog_step_def)
  qed
  have "returned (sy_tasks y ! i)" if "i < length (sy_tasks y)" for i
  proof -
    from assms(1) that none have "guarded (sy_tasks y ! i) 0" by (auto simp: guarded_sys_def held_def)
    with stuck [OF that] none show ?thesis
      by (cases "sy_tasks y ! i") (auto simp: prog_step_def free_for_def returned_def)
  qed
  with none show ?thesis by (simp add: list_all_length)
qed

section \<open>Calls\<close>

record ('s, 'r) call =
  call_writes :: "('s \<Rightarrow> 's) list" \<comment> \<open>one after the other\<close>
  call_result :: "'s \<Rightarrow> 'r"
  call_late :: "'r option" \<comment> \<open>with a limit of time: the result when it has run out\<close>

fun body_prog :: "('s \<Rightarrow> 's) list \<Rightarrow> ('s \<Rightarrow> ('s, 'a) prog) \<Rightarrow> ('s, 'a) prog" where
  "body_prog [] k = Step (\<lambda>_. True) id (\<lambda>s. Unlock (k s))"
| "body_prog (f # fs) k = Step (\<lambda>_. True) f (\<lambda>_. body_prog fs k)"

definition call_prog :: "('s, 'r) call \<Rightarrow> ('r \<Rightarrow> ('s, 'a) prog) \<Rightarrow> ('s, 'a) prog" where
  "call_prog c k =
     (let p = body_prog (call_writes c) (\<lambda>s. k (call_result c s))
      in case call_late c of None \<Rightarrow> Lock p | Some r \<Rightarrow> LockFor p (k r))"

fun calls_prog :: "('s, 'r) call list \<Rightarrow> 'r list \<Rightarrow> ('s, 'r list) prog" where
  "calls_prog [] rs = Return rs"
| "calls_prog (c # cs) rs = call_prog c (\<lambda>r. calls_prog cs (rs @ [r]))"

definition call_system :: "('s, 'r) call list list \<Rightarrow> 's \<Rightarrow> ('s, 'r list) sys" where
  \<comment> \<open>one task for each list of calls\<close>
  "call_system css s = \<lparr>sy_owner = None, sy_state = s, sy_tasks = map (\<lambda>cs. calls_prog cs []) css\<rparr>"

definition by_task :: "nat \<Rightarrow> (nat \<times> 'b) list \<Rightarrow> 'b list" where
  "by_task i xs = map snd (filter (\<lambda>x. fst x = i) xs)"

lemma by_task_append [simp]: "by_task i (xs @ ys) = by_task i xs @ by_task i ys"
  by (simp add: by_task_def)

lemma by_task_simps [simp]: "by_task i [] = []" "by_task i (x # xs) = (if fst x = i then snd x # by_task i xs else by_task i xs)"
  by (simp_all add: by_task_def)

lemma guarded_body: "(\<And>s. guarded (k s) 0) \<Longrightarrow> guarded (body_prog fs k) (Suc 0)"
  by (induction fs) auto

lemma guarded_call: "(\<And>r. guarded (k r) 0) \<Longrightarrow> guarded (call_prog c k) 0"
  by (simp add: call_prog_def Let_def guarded_body split: option.split)

lemma guarded_calls: "guarded (calls_prog cs rs) 0"
  by (induction cs arbitrary: rs) (simp_all add: guarded_call)

lemma guarded_call_system: "guarded_sys (call_system css s)"
  by (simp add: guarded_sys_def call_system_def guarded_calls held_def)

lemma section_end_body: "section_end (body_prog fs k) s = (let t = fold (\<lambda>f. f) fs s in Some (t, k t))"
  by (induction fs arbitrary: s) (auto simp: Let_def)

lemma calls_prog_Return: "calls_prog cs rs = Return v \<Longrightarrow> cs = [] \<and> v = rs"
  by (cases cs) (auto simp: call_prog_def Let_def split: option.splits)

fun in_order ::
  "('o \<Rightarrow> 's \<Rightarrow> 'r \<times> 's) \<Rightarrow> ('o \<Rightarrow> 'r option) \<Rightarrow> (nat \<times> 'o \<times> bool) list \<Rightarrow> 's \<Rightarrow> (nat \<times> 'r) list \<times> 's" where
  \<comment> \<open>operations one after the other, with the tasks that call them and whether the time ran out\<close>
  "in_order apply_op late_result [] s = ([], s)"
| "in_order apply_op late_result ((i, x, out_of_time) # es) s =
     (let (r, t) = (if out_of_time then (the (late_result x), s) else apply_op x s);
          (rs, u) = in_order apply_op late_result es t
      in ((i, r) # rs, u))"

definition one_at_a_time ::
  "('o \<Rightarrow> 's \<Rightarrow> 'r \<times> 's) \<Rightarrow> ('o \<Rightarrow> 'r option) \<Rightarrow> 'o list list \<Rightarrow> 's \<Rightarrow> ('s, 'r list) sys \<Rightarrow> bool" where
  \<comment> \<open>all tasks have returned, with the results of their operations one after the other in some order; only
    an operation with a limit of time can have run out of it\<close>
  "one_at_a_time apply_op late_result oss s y \<longleftrightarrow>
     (\<exists>es. sy_state y = snd (in_order apply_op late_result es s)
        \<and> (\<forall>(i, x, out_of_time)\<in>set es. i < length oss \<and> (out_of_time \<longrightarrow> late_result x \<noteq> None))
        \<and> oss = map (\<lambda>i. map fst (by_task i es)) [0..<length oss]
        \<and> sy_tasks y = map (\<lambda>i. Return (by_task i (fst (in_order apply_op late_result es s)))) [0..<length oss])"

text \<open>What a component with its data under a mutex promises to the tasks that use it.\<close>

locale atomic_object =
  fixes call :: "'o \<Rightarrow> ('s, 'r) call"
    and apply_op :: "'o \<Rightarrow> 's \<Rightarrow> 'r \<times> 's"
    and late_result :: "'o \<Rightarrow> 'r option"
  assumes effect: "fold (\<lambda>f. f) (call_writes (call x)) s = snd (apply_op x s)"
    and result: "call_result (call x) (snd (apply_op x s)) = fst (apply_op x s)"
    and late: "call_late (call x) = late_result x"
begin

definition explains :: "(nat \<times> 'o \<times> bool) list \<Rightarrow> 'o list list \<Rightarrow> 'o list list \<Rightarrow> 's \<Rightarrow> ('s, 'r list) sys \<Rightarrow> bool" where
  \<comment> \<open>the tasks have made the calls of this list, and have these left\<close>
  "explains es oss rest s y \<longleftrightarrow> length rest = length oss \<and> length (sy_tasks y) = length oss
     \<and> (\<forall>(i, x, out_of_time)\<in>set es. i < length oss \<and> (out_of_time \<longrightarrow> late_result x \<noteq> None))
     \<and> sy_state y = snd (in_order apply_op late_result es s)
     \<and> (\<forall>i<length oss. oss ! i = map fst (by_task i es) @ rest ! i
          \<and> sy_tasks y ! i = calls_prog (map call (rest ! i)) (by_task i (fst (in_order apply_op late_result es s))))"

lemma in_order_append:
  "in_order apply_op late_result (es @ es') s = (fst (in_order apply_op late_result es s) @ fst (in_order apply_op late_result es' (snd (in_order apply_op late_result es s))), snd (in_order apply_op late_result es' (snd (in_order apply_op late_result es s))))"
  by (induction es arbitrary: s) (auto simp: Let_def case_prod_beta)

lemma explains_next:
  assumes "explains es oss rest s y" "i < length oss" "rest ! i = x # xs"
    and "if out_of_time then late_result x = Some r \<and> t = sy_state y else (r, t) = apply_op x (sy_state y)"
  shows "explains (es @ [(i, x, out_of_time)]) oss (rest[i := xs]) s
    (y\<lparr>sy_state := t, sy_tasks := (sy_tasks y)[i := calls_prog (map call xs) (by_task i (fst (in_order apply_op late_result es s)) @ [r])]\<rparr>)"
proof -
  let ?es = "es @ [(i, x, out_of_time)]"
  have "in_order apply_op late_result [(i, x, out_of_time)] (sy_state y) = ([(i, r)], t)"
    using assms(4) by (cases out_of_time) (auto simp: Let_def split: prod.splits)
  then have run: "fst (in_order apply_op late_result ?es s) = fst (in_order apply_op late_result es s) @ [(i, r)]" "snd (in_order apply_op late_result ?es s) = t"
    using assms(1) by (simp_all add: in_order_append explains_def del: in_order.simps)
  have "oss ! j = map fst (by_task j ?es) @ rest[i := xs] ! j
      \<and> (sy_tasks y)[i := calls_prog (map call xs) (by_task i (fst (in_order apply_op late_result es s)) @ [r])] ! j
        = calls_prog (map call (rest[i := xs] ! j)) (by_task j (fst (in_order apply_op late_result ?es s)))" if "j < length oss" for j
    using assms(1-3) that unfolding explains_def run(1) by (cases "j = i") auto
  moreover have "\<forall>(j, z, out_of_time)\<in>set ?es. j < length oss \<and> (out_of_time \<longrightarrow> late_result z \<noteq> None)"
    using assms(1,2,4) by (auto simp: explains_def split: if_splits)
  ultimately show ?thesis using assms(1) run(2) by (simp add: explains_def)
qed

lemma explains_atomic:
  assumes "atomic_step y y'" "explains es oss rest s y"
  shows "\<exists>es' rest'. explains es' oss rest' s y'"
  using assms(1)
proof cases
  case (Section i p t q)
  then have i: "i < length oss" "sy_tasks y ! i = calls_prog (map call (rest ! i)) (by_task i (fst (in_order apply_op late_result es s)))"
    using assms(2) by (auto simp: explains_def)
  show ?thesis
  proof (cases "rest ! i")
    case (Cons x xs)
    with i(2) Section(3,4) have "(call_result (call x) t, t) = apply_op x (sy_state y)"
      "q = calls_prog (map call xs) (by_task i (fst (in_order apply_op late_result es s)) @ [call_result (call x) t])"
      using effect [of x "sy_state y"] result [of x "sy_state y"]
      by (cases "apply_op x (sy_state y)"; auto simp: call_prog_def Let_def section_end_body elim!: enters.cases split: option.splits)+
    with explains_next [OF assms(2) i(1) Cons, of False] Section(1) show ?thesis by auto
  qed (use i(2) Section in \<open>auto elim: enters.cases\<close>)
next
  case (Late i p q')
  then have i: "i < length oss" "sy_tasks y ! i = calls_prog (map call (rest ! i)) (by_task i (fst (in_order apply_op late_result es s)))"
    using assms(2) by (auto simp: explains_def)
  show ?thesis
  proof (cases "rest ! i")
    case (Cons x xs)
    with i(2) Late(3) obtain r where "late_result x = Some r"
      "q' = calls_prog (map call xs) (by_task i (fst (in_order apply_op late_result es s)) @ [r])"
      using late [of x] by (auto simp: call_prog_def Let_def split: option.splits)
    with explains_next [OF assms(2) i(1) Cons, of True r "sy_state y"] Late(1) show ?thesis by auto
  qed (use i(2) Late in auto)
qed

lemma explains_atomic_steps:
  assumes "atomic_step\<^sup>*\<^sup>* (call_system (map (map call) oss) s) y"
  shows "\<exists>es rest. explains es oss rest s y"
  using assms
proof (induction rule: rtranclp_induct)
  case base
  have "explains [] oss oss s (call_system (map (map call) oss) s)" by (auto simp: explains_def call_system_def)
  then show ?case by blast
next
  case (step y z)
  then show ?case using explains_atomic by blast
qed

lemma linearizable:
  "ends_with False (call_system (map (map call) oss) s) (one_at_a_time apply_op late_result oss s)"
proof (rule ends_withI)
  let ?y = "call_system (map (map call) oss) s"
  fix y
  assume y: "sys_steps False ?y y" "\<nexists>y'. sys_step False y y'"
  from sections_atomic [OF guarded_call_system _ y(1)] obtain z where
    z: "guarded_sys y" "atomic_step\<^sup>*\<^sup>* ?y z" "behind z y" by (auto simp: call_system_def)
  from guarded_progress [OF z(1) y(2)] have fin: "sy_owner y = None" "list_all returned (sy_tasks y)" by auto
  with z explains_atomic_steps obtain es rest where e: "explains es oss rest s y" by (fastforce simp: behind_def)
  have "rest ! i = [] \<and> sy_tasks y ! i = Return (by_task i (fst (in_order apply_op late_result es s)))" if "i < length oss" for i
  proof -
    have "sy_tasks y ! i = calls_prog (map call (rest ! i)) (by_task i (fst (in_order apply_op late_result es s)))"
      using e that by (auto simp: explains_def)
    moreover have "returned (sy_tasks y ! i)" using fin(2) e that by (auto simp: list_all_length explains_def)
    ultimately show ?thesis
      using calls_prog_Return by (fastforce simp: returned_def split: prog.splits)
  qed
  then have "oss = map (\<lambda>i. map fst (by_task i es)) [0..<length oss]"
    "sy_tasks y = map (\<lambda>i. Return (by_task i (fst (in_order apply_op late_result es s)))) [0..<length oss]"
    using e by (auto simp: explains_def intro!: nth_equalityI)
  then show "one_at_a_time apply_op late_result oss s y" using e by (auto simp: one_at_a_time_def explains_def)
qed

end

end
