(* ===== verification/Locked.thy ===== *)
theory Locked
  imports Mutex NetInfo Config
begin

text \<open>
  The components whose data is under a mutex of their own, as the tasks use them:
  \<^verbatim>\<open>src/sta_ip_safe.c\<close>, the actions of \<^verbatim>\<open>src/json_network_info.c\<close> and the transactions
  of \<^verbatim>\<open>src/wifiman_config.c\<close>. Their functions are calls in the sense of \<open>Mutex\<close>: the assignments of
  the C function one by one, then what it reads. The interpretations of \<open>atomic_object\<close> show that they
  have the effects of the sequential models of \<open>NetInfo\<close> and \<open>Config\<close>.

  The mutexes exist: \<open>wifi_manager_init\<close> has called each component once before there is a second task.
\<close>

section \<open>The address of the station\<close>

datatype sta_ip_op =
    StaIpWrite "32 word" \<comment> \<open>\<open>sta_ip_unsafe_set\<close>\<close>
  | StaIpClear \<comment> \<open>\<open>sta_ip_unsafe_deinit\<close>\<close>
  | StaIpCopy \<comment> \<open>\<open>sta_ip_unsafe_get_copy\<close>\<close>

definition sta_ip_call :: "(32 word \<Rightarrow> cstr) \<Rightarrow> (sta_ip_op \<Rightarrow> cstr list) \<Rightarrow> sta_ip_op \<Rightarrow> (cstr, cstr option) call" where
  \<comment> \<open>under \<open>sta_ip_safe_lock\<close>; \<open>partial\<close>: what the buffer holds while \<open>esp_ip4addr_ntoa\<close> or \<open>memset\<close> fills it\<close>
  "sta_ip_call ntoa partial x =
     (case x of
        StaIpWrite ip \<Rightarrow> \<lparr>call_writes = map (\<lambda>b _. b) (partial x) @ [\<lambda>_. sta_ip_set ntoa ip], call_result = \<lambda>_. None, call_late = None\<rparr>
      | StaIpClear \<Rightarrow> \<lparr>call_writes = map (\<lambda>b _. b) (partial x) @ [\<lambda>_. []], call_result = \<lambda>_. None, call_late = None\<rparr>
      | StaIpCopy \<Rightarrow> \<lparr>call_writes = [], call_result = \<lambda>b. Some (sta_ip_get b), call_late = None\<rparr>)"

definition sta_ip_safe_get :: "sta_ip_op list" where
  "sta_ip_safe_get = [StaIpCopy]"

definition sta_ip_safe_set :: "32 word \<Rightarrow> sta_ip_op list" where
  \<comment> \<open>the copy is for the log\<close>
  "sta_ip_safe_set ip = [StaIpWrite ip] @ sta_ip_safe_get"

definition sta_ip_safe_reset :: "sta_ip_op list" where
  "sta_ip_safe_reset = [StaIpWrite 0] @ sta_ip_safe_get"

definition sta_ip_safe_init :: "sta_ip_op list" where
  "sta_ip_safe_init = [StaIpWrite 0] @ sta_ip_safe_reset"

definition sta_ip_safe_deinit :: "sta_ip_op list" where
  "sta_ip_safe_deinit = [StaIpClear]"

definition sta_ip_apply :: "(32 word \<Rightarrow> cstr) \<Rightarrow> sta_ip_op \<Rightarrow> cstr \<Rightarrow> cstr option \<times> cstr" where
  \<comment> \<open>the sequential model\<close>
  "sta_ip_apply ntoa x buf =
     (case x of StaIpWrite ip \<Rightarrow> (None, sta_ip_set ntoa ip) | StaIpClear \<Rightarrow> (None, []) | StaIpCopy \<Rightarrow> (Some (sta_ip_get buf), buf))"

interpretation sta_ip: atomic_object "sta_ip_call ntoa partial" "sta_ip_apply ntoa" "\<lambda>_. None" for ntoa partial
  by unfold_locales (auto simp: sta_ip_call_def sta_ip_apply_def split: sta_ip_op.split)

section \<open>The status record\<close>

datatype info_op =
    InfoClear | InfoSetReasonUserDisconnect | InfoUpdate "cstr option" "network_info_str option" update_reason
  | InfoSetExtra "cstr option" | InfoUpdateTimeSync bool | InfoGenerate bool \<comment> \<open>with a limit of time\<close>

definition info_writes :: "info_op \<Rightarrow> (net_info \<Rightarrow> net_info) list" where
  "info_writes x =
     (case x of
        InfoClear \<Rightarrow>
          [\<lambda>p. p\<lparr>ni_is_ssid_null := True\<rparr>, \<lambda>p. p\<lparr>ni_is_time_valid := False\<rparr>, \<lambda>p. p\<lparr>ni_ssid := []\<rparr>,
           \<lambda>p. p\<lparr>ni_network := (ni_network p)\<lparr>nis_ip := []\<rparr>\<rparr>, \<lambda>p. p\<lparr>ni_network := (ni_network p)\<lparr>nis_netmask := []\<rparr>\<rparr>,
           \<lambda>p. p\<lparr>ni_network := (ni_network p)\<lparr>nis_gw := []\<rparr>\<rparr>, \<lambda>p. p\<lparr>ni_network := (ni_network p)\<lparr>nis_dhcp := []\<rparr>\<rparr>,
           \<lambda>p. p\<lparr>ni_reason := UPDATE_CONNECTION_UNDEF\<rparr>]
      | InfoSetReasonUserDisconnect \<Rightarrow> [\<lambda>p. p\<lparr>ni_reason := UPDATE_USER_DISCONNECT\<rparr>]
      | InfoUpdate p_ssid p_network_info reason \<Rightarrow>
          (case p_ssid of
             None \<Rightarrow> [\<lambda>p. p\<lparr>ni_ssid := []\<rparr>, \<lambda>p. p\<lparr>ni_is_ssid_null := True\<rparr>]
           | Some ssid \<Rightarrow> [\<lambda>p. p\<lparr>ni_ssid := ssid\<rparr>, \<lambda>p. p\<lparr>ni_is_ssid_null := False\<rparr>])
          @ (case p_network_info of
               None \<Rightarrow>
                 [\<lambda>p. p\<lparr>ni_network := (ni_network p)\<lparr>nis_ip := []\<rparr>\<rparr>, \<lambda>p. p\<lparr>ni_network := (ni_network p)\<lparr>nis_netmask := []\<rparr>\<rparr>,
                  \<lambda>p. p\<lparr>ni_network := (ni_network p)\<lparr>nis_gw := []\<rparr>\<rparr>, \<lambda>p. p\<lparr>ni_network := (ni_network p)\<lparr>nis_dhcp := []\<rparr>\<rparr>]
             | Some n \<Rightarrow>
                 [\<lambda>p. p\<lparr>ni_network := (ni_network p)\<lparr>nis_ip := nis_ip n\<rparr>\<rparr>, \<lambda>p. p\<lparr>ni_network := (ni_network p)\<lparr>nis_gw := nis_gw n\<rparr>\<rparr>,
                  \<lambda>p. p\<lparr>ni_network := (ni_network p)\<lparr>nis_netmask := nis_netmask n\<rparr>\<rparr>,
                  \<lambda>p. p\<lparr>ni_network := (ni_network p)\<lparr>nis_dhcp := nis_dhcp n\<rparr>\<rparr>])
          @ [\<lambda>p. p\<lparr>ni_reason := reason\<rparr>]
      | InfoSetExtra p_extra \<Rightarrow>
          [\<lambda>p. p\<lparr>ni_extra := snprintf_s JSON_NETWORK_EXTRA_INFO_SIZE (case p_extra of None \<Rightarrow> [] | Some s \<Rightarrow> s)\<rparr>]
      | InfoUpdateTimeSync valid \<Rightarrow> [\<lambda>p. p\<lparr>ni_is_time_valid := valid\<rparr>]
      | InfoGenerate _ \<Rightarrow> [])"

definition info_late :: "info_op \<Rightarrow> 's option option" where
  \<comment> \<open>\<open>json_network_info_lock_with_timeout\<close> returns \<open>NULL\<close>: there is no JSON\<close>
  "info_late x = (if x = InfoGenerate True then Some None else None)"

definition info_call :: "'s strbuf \<Rightarrow> bool \<Rightarrow> info_op \<Rightarrow> (net_info, 's option) call" where
  "info_call B is_signed x =
     \<lparr>call_writes = info_writes x,
      call_result = \<lambda>p. (case x of InfoGenerate _ \<Rightarrow> Some (json_network_info_generate B is_signed p) | _ \<Rightarrow> None),
      call_late = info_late x\<rparr>"

definition info_apply :: "'s strbuf \<Rightarrow> bool \<Rightarrow> info_op \<Rightarrow> net_info \<Rightarrow> 's option \<times> net_info" where
  \<comment> \<open>the sequential model\<close>
  "info_apply B is_signed x info =
     (case x of
        InfoClear \<Rightarrow> (None, the (json_network_info_clear info))
      | InfoSetReasonUserDisconnect \<Rightarrow> (None, the (json_network_info_set_reason_user_disconnect info))
      | InfoUpdate p_ssid p_network_info reason \<Rightarrow> (None, the (json_network_info_update p_ssid p_network_info reason info))
      | InfoSetExtra p_extra \<Rightarrow> (None, the (json_network_set_extra_info p_extra info))
      | InfoUpdateTimeSync valid \<Rightarrow> (None, the (update_time_sync_info valid info))
      | InfoGenerate _ \<Rightarrow> (Some (json_network_info_generate B is_signed info), info))"

lemmas info_defs =
  json_network_info_clear_def json_network_info_set_reason_user_disconnect_def json_network_info_update_def
  json_network_set_extra_info_def update_time_sync_info_def do_action_def do_action_with_timeout_def given_def
  info_do_clear_def info_do_update_def info_do_set_extra_def no_network_def

interpretation status: atomic_object "info_call B is_signed" "info_apply B is_signed" info_late for B is_signed
proof (unfold_locales, goal_cases)
  case (1 x s)
  show ?case
    by (cases x) (auto simp: info_call_def info_writes_def info_apply_def info_defs split: option.split)
next
  case (2 x s)
  show ?case by (cases x) (simp_all add: info_call_def info_apply_def)
next
  case (3 x)
  show ?case by (simp add: info_call_def)
qed

section \<open>The configuration\<close>

datatype config_op =
    ConfigInit config | ConfigApSet config_ap | ConfigStaSet config_sta
  | ConfigStaSetSsidAndPassword cstr "cstr option" | ConfigRead

definition config_writes :: "config_op \<Rightarrow> (config \<Rightarrow> config) list" where
  "config_writes x =
     (case x of
        ConfigInit src \<Rightarrow> [\<lambda>c. c\<lparr>cfg_ap := cfg_ap src\<rparr>, \<lambda>c. c\<lparr>cfg_sta := cfg_sta src\<rparr>]
      | ConfigApSet src \<Rightarrow>
          [\<lambda>c. c\<lparr>cfg_ap := (cfg_ap c)\<lparr>cap_wifi := cap_wifi src\<rparr>\<rparr>, \<lambda>c. c\<lparr>cfg_ap := (cfg_ap c)\<lparr>cap_settings := cap_settings src\<rparr>\<rparr>]
      | ConfigStaSet src \<Rightarrow>
          [upd_sta_wifi (\<lambda>_. cst_wifi src), upd_sta_settings (\<lambda>_. cst_settings src),
           \<lambda>c. c\<lparr>cfg_sta := (cfg_sta c)\<lparr>cst_hostinfo := cst_hostinfo src\<rparr>\<rparr>]
      | ConfigStaSetSsidAndPassword ssid p_password \<Rightarrow>
          [upd_sta_wifi (\<lambda>_. zero_sta_config),
           upd_sta_wifi (\<lambda>w. w\<lparr>stc_ssid := snprintf_s SSID_BUF_SIZE ssid\<rparr>),
           upd_sta_wifi (\<lambda>w. w\<lparr>stc_password := snprintf_s PASSWORD_BUF_SIZE (case p_password of None \<Rightarrow> [] | Some p \<Rightarrow> p)\<rparr>)]
      | ConfigRead \<Rightarrow> [])"

definition config_call :: "(config \<Rightarrow> 'r) \<Rightarrow> config_op \<Rightarrow> (config, 'r option) call" where
  \<comment> \<open>with the part that the reading transaction copies\<close>
  "config_call part x =
     \<lparr>call_writes = config_writes x, call_result = \<lambda>c. if x = ConfigRead then Some (part c) else None, call_late = None\<rparr>"

definition config_apply :: "(config \<Rightarrow> 'r) \<Rightarrow> config_op \<Rightarrow> config \<Rightarrow> 'r option \<times> config" where
  \<comment> \<open>the sequential model\<close>
  "config_apply part x cfg =
     (case x of
        ConfigInit src \<Rightarrow> (None, config_init src cfg)
      | ConfigApSet src \<Rightarrow> (None, config_ap_set src cfg)
      | ConfigStaSet src \<Rightarrow> (None, config_sta_set src cfg)
      | ConfigStaSetSsidAndPassword ssid p_password \<Rightarrow> (None, config_sta_set_ssid_and_password ssid p_password cfg)
      | ConfigRead \<Rightarrow> (Some (part cfg), cfg))"

interpretation configuration: atomic_object "config_call part" "config_apply part" "\<lambda>_. None" for part
proof (unfold_locales, goal_cases)
  case (1 x s)
  show ?case
    by (cases x) (simp_all add: config_call_def config_writes_def config_apply_def config_init_def config_ap_set_def
        config_sta_set_def config_sta_set_ssid_and_password_def upd_sta_wifi_def upd_sta_settings_def)
next
  case (2 x s)
  show ?case by (cases x) (simp_all add: config_call_def config_apply_def)
next
  case (3 x)
  show ?case by (simp add: config_call_def)
qed

section \<open>Properties\<close>

lemma copies_of_writes:
  assumes "Some a \<in> snd ` set (fst (in_order (sta_ip_apply ntoa) (\<lambda>_. None) es s))"
    and "\<forall>(i, x, out_of_time)\<in>set es. \<not> out_of_time"
  shows "a = sta_ip_get s \<or> a = [] \<or> (\<exists>ip. StaIpWrite ip \<in> (\<lambda>(i, x, out_of_time). x) ` set es \<and> a = sta_ip_get (ntoa ip))"
  using assms
proof (induction es arbitrary: s)
  case (Cons e es)
  obtain i x where e: "e = (i, x, False)" using Cons.prems(2) by (cases e) auto
  show ?case
  proof (cases x)
    case (StaIpWrite ip)
    with e Cons.prems Cons.IH [of "ntoa ip"] show ?thesis
      by (auto simp: sta_ip_apply_def sta_ip_set_def Let_def case_prod_beta)
  next
    case StaIpClear
    with e Cons.prems Cons.IH [of "[]"] show ?thesis
      by (auto simp: sta_ip_apply_def Let_def case_prod_beta sta_ip_get_def snprintf_s_def)
  next
    case StaIpCopy
    with e Cons.prems Cons.IH [of s] show ?thesis
      by (auto simp: sta_ip_apply_def Let_def case_prod_beta)
  qed
qed simp

definition copies :: "('s, 'r option list) prog \<Rightarrow> 'r set" where
  \<comment> \<open>what the calls of a task that has returned have read\<close>
  "copies p = (case p of Return rs \<Rightarrow> {a. Some a \<in> set rs} | _ \<Rightarrow> {})"

definition written :: "(32 word \<Rightarrow> cstr) \<Rightarrow> sta_ip_op list list \<Rightarrow> cstr set" where
  "written ntoa oss = {sta_ip_get (ntoa ip) | ip. StaIpWrite ip \<in> set (concat oss)}"

lemma by_task_set: "x \<in> set (by_task i xs) \<Longrightarrow> (i, x) \<in> set xs"
  by (auto simp: by_task_def)

lemma op_of_task:
  assumes "oss = map (\<lambda>i. map fst (by_task i es)) [0..<length oss]" "(i, x, b) \<in> set es" "i < length oss"
  shows "x \<in> set (concat oss)"
proof -
  have "x \<in> set (oss ! i)"
    using assms(2,3) by (subst assms(1)) (force simp: by_task_def)
  with assms(3) show ?thesis by auto
qed

text \<open>
  C31: tasks that set, reset, clear and read the address of the station do not wait for ever for
  each other, each call has the effect of one step, in some order, and no task ever reads a
  string that is partly written: what it reads is the text at the start, the empty one or the
  complete text of an address that has been set.
\<close>

theorem station_address_never_torn:
  "ends_with False (call_system (map (map (sta_ip_call ntoa partial)) oss) s)
     (\<lambda>y. one_at_a_time (sta_ip_apply ntoa) (\<lambda>_. None) oss s y
        \<and> \<Union> (copies ` set (sy_tasks y)) \<subseteq> {sta_ip_get s, []} \<union> written ntoa oss)"
proof -
  have "\<Union> (copies ` set (sy_tasks y)) \<subseteq> {sta_ip_get s, []} \<union> written ntoa oss"
    if y: "one_at_a_time (sta_ip_apply ntoa) (\<lambda>_. None) oss s y" for y :: "(cstr, cstr option list) sys"
  proof -
    from y obtain es where es: "\<forall>(i, x, out_of_time)\<in>set es. \<not> out_of_time"
      "\<forall>(i, x, out_of_time)\<in>set es. i < length oss"
      "oss = map (\<lambda>i. map fst (by_task i es)) [0..<length oss]"
      "sy_tasks y = map (\<lambda>i. Return (by_task i (fst (in_order (sta_ip_apply ntoa) (\<lambda>_. None) es s)))) [0..<length oss]"
      unfolding one_at_a_time_def by blast
    show ?thesis
    proof
      fix a
      assume "a \<in> \<Union> (copies ` set (sy_tasks y))"
      then have "Some a \<in> snd ` set (fst (in_order (sta_ip_apply ntoa) (\<lambda>_. None) es s))"
        unfolding es(4) by (force simp: copies_def dest: by_task_set)
      from copies_of_writes [OF this es(1)] show "a \<in> {sta_ip_get s, []} \<union> written ntoa oss"
        using op_of_task [OF es(3)] es(2) by (fastforce simp: written_def)
    qed
  qed
  with sta_ip.linearizable [where ntoa = ntoa and partial = partial and oss = oss and s = s] show ?thesis by (auto simp: ends_with_def)
qed

text \<open>
  C32: the same holds of the status of the network: clear, update, extra text, time and JSON,
  called by any tasks, act as one after the other; a JSON document is that of one complete
  record, and only a request that waits no longer than its limit of time gets none.
\<close>

theorem status_actions_atomic:
  "ends_with False (call_system (map (map (info_call B is_signed)) oss) info)
     (one_at_a_time (info_apply B is_signed) info_late oss info)"
  by (rule status.linearizable)

text \<open>
  The same holds of the transactions on the configuration.
\<close>

theorem config_transactions_atomic:
  "ends_with False (call_system (map (map (config_call part)) oss) cfg)
     (one_at_a_time (config_apply part) (\<lambda>_. None) oss cfg)"
  by (rule configuration.linearizable)

end
