(* ===== verification/LazyMutex.thy ===== *)
theory LazyMutex
  imports Mutex
begin

text \<open>
  The mutexes of \<^verbatim>\<open>src/sta_ip_safe.c\<close>, \<^verbatim>\<open>src/wifiman_config.c\<close> and
  \<^verbatim>\<open>src/json_network_info.c\<close> are created by the first task that needs them: it finds a null pointer,
  creates the mutex in its static memory and stores the pointer. \<open>Locked\<close> and \<open>ManagerLock\<close> take
  the mutexes for given; here is why that is right once one task has used them, and what happens before.

  \<open>os_mutex_create_static\<close> makes a free mutex of the memory, whatever it was before.
\<close>

section \<open>Model\<close>

record lazy =
  lz_ptr :: bool \<comment> \<open>\<open>g_sta_ip_safe_mutex\<close> is not \<open>NULL\<close>\<close>
  lz_owner :: "nat option" \<comment> \<open>the mutex in \<open>g_sta_ip_safe_mutex_mem\<close>\<close>
  lz_inside :: "nat set" \<comment> \<open>the tasks between lock and unlock\<close>

type_synonym lazy_prog = "(lazy, unit) prog"

definition sta_ip_safe_mutex_get :: "lazy_prog \<Rightarrow> lazy_prog" where
  "sta_ip_safe_mutex_get k =
     Step (\<lambda>_. True) (\<lambda>s. s) (\<lambda>s. if \<not> lz_ptr s
       then Step (\<lambda>_. True) (\<lambda>s. s\<lparr>lz_owner := None\<rparr>) (\<lambda>_. Step (\<lambda>_. True) (\<lambda>s. s\<lparr>lz_ptr := True\<rparr>) (\<lambda>_. k))
       else k)"

definition sta_ip_safe_lock :: "nat \<Rightarrow> lazy_prog \<Rightarrow> lazy_prog" where
  "sta_ip_safe_lock i k = sta_ip_safe_mutex_get
     (Step (\<lambda>s. lz_owner s = None) (\<lambda>s. s\<lparr>lz_owner := Some i, lz_inside := insert i (lz_inside s)\<rparr>) (\<lambda>_. k))"

definition sta_ip_safe_unlock :: "nat \<Rightarrow> lazy_prog \<Rightarrow> lazy_prog" where
  "sta_ip_safe_unlock i k = sta_ip_safe_mutex_get
     (Step (\<lambda>_. True) (\<lambda>s. s\<lparr>lz_owner := None, lz_inside := lz_inside s - {i}\<rparr>) (\<lambda>_. k))"

fun lazy_sections :: "nat \<Rightarrow> nat \<Rightarrow> lazy_prog" where
  \<comment> \<open>a task that enters that many sections\<close>
  "lazy_sections i 0 = Return ()"
| "lazy_sections i (Suc n) = sta_ip_safe_lock i (sta_ip_safe_unlock i (lazy_sections i n))"

definition lazy_system :: "bool \<Rightarrow> nat list \<Rightarrow> (lazy, unit) sys" where
  "lazy_system created ns = \<lparr>sy_owner = None, sy_state = \<lparr>lz_ptr = created, lz_owner = None, lz_inside = {}\<rparr>,
     sy_tasks = map (\<lambda>(i, n). lazy_sections i n) (enumerate 0 ns)\<rparr>"

section \<open>Lemmas\<close>

definition lazy_ok :: "lazy \<Rightarrow> bool" where
  "lazy_ok s \<longleftrightarrow> lz_ptr s \<and> lz_inside s = (case lz_owner s of None \<Rightarrow> {} | Some i \<Rightarrow> {i})"

primrec excl :: "nat \<Rightarrow> lazy_prog \<Rightarrow> bool \<Rightarrow> bool" where
  \<comment> \<open>the program of task i, inside or outside, keeps the tasks apart once the mutex exists\<close>
  "excl i (Return a) = (\<lambda>b. True)"
| "excl i (Lock p) = (\<lambda>b. False)"
| "excl i (Unlock p) = (\<lambda>b. False)"
| "excl i (LockFor p q) = (\<lambda>b. False)"
| "excl i (Step g f k) = (\<lambda>b. \<forall>s. lazy_ok s \<and> (i \<in> lz_inside s \<longleftrightarrow> b) \<and> g s \<longrightarrow>
     lazy_ok (f s) \<and> (\<forall>j. j \<noteq> i \<longrightarrow> (j \<in> lz_inside (f s) \<longleftrightarrow> j \<in> lz_inside s)) \<and> excl i (k s) (i \<in> lz_inside (f s)))"

lemma excl_get: "excl i k b \<Longrightarrow> excl i (sta_ip_safe_mutex_get k) b"
  by (auto simp: sta_ip_safe_mutex_get_def lazy_ok_def)

lemma excl_lock: "excl i k True \<Longrightarrow> excl i (sta_ip_safe_lock i k) False"
  unfolding sta_ip_safe_lock_def by (rule excl_get) (auto simp: lazy_ok_def)

lemma excl_unlock: "excl i k False \<Longrightarrow> excl i (sta_ip_safe_unlock i k) True"
  unfolding sta_ip_safe_unlock_def by (rule excl_get) (auto simp: lazy_ok_def split: option.splits)

lemma excl_sections: "excl i (lazy_sections i n) False"
  by (induction n) (simp_all add: excl_lock excl_unlock)

definition apart :: "(lazy, unit) sys \<Rightarrow> bool" where
  "apart y \<longleftrightarrow> lazy_ok (sy_state y)
     \<and> (\<forall>i<length (sy_tasks y). excl i (sy_tasks y ! i) (i \<in> lz_inside (sy_state y)))"

lemma apart_step:
  assumes "sys_step False y y'" "apart y"
  shows "apart y'"
proof -
  obtain i where i: "task_step False i y = Some y'" using assms(1) by (auto elim: sys_step.cases)
  then have len: "i < length (sy_tasks y)" by (auto simp: task_step_def split: if_splits)
  with assms(2) have e: "excl i (sy_tasks y ! i) (i \<in> lz_inside (sy_state y))" "lazy_ok (sy_state y)" by (simp_all add: apart_def)
  show ?thesis
  proof (cases "sy_tasks y ! i")
    case (Step g f k)
    with i len have y': "y' = y\<lparr>sy_state := f (sy_state y), sy_tasks := (sy_tasks y)[i := k (sy_state y)]\<rparr>" "g (sy_state y)"
      by (auto simp: task_step_def prog_step_def split: if_splits)
    with e Step have "lazy_ok (f (sy_state y))" "excl i (k (sy_state y)) (i \<in> lz_inside (f (sy_state y)))"
      "\<forall>j. j \<noteq> i \<longrightarrow> (j \<in> lz_inside (f (sy_state y)) \<longleftrightarrow> j \<in> lz_inside (sy_state y))" by auto
    with y'(1) assms(2) len show ?thesis by (auto simp: apart_def nth_list_update)
  qed (use i len e in \<open>simp_all add: task_step_def prog_step_def\<close>)
qed

lemma apart_steps: "sys_steps False y y' \<Longrightarrow> apart y \<Longrightarrow> apart y'"
  by (induction rule: rtranclp_induct) (auto intro: apart_step)

lemma apart_created: "apart (lazy_system True ns)"
  by (auto simp: apart_def lazy_system_def lazy_ok_def nth_enumerate_eq excl_sections)

section \<open>Properties\<close>

text \<open>
  Once the mutex exists, the check for the null pointer in front of every lock and unlock does no
  harm: however many tasks use it and however they are scheduled, at most one is inside.
\<close>

theorem created_mutex_excludes:
  assumes "sys_steps False (lazy_system True ns) y" "i \<in> lz_inside (sy_state y)" "j \<in> lz_inside (sy_state y)"
  shows "i = j"
  using apart_steps [OF assms(1) apart_created] assms(2,3)
  by (auto simp: apart_def lazy_ok_def split: option.splits)

text \<open>
  A first section that no other task overlaps leaves the mutex made and free: this is the call of
  \<^verbatim>\<open>sta_ip_safe_init\<close> in \<^verbatim>\<open>wifi_manager_init\<close>, before the tasks are started.
\<close>

theorem first_use_alone_creates:
  "\<exists>y. sys_steps False (lazy_system False [1]) y \<and> sy_tasks y = [Return ()]
     \<and> sy_state y = \<lparr>lz_ptr = True, lz_owner = None, lz_inside = {}\<rparr>"
proof -
  let ?y = "lazy_system False [1]" and ?order = "[0, 0, 0, 0, 0, 0]"
  obtain y where y: "schedule False ?order ?y = Some y" "sy_tasks y = [Return ()]"
      "sy_state y = \<lparr>lz_ptr = True, lz_owner = None, lz_inside = {}\<rparr>"
    by (simp add: lazy_system_def sta_ip_safe_lock_def sta_ip_safe_unlock_def sta_ip_safe_mutex_get_def
        task_step_def prog_step_def enumerate_eq_zip)
  from schedule_steps [OF y(1)] y(2,3) show ?thesis by blast
qed

text \<open>
  When two first sections overlap, the check does harm: two tasks whose first sections overlap can both be inside. The second has seen
  the null pointer before the first stored its own, and creates the mutex anew while it is held.
\<close>

theorem first_use_races:
  "\<exists>y. sys_steps False (lazy_system False [1, 1]) y \<and> lz_inside (sy_state y) = {0, 1}"
proof -
  let ?y = "lazy_system False [1, 1]" and ?order = "[1, 0, 0, 0, 0, 1, 1, 1]"
  obtain y where y: "schedule False ?order ?y = Some y" "lz_inside (sy_state y) = {0, 1}"
    by (simp add: lazy_system_def sta_ip_safe_lock_def sta_ip_safe_mutex_get_def task_step_def prog_step_def enumerate_eq_zip insert_commute)
  from schedule_steps [OF y(1)] y(2) show ?thesis by blast
qed

section \<open>Witnesses\<close>

lemma created_mutex_excludes_witness:
  "\<exists>y. sys_steps False (lazy_system True [1, 2]) y \<and> 1 \<in> lz_inside (sy_state y) \<and> (0::nat) \<notin> lz_inside (sy_state y)"
proof -
  obtain y where y: "schedule False [0, 1, 1] (lazy_system True [1, 2]) = Some y" "1 \<in> lz_inside (sy_state y)"
    by (simp add: lazy_system_def sta_ip_safe_lock_def sta_ip_safe_mutex_get_def task_step_def prog_step_def enumerate_eq_zip numeral_2_eq_2)
  note steps = schedule_steps [OF y(1)]
  from created_mutex_excludes [OF steps _ y(2), of 0] steps y(2) show ?thesis by auto
qed

end
