(* ===== verification/ManagerLock.thy ===== *)
theory ManagerLock
  imports Mutex WifiProps
begin

text \<open>
  The recursive mutex of the Wi-Fi manager (\<open>wifi_manager_lock\<close>, \<open>wifi_manager_unlock\<close> of
  \<^verbatim>\<open>src/wifi_manager_internal.c\<close>): the functions of \<^verbatim>\<open>src/wifiman_msg.c\<close>,
  \<^verbatim>\<open>src/wifi_manager_handle_msg.c\<close> and \<^verbatim>\<open>src/wifi_manager.c\<close> that take it, as programs of
  the tasks (\<open>Mutex\<close>). What a handler does between two of its operations on the mutex and on the queue
  is one instruction.

  The sequential model (\<open>WifiMgr\<close>, \<open>WifiTask\<close>) is what these programs do when no other task interferes
  (\<open>alone\<close>). What it cannot show is that a task holds the mutex while it waits for room in the queue.
\<close>

section \<open>Programs\<close>

definition enqueue_p :: "message_code \<Rightarrow> msg_param \<Rightarrow> bool \<Rightarrow> (bool \<Rightarrow> (wm, 'a) prog) \<Rightarrow> (wm, 'a) prog" where
  \<comment> \<open>\<open>xQueueSend\<close>, then the unlock\<close>
  "enqueue_p code param for_ever k =
     Step (\<lambda>s. msg_send_with_timeout code param for_ever s \<noteq> None)
       (\<lambda>s. snd (the (msg_send_with_timeout code param for_ever s)))
       (\<lambda>s. Unlock (k (fst (the (msg_send_with_timeout code param for_ever s)))))"

definition send_p :: "message_code \<Rightarrow> msg_param \<Rightarrow> bool \<Rightarrow> (bool \<Rightarrow> (wm, 'a) prog) \<Rightarrow> (wm, 'a) prog" where
  \<comment> \<open>\<open>wifiman_msg_send_with_timeout\<close>: first the test of the handle\<close>
  "send_p code param for_ever k =
     Lock (Step (\<lambda>_. True) id (\<lambda>s. if ms_queue s = None then Unlock (k False) else enqueue_p code param for_ever k))"

definition act_p :: "(wm \<Rightarrow> wm) \<Rightarrow> (wm, 'a) prog \<Rightarrow> (wm, 'a) prog" where
  "act_p f p = Step (\<lambda>_. True) f (\<lambda>_. p)"

definition send_connect_sta_p :: "conn_req \<Rightarrow> (bool \<Rightarrow> (wm, 'a) prog) \<Rightarrow> (wm, 'a) prog" where
  "send_connect_sta_p req k = act_p (set_bits {CMD_STA_CONNECT_BIT}) (send_p ORDER_CONNECT_STA (ParamConnReq req) True k)"

definition clear_flag_wdog_feed_active_p :: "(wm, 'a) prog \<Rightarrow> (wm, 'a) prog" where
  "clear_flag_wdog_feed_active_p p = Lock (act_p msg_clear_flag_wdog_feed_active (Unlock p))"

definition send_cmd_task_watchdog_feed_p :: "(wm, 'a) prog \<Rightarrow> (wm, 'a) prog" where
  "send_cmd_task_watchdog_feed_p p =
     Lock (Step (\<lambda>_. True) (\<lambda>s. if ms_wdog_feed s then s else s\<lparr>ms_wdog_feed := True\<rparr>) (\<lambda>s.
       if ms_wdog_feed s then Unlock p else send_p ORDER_TASK_WATCHDOG_FEED ParamNone False (\<lambda>_. Unlock p)))"

definition connect_async_p :: "conn_req \<Rightarrow> (wm, 'a) prog \<Rightarrow> (wm, 'a) prog" where
  \<comment> \<open>\<open>wifi_manager_connect_async\<close> and \<open>wifi_manager_connect_async_by_wps\<close>\<close>
  "connect_async_p req p =
     Lock (act_p (upd_info json_network_info_clear) (Unlock (send_connect_sta_p req (\<lambda>_. p))))"

definition scan_sync_p :: "(bool \<Rightarrow> (wm, 'a) prog) \<Rightarrow> (wm, 'a) prog" where
  \<comment> \<open>\<open>wifi_manager_scan_sync\<close>; the mutex for the JSON is taken again by the task that holds it\<close>
  "scan_sync_p k =
     Lock (Step (\<lambda>_. True) (\<lambda>s. if wm_sema s = None then s\<lparr>wm_sema := Some False\<rparr> else s) (\<lambda>s.
       if wm_sema s \<noteq> None then Unlock (k False)
       else send_p ORDER_START_WIFI_SCAN ParamNone True (\<lambda>ok.
         if \<not> ok then Unlock (act_p (\<lambda>s. s\<lparr>wm_scan_waiter := False\<rparr>) (k False))
         else Unlock (act_p (\<lambda>s. s\<lparr>wm_scan_waiter := True\<rparr>) (Step (\<lambda>s. wm_sema s = Some True) (\<lambda>s. s\<lparr>wm_sema := Some False\<rparr>) (\<lambda>_.
           Lock (act_p (\<lambda>s. s\<lparr>wm_sema := None, wm_scan_waiter := False\<rparr>)
             (LockFor (Unlock (Unlock (k True))) (Unlock (k False))))))))))"

subsection \<open>The task of the manager\<close>

definition start_wifi_scan_begin :: "driver \<Rightarrow> wm \<Rightarrow> bool \<times> wm" where
  \<comment> \<open>the handler up to its message; true: the scan is finished already\<close>
  "start_wifi_scan_begin d s =
     (if SCAN_BIT \<in> ms_ev s then (False, s)
      else
        let s = set_bits {SCAN_BIT} s;
            (schan, nchan) = (case d_country d (wm_log s) of
                                None \<Rightarrow> (COUNTRY_DEFAULT_FIRST_CHANNEL, COUNTRY_DEFAULT_NUM_CHANNELS)
                              | Some c \<Rightarrow> c)
        in wifi_scan_next ((log EspGetCountry s)\<lparr>wm_scan := \<lparr>si_first_chan = schan, si_last_chan = schan + nchan - 1,
             si_cur_chan = 0, si_num_access_points = 0\<rparr>\<rparr>))"

definition connect_sta_begin :: "driver \<Rightarrow> msg_param \<Rightarrow> wm \<Rightarrow> bool \<times> wm" where
  \<comment> \<open>true: the station is active and has to be disconnected\<close>
  "connect_sta_begin d p_param s =
     (let s = clear_bits {CMD_STA_CONNECT_BIT} s;
          event_bits = ms_ev s;
          s = conn_req_bits (conv_param_to_conn_req p_param) s
      in if STA_ACTIVE_BIT \<in> event_bits then (True, set_bits {REQUEST_RESTORE_STA_BIT} s)
         else
           let s = set_bits {STA_ACTIVE_BIT} (clear_bits {REQUEST_DISCONNECT_BIT} s);
               (ok, s) = esp d (EspSetConfigSta (config_sta_get_config (wm_cfg s))) s
           in (False, if ok then snd (esp d EspConnect s) else s))"

definition disconnect_sta_begin :: "driver \<Rightarrow> wm \<Rightarrow> bool \<times> wm" where
  \<comment> \<open>true: a connection is wanted\<close>
  "disconnect_sta_begin d s =
     (let s = stop_timer_reconnect_sta_after_timeout s;
          s = set_bits {REQUEST_DISCONNECT_BIT} s;
          event_bits = ms_ev s;
          s = clear_bits {STA_ACTIVE_BIT} s;
          s = callback CbDisconnectSta (snd (esp d EspDisconnect s))
      in (REQUEST_STA_CONNECT_BIT \<in> event_bits, clear_bits {REQUEST_DISCONNECT_BIT} s))"

definition sta_disconnected_begin :: "driver \<Rightarrow> msg_param \<Rightarrow> wm \<Rightarrow> (bool \<times> bool) \<times> wm" where
  \<comment> \<open>whether to connect again, and whether to call the callback of the message\<close>
  "sta_disconnected_begin d p_param s =
     (let event_bits = ms_ev s;
          s = clear_bits {SCAN_BIT, INITIAL_CONNECTION_BIT, STA_ACTIVE_BIT, WIFI_CONNECTED_BIT} s;
          (reconnect, update_reason, s) = disconnected_outcome d (conv_param_to_reason p_param) event_bits s
      in ((reconnect \<and> CMD_STA_CONNECT_BIT \<notin> event_bits, WIFI_CONNECTED_BIT \<in> event_bits \<or> INITIAL_CONNECTION_BIT \<in> event_bits),
          update_network_connection_info d update_reason (Some (config_sta_get_ssid (wm_cfg s))) None None s))"

definition branch_p :: "(wm \<Rightarrow> 'b \<times> wm) \<Rightarrow> ('b \<Rightarrow> (wm, 'a) prog) \<Rightarrow> (wm, 'a) prog" where
  "branch_p f k = Step (\<lambda>_. True) (\<lambda>s. snd (f s)) (\<lambda>s. k (fst (f s)))"

definition handle_msg_p :: "driver \<Rightarrow> queue_message \<Rightarrow> (bool \<Rightarrow> bool \<Rightarrow> (wm, 'a) prog) \<Rightarrow> (wm, 'a) prog" where
  "handle_msg_p d msg k =
     (let go = k False True; p = msg_param msg
      in case msg_code msg of
           ORDER_STOP_AND_DESTROY \<Rightarrow> k True True
         | ORDER_START_WIFI_SCAN \<Rightarrow>
             branch_p (start_wifi_scan_begin d) (\<lambda>finished. if finished then send_p EVENT_SCAN_DONE ParamNone True (\<lambda>_. go) else go)
         | ORDER_CONNECT_ETH \<Rightarrow> act_p handle_cmd_connect_eth go
         | ORDER_CONNECT_STA \<Rightarrow>
             branch_p (connect_sta_begin d p) (\<lambda>active. if active then send_p ORDER_DISCONNECT_STA ParamNone True (\<lambda>_. go) else go)
         | ORDER_DISCONNECT_ETH \<Rightarrow> act_p handle_cmd_disconnect_eth go
         | ORDER_DISCONNECT_STA \<Rightarrow>
             branch_p (disconnect_sta_begin d)
               (\<lambda>wanted. if wanted then send_connect_sta_p CONNECTION_REQUEST_USER (\<lambda>_. go) else go)
         | ORDER_START_AP \<Rightarrow> act_p (handle_cmd_start_ap d (p = ParamFlag True)) go
         | ORDER_STOP_AP \<Rightarrow> act_p (handle_cmd_stop_ap d) go
         | EVENT_STA_DISCONNECTED \<Rightarrow>
             branch_p (sta_disconnected_begin d p) (\<lambda>(again, call_cb).
               if again then send_connect_sta_p CONNECTION_REQUEST_USER (\<lambda>_. k False call_cb) else k False call_cb)
         | EVENT_SCAN_NEXT \<Rightarrow>
             branch_p (\<lambda>s. esp d (EspScanStart (si_cur_chan (wm_scan s))) s)
               (\<lambda>ok. if \<not> ok then Lock (act_p notify_scan_done (Unlock go)) else go)
         | EVENT_SCAN_DONE \<Rightarrow> Lock (act_p (handle_ev_scan_done d) (Unlock go))
         | EVENT_STA_GOT_IP \<Rightarrow> act_p (handle_ev_sta_got_ip d) go
         | EVENT_AP_STA_CONNECTED \<Rightarrow> act_p handle_ev_ap_sta_connected go
         | EVENT_AP_STA_DISCONNECTED \<Rightarrow> act_p handle_ev_ap_sta_disconnected go
         | EVENT_AP_STA_IP_ASSIGNED \<Rightarrow> act_p handle_ev_ap_sta_ip_assigned go
         | ORDER_ENABLE_WPS \<Rightarrow> act_p (handle_cmd_enable_wps d) go
         | ORDER_DISABLE_WPS \<Rightarrow> act_p (handle_cmd_disable_wps d) go
         | ORDER_TASK_WATCHDOG_FEED \<Rightarrow> clear_flag_wdog_feed_active_p (act_p wdt_task_reset go)
         | WIFI_MAN_MSG_CODE_NONE \<Rightarrow> go)"

definition recv_and_handle_msg_p :: "driver \<Rightarrow> (bool \<Rightarrow> (wm, 'a) prog) \<Rightarrow> (wm, 'a) prog" where
  \<comment> \<open>the queue is read without the mutex\<close>
  "recv_and_handle_msg_p d k =
     Step (\<lambda>s. msg_recv s \<noteq> None) (\<lambda>s. snd (the (msg_recv s))) (\<lambda>s.
       let msg = fst (the (msg_recv s))
       in handle_msg_p d msg (\<lambda>stop call_cb. act_p (after_callback msg call_cb) (k stop)))"

fun manager_loop_p :: "driver \<Rightarrow> nat \<Rightarrow> (wm, bool) prog" where
  \<comment> \<open>the loop of \<open>wifi_manager_task\<close> for so many messages, and what follows it; the result: whether it has ended\<close>
  "manager_loop_p d 0 = Return False"
| "manager_loop_p d (Suc n) =
     recv_and_handle_msg_p d (\<lambda>stop.
       if stop then Lock (act_p task_end (Unlock (Return True))) else manager_loop_p d n)"

definition manager_task_p :: "driver \<Rightarrow> nat \<Rightarrow> (wm, bool) prog" where
  "manager_task_p d n = act_p task_begin (manager_loop_p d n)"

subsection \<open>Tasks that use the manager\<close>

datatype client_op =
    ClientSend message_code msg_param \<comment> \<open>the commands and events that are one message\<close>
  | ClientConnectSta conn_req \<comment> \<open>reconnect timer and \<open>wifi_manager_reconnect_sta\<close>\<close>
  | ClientConnectAsync conn_req | ClientWatchdogTimer | ClientScanSync

fun client_p :: "client_op list \<Rightarrow> (wm, bool) prog" where
  "client_p [] = Return True"
| "client_p (x # xs) =
     (case x of
        ClientSend code param \<Rightarrow> send_p code param True (\<lambda>_. client_p xs)
      | ClientConnectSta req \<Rightarrow> send_connect_sta_p req (\<lambda>_. client_p xs)
      | ClientConnectAsync req \<Rightarrow> connect_async_p req (client_p xs)
      | ClientWatchdogTimer \<Rightarrow> send_cmd_task_watchdog_feed_p (client_p xs)
      | ClientScanSync \<Rightarrow> scan_sync_p (\<lambda>_. client_p xs))"

definition manager_system :: "driver \<Rightarrow> nat \<Rightarrow> client_op list list \<Rightarrow> wm \<Rightarrow> (wm, bool) sys" where
  \<comment> \<open>the task of the manager for so many messages, and other tasks\<close>
  "manager_system d n xss s = \<lparr>sy_owner = None, sy_state = s, sy_tasks = manager_task_p d n # map client_p xss\<rparr>"

section \<open>A task that is alone\<close>

primrec alone :: "('s, 'a) prog \<Rightarrow> 's \<Rightarrow> ('a \<times> 's) option" where
  \<comment> \<open>what a program does when its task is the only one; \<open>None\<close>: it waits\<close>
  "alone (Return a) = (\<lambda>s. Some (a, s))"
| "alone (Lock p) = alone p"
| "alone (Unlock p) = alone p"
| "alone (LockFor p q) = alone p"
| "alone (Step g f k) = (\<lambda>s. if g s then alone (k s) (f s) else None)"

lemma alone_send [simp]:
  "alone (send_p code param for_ever k) s =
     Option.bind (msg_send_with_timeout code param for_ever s) (\<lambda>(ok, t). alone (k ok) t)"
  by (auto simp: send_p_def enqueue_p_def msg_send_with_timeout_def split: option.split)

lemma alone_act [simp]: "alone (act_p f p) s = alone p (f s)"
  by (simp add: act_p_def)

lemma alone_branch [simp]: "alone (branch_p f k) s = (case f s of (b, t) \<Rightarrow> alone (k b) t)"
  by (simp add: branch_p_def case_prod_beta)

lemma alone_send_connect_sta [simp]:
  "alone (send_connect_sta_p req k) s = Option.bind (msg_send_cmd_connect_sta req s) (\<lambda>(ok, t). alone (k ok) t)"
  by (simp add: send_connect_sta_p_def msg_send_cmd_connect_sta_def msg_send_def)

lemmas send_plain =
  msg_send_ev_scan_done_def msg_send_cmd_disconnect_sta_def msg_send_def

lemma start_wifi_scan_split:
  "handle_cmd_start_wifi_scan d s =
     (case start_wifi_scan_begin d s of (finished, t) \<Rightarrow> if finished then map_option snd (msg_send_ev_scan_done t) else Some t)"
  by (auto simp: handle_cmd_start_wifi_scan_def start_wifi_scan_begin_def Let_def split: prod.split option.split)

lemma connect_sta_split:
  "handle_cmd_connect_sta d p s =
     (case connect_sta_begin d p s of (active, t) \<Rightarrow> if active then map_option snd (msg_send_cmd_disconnect_sta t) else Some t)"
  by (auto simp: handle_cmd_connect_sta_def connect_sta_begin_def Let_def split: prod.split)

lemma disconnect_sta_split:
  "handle_cmd_disconnect_sta d s =
     (case disconnect_sta_begin d s of (wanted, t) \<Rightarrow>
        if wanted then map_option snd (msg_send_cmd_connect_sta CONNECTION_REQUEST_USER t) else Some t)"
  by (auto simp: handle_cmd_disconnect_sta_def disconnect_sta_begin_def Let_def split: prod.split)

lemma sta_disconnected_split:
  "handle_ev_sta_disconnected d p s =
     (case sta_disconnected_begin d p s of ((again, call_cb), t) \<Rightarrow>
        if again then map_option (\<lambda>(_, u). (call_cb, u)) (msg_send_cmd_connect_sta CONNECTION_REQUEST_USER t)
        else Some (call_cb, t))"
  by (auto simp: handle_ev_sta_disconnected_def sta_disconnected_begin_def Let_def split: prod.split Option.bind_split)

lemma alone_handle:
  "alone (handle_msg_p d m k) s =
     Option.bind (handle_msg d m s) (\<lambda>(stop, call_cb, t). alone (k stop call_cb) t)"
  by (cases "msg_code m")
    (auto simp: handle_msg_p_def handle_msg_def Let_def start_wifi_scan_split connect_sta_split disconnect_sta_split
      sta_disconnected_split send_plain handle_ev_scan_next_def clear_flag_wdog_feed_active_p_def
      split: prod.split Option.bind_split)

lemma alone_recv:
  "alone (recv_and_handle_msg_p d k) s = Option.bind (recv_and_handle_msg d s) (\<lambda>(stop, t). alone (k stop) t)"
  by (cases "msg_recv s")
    (auto simp: recv_and_handle_msg_p_def recv_and_handle_msg_def alone_handle Let_def after_callback_def
      split: prod.split Option.bind_split)

fun task_run :: "driver \<Rightarrow> nat \<Rightarrow> wm \<Rightarrow> (bool \<times> wm) option" where
  \<comment> \<open>the sequential model of the loop of the task\<close>
  "task_run d 0 s = Some (False, s)"
| "task_run d (Suc n) s =
     (case recv_and_handle_msg d s of
        None \<Rightarrow> None
      | Some (stop, t) \<Rightarrow> if stop then Some (True, task_end t) else task_run d n t)"

lemma alone_manager: "alone (manager_loop_p d n) s = task_run d n s"
  by (induction n arbitrary: s) (auto simp: alone_recv split: option.split)

lemma alone_clients:
  "alone (send_cmd_task_watchdog_feed_p p) s = Option.bind (msg_send_cmd_task_watchdog_feed s) (alone p)"
  "alone (connect_async_p CONNECTION_REQUEST_USER p) s = Option.bind (manager_connect_async s) (alone p)"
  "alone (connect_async_p CONNECTION_REQUEST_WPS p) s = Option.bind (manager_connect_async_by_wps s) (alone p)"
  by (auto simp: send_cmd_task_watchdog_feed_p_def msg_send_cmd_task_watchdog_feed_def msg_try_send_def connect_async_p_def
      manager_connect_async_def manager_connect_async_by_wps_def split: Option.bind_split)

section \<open>What a task can wait for\<close>

definition can_send :: "wm \<Rightarrow> bool" where
  "can_send s \<longleftrightarrow> (case ms_queue s of None \<Rightarrow> True | Some q \<Rightarrow> length q < QUEUE_LENGTH)"

primrec orderly :: "bool \<Rightarrow> (wm, 'a) prog \<Rightarrow> nat \<Rightarrow> bool" where
  \<comment> \<open>unlocks what it has locked, and waits with the mutex held for nothing but room in the queue; the
    flag: without the mutex it waits for nothing but a message\<close>
  "orderly receives (Return a) = (\<lambda>n. n = 0)"
| "orderly receives (Lock p) = (\<lambda>n. orderly receives p (Suc n))"
| "orderly receives (Unlock p) = (\<lambda>n. 0 < n \<and> orderly receives p (n - 1))"
| "orderly receives (LockFor p q) = (\<lambda>n. orderly receives p (Suc n) \<and> orderly receives q n)"
| "orderly receives (Step g f k) = (\<lambda>n. \<forall>s. (0 < n \<and> can_send s \<longrightarrow> g s)
     \<and> (n = 0 \<and> receives \<and> msg_recv s \<noteq> None \<longrightarrow> g s) \<and> orderly receives (k s) n)"

lemma orderly_send: "(\<And>ok. orderly r (k ok) n) \<Longrightarrow> orderly r (send_p code param for_ever k) n"
  by (auto simp: send_p_def enqueue_p_def can_send_def msg_send_with_timeout_def split: option.split)

lemma orderly_act [simp]: "orderly r (act_p f p) n = orderly r p n"
  by (simp add: act_p_def)

lemma orderly_branch: "(\<And>b. orderly r (k b) n) \<Longrightarrow> orderly r (branch_p f k) n"
  by (simp add: branch_p_def)

lemmas orderly_rules = orderly_send orderly_branch

lemma orderly_send_connect_sta: "(\<And>ok. orderly r (k ok) n) \<Longrightarrow> orderly r (send_connect_sta_p req k) n"
  by (simp add: send_connect_sta_p_def orderly_send)

lemma orderly_handle:
  assumes "\<And>stop call_cb. orderly r (k stop call_cb) 0"
  shows "orderly r (handle_msg_p d m k) 0"
  using assms
  by (cases "msg_code m")
    (auto simp: handle_msg_p_def Let_def clear_flag_wdog_feed_active_p_def intro!: orderly_rules orderly_send_connect_sta)

lemma orderly_manager: "orderly r (manager_task_p d n) 0"
proof -
  have "orderly r (manager_loop_p d n) 0"
    by (induction n) (auto simp: recv_and_handle_msg_p_def Let_def intro!: orderly_handle)
  then show ?thesis by (simp add: manager_task_p_def)
qed

lemma orderly_client: "orderly False (client_p xs) 0"
proof (induction xs)
  case (Cons x xs)
  then show ?case
    by (cases x) (auto simp: connect_async_p_def send_cmd_task_watchdog_feed_p_def scan_sync_p_def
        intro!: orderly_send orderly_send_connect_sta)
qed simp

definition orderly_sys :: "(wm, 'a) sys \<Rightarrow> bool" where
  "orderly_sys y \<longleftrightarrow> (\<forall>i<length (sy_tasks y). orderly (i = 0) (sy_tasks y ! i) (held (sy_owner y) i))
     \<and> (case sy_owner y of None \<Rightarrow> True | Some (i, n) \<Rightarrow> i < length (sy_tasks y) \<and> 0 < n)"

lemma orderly_step:
  assumes "orderly_sys y" "task_step True i y = Some y'"
  shows "orderly_sys y'"
proof -
  have i: "i < length (sy_tasks y)" "orderly (i = 0) (sy_tasks y ! i) (held (sy_owner y) i)"
    using assms by (auto simp: orderly_sys_def task_step_def split: if_splits)
  show ?thesis
    using assms i
    by (cases "sy_owner y"; cases "sy_tasks y ! i";
        auto simp: orderly_sys_def task_step_def prog_step_def held_def free_for_def taken_def nth_list_update
          split: if_splits; blast)
qed

lemma orderly_steps: "sys_steps True y y' \<Longrightarrow> orderly_sys y \<Longrightarrow> orderly_sys y'"
  by (induction rule: rtranclp_induct) (auto elim!: sys_step.cases intro: orderly_step)

lemma orderly_manager_system: "orderly_sys (manager_system d n xss s)"
  by (auto simp: orderly_sys_def manager_system_def held_def nth_Cons orderly_manager orderly_client split: nat.split)

definition waits_for :: "(wm, 'a) prog \<Rightarrow> wm \<Rightarrow> bool" where
  \<comment> \<open>waits for something else than the mutex\<close>
  "waits_for p s = (case p of Step g f k \<Rightarrow> \<not> g s | _ \<Rightarrow> False)"

lemma stuck_tasks:
  assumes "orderly_sys y" "\<nexists>y'. sys_step True y y'"
  shows "case sy_owner y of
      None \<Rightarrow> \<forall>p\<in>set (sy_tasks y). returned p \<or> waits_for p (sy_state y)
    | Some (i, n) \<Rightarrow> \<not> can_send (sy_state y) \<and> waits_for (sy_tasks y ! i) (sy_state y)
        \<and> (i = 0 \<or> \<not> waits_for (sy_tasks y ! 0) (sy_state y))"
proof -
  note stuck = stuck_step [OF assms(2)]
  show ?thesis
  proof (cases "sy_owner y")
    case None
    have "returned p \<or> waits_for p (sy_state y)" if "p \<in> set (sy_tasks y)" for p
    proof -
      from that obtain i where i: "i < length (sy_tasks y)" "p = sy_tasks y ! i" by (auto simp: in_set_conv_nth)
      have "orderly (i = 0) p 0" using assms(1) i None by (auto simp: orderly_sys_def held_def)
      with stuck [OF i(1), folded i(2)] None show ?thesis
        by (cases p) (auto simp: prog_step_def free_for_def returned_def waits_for_def split: if_splits)
    qed
    with None show ?thesis by simp
  next
    case (Some o')
    then obtain i n where i: "sy_owner y = Some (i, n)" "i < length (sy_tasks y)" "0 < n"
      using assms(1) by (cases o') (auto simp: orderly_sys_def)
    then have "orderly (i = 0) (sy_tasks y ! i) n" using assms(1) by (auto simp: orderly_sys_def held_def)
    with stuck [OF i(2)] i have "\<not> can_send (sy_state y)" "waits_for (sy_tasks y ! i) (sy_state y)"
      by (cases "sy_tasks y ! i"; auto simp: prog_step_def free_for_def waits_for_def split: if_splits)+
    moreover have "\<not> waits_for (sy_tasks y ! 0) (sy_state y)" if "i \<noteq> 0"
    proof
      assume waits: "waits_for (sy_tasks y ! 0) (sy_state y)"
      have "0 < length (sy_tasks y)" using i(2) by auto
      then have "orderly True (sy_tasks y ! 0) 0" using assms(1) i(1) that by (auto simp: orderly_sys_def held_def)
      with waits have "msg_recv (sy_state y) = None" 
        by (cases "sy_tasks y ! 0"; cases "msg_recv (sy_state y)"; force simp: waits_for_def)
      with \<open>\<not> can_send (sy_state y)\<close> show False
        by (auto simp: msg_recv_def can_send_def QUEUE_LENGTH_def split: option.splits list.splits)
    qed
    ultimately show ?thesis using i(1) by auto
  qed
qed

lemma alone_steps:
  assumes "orderly r p n" "alone p s = Some (a, t)"
  shows "sys_steps True \<lparr>sy_owner = if n = 0 then None else Some (0, n), sy_state = s, sy_tasks = [p]\<rparr>
    \<lparr>sy_owner = None, sy_state = t, sy_tasks = [Return a]\<rparr>"
  using assms
proof (induction p arbitrary: n s)
  case (Return b)
  then show ?case by simp
next
  case (Lock p)
  show ?case
    by (rule step_then [of True 0 _ "\<lparr>sy_owner = Some (0, Suc n), sy_state = s, sy_tasks = [p]\<rparr>"])
      (use Lock.IH [of "Suc n" s] Lock.prems in \<open>auto simp: task_step_def prog_step_def free_for_def taken_def\<close>)
next
  case (Unlock p)
  show ?case
    by (rule step_then [of True 0 _ "\<lparr>sy_owner = if n - 1 = 0 then None else Some (0, n - 1), sy_state = s, sy_tasks = [p]\<rparr>"])
      (use Unlock.IH [of "n - 1" s] Unlock.prems in \<open>auto simp: task_step_def prog_step_def\<close>)
next
  case (LockFor p q)
  show ?case
    by (rule step_then [of True 0 _ "\<lparr>sy_owner = Some (0, Suc n), sy_state = s, sy_tasks = [p]\<rparr>"])
      (use LockFor.IH(1) [of "Suc n" s] LockFor.prems in \<open>auto simp: task_step_def prog_step_def free_for_def taken_def\<close>)
next
  case (Step g f k)
  show ?case
    by (rule step_then [of True 0 _ "\<lparr>sy_owner = if n = 0 then None else Some (0, n), sy_state = f s, sy_tasks = [k s]\<rparr>"])
      (use Step.IH [of "k s" n "f s"] Step.prems in \<open>auto simp: task_step_def prog_step_def split: if_splits\<close>)
qed

section \<open>Properties\<close>

text \<open>
  The task of the manager, when no other task interferes, does message by message what
  the sequential model of its handlers says, up to its end.
\<close>

theorem manager_task_alone:
  assumes "task_run d n (task_begin s) = Some (stopped, t)"
  shows "sys_steps True (manager_system d n [] s) \<lparr>sy_owner = None, sy_state = t, sy_tasks = [Return stopped]\<rparr>"
  using alone_steps [OF orderly_manager, of d n s stopped t] assms
  by (simp add: alone_manager manager_system_def manager_task_p_def)

lemma manager_task_alone_witness:
  "sys_steps True (manager_system driver0 2 [] (wm0 (Some [\<lparr>msg_code = ORDER_STOP_AND_DESTROY, msg_param = ParamNone\<rparr>]) {IS_WORKING}))
    \<lparr>sy_owner = None, sy_state = task_end (task_begin (wm0 (Some []) {IS_WORKING})), sy_tasks = [Return True]\<rparr>"
proof (rule manager_task_alone)
  show "task_run driver0 2 (task_begin (wm0 (Some [\<lparr>msg_code = ORDER_STOP_AND_DESTROY, msg_param = ParamNone\<rparr>]) {IS_WORKING}))
    = Some (True, task_end (task_begin (wm0 (Some []) {IS_WORKING})))"
    by (simp add: numeral_2_eq_2 task_begin_def log_def recv_and_handle_msg_def msg_recv_def handle_msg_def wm0_def Let_def)
qed


text \<open>
  C19: the locks of the Wi-Fi manager alone never block its tasks: when no task can go on, then
  either the mutex is free, and each task has returned or waits for a message or for the end
  of its scan; or the queue is full, and the task that holds the mutex waits for room in it
  while the task of the manager, which could make room, waits for it too, or for the mutex.
\<close>

theorem stuck_only_with_full_queue:
  assumes "sys_steps True (manager_system d n xss s) y" "\<nexists>y'. sys_step True y y'"
  shows "case sy_owner y of
      None \<Rightarrow> list_all (\<lambda>p. returned p \<or> waits_for p (sy_state y)) (sy_tasks y)
    | Some (i, _) \<Rightarrow> map_option (\<lambda>q. length q \<ge> QUEUE_LENGTH) (ms_queue (sy_state y)) = Some True
        \<and> waits_for (sy_tasks y ! i) (sy_state y) \<and> (i = 0 \<or> \<not> waits_for (sy_tasks y ! 0) (sy_state y))"
proof -
  have "orderly_sys y" using orderly_steps [OF assms(1) orderly_manager_system] .
  from stuck_tasks [OF this assms(2)] show ?thesis
    by (auto simp: list_all_iff can_send_def not_less split: option.splits)
qed

lemma client_sends:
  assumes "sy_owner y = None" "i < length (sy_tasks y)" "sy_tasks y ! i = client_p (ClientSend (msg_code m) (msg_param m) # xs)"
    and "ms_queue (sy_state y) = Some q" "length q < QUEUE_LENGTH"
  shows "sys_steps True y (y\<lparr>sy_state := (sy_state y)\<lparr>ms_queue := Some (q @ [m])\<rparr>, sy_tasks := (sy_tasks y)[i := client_p xs]\<rparr>)"
proof (rule schedule_steps)
  show "schedule True [i, i, i, i] y
      = Some (y\<lparr>sy_state := (sy_state y)\<lparr>ms_queue := Some (q @ [m])\<rparr>, sy_tasks := (sy_tasks y)[i := client_p xs]\<rparr>)"
    using assms
    by (cases y; cases m) (simp add: task_step_def prog_step_def free_for_def taken_def send_p_def enqueue_p_def msg_send_with_timeout_def)
qed

lemma client_waits:
  assumes "sy_owner y = None" "i < length (sy_tasks y)" "sy_tasks y ! i = client_p (ClientSend (msg_code m) (msg_param m) # xs)"
    and "ms_queue (sy_state y) = Some q" "QUEUE_LENGTH \<le> length q"
  defines "p \<equiv> enqueue_p (msg_code m) (msg_param m) True (\<lambda>_. client_p xs)"
  shows "sys_steps True y (y\<lparr>sy_owner := Some (i, 1), sy_tasks := (sy_tasks y)[i := p]\<rparr>)" "waits_for p (sy_state y)"
proof -
  have "schedule True [i, i] y = Some (y\<lparr>sy_owner := Some (i, 1), sy_tasks := (sy_tasks y)[i := p]\<rparr>)"
    using assms(1-4) by (cases y) (simp add: task_step_def prog_step_def free_for_def taken_def send_p_def p_def)
  then show "sys_steps True y (y\<lparr>sy_owner := Some (i, 1), sy_tasks := (sy_tasks y)[i := p]\<rparr>)" by (rule schedule_steps)
  show "waits_for p (sy_state y)"
    using assms(4,5) by (simp add: waits_for_def p_def enqueue_p_def msg_send_with_timeout_def)
qed

lemma manager_takes_scan_done:
  assumes "ms_queue s = Some [m]" "msg_code m = EVENT_SCAN_DONE"
  shows "\<exists>p. sys_steps True (manager_system d (Suc n) xss s)
    \<lparr>sy_owner = None, sy_state = (task_begin s)\<lparr>ms_queue := Some []\<rparr>, sy_tasks = Lock p # map client_p xss\<rparr>"
proof -
  have "\<exists>p. schedule True [0, 0] (manager_system d (Suc n) xss s)
    = Some \<lparr>sy_owner = None, sy_state = (task_begin s)\<lparr>ms_queue := Some []\<rparr>, sy_tasks = Lock p # map client_p xss\<rparr>"
    using assms
    by (simp add: manager_system_def manager_task_p_def act_p_def task_begin_def log_def task_step_def prog_step_def recv_and_handle_msg_p_def msg_recv_def handle_msg_p_def Let_def)
  then show ?thesis using schedule_steps by blast
qed

lemma stuck_only_with_full_queue_witness:
  "list_all (\<lambda>p. returned p \<or> waits_for p (task_begin (wm0 (Some []) {IS_WORKING})))
     [manager_loop_p driver0 1, Return True]"
proof -
  let ?y = "\<lparr>sy_owner = None, sy_state = task_begin (wm0 (Some []) {IS_WORKING}), sy_tasks = [manager_loop_p driver0 1, Return True]\<rparr>"
  have "schedule True [0] (manager_system driver0 1 [[]] (wm0 (Some []) {IS_WORKING})) = Some ?y"
    by (simp add: manager_system_def manager_task_p_def act_p_def task_step_def prog_step_def)
  note steps = schedule_steps [OF this]
  have "task_step True i ?y = None" for i
    using less_2_cases [of i]
    by (cases "i = 0 \<or> i = 1")
      (auto simp: task_step_def prog_step_def recv_and_handle_msg_p_def msg_recv_def wm0_def task_begin_def log_def)
  then have "\<nexists>y'. sys_step True ?y y'" by (auto elim: sys_step.cases)
  from stuck_only_with_full_queue [OF steps this] show ?thesis by simp
qed

text \<open>
  C20: a full queue stops the manager for ever: its task has taken the end of a scan from the
  queue and waits for the mutex, and another task, which has sent three messages, waits with
  the mutex held for room for the fourth one.
\<close>

theorem full_queue_deadlock:
  assumes "ms_queue s = Some [m]" "msg_code m = EVENT_SCAN_DONE"
  shows "\<exists>y p q. sys_steps True (manager_system d (Suc n) [map (\<lambda>m. ClientSend (msg_code m) (msg_param m)) [a1, a2, a3, a4]] s) y
    \<and> (\<nexists>y'. sys_step True y y') \<and> sy_owner y = Some (1, 1) \<and> ms_queue (sy_state y) = Some [a1, a2, a3]
    \<and> sy_tasks y = [Lock p, q] \<and> waits_for q (sy_state y)"
proof -
  let ?c = "\<lambda>m. ClientSend (msg_code m) (msg_param m)"
  let ?y = "\<lambda>p q xs. \<lparr>sy_owner = None, sy_state = (task_begin s)\<lparr>ms_queue := Some q\<rparr>, sy_tasks = [Lock p, client_p xs]\<rparr>"
  from manager_takes_scan_done [OF assms, of d n "[map ?c [a1, a2, a3, a4]]"] obtain p where
    0: "sys_steps True (manager_system d (Suc n) [map ?c [a1, a2, a3, a4]] s) (?y p [] (map ?c [a1, a2, a3, a4]))" by auto
  have send: "sys_steps True (?y p q (?c m # xs)) (?y p (q @ [m]) xs)" if "length q < QUEUE_LENGTH" for q m xs
    using client_sends [of "?y p q (?c m # xs)" 1 m xs q] that by simp
  have 3: "sys_steps True (?y p [] (map ?c [a1, a2, a3, a4])) (?y p [a1, a2, a3] [?c a4])"
    using send [of "[]" a1 "[?c a2, ?c a3, ?c a4]"] send [of "[a1]" a2 "[?c a3, ?c a4]"] send [of "[a1, a2]" a3 "[?c a4]"]
    by (simp add: QUEUE_LENGTH_def)
  let ?r = "enqueue_p (msg_code a4) (msg_param a4) True (\<lambda>_. client_p [])"
  have 4: "sys_steps True (?y p [a1, a2, a3] [?c a4]) ((?y p [a1, a2, a3] [])\<lparr>sy_owner := Some (1, 1), sy_tasks := [Lock p, ?r]\<rparr>)"
    "waits_for ?r ((task_begin s)\<lparr>ms_queue := Some [a1, a2, a3]\<rparr>)"
    using client_waits [of "?y p [a1, a2, a3] [?c a4]" 1 a4 "[]" "[a1, a2, a3]"] by (simp_all add: QUEUE_LENGTH_def)
  let ?z = "(?y p [a1, a2, a3] [])\<lparr>sy_owner := Some (1, 1), sy_tasks := [Lock p, ?r]\<rparr>"
  have "task_step True i ?z = None" for i
    using 4(2) less_2_cases [of i]
    by (cases "i = 0 \<or> i = 1") (auto simp: task_step_def prog_step_def free_for_def waits_for_def enqueue_p_def)
  then have "\<nexists>y'. sys_step True ?z y'" by (auto elim: sys_step.cases)
  moreover have "sys_steps True (manager_system d (Suc n) [map ?c [a1, a2, a3, a4]] s) ?z"
    using 0 3 4(1) by (meson rtranclp_trans)
  ultimately show ?thesis using 4(2) by (intro exI [of _ ?z]) simp
qed

lemma full_queue_deadlock_witness:
  "\<exists>y p q. sys_steps True (manager_system driver0 1
        [[ClientSend ORDER_STOP_AP ParamNone, ClientSend ORDER_DISABLE_WPS ParamNone, ClientSend ORDER_DISCONNECT_STA ParamNone,
          ClientSend ORDER_START_AP (ParamFlag True)]] (wm0 (Some [\<lparr>msg_code = EVENT_SCAN_DONE, msg_param = ParamNone\<rparr>]) {SCAN_BIT})) y
    \<and> (\<nexists>y'. sys_step True y y') \<and> sy_owner y = Some (1, 1)
    \<and> ms_queue (sy_state y) = Some [\<lparr>msg_code = ORDER_STOP_AP, msg_param = ParamNone\<rparr>,
        \<lparr>msg_code = ORDER_DISABLE_WPS, msg_param = ParamNone\<rparr>, \<lparr>msg_code = ORDER_DISCONNECT_STA, msg_param = ParamNone\<rparr>]
    \<and> sy_tasks y = [Lock p, q] \<and> waits_for q (sy_state y)"
  using full_queue_deadlock [of "wm0 (Some [\<lparr>msg_code = EVENT_SCAN_DONE, msg_param = ParamNone\<rparr>]) {SCAN_BIT}"
      "\<lparr>msg_code = EVENT_SCAN_DONE, msg_param = ParamNone\<rparr>" driver0 0 "\<lparr>msg_code = ORDER_STOP_AP, msg_param = ParamNone\<rparr>"
      "\<lparr>msg_code = ORDER_DISABLE_WPS, msg_param = ParamNone\<rparr>" "\<lparr>msg_code = ORDER_DISCONNECT_STA, msg_param = ParamNone\<rparr>"
      "\<lparr>msg_code = ORDER_START_AP, msg_param = ParamFlag True\<rparr>"]
  by (simp add: wm0_def del: client_p.simps)

end
