(* ===== verification/Digests.thy ===== *)
theory Digests
  imports Ecdh PostAuth
begin

text \<open>
  \<^verbatim>\<open>src/wifiman_sha256.c\<close>, \<^verbatim>\<open>src/wifiman_md5.c\<close> and \<open>http_server_ecdh_calc_sha256\<close> of
  \<^verbatim>\<open>src/http_server_ecdh.c\<close>, and \<open>http_server_auth_ruuvi_gen_hashed_password\<close> of
  \<^verbatim>\<open>src/http_server_handle_req_post_auth.c\<close>: how the program computes a digest with the steps of mbedtls.

  The steps are the record \<open>hash_lib\<close>: each takes the context and returns its code with the new
  context. The calls are recorded in order (\<open>hash_op\<close>). The other theories use the digests as
  the parameters \<open>sha256\<close>, \<open>md5\<close> and \<open>sha256_raw\<close>; here these are computed from the steps.
\<close>

section \<open>Model\<close>

datatype hash_op = HashInit | HashStarts | HashUpdate "byte list" | HashFinish | HashFree

record 'c hash_lib =
  hl_init :: 'c
  hl_starts :: "'c \<Rightarrow> int \<times> 'c"
  hl_update :: "byte list \<Rightarrow> 'c \<Rightarrow> int \<times> 'c"
  hl_finish :: "'c \<Rightarrow> byte list \<Rightarrow> int \<times> byte list" \<comment> \<open>what the digest held before, and what it holds then\<close>

type_synonym hash_result = "bool \<times> byte list \<times> hash_op list"
  \<comment> \<open>the result, the digest, the calls\<close>

definition wifiman_sha256_calc :: "'c hash_lib \<Rightarrow> byte list \<Rightarrow> byte list \<Rightarrow> hash_result" where
  "wifiman_sha256_calc L buf digest =
     (let (ret, ctx) = hl_starts L (hl_init L)
      in if 0 \<noteq> ret then (False, digest, [HashInit, HashStarts, HashFree])
         else
           let (ret, ctx) = hl_update L buf ctx
           in if 0 \<noteq> ret then (False, digest, [HashInit, HashStarts, HashUpdate buf, HashFree])
              else
                let (ret, digest) = hl_finish L ctx digest
                in if 0 \<noteq> ret then (False, digest, [HashInit, HashStarts, HashUpdate buf, HashFinish, HashFree])
                   else (True, digest, [HashInit, HashStarts, HashUpdate buf, HashFinish, HashFree]))"

definition wifiman_md5_calc :: "'c hash_lib \<Rightarrow> byte list \<Rightarrow> byte list \<Rightarrow> hash_result" where
  "wifiman_md5_calc L buf digest =
     (let (ret, ctx) = hl_starts L (hl_init L)
      in if 0 \<noteq> ret then (False, digest, [HashInit, HashStarts, HashFree])
         else
           let (ret, ctx) = hl_update L buf ctx
           in if 0 \<noteq> ret then (False, digest, [HashInit, HashStarts, HashUpdate buf, HashFree])
              else
                let (ret, digest) = hl_finish L ctx digest
                in if 0 \<noteq> ret then (False, digest, [HashInit, HashStarts, HashUpdate buf, HashFinish, HashFree])
                   else (True, digest, [HashInit, HashStarts, HashUpdate buf, HashFinish, HashFree]))"

definition ecdh_calc_sha256 :: "'c hash_lib \<Rightarrow> byte list \<Rightarrow> byte list \<Rightarrow> byte list \<times> hash_op list" where
  \<comment> \<open>without a look at the return codes\<close>
  "ecdh_calc_sha256 L buf digest =
     (let (ret, ctx) = hl_starts L (hl_init L);
          (ret, ctx) = hl_update L buf ctx;
          (ret, digest) = hl_finish L ctx digest
      in (digest, [HashInit, HashStarts, HashUpdate buf, HashFinish, HashFree]))"

definition auth_ruuvi_gen_hashed_password ::
  "env \<Rightarrow> 'c hash_lib \<Rightarrow> cstr \<Rightarrow> cstr \<Rightarrow> cstr \<Rightarrow> bool \<times> cstr \<times> hash_op list" where
  \<comment> \<open>the last argument: what the place of the result held before\<close>
  "auth_ruuvi_gen_hashed_password e L challenge password enc_pass =
     (let (ret, ctx) = hl_starts L (hl_init L);
          done = [HashInit, HashStarts]
      in if 0 \<noteq> ret then (False, enc_pass, done @ [HashFree])
         else
           let (ret, ctx) = hl_update L challenge ctx;
               done = done @ [HashUpdate challenge]
           in if 0 \<noteq> ret then (False, enc_pass, done @ [HashFree])
              else
                let (ret, ctx) = hl_update L '':'' ctx;
                    done = done @ [HashUpdate '':'']
                in if 0 \<noteq> ret then (False, enc_pass, done @ [HashFree])
                   else
                     let (ret, ctx) = hl_update L password ctx;
                         done = done @ [HashUpdate password]
                     in if 0 \<noteq> ret then (False, enc_pass, done @ [HashFree])
                        else
                          let (ret, digest) = hl_finish L ctx (replicate 32 NUL);
                              done = done @ [HashFinish]
                          in if 0 \<noteq> ret then (False, enc_pass, done @ [HashFree])
                             else (True, wifiman_sha256_hex_str e digest, done @ [HashFree]))"

definition wifiman_sha256_is_empty_digest_hex_str :: "cstr \<Rightarrow> bool" where
  \<comment> \<open>the first byte is the NUL\<close>
  "wifiman_sha256_is_empty_digest_hex_str s \<longleftrightarrow> s = []"

definition wifiman_md5_is_empty_digest_hex_str :: "cstr \<Rightarrow> bool" where
  "wifiman_md5_is_empty_digest_hex_str s \<longleftrightarrow> s = []"

section \<open>Lemmas\<close>

definition digest_of :: "hash_result \<Rightarrow> byte list option" where
  "digest_of r = (case r of (ok, digest, ops) \<Rightarrow> if ok then Some digest else None)"

fun hash_updates :: "'c hash_lib \<Rightarrow> byte list list \<Rightarrow> 'c \<Rightarrow> 'c option" where
  "hash_updates L [] ctx = Some ctx"
| "hash_updates L (buf # bufs) ctx = (case hl_update L buf ctx of (ret, ctx) \<Rightarrow> if ret = 0 then hash_updates L bufs ctx else None)"

definition sha256_of :: "'c hash_lib \<Rightarrow> byte list list \<Rightarrow> byte list option" where
  \<comment> \<open>the parameter of the other theories: the digest of the updates, if every step succeeds\<close>
  "sha256_of L bufs =
     (case hl_starts L (hl_init L) of (ret, ctx) \<Rightarrow>
        if ret \<noteq> 0 then None
        else Option.bind (hash_updates L bufs ctx)
          (\<lambda>ctx. case hl_finish L ctx (replicate 32 NUL) of (ret, digest) \<Rightarrow> if ret = 0 then Some digest else None))"

definition md5_of :: "'c hash_lib \<Rightarrow> byte list \<Rightarrow> byte list option" where
  "md5_of L buf = digest_of (wifiman_md5_calc L buf (replicate 16 NUL))"

definition hash_doc :: "nat \<Rightarrow> 'c hash_lib \<Rightarrow> bool" where
  \<comment> \<open>documented: the last step writes the digest in place\<close>
  "hash_doc n L \<longleftrightarrow> (\<forall>ctx d. length d = n \<longrightarrow> length (snd (hl_finish L ctx d)) = n)"

definition steps_succeed :: "'c hash_lib \<Rightarrow> byte list \<Rightarrow> byte list \<Rightarrow> bool" where
  "steps_succeed L buf digest \<longleftrightarrow>
     (let (r1, c1) = hl_starts L (hl_init L); (r2, c2) = hl_update L buf c1
      in r1 = 0 \<and> r2 = 0 \<and> fst (hl_finish L c2 digest) = 0)"

fun context_alive :: "bool \<Rightarrow> hash_op list \<Rightarrow> bool option" where
  \<comment> \<open>whether the context is alive after the calls; \<open>None\<close>: one of them uses a context that is not, or
      initialises one that is\<close>
  "context_alive a [] = Some a"
| "context_alive a (HashInit # ops) = (if a then None else context_alive True ops)"
| "context_alive a (HashFree # ops) = (if a then context_alive False ops else None)"
| "context_alive a (op # ops) = (if a then context_alive a ops else None)"

lemmas hash_defs = wifiman_sha256_calc_def wifiman_md5_calc_def ecdh_calc_sha256_def Let_def

lemma calc_same: "wifiman_md5_calc = wifiman_sha256_calc"
  by (intro ext) (simp only: wifiman_md5_calc_def wifiman_sha256_calc_def)

lemma sha256_calc_run:
  shows "fst (wifiman_sha256_calc L buf d) \<longleftrightarrow> steps_succeed L buf d"
    and "context_alive False (snd (snd (wifiman_sha256_calc L buf d))) = Some False"
    and "context_alive False (snd (ecdh_calc_sha256 L buf d)) = Some False"
    and "steps_succeed L buf d \<Longrightarrow> fst (snd (wifiman_sha256_calc L buf d)) = fst (ecdh_calc_sha256 L buf d)"
  by (auto simp: hash_defs steps_succeed_def split: prod.splits)

lemma calc_length:
  assumes "hash_doc n L" "length d = n"
  shows "length (fst (snd (wifiman_sha256_calc L buf d))) = n" "length (fst (ecdh_calc_sha256 L buf d)) = n"
  using assms(2) assms(1) [unfolded hash_doc_def, rule_format, of d]
  by (auto simp: hash_defs case_prod_beta)

lemma sha256_of_length: "hash_doc 32 L \<Longrightarrow> sha256_of L bufs = Some d \<Longrightarrow> length d = 32"
  unfolding hash_doc_def
  by (auto simp: sha256_of_def split: prod.splits if_splits elim!: option_bind_SomeE) (metis length_replicate snd_conv)

lemma sha256_of_calc: "sha256_of L [buf] = digest_of (wifiman_sha256_calc L buf (replicate 32 NUL))"
  by (auto simp: sha256_of_def digest_of_def wifiman_sha256_calc_def Let_def split: prod.splits)

lemma hashed_password_run:
  "case auth_ruuvi_gen_hashed_password e L challenge password enc_pass of (ok, hash, ops) \<Rightarrow>
     context_alive False ops = Some False
     \<and> gen_hashed_password (e\<lparr>sha256 := sha256_of L\<rparr>) challenge password = (if ok then Some hash else None)
     \<and> (\<not> ok \<longrightarrow> hash = enc_pass)"
  by (auto simp: auth_ruuvi_gen_hashed_password_def gen_hashed_password_def sha256_of_def wifiman_sha256_hex_str_def
      Let_def split: prod.splits)

lemma md5_of_length: "hash_doc 16 L \<Longrightarrow> md5_of L buf = Some d \<Longrightarrow> length d = 16"
  using calc_length(1) [of 16 L "replicate 16 NUL" buf]
  by (auto simp: md5_of_def calc_same digest_of_def split: prod.splits if_splits)

section \<open>Properties\<close>

text \<open>
  C39: The digest functions of the program implement the parameters of the other theories: the
  hash context is initialised once, used only while it is alive and freed on every path; the
  digest is reported exactly when every step succeeds, and then it is the one the key
  exchange computes without looking at the codes; with the documented library the parameters have
  their documented lengths, and the hexadecimal text is empty exactly when a step failed. The digest
  of a challenge and a password, computed in three updates, is the one that the login compares with, or
  its place is left alone.
\<close>

theorem digest_parameters_implemented:
  assumes "env_doc e" "hash_doc 32 L" "hash_doc 16 M"
  shows "env_doc (e\<lparr>sha256 := sha256_of L, md5 := md5_of M\<rparr>)
    \<and> length (fst (ecdh_calc_sha256 L buf (replicate 32 NUL))) = 32
    \<and> sha256_of L [buf] = (if steps_succeed L buf (replicate 32 NUL) then Some (fst (ecdh_calc_sha256 L buf (replicate 32 NUL))) else None)
    \<and> context_alive False (snd (snd (wifiman_sha256_calc L buf d))) = Some False
    \<and> context_alive False (snd (snd (wifiman_md5_calc M buf d))) = Some False
    \<and> context_alive False (snd (ecdh_calc_sha256 L buf d)) = Some False
    \<and> (wifiman_sha256_is_empty_digest_hex_str (wifiman_sha256_calc_hex_str (e\<lparr>sha256 := sha256_of L\<rparr>) buf)
         \<longleftrightarrow> \<not> steps_succeed L buf (replicate 32 NUL))
    \<and> (wifiman_md5_is_empty_digest_hex_str (wifiman_md5_calc_hex_str (e\<lparr>md5 := md5_of M\<rparr>) buf)
         \<longleftrightarrow> \<not> steps_succeed M buf (replicate 16 NUL))
    \<and> (case auth_ruuvi_gen_hashed_password e L challenge password enc_pass of (ok, hash, ops) \<Rightarrow>
         context_alive False ops = Some False
         \<and> gen_hashed_password (e\<lparr>sha256 := sha256_of L\<rparr>) challenge password = (if ok then Some hash else None)
         \<and> (\<not> ok \<longrightarrow> hash = enc_pass))"
proof (intro conjI)
  show "env_doc (e\<lparr>sha256 := sha256_of L, md5 := md5_of M\<rparr>)"
    using assms sha256_of_length [OF assms(2)] md5_of_length [OF assms(3)] by (simp add: env_doc_def)
  show "length (fst (ecdh_calc_sha256 L buf (replicate 32 NUL))) = 32"
    by (rule calc_length [OF assms(2)]) simp
  show "sha256_of L [buf] = (if steps_succeed L buf (replicate 32 NUL)
      then Some (fst (ecdh_calc_sha256 L buf (replicate 32 NUL))) else None)"
    using sha256_calc_run(1,4) [of L buf "replicate 32 NUL"]
    by (auto simp: sha256_of_calc digest_of_def split: prod.splits)
  have hex: "bin_to_hex e (2 * k + 1) b \<noteq> []" if "length b = k" "0 < k" for k b
  proof -
    have "length (bin_to_hex e (2 * k + 1) b) = 2 * k" using assms(1) that(1) by (simp add: env_doc_def)
    with that(2) show ?thesis by auto
  qed
  from hex [of _ 32] have hex32: "length b = 32 \<Longrightarrow> bin_to_hex e 65 b \<noteq> []" for b by simp
  from hex [of _ 16] have hex16: "length b = 16 \<Longrightarrow> bin_to_hex e 33 b \<noteq> []" for b by simp
  show "wifiman_sha256_is_empty_digest_hex_str (wifiman_sha256_calc_hex_str (e\<lparr>sha256 := sha256_of L\<rparr>) buf)
      \<longleftrightarrow> \<not> steps_succeed L buf (replicate 32 NUL)"
    using sha256_calc_run(1) [of L buf "replicate 32 NUL"] sha256_of_length [OF assms(2), of "[buf]"] hex32
    by (auto simp: wifiman_sha256_is_empty_digest_hex_str_def wifiman_sha256_calc_hex_str_def wifiman_sha256_hex_str_def
        sha256_of_calc digest_of_def split: prod.splits if_splits)
  show "wifiman_md5_is_empty_digest_hex_str (wifiman_md5_calc_hex_str (e\<lparr>md5 := md5_of M\<rparr>) buf)
      \<longleftrightarrow> \<not> steps_succeed M buf (replicate 16 NUL)"
    using sha256_calc_run(1) [of M buf "replicate 16 NUL"] md5_of_length [OF assms(3), of buf] hex16
    by (auto simp: wifiman_md5_is_empty_digest_hex_str_def wifiman_md5_calc_hex_str_def wifiman_md5_hex_str_def
        md5_of_def calc_same digest_of_def split: prod.splits if_splits)
qed (simp_all add: sha256_calc_run(2,3) calc_same hashed_password_run)

section \<open>Witnesses\<close>

definition lib0 :: "nat \<Rightarrow> byte list hash_lib" where
  \<comment> \<open>a digest that repeats the first byte, and fails on the empty text\<close>
  "lib0 n = \<lparr>hl_init = [], hl_starts = Pair 0, hl_update = \<lambda>b c. (if b = [] then 1 else 0, c @ b),
     hl_finish = \<lambda>c d. (0, replicate n (hd (c @ [NUL])))\<rparr>"

lemma digest_parameters_implemented_witness:
  "env_doc (env0\<lparr>sha256 := sha256_of (lib0 32), md5 := md5_of (lib0 16)\<rparr>)
    \<and> length (fst (ecdh_calc_sha256 (lib0 32) ''ab'' (replicate 32 NUL))) = 32
    \<and> sha256_of (lib0 32) [''ab''] = (if steps_succeed (lib0 32) ''ab'' (replicate 32 NUL)
         then Some (fst (ecdh_calc_sha256 (lib0 32) ''ab'' (replicate 32 NUL))) else None)
    \<and> context_alive False (snd (snd (wifiman_sha256_calc (lib0 32) ''ab'' []))) = Some False
    \<and> context_alive False (snd (snd (wifiman_md5_calc (lib0 16) ''ab'' []))) = Some False
    \<and> context_alive False (snd (ecdh_calc_sha256 (lib0 32) ''ab'' [])) = Some False
    \<and> (wifiman_sha256_is_empty_digest_hex_str (wifiman_sha256_calc_hex_str (env0\<lparr>sha256 := sha256_of (lib0 32)\<rparr>) ''ab'')
         \<longleftrightarrow> \<not> steps_succeed (lib0 32) ''ab'' (replicate 32 NUL))
    \<and> (wifiman_md5_is_empty_digest_hex_str (wifiman_md5_calc_hex_str (env0\<lparr>md5 := md5_of (lib0 16)\<rparr>) ''ab'')
         \<longleftrightarrow> \<not> steps_succeed (lib0 16) ''ab'' (replicate 16 NUL))
    \<and> (case auth_ruuvi_gen_hashed_password env0 (lib0 32) ''c'' ''pw'' [] of (ok, hash, ops) \<Rightarrow>
         context_alive False ops = Some False
         \<and> gen_hashed_password (env0\<lparr>sha256 := sha256_of (lib0 32)\<rparr>) ''c'' ''pw'' = (if ok then Some hash else None)
         \<and> (\<not> ok \<longrightarrow> hash = []))"
  by (rule digest_parameters_implemented [OF env_doc_env0]) (simp_all add: hash_doc_def lib0_def)

lemma digests_example:
  "sha256_of (lib0 32) [''ab'', '':''] = Some (replicate 32 CHR ''a'')" "sha256_of (lib0 32) [''ab'', []] = None"
  by code_simp+

end
