(* ===== verification/Sessions.thy ===== *)
theory Sessions
  imports HandleReq
begin

text \<open>
  The life of the server: any sequence of requests and of calls of \<^verbatim>\<open>http_server_set_auth\<close>
  (\<^verbatim>\<open>src/http_server_auth.c\<close>) from the start on.

  A run is a trace of events together with the state it leads to. Requests are handled one
  after the other (the HTTP task serves one connection at a time), and a change of the
  credentials falls between two of them. What else happens between two requests (responses are
  written, memory is taken and released) leaves the authentication state and the key as they are. The lemmas carry what a single request does
  (\<open>handle_req_handles\<close>) over to every run.
\<close>

section \<open>Model\<close>

datatype event =
    Handled app req_param http_resp server
      \<comment> \<open>the request, its answer, and the state in which the server found it\<close>
  | SetAuth auth_type "cstr option" "cstr option" "cstr option" "cstr option"
      \<comment> \<open>type, user, password, API key, API key for writing\<close>

definition server_init :: server where
  \<comment> \<open>static storage: all zero\<close>
  "server_init =
     \<lparr>sv_web = \<lparr>w_auth = auth_state_init, w_extra = [], w_auth_json = [], w_rng = 0, w_allocs = 0, w_live = 0\<rparr>,
      sv_ecdh = ecdh_state_init, sv_timestamp = 0, sv_acts = []\<rparr>"

definition server_set_auth ::
  "auth_type \<Rightarrow> cstr option \<Rightarrow> cstr option \<Rightarrow> cstr option \<Rightarrow> cstr option \<Rightarrow> server \<Rightarrow> server" where
  "server_set_auth ty user pass key key_rw s =
     s\<lparr>sv_web := (sv_web s)\<lparr>w_auth := http_server_set_auth ty user pass key key_rw (w_auth (sv_web s))\<rparr>\<rparr>"

inductive server_run :: "env \<Rightarrow> crypto \<Rightarrow> event list \<Rightarrow> server \<Rightarrow> bool" for e c where
  start: "server_run e c [] server_init"
| request: "server_run e c tr s \<Longrightarrow> req_ready e c a q s \<Longrightarrow> handle_req e c a q s = Some (r, s') \<Longrightarrow>
    server_run e c (tr @ [Handled a q r s]) s'"
| set_auth: "server_run e c tr s \<Longrightarrow> nul_free (opt_str user) \<Longrightarrow> nul_free (opt_str pass) \<Longrightarrow>
    nul_free (opt_str key) \<Longrightarrow> nul_free (opt_str key_rw) \<Longrightarrow>
    server_run e c (tr @ [SetAuth ty user pass key key_rw]) (server_set_auth ty user pass key key_rw s)"
| between: "server_run e c tr s \<Longrightarrow> w_auth (sv_web s') = w_auth (sv_web s) \<Longrightarrow> sv_ecdh s' = sv_ecdh s \<Longrightarrow>
    web_wf (sv_web s') \<Longrightarrow> server_run e c tr s'"

section \<open>Vocabulary of the properties\<close>

definition server_info :: "server \<Rightarrow> auth_info" where
  "server_info s = g_auth_info (w_auth (sv_web s))"

definition sessions_of :: "env \<Rightarrow> server \<Rightarrow> authorized_session set" where
  \<comment> \<open>the entries of the table that are in use\<close>
  "sessions_of e s = {x \<in> set (authorized_sessions (get_ruuvi e (sv_web s))). as_session_id x \<noteq> []}"

definition same_login :: "auth_info \<Rightarrow> auth_info \<Rightarrow> bool" where
  \<comment> \<open>the same type, user and password; the API keys may differ\<close>
  "same_login i j \<longleftrightarrow> auth_type i = auth_type j \<and> auth_user i = auth_user j \<and> auth_pass i = auth_pass j"

fun keeps_login :: "auth_info \<Rightarrow> event \<Rightarrow> bool" where
  \<comment> \<open>the event does not set another type, user or password\<close>
  "keeps_login i (Handled a q r s) = True"
| "keeps_login i (SetAuth ty user pass key key_rw) =
     (ty = auth_type i \<and> opt_str user = auth_user i \<and> opt_str pass = auth_pass i)"

definition logged_in_before :: "env \<Rightarrow> crypto \<Rightarrow> event list \<Rightarrow> auth_info \<Rightarrow> authorized_session \<Rightarrow> bool" where
  \<comment> \<open>an earlier request of the run was the login of this session, in the state the server then had,
      with the credentials that are still in force and were never replaced since\<close>
  "logged_in_before e c tr i x \<longleftrightarrow>
     (\<exists>tr1 a q r tr2 s. tr = tr1 @ Handled a q r s # tr2 \<and> server_run e c tr1 s
        \<and> logged_in e c q s x \<and> same_login (server_info s) i \<and> list_all (keeps_login i) tr2)"

definition interactive :: "server \<Rightarrow> bool" where
  "interactive s \<longleftrightarrow> auth_type (server_info s) \<in> {AUTH_RUUVI, AUTH_DEFAULT}"

definition guarded_action :: "action \<Rightarrow> bool" where
  \<comment> \<open>the calls into the application that need credentials\<close>
  "guarded_action x =
     (case x of
        ActScan \<Rightarrow> True | ActStatusRequested \<Rightarrow> True | CbGet file ps lan \<Rightarrow> get_needs_auth file
      | CbPost file ps body lan \<Rightarrow> True | CbDelete file ps lan \<Rightarrow> True | _ \<Rightarrow> False)"

section \<open>Lemmas\<close>

lemma web_wf_init: "web_wf (sv_web server_init)"
  by (simp add: web_wf_def server_init_def auth_wf_init EXTRA_HEADER_FIELDS_SIZE_def)

lemma sessions_init: "sessions_of e server_init = {}"
  by (simp add: sessions_of_def server_init_def get_ruuvi_def auth_state_init_def ruuvi_zero_def session_zero_def)

lemma server_info_set_auth:
  "auth_type (server_info (server_set_auth ty u p k kr s)) = ty"
  "keeps_login (server_info s) (SetAuth ty u p k kr) \<Longrightarrow>
     same_login (server_info s) (server_info (server_set_auth ty u p k kr s))"
  by (auto simp: server_info_def server_set_auth_def set_auth_eq same_login_def)

lemma set_auth_wf_server:
  assumes "web_wf (sv_web s)" "nul_free (opt_str u)" "nul_free (opt_str p)"
    "nul_free (opt_str k)" "nul_free (opt_str kr)"
  shows "web_wf (sv_web (server_set_auth ty u p k kr s))"
  using assms set_auth_wf by (simp add: web_wf_def server_set_auth_def)

lemma sessions_set_auth:
  "sessions_of e (server_set_auth ty u p k kr s) =
     (if keeps_login (server_info s) (SetAuth ty u p k kr) then sessions_of e s else {})"
  by (auto simp: sessions_of_def server_set_auth_def server_info_def get_ruuvi_def set_auth_eq
      ruuvi_zero_def session_zero_def)

lemma keeps_login_same: "same_login i j \<Longrightarrow> keeps_login i = keeps_login j"
proof
  fix ev
  assume "same_login i j"
  then show "keeps_login i ev = keeps_login j ev" by (cases ev) (simp_all add: same_login_def)
qed

lemma logged_in_before_snoc:
  assumes "logged_in_before e c tr i x" "keeps_login i ev" "same_login i j"
  shows "logged_in_before e c (tr @ [ev]) j x"
proof -
  obtain tr1 a q r tr2 s where w: "tr = tr1 @ Handled a q r s # tr2" "server_run e c tr1 s"
    "logged_in e c q s x" "same_login (server_info s) i" "list_all (keeps_login i) tr2"
    using assms(1) unfolding logged_in_before_def by blast
  have "tr @ [ev] = tr1 @ Handled a q r s # (tr2 @ [ev])" using w(1) by simp
  moreover have "same_login (server_info s) j" using w(4) assms(3) by (simp add: same_login_def)
  moreover have "list_all (keeps_login j) (tr2 @ [ev])"
    using w(5) assms(2) keeps_login_same [OF assms(3)] by simp
  ultimately show ?thesis unfolding logged_in_before_def using w(2,3) by blast
qed

lemma request_step:
  assumes "req_ready e c a q s" "handle_req e c a q s = Some (r, s')"
  shows "web_wf (sv_web s')" "server_info s' = server_info s"
    "w_live (sv_web s') = w_live (sv_web s) \<or> login_request q \<and> w_live (sv_web s') = w_live (sv_web s) + 1"
    "interactive s \<Longrightarrow> x \<in> sessions_of e s' \<Longrightarrow> x \<in> sessions_of e s \<or> logged_in e c q s x"
    "\<exists>new. sv_acts s' = sv_acts s @ new \<and> (\<forall>x\<in>set new. act_ok e a q (sv_web s) x)"
proof -
  have e: "effect e a q (plain_body e c q s) s s'"
    by (cases rule: handle_req_cases [OF assms(1)]) (use assms(2) in auto)
  then have w: "web_effect e q (plain_body e c q s) (sv_web s) (sv_web s')" by (simp add: effect_def)
  from w show "web_wf (sv_web s')" "server_info s' = server_info s"
    "w_live (sv_web s') = w_live (sv_web s) \<or> login_request q \<and> w_live (sv_web s') = w_live (sv_web s) + 1"
    by (auto simp: web_effect_def server_info_def)
  from w show "interactive s \<Longrightarrow> x \<in> sessions_of e s' \<Longrightarrow> x \<in> sessions_of e s \<or> logged_in e c q s x"
    by (auto simp: logged_in_def web_effect_def sessions_of_def interactive_def server_info_def auth_ty_def)
  from e show "\<exists>new. sv_acts s' = sv_acts s @ new \<and> (\<forall>x\<in>set new. act_ok e a q (sv_web s) x)"
    by (simp add: effect_def)
qed

lemma run_wf: "server_run e c tr s \<Longrightarrow> web_wf (sv_web s)"
  by (induction rule: server_run.induct) (auto intro: request_step set_auth_wf_server simp: web_wf_init)

lemma run_sessions:
  "server_run e c tr s \<Longrightarrow> interactive s \<Longrightarrow> x \<in> sessions_of e s \<Longrightarrow> logged_in_before e c tr (server_info s) x"
proof (induction rule: server_run.induct)
  case start
  then show ?case by (simp add: sessions_init)
next
  case (request tr s a q r s')
  note step = request_step [OF request.hyps(2,3)]
  have i: "interactive s" using request.prems(1) step(2) by (simp add: interactive_def)
  from step(4) [OF i request.prems(2)] show ?case
  proof
    assume "x \<in> sessions_of e s"
    from request.IH [OF i this] have "logged_in_before e c tr (server_info s) x" .
    then show ?thesis using step(2) by (auto intro: logged_in_before_snoc simp: same_login_def)
  next
    assume "logged_in e c q s x"
    moreover have "same_login (server_info s) (server_info s')" using step(2) by (simp add: same_login_def)
    ultimately show ?thesis unfolding logged_in_before_def
      using request.hyps(1) by (intro exI [of _ tr] exI [of _ a] exI [of _ q] exI [of _ r] exI [of _ "[]"] exI [of _ s]) simp
  qed
next
  case (set_auth tr s user pass key key_rw ty)
  let ?ev = "SetAuth ty user pass key key_rw"
  have k: "keeps_login (server_info s) ?ev" and x: "x \<in> sessions_of e s"
    using set_auth.prems(2) by (auto simp: sessions_set_auth split: if_splits simp del: keeps_login.simps)
  have "interactive s" using set_auth.prems(1) k by (simp add: interactive_def server_info_set_auth)
  from logged_in_before_snoc [OF set_auth.IH [OF this x] k server_info_set_auth(2) [OF k]] show ?case .
next
  case (between tr s s')
  then have "server_info s' = server_info s" "sessions_of e s' = sessions_of e s"
    by (simp_all add: server_info_def sessions_of_def get_ruuvi_def)
  with between show ?case by (simp add: interactive_def)
qed

lemma guarded_entitled:
  assumes "act_ok e a q w x" "guarded_action x"
  shows "entitled e (auth_param_of a q True) w \<or> entitled e (auth_param_of a q False) w"
  using assms by (cases x) (auto simp: act_ok_def guarded_action_def)

lemma interactive_entitled:
  assumes "interactive s" "rp_info q = server_info s" "rp_lan q" "\<not> bearer_used (v_header (rp_req q))"
    and "entitled e (auth_param_of a q rw) (sv_web s)"
  shows "\<exists>sid. get_session_id_from_cookies (v_header (rp_req q)) = Some (True, sid)
    \<and> \<lparr>as_session_id = sid, as_remote_ip = rp_remote_ip q\<rparr> \<in> sessions_of e s"
proof -
  have "ruuvi_grants e (auth_param_of a q rw) (sv_web s)"
    using assms by (auto simp: entitled_def auth_param_of_def interactive_def)
  then obtain sid where sid: "get_session_id_from_cookies (v_header (rp_req q)) = Some (True, sid)"
    "find_authorized_session (get_ruuvi e (sv_web s)) sid (rp_remote_ip q) \<noteq> None"
    by (auto simp: ruuvi_grants_def auth_param_of_def simp del: not_None_eq)
  with sid(2) [unfolded find_session_iff] show ?thesis by (simp add: sessions_of_def)
qed

section \<open>Properties\<close>

text \<open>
  C8: The web server is type safe up to one defect: in every state that requests and changes of the
  credentials can reach, all strings fit their arrays and the union holds no member of
  another authentication type, so that every well-formed request is answered without an access
  outside of memory, and the next state is again such a state; the one request that is not is
  an encrypted POST whose content decodes to no byte (\<open>reads_before_buffer\<close>).
\<close>

theorem server_type_safe:
  assumes "server_run e c tr s" "env_doc e" "crypto_doc c"
  shows "web_wf (sv_web s)
    \<and> (\<forall>a q. param_ok (auth_param_of a q True) (sv_web s) \<and> nul_free (v_uri (rp_req q)) \<longrightarrow>
         (case handle_req e c a q s of
            None \<Rightarrow> reads_before_buffer e c q s
          | Some (r, s') \<Rightarrow> web_wf (sv_web s') \<and> server_run e c (tr @ [Handled a q r s]) s'))"
proof (intro conjI allI impI)
  show wf: "web_wf (sv_web s)" by (rule run_wf [OF assms(1)])
  fix a q
  assume "param_ok (auth_param_of a q True) (sv_web s) \<and> nul_free (v_uri (rp_req q))"
  then have ready: "req_ready e c a q s" using wf assms(2,3) by (simp add: req_ready_def)
  then show "case handle_req e c a q s of
      None \<Rightarrow> reads_before_buffer e c q s
    | Some (r, s') \<Rightarrow> web_wf (sv_web s') \<and> server_run e c (tr @ [Handled a q r s]) s'"
  proof (cases rule: handle_req_cases [case_names fault handled])
    case (handled r s')
    with server_run.request [OF assms(1) ready handled(2)] request_step(1) [OF ready handled(2)] show ?thesis by simp
  qed simp
qed

text \<open>
  C1: With the interactive authentication, whoever reaches a guarded part of the application from
  the LAN without a bearer token has logged in before: an earlier POST to /auth from the same
  address, with the session id of the cookie, whose body (decrypted, when it is encrypted) named
  the user and carried the digest of the challenge then pending and of the password, both still
  in force and never replaced since the login.
\<close>

theorem access_needs_login:
  assumes "server_run e c tr s" "req_ready e c a q s" "handle_req e c a q s = Some (r, s')"
    and "interactive s" "rp_lan q" "\<not> bearer_used (v_header (rp_req q))"
    and "sv_acts s' = sv_acts s @ new" "x \<in> set new" "guarded_action x"
  shows "\<exists>sid. get_session_id_from_cookies (v_header (rp_req q)) = Some (True, sid)
    \<and> logged_in_before e c tr (server_info s) \<lparr>as_session_id = sid, as_remote_ip = rp_remote_ip q\<rparr>"
proof -
  have info: "rp_info q = server_info s"
    using assms(2) by (simp add: req_ready_def param_ok_def auth_param_of_def server_info_def)
  from request_step(5) [OF assms(2,3)] assms(7,8) have "act_ok e a q (sv_web s) x" by auto
  from guarded_entitled [OF this assms(9)] interactive_entitled [OF assms(4) info assms(5,6)]
  show ?thesis using run_sessions [OF assms(1,4)] by blast
qed

section \<open>Witnesses\<close>

text \<open>
  A life of the server: the gateway sets the password, a client asks for /auth and gets the
  cookie of a new session, logs in with it, and posts its configuration.
\<close>

definition demo_setup :: server where
  "demo_setup = server_set_auth AUTH_RUUVI (Some ''Admin'') (Some ''pw'') None None server_init"

definition demo_cookie :: cstr where "demo_cookie = ''Cookie: RUUVISESSION=GHIJKLMNOPQRSTUV'' @ [CR, LF]"
definition demo_get :: req_param where "demo_get = request ''GET'' ''/auth'' other_header [] True"
definition demo_login :: req_param where "demo_login = request ''POST'' ''/auth'' demo_cookie ''{}'' True"
definition demo_post :: req_param where "demo_post = request ''POST'' ''/data'' demo_cookie ''{}'' True"

definition answer_of :: "req_param \<Rightarrow> server \<Rightarrow> http_resp" where
  "answer_of q s = fst (the (handle_req env1 crypto0 app0 q s))"

definition after :: "req_param \<Rightarrow> server \<Rightarrow> server" where
  "after q s = snd (the (handle_req env1 crypto0 app0 q s))"

definition demo_logged_in :: server where "demo_logged_in = after demo_login (after demo_get demo_setup)"

definition demo_trace :: "event list" where
  "demo_trace = [SetAuth AUTH_RUUVI (Some ''Admin'') (Some ''pw'') None None,
     Handled app0 demo_get (answer_of demo_get demo_setup) demo_setup,
     Handled app0 demo_login (answer_of demo_login (after demo_get demo_setup)) (after demo_get demo_setup)]"

lemma demo_ready:
  assumes "server_run env1 crypto0 tr s" "server_info s = server_info demo_setup"
    and "q \<in> {demo_get, demo_login, demo_post}"
  shows "req_ready env1 crypto0 app0 q s"
proof -
  have i: "server_info demo_setup = g_auth_info (w_auth web1)"
    by (simp add: demo_setup_def server_info_def server_set_auth_def server_init_def web1_def set_auth_eq
        opt_str_def auth_state_init_def AUTH_USER_SIZE_def AUTH_PASS_SIZE_def snprintf_s_def)
  have h: "nul_free other_header" "length other_header < 2 ^ 31" "nul_free demo_cookie" "length demo_cookie < 2 ^ 31"
    by (simp_all add: other_header_def demo_cookie_def)
  show ?thesis
    using assms(2,3) i h run_wf [OF assms(1)] env_doc_env1 crypto_doc_crypto0 concrete_ok(1,4)
    by (auto simp: req_ready_def param_ok_def auth_param_of_def server_info_def app0_def
        demo_get_def demo_login_def demo_post_def request_def)
qed

lemma demo_answered: "\<not> reads_before_buffer env1 c q s"
  by (simp add: reads_before_buffer_def secret_of_def env1_def parse_encrypted_req_def)

lemma demo_step:
  assumes "server_run env1 crypto0 tr s" "server_info s = server_info demo_setup"
    and "q \<in> {demo_get, demo_login, demo_post}"
  shows "handle_req env1 crypto0 app0 q s = Some (answer_of q s, after q s)"
    "server_run env1 crypto0 (tr @ [Handled app0 q (answer_of q s) s]) (after q s)"
    "server_info (after q s) = server_info demo_setup"
proof -
  note ready = demo_ready [OF assms]
  show h: "handle_req env1 crypto0 app0 q s = Some (answer_of q s, after q s)"
    by (cases rule: handle_req_cases [OF ready]) (auto simp: answer_of_def after_def demo_answered)
  show "server_run env1 crypto0 (tr @ [Handled app0 q (answer_of q s) s]) (after q s)"
    by (rule server_run.request [OF assms(1) ready h])
  show "server_info (after q s) = server_info demo_setup"
    using request_step(2) [OF ready h] assms(2) by simp
qed

lemma demo_runs:
  "server_run env1 crypto0 demo_trace demo_logged_in" "server_info demo_logged_in = server_info demo_setup"
proof -
  have "server_run env1 crypto0 ([] @ [SetAuth AUTH_RUUVI (Some ''Admin'') (Some ''pw'') None None]) demo_setup"
    unfolding demo_setup_def by (rule server_run.set_auth [OF server_run.start]) (simp_all add: opt_str_def)
  note get = demo_step [OF this refl, of demo_get]
  note login = demo_step [OF get(2,3), of demo_login]
  show "server_run env1 crypto0 demo_trace demo_logged_in" "server_info demo_logged_in = server_info demo_setup"
    using login(2,3) by (simp_all add: demo_trace_def demo_logged_in_def)
qed

lemma demo_answers:
  "resp_code (answer_of demo_get demo_setup) = 401"
  "resp_code (answer_of demo_login (after demo_get demo_setup)) = 200"
  "sv_acts demo_logged_in = [] \<and> sv_acts (after demo_post demo_logged_in) = [CbPost ''data'' None ''{}'' True]"
  by code_simp+

lemma server_type_safe_witness:
  "web_wf (sv_web demo_logged_in)
    \<and> (\<exists>r s'. handle_req env1 crypto0 app0 demo_post demo_logged_in = Some (r, s') \<and> web_wf (sv_web s')
         \<and> server_run env1 crypto0 (demo_trace @ [Handled app0 demo_post r demo_logged_in]) s')"
proof -
  have "req_ready env1 crypto0 app0 demo_post demo_logged_in" by (rule demo_ready [OF demo_runs]) simp
  with server_type_safe [OF demo_runs(1) env_doc_env1 crypto_doc_crypto0] demo_answered show ?thesis
    by (fastforce simp: req_ready_def split: option.splits)
qed

lemma access_needs_login_witness:
  "\<exists>sid. get_session_id_from_cookies (v_header (rp_req demo_post)) = Some (True, sid)
    \<and> logged_in_before env1 crypto0 demo_trace (server_info demo_logged_in)
        \<lparr>as_session_id = sid, as_remote_ip = rp_remote_ip demo_post\<rparr>"
proof (rule access_needs_login [OF demo_runs(1)])
  show "req_ready env1 crypto0 app0 demo_post demo_logged_in" by (rule demo_ready [OF demo_runs]) simp
  show "handle_req env1 crypto0 app0 demo_post demo_logged_in =
      Some (answer_of demo_post demo_logged_in, after demo_post demo_logged_in)"
    by (rule demo_step [OF demo_runs]) simp
  show "interactive demo_logged_in"
    using demo_runs(2) by (simp add: interactive_def demo_setup_def server_info_set_auth)
  have "header_value demo_cookie ''Authorization:'' = None" by code_simp
  then show "\<not> bearer_used (v_header (rp_req demo_post))" by (simp add: bearer_used_def demo_post_def request_def)
  show "sv_acts (after demo_post demo_logged_in) = sv_acts demo_logged_in @ [CbPost ''data'' None ''{}'' True]"
    using demo_answers(3) by simp
  show "CbPost ''data'' None ''{}'' True \<in> set [CbPost ''data'' None ''{}'' True]" by simp
  show "guarded_action (CbPost ''data'' None ''{}'' True)" by (simp only: guarded_action_def action.case)
qed (simp add: demo_post_def request_def)

end
