(* ===== verification/Startup.thy ===== *)
theory Startup
  imports Sessions ManagerLock Tasks
begin

text \<open>
  The start of the program: \<open>wifi_manager_start\<close> and \<open>wifi_manager_stop\<close> of
  \<^verbatim>\<open>src/wifi_manager.c\<close> with the mutex of the manager, \<open>http_server_ecdh_init\<close> of
  \<^verbatim>\<open>src/http_server_ecdh.c\<close>, and the callbacks of the application
  (\<open>wifi_manager_set_callbacks\<close> and the \<open>wifi_manager_cb_on_*\<close> functions of
  \<^verbatim>\<open>src/wifi_manager_internal.c\<close>), through which a request reaches the application.

  \<open>WifiTask\<close> models what start and stop do to the state of the manager; here are the static
  variables around it. A failed assertion is the value \<open>None\<close>. The task that starts the
  manager is the only one that uses it.
\<close>

section \<open>Model\<close>

record manager_callbacks =
  \<comment> \<open>\<open>wifi_manager_callbacks_t\<close>; \<open>None\<close>: the callback is \<open>NULL\<close>. The last argument of GET and DELETE always is \<open>NULL\<close>\<close>
  cbs_user_req :: bool
  cbs_http_get :: "(cstr \<Rightarrow> cstr option \<Rightarrow> bool \<Rightarrow> http_resp) option"
  cbs_http_post :: "(cstr \<Rightarrow> cstr option \<Rightarrow> cstr \<Rightarrow> bool \<Rightarrow> http_resp) option"
  cbs_http_delete :: "(cstr \<Rightarrow> cstr option \<Rightarrow> bool \<Rightarrow> http_resp) option"

record life =
  lf_mutex :: "nat option" \<comment> \<open>\<open>g_p_wifi_mutex\<close>: \<open>NULL\<close>, or how often it is held\<close>
  lf_event_group :: bool \<comment> \<open>\<open>g_p_wifi_manager_event_group\<close> exists\<close>
  lf_callbacks :: manager_callbacks
  lf_rng :: "(nat \<times> nat) option" \<comment> \<open>\<open>g_http_server_ecdh_f_rng\<close> and \<open>g_http_server_ecdh_p_rng\<close>\<close>
  lf_ecdh :: ecdh_state
  lf_wm :: wm

subsection \<open>Mutex and key exchange\<close>

definition manager_is_initialized :: "life \<Rightarrow> bool" where
  "manager_is_initialized m = (if lf_mutex m = None then False else True)"

definition manager_init_mutex :: "life \<Rightarrow> life" where
  "manager_init_mutex m = (if lf_mutex m = None then m\<lparr>lf_mutex := Some 0\<rparr> else m)"

definition manager_lock :: "life \<Rightarrow> life option" where
  "manager_lock m = (case lf_mutex m of None \<Rightarrow> None | Some n \<Rightarrow> Some (m\<lparr>lf_mutex := Some (n + 1)\<rparr>))"

definition manager_unlock :: "life \<Rightarrow> life option" where
  "manager_unlock m = (case lf_mutex m of None \<Rightarrow> None | Some n \<Rightarrow> Some (m\<lparr>lf_mutex := Some (n - 1)\<rparr>))"

definition ecdh_init :: "nat option \<Rightarrow> nat option \<Rightarrow> life \<Rightarrow> bool \<times> life" where
  \<comment> \<open>\<open>http_server_ecdh_init\<close>; the context is a new one\<close>
  "ecdh_init f_rng p_rng m =
     (case (f_rng, p_rng) of
        (Some f, Some p) \<Rightarrow>
          (True, m\<lparr>lf_rng := Some (f, p), lf_ecdh := (lf_ecdh m)\<lparr>ecdh_ctx := ecdh_ctx (lf_ecdh m) + 1\<rparr>\<rparr>)
      | _ \<Rightarrow> (False, m))"

subsection \<open>Start and stop\<close>

definition start_init ::
  "driver \<Rightarrow> bool \<Rightarrow> bool \<Rightarrow> bool \<Rightarrow> config \<Rightarrow> manager_callbacks \<Rightarrow> life \<Rightarrow> (bool \<times> life) option" where
  \<comment> \<open>\<open>wifi_manager_init\<close>, with the callbacks that it stores unless the manager is running\<close>
  "start_init d queue_created given_ant flag_connect_sta cfg cbs m =
     map_option (\<lambda>(ok, s). (ok, m\<lparr>lf_callbacks := (if is_working (lf_wm m) then lf_callbacks m else cbs), lf_wm := s\<rparr>))
       (manager_init d queue_created given_ant flag_connect_sta cfg (lf_wm m))"

definition start_failed :: "life \<Rightarrow> (bool \<times> life) option" where
  "start_failed m = map_option (Pair False) (manager_unlock (m\<lparr>lf_wm := clear_bits {IS_WORKING} (lf_wm m)\<rparr>))"

definition wifi_manager_start ::
  "driver \<Rightarrow> bool \<Rightarrow> bool \<Rightarrow> bool \<Rightarrow> config \<Rightarrow> manager_callbacks \<Rightarrow> nat option \<Rightarrow> nat option \<Rightarrow> life \<Rightarrow> (bool \<times> life) option" where
  "wifi_manager_start d queue_created given_ant flag_connect_sta cfg cbs f_rng p_rng m = do {
     m \<leftarrow> manager_lock (manager_init_mutex m);
     let m = (if \<not> lf_event_group m then m\<lparr>lf_event_group := True\<rparr> else m);
     let (ok, m) = ecdh_init f_rng p_rng m;
     (if \<not> ok then start_failed m
      else do {
        (ok, m) \<leftarrow> start_init d queue_created given_ant flag_connect_sta cfg cbs m;
        (if \<not> ok then start_failed m else map_option (Pair True) (manager_unlock m)) }) }"

definition wifi_manager_stop :: "life \<Rightarrow> life option" where
  "wifi_manager_stop m =
     (if \<not> manager_is_initialized m then Some m
      else map_option (\<lambda>s. m\<lparr>lf_wm := s\<rparr>) (manager_stop (lf_wm m)))"

definition manager_default_config_init :: "kconfig \<Rightarrow> cstr \<Rightarrow> hostinfo \<Rightarrow> config" where
  \<comment> \<open>\<open>wifi_manager_default_config_init\<close>\<close>
  "manager_default_config_init k p_wifi_ssid p_hostinfo = default_config_init k p_wifi_ssid p_hostinfo"

definition manager_set_default_config :: "config \<Rightarrow> config" where
  "manager_set_default_config p_wifi_cfg = default_config_set p_wifi_cfg"

subsection \<open>Callbacks\<close>

definition cb_on_user_req :: "manager_callbacks \<Rightarrow> nat \<Rightarrow> nat list" where
  \<comment> \<open>the codes the application is told\<close>
  "cb_on_user_req cbs code = (if \<not> cbs_user_req cbs then [] else [code])"

definition cb_on_http_get :: "manager_callbacks \<Rightarrow> cstr \<Rightarrow> cstr option \<Rightarrow> bool \<Rightarrow> http_resp" where
  "cb_on_http_get cbs path params lan = (case cbs_http_get cbs of None \<Rightarrow> resp_err 404 | Some f \<Rightarrow> f path params lan)"

definition cb_on_http_post :: "manager_callbacks \<Rightarrow> cstr \<Rightarrow> cstr option \<Rightarrow> cstr \<Rightarrow> bool \<Rightarrow> http_resp" where
  "cb_on_http_post cbs path params body lan =
     (case cbs_http_post cbs of None \<Rightarrow> resp_err 404 | Some f \<Rightarrow> f path params body lan)"

definition cb_on_http_delete :: "manager_callbacks \<Rightarrow> cstr \<Rightarrow> cstr option \<Rightarrow> bool \<Rightarrow> http_resp" where
  "cb_on_http_delete cbs path params lan = (case cbs_http_delete cbs of None \<Rightarrow> resp_err 404 | Some f \<Rightarrow> f path params lan)"

definition with_callbacks :: "manager_callbacks \<Rightarrow> app \<Rightarrow> app" where
  \<comment> \<open>what the dispatch of a request sees of the application\<close>
  "with_callbacks cbs a =
     a\<lparr>app_cb_get := cb_on_http_get cbs, app_cb_post := cb_on_http_post cbs, app_cb_delete := cb_on_http_delete cbs\<rparr>"

fun user_reqs :: "task_call list \<Rightarrow> nat list" where
  \<comment> \<open>the user requests among the calls of the HTTP task\<close>
  "user_reqs [] = []"
| "user_reqs (c # cs) = (case c of OsUserReq n \<Rightarrow> n # user_reqs cs | _ \<Rightarrow> user_reqs cs)"

section \<open>Lemmas\<close>

lemmas life_defs =
  wifi_manager_start_def manager_lock_def manager_init_mutex_def manager_unlock_def ecdh_init_def start_init_def
  start_failed_def Let_def

lemma user_reqs_append: "user_reqs (xs @ ys) = user_reqs xs @ user_reqs ys"
  by (induction xs) (auto split: task_call.split)

definition user_req_of :: "nat \<Rightarrow> nat list" where
  "user_req_of sig = (if sig = SIG_USER_REQ_1 then [1] else if sig = SIG_USER_REQ_2 then [2] else [])"

lemma handled_user_reqs:
  "http_server_handle_sig_events sigs s = Some (stop, t) \<Longrightarrow>
    user_reqs (ts_calls t) = user_reqs (ts_calls s) @ concat (map user_req_of sigs)"
proof (induction sigs arbitrary: s stop)
  case (Cons sig sigs)
  let ?u = "if sig = SIG_STOP then s else if sig = SIG_TASK_WATCHDOG_FEED then http_server_task_wdt_reset s
      else if sig = SIG_USER_REQ_1 then calls [OsUserReq 1] s else calls [OsUserReq 2] s"
  from Cons.prems obtain stop' where run: "http_server_handle_sig_events sigs ?u = Some (stop', t)" "sig \<le> SIG_USER_REQ_2"
    by (auto simp: http_server_conv_from_sig_num_def Let_def split: if_splits elim!: option_bind_SomeE)
  have "sig = 0 \<or> sig = 1 \<or> sig = 2 \<or> sig = 3" using run(2) by (auto simp: SIG_USER_REQ_2_def)
  then have "user_reqs (ts_calls ?u) = user_reqs (ts_calls s) @ user_req_of sig"
    by (auto simp: calls_def user_reqs_append user_req_of_def SIG_STOP_def SIG_TASK_WATCHDOG_FEED_def
        SIG_USER_REQ_1_def SIG_USER_REQ_2_def)
  with Cons.IH [OF run(1)] show ?case by simp
qed simp

section \<open>Properties\<close>

text \<open>
  C38: Starting the manager with its mutex, its key exchange and its callbacks does to the state of
  the manager what the sequential \<open>manager_start\<close> does; whatever the outcome the mutex exists
  afterwards and is released, and the callbacks are replaced exactly when the key exchange could be
  initialised and the manager was not running.
\<close>

theorem start_releases_mutex:
  "wifi_manager_start d queue_created given_ant connect cfg cbs f_rng p_rng m =
    (let rng_ok = f_rng \<noteq> None \<and> p_rng \<noteq> None in
     map_option (\<lambda>(ok, s). (ok,
        m\<lparr>lf_mutex := Some (case lf_mutex m of None \<Rightarrow> 0 | Some n \<Rightarrow> n), lf_event_group := True,
          lf_callbacks := (if rng_ok \<and> \<not> is_working (lf_wm m) then cbs else lf_callbacks m),
          lf_rng := (if rng_ok then Some (the f_rng, the p_rng) else lf_rng m),
          lf_ecdh := (if rng_ok then (lf_ecdh m)\<lparr>ecdh_ctx := ecdh_ctx (lf_ecdh m) + 1\<rparr> else lf_ecdh m),
          lf_wm := s\<rparr>))
       (manager_start d rng_ok queue_created given_ant connect cfg (lf_wm m)))"
proof -
  obtain mu ev cb rn ec w where m: "m = \<lparr>lf_mutex = mu, lf_event_group = ev, lf_callbacks = cb, lf_rng = rn,
      lf_ecdh = ec, lf_wm = w\<rparr>" by (cases m)
  show ?thesis
  proof (cases "f_rng = None \<or> p_rng = None")
    case True
    then show ?thesis
      by (cases mu; cases f_rng; cases p_rng) (simp_all add: m life_defs manager_start_def)
  next
    case False
    then obtain f p where fp: "f_rng = Some f" "p_rng = Some p" by auto
    show ?thesis
    proof (cases "manager_init d queue_created given_ant connect cfg w")
      case None
      then show ?thesis by (cases mu) (simp_all add: m fp life_defs manager_start_def)
    next
      case (Some r)
      obtain ok s where "r = (ok, s)" by (cases r)
      with Some show ?thesis by (cases mu; cases ok) (simp_all add: m fp life_defs manager_start_def)
    qed
  qed
qed

text \<open>
  A POST from the side of the access point that is not one of the server's own reaches the
  application as it came: its file, its parameters and its body, unchanged, go to the
  registered callback, whose response is the answer; without a callback the answer is 404.
\<close>

theorem ap_side_post_reaches_application:
  assumes "\<not> rp_lan q" "v_cmd (rp_req q) = ''POST''" "\<not> flag_encrypted q" "length (v_body (rp_req q)) \<le> 8192"
    and "req_path q \<notin> {''auth'', ''connect.json'', ''connect_wps''}"
  shows "\<exists>s'. handle_req e c (with_callbacks cbs a) q s =
      Some (case cbs_http_post cbs of None \<Rightarrow> resp_err 404
            | Some f \<Rightarrow> f (req_path q) (v_uri_params (rp_req q)) (v_body (rp_req q)) False, s')
    \<and> sv_acts s' = sv_acts s @ [CbPost (req_path q) (v_uri_params (rp_req q)) (v_body (rp_req q)) False]
    \<and> w_auth (sv_web s') = w_auth (sv_web s)"
proof -
  let ?a = "with_callbacks cbs a"
  let ?w = "(sv_web s)\<lparr>w_extra := []\<rparr>"
  have "\<not> ap_from_lan (auth_param_of ?a q True)" using assms(1) by (simp add: auth_param_of_def)
  from check_auth_ap_side [OF this, of e ?w] obtain json where
    "handle_req_check_auth e (auth_param_of ?a q True) ?w = Some (resp_200_json json, False, ?w\<lparr>w_auth_json := json\<rparr>)"
    by blast
  moreover have "resp_code (resp_200_json json) = 200"
    by (simp add: resp_200_json_def resp_data_in_static_mem_def)
  ultimately show ?thesis using assms
    by (simp add: handle_req_def handle_req_post_with_ecdh_key_def handle_req_post_def gated_def act_def Let_def
        HTTP_SERVER_MAX_UNENCRYPTED_CONTENT_SIZE_def with_callbacks_def cb_on_http_post_def)
qed

text \<open>
  The user requests reach the application in the order in which their signals are handled,
  each once, and none when no callback is registered.
\<close>

theorem user_reqs_delivered:
  assumes "http_server_handle_sig_events sigs s = Some (stop, t)" "user_reqs (ts_calls s) = []"
  shows "concat (map (cb_on_user_req cbs) (user_reqs (ts_calls t))) =
    (if cbs_user_req cbs then concat (map user_req_of sigs) else [])"
proof -
  have "concat (map (cb_on_user_req cbs) xs) = (if cbs_user_req cbs then xs else [])" for xs
    by (induction xs) (simp_all add: cb_on_user_req_def)
  then show ?thesis using handled_user_reqs [OF assms(1)] assms(2) by simp
qed

section \<open>Witnesses\<close>

definition cbs0 :: manager_callbacks where
  "cbs0 = \<lparr>cbs_user_req = True, cbs_http_get = None, cbs_http_post = Some (\<lambda>f p b l. resp_200_json (f @ b)),
     cbs_http_delete = None\<rparr>"

lemma ap_side_post_reaches_application_witness:
  "\<exists>s'. handle_req env0 crypto0 (with_callbacks cbs0 app0) (request ''POST'' ''/data'' other_header ''x'' False) server1 =
      Some (case cbs_http_post cbs0 of None \<Rightarrow> resp_err 404
            | Some f \<Rightarrow> f (req_path (request ''POST'' ''/data'' other_header ''x'' False)) None ''x'' False, s')
    \<and> sv_acts s' = sv_acts server1 @ [CbPost (req_path (request ''POST'' ''/data'' other_header ''x'' False)) None ''x'' False]
    \<and> w_auth (sv_web s') = w_auth (sv_web server1)"
proof -
  let ?q = "request ''POST'' ''/data'' other_header ''x'' False"
  have f: "v_uri_params (rp_req ?q) = None" "v_body (rp_req ?q) = ''x''" by (simp_all add: request_def)
  have "\<not> flag_encrypted ?q" by code_simp
  from ap_side_post_reaches_application [of ?q env0 crypto0 cbs0 app0 server1, OF _ _ this]
  show ?thesis unfolding f by (simp add: request_def req_path_def)
qed

definition registered0 :: task_state where
  "registered0 = \<lparr>ts_mutex = True, ts_held = {Registration}, ts_calls = []\<rparr>"

lemma user_reqs_delivered_witness:
  "concat (map (cb_on_user_req cbs0) (user_reqs (ts_calls (snd (the
     (http_server_handle_sig_events [SIG_USER_REQ_2, SIG_TASK_WATCHDOG_FEED, SIG_USER_REQ_1] registered0)))))) =
   (if cbs_user_req cbs0 then concat (map user_req_of [SIG_USER_REQ_2, SIG_TASK_WATCHDOG_FEED, SIG_USER_REQ_1]) else [])"
proof (rule user_reqs_delivered)
  let ?sigs = "[SIG_USER_REQ_2, SIG_TASK_WATCHDOG_FEED, SIG_USER_REQ_1]"
  show "http_server_handle_sig_events ?sigs registered0 =
      Some (False, snd (the (http_server_handle_sig_events ?sigs registered0)))"
    by (simp add: http_server_conv_from_sig_num_def SIG_USER_REQ_2_def SIG_USER_REQ_1_def SIG_TASK_WATCHDOG_FEED_def
        SIG_STOP_def)
qed (simp add: registered0_def)

lemma user_reqs_example:
  "concat (map user_req_of [SIG_USER_REQ_2, SIG_TASK_WATCHDOG_FEED, SIG_USER_REQ_1]) = [2, 1]"
  by code_simp

end
