(* ===== verification/RecvEnd.thy ===== *)
theory RecvEnd
  imports RecvConn
begin

text \<open>
  How the receive loop of \<^verbatim>\<open>src/http_server_accept_and_handle_conn.c\<close> ends: with which buffer, and what
  the client and the heap must have done for a request that is complete without a terminated buffer.
\<close>

section \<open>The clock\<close>

definition clock_runs :: "nat \<Rightarrow> (nat \<times> recv_event) list \<Rightarrow> bool" where
  \<comment> \<open>\<open>netconn_recv\<close> has a timeout, so that the events go on to an error or past the longest time limit\<close>
  "clock_runs hz evs = list_ex (\<lambda>(ticks, ev). ticks > 30 * 1000 * hz div 1000 \<or> ev = RecvErr) evs"

lemma timeout_le: "timeout_ticks hz ctx \<le> 30 * 1000 * hz div 1000"
  by (auto simp: timeout_ticks_def intro: div_le_mono)

lemma loop_not_waiting:
  "serve_loop al junk hz evs ctx = Some (e, ctx') \<Longrightarrow> clock_runs hz evs \<Longrightarrow> e \<noteq> Waiting"
proof (induction evs arbitrary: ctx)
  case (Cons tev evs)
  obtain t ev where tev: "tev = (t, ev)" by (cases tev)
  show ?case
  proof (cases "is_ready ctx \<or> t > timeout_ticks hz ctx")
    case True
    with Cons.prems(1) tev show ?thesis by (auto split: if_splits)
  next
    case False
    with Cons.prems(1) tev obtain res c where c: "recv_and_handle al junk ev ctx = Some (res, c)"
      "if \<not> res then e = (if is_ready c then Ready else Closed) else serve_loop al junk hz evs c = Some (e, ctx')"
      by (auto simp: bind_eq_Some_conv split: if_splits)
    have "clock_runs hz evs" if res
      using Cons.prems(2) tev c(1) that False timeout_le [of hz ctx] by (auto simp: clock_runs_def)
    with c(2) Cons.IH show ?thesis by (cases res) auto
  qed
qed (simp add: clock_runs_def)

section \<open>The steps of a fragment\<close>

lemma check_content_failed:
  assumes "check_content al junk ctx = Some (False, ctx')"
  shows "p_req_buf ctx' = None \<or> p_req_buf ctx' = p_req_buf ctx" "accum_len ctx' \<le> accum_len ctx"
  using assms
  by (auto simp: check_content_def bind_eq_Some_conv mread_def mwrite_def handle_request_content_len_def
      realloc_req_buf_def Let_def split: if_splits option.splits)

lemma store_failed:
  assumes "recv_inv ctx" "store_fragment al junk data ctx = Some (False, ctx')"
  shows "accum_len ctx' = accum_len ctx" "p_req_buf ctx' = Some m \<Longrightarrow> nul_free m \<Longrightarrow> \<exists>m0. p_req_buf ctx = Some m0 \<and> nul_free m0"
proof -
  obtain res c where a: "(if p_req_buf ctx = None then alloc_first_frame al junk (length data) ctx
    else alloc_non_first_frame al junk (length data) ctx) = (res, c)" by (metis prod.exhaust)
  have c: "ctx' = c" and full: "res \<Longrightarrow> accum_len c + length data > req_buf_size c"
    using assms(2) a by (auto simp: store_fragment_def Let_def bind_eq_Some_conv split: if_splits)
  have "nul_free m0" if "nul_free (resize_mem junk m0 n)" "length m0 \<le> n" for m0 n
    using that by (auto simp: resize_mem_def nul_free_def)
  moreover have "length m0 \<le> req_buf_size ctx + length data + 1" if "p_req_buf ctx = Some m0" for m0
    using assms(1) that by (simp add: recv_inv_def)
  ultimately show "accum_len ctx' = accum_len ctx" "p_req_buf ctx' = Some m \<Longrightarrow> nul_free m \<Longrightarrow> \<exists>m0. p_req_buf ctx = Some m0 \<and> nul_free m0"
    using a assms(1) full unfolding c
    by (auto simp: alloc_first_frame_def alloc_non_first_frame_def realloc_req_buf_def Let_def recv_inv_def split: if_splits)
qed

section \<open>Bytes received and bytes kept\<close>

definition accounts :: "nat \<Rightarrow> recv_ctx \<Rightarrow> bool" where
  \<comment> \<open>of n bytes received; the buffer lacks its NUL only when some of them were discarded\<close>
  "accounts n ctx \<longleftrightarrow> accum_len ctx \<le> n \<and> (\<forall>buf. p_req_buf ctx = Some buf \<and> nul_free buf \<longrightarrow> accum_len ctx < n)"

fun part_bytes :: "byte list option list \<Rightarrow> nat" where
  "part_bytes [] = 0"
| "part_bytes (None # ps) = part_bytes ps"
| "part_bytes (Some data # ps) = length data + part_bytes ps"

fun event_bytes :: "recv_event \<Rightarrow> nat" where
  "event_bytes RecvErr = 0"
| "event_bytes (RecvBuf ps) = part_bytes ps"

definition sent_bytes :: "(nat \<times> recv_event) list \<Rightarrow> nat" where
  \<comment> \<open>how many bytes the client sends\<close>
  "sent_bytes evs = sum_list (map (event_bytes \<circ> snd) evs)"

lemma accounts_mono: "accounts n ctx \<Longrightarrow> n \<le> n' \<Longrightarrow> accounts n' ctx"
  by (auto simp: accounts_def)

lemma terminated_not_free: "terminated ctx \<Longrightarrow> p_req_buf ctx = Some m \<Longrightarrow> \<not> nul_free m"
  by (auto simp: terminated_def nul_free_def in_set_conv_nth)

lemma received_buf_accounts:
  assumes "recv_inv ctx" "accounts n ctx" "handle_received_buf al junk data ctx = Some (res, ctx')"
  shows "accounts (n + length data) ctx'"
proof -
  obtain r c where st: "store_fragment al junk data ctx = Some (r, c)"
    and c: "r \<longrightarrow> recv_inv c \<and> terminated c \<and> accum_len c = accum_len ctx + length data"
    using store_fragment_ok [OF assms(1)] by blast
  show ?thesis
  proof (cases r)
    case False
    with st assms(3) have "ctx' = c" by (auto simp: handle_received_buf_def)
    with False st store_failed [OF assms(1), of al junk data c] assms(2) show ?thesis
      by (fastforce simp: accounts_def)
  next
    case True
    with c obtain c2 where c2: "find_header_end c = Some c2" "recv_inv c2" "p_req_buf c2 = p_req_buf c"
      "accum_len c2 = accum_len c" using find_header_end_ok by blast
    have t2: "terminated c2" using c2 c True unfolding terminated_def by metis
    have n2: "accounts (n + length data) c2"
      using c c2(4) True assms(2) terminated_not_free [OF t2] by (auto simp: accounts_def)
    show ?thesis
    proof (cases "is_header_completed c2")
      case False
      with st True c2(1) assms(3) n2 show ?thesis by (auto simp: handle_received_buf_def)
    next
      case comp: True
      with st True c2(1) assms(3) have run: "check_content al junk c2 = Some (res, ctx')"
        by (simp add: handle_received_buf_def)
      show ?thesis
      proof (cases res)
        case False
        with run check_content_failed [of al junk c2 ctx'] n2 terminated_not_free [OF t2] show ?thesis
          by (auto simp: accounts_def)
      next
        case ok: True
        with check_content_ok [OF c2(2) t2 comp, of al junk] run have "keeps c2 ctx'" by auto
        then show ?thesis
          using n2 terminated_not_free [of ctx'] by (cases "accum_len ctx' = accum_len c2") (auto simp: keeps_def accounts_def)
      qed
    qed
  qed
qed

lemma handle_parts_accounts:
  "recv_inv ctx \<Longrightarrow> accounts n ctx \<Longrightarrow> handle_parts al junk ps ctx = Some (res, ctx') \<Longrightarrow> accounts (n + part_bytes ps) ctx'"
proof (induction al junk ps ctx arbitrary: n rule: handle_parts.induct)
  case (2 al junk ps ctx)
  then show ?case by (auto intro: accounts_mono)
next
  case (3 al junk data ps ctx)
  from "3.prems"(3) obtain r c where c: "handle_received_buf al junk data ctx = Some (r, c)"
    "if \<not> r then (res, ctx') = (False, c) else handle_parts al junk ps c = Some (res, ctx')"
    by (auto simp: bind_eq_Some_conv split: if_splits)
  have n: "accounts (n + length data) c" by (rule received_buf_accounts [OF "3.prems"(1,2) c(1)])
  show ?case
  proof (cases r)
    case False
    with c(2) n show ?thesis by (auto intro: accounts_mono)
  next
    case True
    have "recv_inv c"
      using True c(1) by (cases rule: handle_received_buf_run [OF "3.prems"(1), where al = al and junk = junk and data = data]) auto
    from "3.IH" [OF c(1) refl _ this n] True c(2) show ?thesis by (simp add: add.assoc)
  qed
qed simp

lemma serve_loop_accounts:
  "recv_inv ctx \<Longrightarrow> accounts n ctx \<Longrightarrow> serve_loop al junk hz evs ctx = Some (e, ctx') \<Longrightarrow> accounts (n + sent_bytes evs) ctx'"
proof (induction evs arbitrary: ctx n)
  case (Cons tev evs)
  obtain t ev where tev: "tev = (t, ev)" by (cases tev)
  have sent: "sent_bytes (tev # evs) = event_bytes ev + sent_bytes evs" by (simp add: sent_bytes_def tev)
  show ?case
  proof (cases "is_ready ctx \<or> t > timeout_ticks hz ctx")
    case True
    with Cons.prems tev show ?thesis by (auto intro: accounts_mono split: if_splits)
  next
    case False
    with Cons.prems(3) tev obtain res c where c: "recv_and_handle al junk ev ctx = Some (res, c)"
      "if \<not> res then ctx' = c else serve_loop al junk hz evs c = Some (e, ctx')"
      by (auto simp: bind_eq_Some_conv split: if_splits)
    have n: "accounts (n + event_bytes ev) c"
      using c(1) Cons.prems(1,2) by (cases ev) (auto intro: handle_parts_accounts)
    show ?thesis
    proof (cases res)
      case False
      with c(2) n sent show ?thesis by (auto intro: accounts_mono)
    next
      case True
      with c(1) Cons.prems(1) have "recv_inv c"
        using handle_parts_ok [OF Cons.prems(1), of al junk] by (cases ev) (simp, metis recv_and_handle.simps(2) option.inject prod.inject)
      from Cons.IH [OF this n] True c(2) sent show ?thesis by (simp add: add.assoc)
    qed
  qed
qed (simp add: sent_bytes_def)

section \<open>The buffer on the heap\<close>

definition block_held :: "recv_ctx \<Rightarrow> bool" where
  "block_held ctx \<longleftrightarrow> n_live ctx = (if p_req_buf ctx = None then 0 else 1)"

definition buffer_kept :: "(nat \<Rightarrow> bool) \<Rightarrow> recv_ctx \<Rightarrow> bool" where
  "buffer_kept al ctx \<longleftrightarrow> (\<forall>k. al k) \<and> is_ready ctx \<longrightarrow> p_req_buf ctx \<noteq> None"

definition heap_kept :: "(nat \<Rightarrow> bool) \<Rightarrow> recv_ctx \<Rightarrow> bool" where
  \<comment> \<open>a step that started with a buffer: it is counted, and there unless an allocation failed\<close>
  "heap_kept al ctx \<longleftrightarrow> block_held ctx \<and> ((\<forall>k. al k) \<longrightarrow> p_req_buf ctx \<noteq> None)"

lemma content_len_heap:
  assumes "block_held ctx" "p_req_buf ctx \<noteq> None"
  shows "heap_kept al (snd (handle_request_content_len al junk ctx s))"
  using assms by (auto simp: handle_request_content_len_def realloc_req_buf_def Let_def heap_kept_def block_held_def)

lemma check_content_heap:
  assumes "check_content al junk ctx = Some (res, ctx')" "block_held ctx" "p_req_buf ctx \<noteq> None"
  shows "heap_kept al ctx'"
proof (cases "content_len ctx = 0")
  case False
  with assms show ?thesis by (auto simp: check_content_def heap_kept_def block_held_def split: if_splits)
next
  case True
  then obtain m2 hdr where m2: "(let ctx1 = ctx\<lparr>p_req_buf := Some m2\<rparr> in case http_req_header_get_field hdr ''Content-Length:'' of
      None \<Rightarrow> Some (True, ctx1\<lparr>is_ready := True\<rparr>)
    | Some (v, n) \<Rightarrow> do {
        s \<leftarrow> mstr_at m2 (length hdr - length v);
        let (res, ctx2) = handle_request_content_len al junk ctx1 s;
        if \<not> res then Some (False, ctx2)
        else if accum_len ctx2 < expected_len ctx2 then Some (True, ctx2)
        else Some (True, ctx2\<lparr>is_ready := True\<rparr>) }) = Some (res, ctx')"
    using assms(1) unfolding check_content_def bind_eq_Some_conv by (auto simp: bind_eq_Some_conv)
  have ctx: "block_held (ctx\<lparr>p_req_buf := Some m2\<rparr>)" using assms(2,3) by (auto simp: block_held_def)
  have set_ready: "heap_kept al (c\<lparr>is_ready := True\<rparr>) = heap_kept al c" for c
    by (simp add: heap_kept_def block_held_def)
  have h: "heap_kept al (snd (handle_request_content_len al junk (ctx\<lparr>p_req_buf := Some m2\<rparr>) s))" for s
    by (rule content_len_heap [OF ctx]) simp
  show ?thesis
  proof (cases "http_req_header_get_field hdr ''Content-Length:''")
    case None
    with m2 ctx show ?thesis by (auto simp: heap_kept_def block_held_def Let_def)
  next
    case (Some vn)
    with m2 obtain s where "ctx' = snd (handle_request_content_len al junk (ctx\<lparr>p_req_buf := Some m2\<rparr>) s)
        \<or> ctx' = (snd (handle_request_content_len al junk (ctx\<lparr>p_req_buf := Some m2\<rparr>) s))\<lparr>is_ready := True\<rparr>"
      by (auto simp: bind_eq_Some_conv Let_def case_prod_beta split: if_splits)
    with h [of s] set_ready show ?thesis by auto
  qed
qed

lemma received_buf_heap:
  assumes "handle_received_buf al junk data ctx = Some (res, ctx')" "block_held ctx" "buffer_kept al ctx"
  shows "block_held ctx'" "buffer_kept al ctx'"
proof -
  from assms(1) obtain r c where st: "store_fragment al junk data ctx = Some (r, c)"
    and rest: "if \<not> r then ctx' = c else \<exists>c2. find_header_end c = Some c2 \<and>
      (if \<not> is_header_completed c2 then ctx' = c2 else check_content al junk c2 = Some (res, ctx'))"
    by (auto simp: handle_received_buf_def bind_eq_Some_conv split: if_splits)
  have s: "block_held c" "buffer_kept al c" "r \<Longrightarrow> p_req_buf c \<noteq> None"
    using st assms(2,3) by (auto simp: store_fragment_def alloc_first_frame_def alloc_non_first_frame_def realloc_req_buf_def
        Let_def block_held_def buffer_kept_def bind_eq_Some_conv split: if_splits option.splits)
  have f: "block_held c2" "buffer_kept al c2" "r \<Longrightarrow> p_req_buf c2 \<noteq> None" if "find_header_end c = Some c2" for c2
    using that s by (auto simp: find_header_end_def block_held_def buffer_kept_def bind_eq_Some_conv split: if_splits option.splits)
  have "block_held ctx' \<and> buffer_kept al ctx'"
  proof (cases r)
    case False
    with rest s show ?thesis by simp
  next
    case True
    with rest obtain c2 where c2: "find_header_end c = Some c2"
      "if \<not> is_header_completed c2 then ctx' = c2 else check_content al junk c2 = Some (res, ctx')" by auto
    show ?thesis
    proof (cases "is_header_completed c2")
      case False
      with c2 f [OF c2(1)] show ?thesis by simp
    next
      case comp: True
      with c2 check_content_heap [of al junk c2 res ctx'] f [OF c2(1)] True show ?thesis
        by (auto simp: heap_kept_def buffer_kept_def)
    qed
  qed
  then show "block_held ctx'" "buffer_kept al ctx'" by simp_all
qed

lemma handle_parts_heap:
  "handle_parts al junk ps ctx = Some (res, ctx') \<Longrightarrow> block_held ctx \<Longrightarrow> buffer_kept al ctx \<Longrightarrow>
    block_held ctx' \<and> buffer_kept al ctx'"
proof (induction al junk ps ctx rule: handle_parts.induct)
  case (3 al junk data ps ctx)
  from "3.prems"(1) obtain r c where c: "handle_received_buf al junk data ctx = Some (r, c)"
    "if \<not> r then ctx' = c else handle_parts al junk ps c = Some (res, ctx')"
    by (auto simp: bind_eq_Some_conv split: if_splits)
  note received_buf_heap [OF c(1) "3.prems"(2,3)]
  with "3.IH" [OF c(1) refl] c(2) show ?case by (cases r) auto
qed auto

lemma serve_loop_heap:
  "serve_loop al junk hz evs ctx = Some (e, ctx') \<Longrightarrow> block_held ctx \<Longrightarrow> buffer_kept al ctx \<Longrightarrow>
    block_held ctx' \<and> buffer_kept al ctx'"
proof (induction evs arbitrary: ctx)
  case (Cons tev evs)
  obtain t ev where tev: "tev = (t, ev)" by (cases tev)
  show ?case
  proof (cases "is_ready ctx \<or> t > timeout_ticks hz ctx")
    case True
    with Cons.prems tev show ?thesis by (auto split: if_splits)
  next
    case False
    with Cons.prems(1) tev obtain res c where c: "recv_and_handle al junk ev ctx = Some (res, c)"
      "if \<not> res then ctx' = c else serve_loop al junk hz evs c = Some (e, ctx')"
      by (auto simp: bind_eq_Some_conv split: if_splits)
    have "block_held c \<and> buffer_kept al c"
      using c(1) Cons.prems(2,3) handle_parts_heap by (cases ev) auto
    with c(2) Cons.IH show ?thesis by (cases res) auto
  qed
qed simp

section \<open>The end of the loop\<close>

lemma serve_loop_end:
  assumes "serve_loop al junk hz evs recv_ctx_init = Some (e, ctx)"
  shows "n_live ctx = (if p_req_buf ctx = None then 0 else 1)"
    and "is_ready ctx \<Longrightarrow> p_req_buf ctx = None \<Longrightarrow> \<exists>k. \<not> al k"
    and "p_req_buf ctx = Some buf \<Longrightarrow> nul_free buf \<Longrightarrow> accum_len ctx < sent_bytes evs"
proof -
  have init: "block_held recv_ctx_init" "buffer_kept al recv_ctx_init" "accounts 0 recv_ctx_init"
    by (simp_all add: block_held_def buffer_kept_def accounts_def recv_ctx_init_def)
  from serve_loop_heap [OF assms init(1,2)] serve_loop_accounts [OF recv_inv_init init(3) assms]
  show "n_live ctx = (if p_req_buf ctx = None then 0 else 1)" "is_ready ctx \<Longrightarrow> p_req_buf ctx = None \<Longrightarrow> \<exists>k. \<not> al k"
    "p_req_buf ctx = Some buf \<Longrightarrow> nul_free buf \<Longrightarrow> accum_len ctx < sent_bytes evs"
    by (auto simp: block_held_def buffer_kept_def accounts_def)
qed

end
