(* ===== verification/Wire.thy ===== *)
theory Wire
  imports Sessions Tasks RecvEnd
begin

text \<open>
  The HTTP server from the bytes on the wire on: the layers of \<open>RecvConn\<close>, \<open>HttpReq\<close>, \<open>HandleReq\<close>,
  \<open>NetconnResp\<close> and \<open>ServeReq\<close> put together, up to the loop of the HTTP task (\<open>Tasks\<close>).

  Each layer has its own theorem of safety; here they are composed: whatever the client sends and
  whatever the network does, a connection is served to its end, or it triggers one of three
  defects, which are named (\<open>fault_cause\<close>). The state stays well formed, and the state after any
  number of connections is one of the runs of \<open>Sessions\<close>, so that what holds in every run holds
  of the server as it is on the network.
\<close>

section \<open>Every answer can be written\<close>

definition answers_ok :: "(http_resp \<times> 'a) option \<Rightarrow> bool" where
  \<comment> \<open>the response, if there is one, has the length of its content\<close>
  "answers_ok m \<longleftrightarrow> (\<forall>r x. m = Some (r, x) \<longrightarrow> resp_ok r)"

definition app_ok :: "app \<Rightarrow> bool" where
  \<comment> \<open>the responses of the application have the length of their content\<close>
  "app_ok a \<longleftrightarrow> (\<forall>f p l. resp_ok (app_cb_get a f p l)) \<and> (\<forall>f p b l. resp_ok (app_cb_post a f p b l))
     \<and> (\<forall>f p l. resp_ok (app_cb_delete a f p l))"

named_theorems answer_rules \<open>responses of the handlers\<close>

lemma answers_simps [simp]:
  "answers_ok None" "answers_ok (Some (r, x)) = resp_ok r" "answers_ok (Some rx) = resp_ok (fst rx)"
  by (auto simp: answers_ok_def) (metis surjective_pairing)?

lemma answers_bind [answer_rules]: "(\<And>a. answers_ok (f a)) \<Longrightarrow> answers_ok (Option.bind m f)"
  by (cases m) simp_all

lemma answers_map [answer_rules]: "answers_ok m \<Longrightarrow> answers_ok (map_option (\<lambda>(r, x). (r, f r x)) m)"
  by (cases m) (auto simp: answers_ok_def)

lemma answers_if [answer_rules]: "(b \<Longrightarrow> answers_ok m) \<Longrightarrow> (\<not> b \<Longrightarrow> answers_ok n) \<Longrightarrow> answers_ok (if b then m else n)"
  by simp

lemma answers_option [answer_rules]:
  "(m = None \<Longrightarrow> answers_ok n) \<Longrightarrow> (\<And>x. m = Some x \<Longrightarrow> answers_ok (f x)) \<Longrightarrow>
    answers_ok (case m of None \<Rightarrow> n | Some x \<Rightarrow> f x)"
  by (cases m) simp_all

lemma resp_401_ok [simp]:
  "resp_ok (fst (resp_401_auth_ruuvi_with_new_session_id e ip h ty err w))" "resp_ok (fst (resp_401_auth_ruuvi e h ty w))"
  by (simp_all add: resp_401_auth_ruuvi_with_new_session_id_def resp_401_auth_ruuvi_def Let_def case_prod_beta)

lemma check_auth_answer:
  assumes "gate_ready e prm w" "handle_req_check_auth e prm w = Some (r, b, w')"
  shows "resp_ok r"
  using check_auth_spec [of e w prm] assms by (auto simp: gate_ready_def passes_def asks_def split: if_splits)

lemma gated_answers:
  assumes "gate_ready e prm (sv_web s)" "\<And>s1. answers_ok (handler s1)"
  shows "answers_ok (gated (handle_req_check_auth e prm (sv_web s)) s handler)"
  using check_auth_answer [OF assms(1)] assms(2)
  by (auto simp: gated_def answers_ok_def split: Option.bind_splits if_splits)

lemma on_web_answers: "answers_ok (f (sv_web s)) \<Longrightarrow> answers_ok (on_web f s)"
  by (auto simp: on_web_def answers_ok_def)

lemma post_auth_answers: "answers_ok (handle_req_post_auth e lan hdr ip body info h w)"
proof -
  have "resp_ok (fst (post_auth_check_auth e ty ip body info h w'))" for ty w'
    by (auto simp: post_auth_check_auth_def Let_def case_prod_beta split: option.split)
  moreover have "resp_ok (fst x)" if "check_login_session e l sid ip h ty w = Some x" for l sid ty x
    using that by (auto simp: check_login_session_def Let_def split: if_splits)
  ultimately show ?thesis
    by (auto simp: handle_req_post_auth_def Let_def case_prod_beta intro!: answer_rules)
qed

lemma delete_auth_answers: "answers_ok (handle_req_delete_auth e hdr ip info h w)"
  by (auto simp: handle_req_delete_auth_def Let_def case_prod_beta intro!: answer_rules)

lemma get_auth_answers: "gate_ready e prm w \<Longrightarrow> answers_ok (handle_req_get_auth e prm w)"
  using get_auth_wf [of e w prm] by (auto simp: gate_ready_def answers_ok_def)

lemma get_content_answer: "app_ok a \<Longrightarrow> resp_ok (fst (get_content a file q s))"
  by (auto simp: get_content_def app_ok_def split: option.split)

lemma get_answers:
  assumes "app_ok a" "\<And>rw. gate_ready e (auth_param_of a q rw) (sv_web s)"
  shows "answers_ok (handle_req_get e a file q s)"
proof -
  have r: "answers_ok (map_option (\<lambda>(refused, s2). (case refused of Some r \<Rightarrow> (r, s2) | None \<Rightarrow> get_content a f q s2))
      (get_check_auth e a f q s1))" if "sv_web s1 = sv_web s" for f s1
  proof -
    have "gate_ready e (auth_param_of a q (f = ''ap.json'')) (sv_web s1)" using assms(2) that by simp
    from check_auth_answer [OF this] get_content_answer [OF assms(1)] show ?thesis
      by (auto simp: get_check_auth_def answers_ok_def Let_def split: Option.bind_splits if_splits option.splits)
        (metis fst_conv)+
  qed
  have "get_check_auth e a f q s1 \<bind> (\<lambda>(refused, s2). Some (case refused of Some r \<Rightarrow> (r, s2) | None \<Rightarrow> get_content a f q s2))
      = map_option (\<lambda>(refused, s2). (case refused of Some r \<Rightarrow> (r, s2) | None \<Rightarrow> get_content a f q s2)) (get_check_auth e a f q s1)"
    for f s1 by (cases "get_check_auth e a f q s1") (auto split: prod.split)
  with r get_content_answer [OF assms(1)] get_auth_answers [OF assms(2)] show ?thesis
    by (auto simp: handle_req_get_def Let_def intro!: on_web_answers)
qed

lemma post_connect_answer: "resp_ok (fst (post_connect_json e a body s))"
  by (auto simp: post_connect_json_def Let_def split: option.split)

lemma post_answers:
  assumes "app_ok a" "gate_ready e (auth_param_of a q True) (sv_web s)"
  shows "answers_ok (handle_req_post e a file q body s)"
  using assms(1) post_connect_answer
  by (auto simp: handle_req_post_def app_ok_def post_connect_wps_def intro!: gated_answers [OF assms(2)] on_web_answers
      post_auth_answers)

lemma delete_answers:
  assumes "app_ok a" "gate_ready e (auth_param_of a q True) (sv_web s)"
  shows "answers_ok (handle_req_delete e a file q s)"
  using assms(1)
  by (auto simp: handle_req_delete_def app_ok_def delete_connect_json_def intro!: gated_answers [OF assms(2)] on_web_answers
      delete_auth_answers)

lemma get_ecdh_answers:
  assumes "app_ok a" "\<And>rw. gate_ready e (auth_param_of a q rw) (sv_web s)"
  shows "answers_ok (handle_req_get_with_ecdh_key e c a path q s)"
  using get_answers [OF assms, of path]
  by (auto simp: handle_req_get_with_ecdh_key_def answers_ok_def split: Option.bind_splits option.splits prod.splits)

lemma post_ecdh_answers:
  assumes "app_ok a" "gate_ready e (auth_param_of a q True) (sv_web s)" "crypto_doc c"
  shows "answers_ok (handle_req_post_with_ecdh_key e c a path q s)"
proof -
  let ?d = "http_server_decrypt e c (ecdh_aes_key (sv_ecdh s)) (v_body (rp_req q)) (sv_web s)"
  have wf: "web_wf (sv_web s)" using assms(2) by (simp add: gate_ready_def)
  note plain = post_answers [OF assms(1,2), of path]
  show ?thesis
  proof (cases ?d)
    case None
    with plain show ?thesis by (simp add: handle_req_post_with_ecdh_key_def Let_def)
  next
    case (Some rw)
    obtain res w1 where rw: "rw = (res, w1)" by (cases rw)
    with server_decrypt_run [OF assms(3) wf, where e = e and key = "ecdh_aes_key (sv_ecdh s)" and body = "v_body (rp_req q)"] Some
    have d: "?d = Some (res, w1)" "w_auth w1 = w_auth (sv_web s)" "web_wf w1" by simp_all
    have "gate_ready e (auth_param_of a q True) (sv_web (s\<lparr>sv_web := w1\<rparr>))"
      using gate_ready_cong [OF d(2,3)] assms(2) by simp
    note post = post_answers [OF assms(1) this, of path] plain
    show ?thesis
      using post by (auto simp: handle_req_post_with_ecdh_key_def d(1) Let_def intro!: answer_rules)
  qed
qed

lemma handle_req_answers:
  assumes "req_ready e c a q s" "app_ok a"
  shows "answers_ok (handle_req e c a q s)"
proof -
  let ?s1 = "s\<lparr>sv_web := (sv_web s)\<lparr>w_extra := []\<rparr>\<rparr>"
  have "gate_ready e (auth_param_of a q True) (sv_web ?s1)"
    using assms(1) by (simp add: req_ready_def gate_ready_def param_ok_def auth_param_of_def web_wf_def EXTRA_HEADER_FIELDS_SIZE_def)
  then have ready: "gate_ready e (auth_param_of a q rw) (sv_web ?s1)" for rw by (rule gate_ready_rw)
  have c: "crypto_doc c" using assms(1) by (simp add: req_ready_def)
  show ?thesis
    using get_ecdh_answers [OF assms(2) ready] delete_answers [OF assms(2) ready] post_ecdh_answers [OF assms(2) ready c]
    by (simp add: handle_req_def Let_def)
qed

section \<open>Writing a response ends\<close>

definition ticking :: "net \<Rightarrow> bool" where
  \<comment> \<open>a send timeout is set, and the clock runs past it from any moment on\<close>
  "ticking n \<longleftrightarrow> send_timeout n \<noteq> 0 \<and> ms_to_ticks n (send_timeout n) \<noteq> 0
     \<and> (\<forall>k. \<exists>d. tick_at n (k + d + 1) - tick_at n k > ms_to_ticks n (send_timeout n))"

definition same_web :: "web \<Rightarrow> web \<Rightarrow> bool" where
  \<comment> \<open>only the counters of the allocations may differ, not what is in use\<close>
  "same_web w w' \<longleftrightarrow> w_auth w' = w_auth w \<and> w_extra w' = w_extra w \<and> w_live w' = w_live w"

definition writes :: "netst \<Rightarrow> (bool \<times> netst) option \<Rightarrow> bool" where
  "writes st m \<longleftrightarrow> (\<exists>res st'. m = Some (res, st') \<and> same_web (ns_web st) (ns_web st'))"

definition responds :: "netst \<Rightarrow> netst option \<Rightarrow> bool" where
  "responds st m \<longleftrightarrow> (\<exists>st'. m = Some st' \<and> same_web (ns_web st) (ns_web st'))"

lemma same_web_refl [simp]: "same_web w w"
  and same_web_trans: "same_web u v \<Longrightarrow> same_web v w \<Longrightarrow> same_web u w"
  and same_web_wf: "same_web w w' \<Longrightarrow> web_wf w' = web_wf w"
  by (simp_all add: same_web_def web_wf_def)

lemma responds_snd: "writes st m \<Longrightarrow> responds st (map_option snd m)"
  by (auto simp: writes_def responds_def)

lemma write_returns:
  assumes "net_doc n" "ticking n"
  shows "\<exists>res st'. netconn_write n c m buf st = Some (res, st') \<and> ns_web st' = ns_web st"
proof -
  obtain d where d: "tick_at n (ns_calls st + d + 1) - tick_at n (ns_calls st) > ms_to_ticks n (send_timeout n)"
    and t: "send_timeout n \<noteq> 0" "ms_to_ticks n (send_timeout n) \<noteq> 0"
    using assms(2) unfolding ticking_def by blast
  obtain y where y: "write_loop n c m (tick_at n (ns_calls st)) (ms_to_ticks n (send_timeout n)) buf 0 st = Some y"
    using write_loop_returns [OF t(2) d] by blast
  from write_loop_prefix [OF this assms(1)] have "ns_web (snd y) = ns_web st" by auto
  with y t show ?thesis by (cases y) (simp add: netconn_write_def)
qed

lemma write_writes:
  assumes "net_doc n" "ticking n"
  shows "writes st (netconn_write n c m buf st)"
  using write_returns [OF assms, of c m buf st] by (auto simp: writes_def)

lemma printf_writes:
  assumes "net_doc n" "ticking n"
  shows "writes st (netconn_printf e n m s st)"
  using write_returns [OF assms, of True m s "st\<lparr>ns_web := snd (heap_alloc e (ns_web st))\<rparr>"]
  by (auto simp: netconn_printf_def writes_def same_web_def heap_alloc_def heap_free_def Let_def)

lemma responds_then:
  assumes "writes st m" "\<And>res st1. responds st1 (f res st1)"
  shows "responds st (case m of None \<Rightarrow> None | Some (res, st1) \<Rightarrow> f res st1)"
    and "responds st (m \<bind> (\<lambda>(res, st1). f res st1))"
proof -
  obtain res st1 where m: "m = Some (res, st1)" "same_web (ns_web st) (ns_web st1)"
    using assms(1) by (auto simp: writes_def)
  with assms(2) [of st1 res] show "responds st (case m of None \<Rightarrow> None | Some (res, st1) \<Rightarrow> f res st1)"
    "responds st (m \<bind> (\<lambda>(res, st1). f res st1))"
    by (auto simp: responds_def intro: same_web_trans)
qed

lemma responds_done [simp]: "responds st (Some st)"
  by (simp add: responds_def)

lemma fatfs_responds:
  assumes "net_doc n" "ticking n"
  shows "responds st (fatfs_loop n fd pos rem_len st)"
  using assms
proof (induction n fd pos rem_len st rule: fatfs_loop.induct)
  case (1 n fd pos rem_len st)
  let ?k = "if rem_len \<le> TX_CHUNK_SIZE then rem_len else TX_CHUNK_SIZE"
  show ?case
  proof (cases "rem_len = 0 \<or> read_file n fd pos ?k = None \<or> length (the (read_file n fd pos ?k)) \<noteq> ?k")
    case True
    then show ?thesis by (subst fatfs_loop.simps) (auto simp: Let_def split: option.split)
  next
    case False
    then obtain data where data: "read_file n fd pos ?k = Some data" "length data = ?k" and rem: "rem_len \<noteq> 0" by auto
    let ?w = "netconn_write n True (\<not> ?k = rem_len) data st"
    have "fatfs_loop n fd pos rem_len st =
        (case ?w of None \<Rightarrow> None | Some (res, st1) \<Rightarrow>
          if \<not> res then Some st1 else fatfs_loop n fd (pos + ?k) (rem_len - ?k) st1)"
      using data rem by (subst fatfs_loop.simps) (simp add: Let_def)
    moreover obtain res st1 where w: "?w = Some (res, st1)" "same_web (ns_web st) (ns_web st1)"
      using write_writes [OF "1.prems", of st True "\<not> ?k = rem_len" data] by (auto simp: writes_def)
    moreover have "responds st1 (fatfs_loop n fd (pos + ?k) (rem_len - ?k) st1)" if res
      using "1.IH" [OF rem refl refl data(1) _ w(1) refl] that data(2) "1.prems" by simp
    ultimately show ?thesis
      by (cases res) (auto simp: responds_def intro: same_web_trans)
  qed
qed

lemma json_gen_responds:
  assumes "net_doc n" "ticking n"
  shows "responds st (json_gen_loop n r chunks k cnt st)"
proof (induction chunks arbitrary: k cnt st)
  case (Cons chunk chunks)
  then show ?case
    by (auto simp: Let_def intro!: responds_then write_writes [OF assms])
qed simp

lemma content_responds:
  assumes "net_doc n" "ticking n" "resp_ok r"
  shows "responds st (write_content e n r st)"
proof -
  note w = write_writes [OF assms(1,2)]
  have f: "responds st (write_content_from_fatfs e n r fd st)" for fd
  proof -
    let ?st1 = "st\<lparr>ns_web := snd (heap_alloc e (ns_web st))\<rparr>"
    have "responds ?st1 (fatfs_loop n fd 0 (resp_len r) ?st1)" by (rule fatfs_responds [OF assms(1,2)])
    then show ?thesis
      by (auto simp: write_content_from_fatfs_def responds_def same_web_def heap_alloc_def heap_free_def Let_def)
  qed
  show ?thesis
    using assms(3) f json_gen_responds [OF assms(1,2)]
    by (cases "resp_location r")
      (auto simp: write_content_def resp_ok_def write_content_from_flash_def write_content_from_static_mem_def
        write_content_from_heap_def intro!: responds_snd w)
qed

lemma response_responds:
  assumes "net_doc n" "ticking n" "resp_ok r"
  shows "responds st (resp_without_free e n r host st)"
proof -
  note p = printf_writes [OF assms(1,2)]
  have c: "responds st (resp_with_content e n r' extra code msg st)" if "resp_ok r'" for r' extra code msg st
    using p content_responds [OF assms(1,2) that] by (simp add: resp_with_content_def responds_then)
  have w: "responds st (resp_without_content e n code msg st)" for code msg st
    unfolding resp_without_content_def by (rule responds_snd [OF p])
  have ok: "resp_ok (r\<lparr>resp_code := 200\<rparr>)"
    using assms(3) by (cases "resp_location r") (simp_all add: resp_ok_def)
  have d: "responds st (resp_with_code e n (Some r') code msg st)" if "resp_ok r'" for r' code msg
    using w c [OF that] by (simp add: resp_with_code_def)
  show ?thesis
    unfolding resp_without_free_def Let_def
    using assms(3) ok
    by (auto simp: netconn_resp_200_def netconn_resp_301_auth_html_def netconn_resp_302_auth_html_def
        intro!: c d responds_snd p)
qed

section \<open>Serving a request\<close>

definition conn_web :: "conn \<Rightarrow> web" where
  "conn_web c = sv_web (cn_server c)"

definition serve_ready :: "serve_cfg \<Rightarrow> cstr \<Rightarrow> bool" where
  \<comment> \<open>the documented behaviour of the libraries, of the network and of the application, a
      watchdog with a timeout, and an address of the client that is the text of an address\<close>
  "serve_ready g remote_ip \<longleftrightarrow> env_doc (sc_env g) \<and> crypto_doc (sc_crypto g) \<and> net_doc (sc_net g) \<and> ticking (sc_net g)
     \<and> app_ok (sc_app g) \<and> host_ok (app_host (sc_app g)) \<and> sc_wdt_timeout_s g \<noteq> Some 0
     \<and> fits STA_IP_STRING_SIZE remote_ip"

definition sends_empty_secret :: "serve_cfg \<Rightarrow> http_req_view \<Rightarrow> bool" where
  \<comment> \<open>an encrypted POST whose content decodes to no byte: its padding is read in front of the buffer\<close>
  "sends_empty_secret g v \<longleftrightarrow> v_cmd v = ''POST''
     \<and> (case http_req_header_get_field (v_header v) ''Ruuvi-Ecdh-Encrypted:'' of
          None \<Rightarrow> False
        | Some (p, len) \<Rightarrow> strncmp_eq p ''true'' len)
     \<and> (case secret_of (sc_env g) (v_body v) of
          None \<Rightarrow> False
        | Some req \<Rightarrow> empty_secret (sc_crypto g) req)"

definition request_faults :: "serve_cfg \<Rightarrow> mem \<Rightarrow> bool" where
  \<comment> \<open>the received bytes are such a request\<close>
  "request_faults g buf \<longleftrightarrow>
     (\<exists>m i v. http_req_parse buf = Some (m, i) \<and> is_success i \<and> req_view m i = Some v \<and> sends_empty_secret g v)"

definition view_ok :: "http_req_view \<Rightarrow> bool" where
  "view_ok v \<longleftrightarrow> nul_free (v_header v) \<and> length (v_header v) < 2 ^ 31 \<and> nul_free (v_uri v)"

lemma mstr_text: "mstr m = Some s \<Longrightarrow> nul_free s \<and> length s < length m"
proof (induction m arbitrary: s)
  case (Cons ch m)
  then show ?case by (cases "ch = NUL") auto
qed simp

lemma parse_length:
  "http_req_parse buf = Some (m, i) \<Longrightarrow> length m = length buf"
proof -
  have step1: "length m1 = length m0" if "parse_find_body m0 = Some (m1, b)" for m0 m1 b
    using that by (auto simp: parse_find_body_def elim!: option_bind_SomeE split: option.splits if_splits dest!: length_mwrite)
  have step2: "length m1 = length m0" if "parse_find_header m0 = Some (m1, h)" for m0 m1 h
    using that by (auto simp: parse_find_header_def elim!: option_bind_SomeE split: option.splits if_splits dest!: length_mwrite)
  have step3: "length m1 = length m0" if "parse_rest m0 u j = Some (m1, k)" for m0 m1 u j k
    using that by (auto simp: parse_rest_def Let_def elim!: option_bind_SomeE split: option.splits dest!: length_mwrite)
  assume "http_req_parse buf = Some (m, i)"
  then show ?thesis
    by (auto simp: http_req_parse_def Let_def elim!: option_bind_SomeE split: option.splits if_splits
        dest!: step1 step2 step3 length_mwrite)
qed

lemma view_parsed:
  assumes "http_req_parse buf = Some (m, i)" "req_view m i = Some v" "length buf < 2 ^ 31"
  shows "view_ok v"
proof -
  have "length m = length buf" by (rule parse_length [OF assms(1)])
  moreover have "nul_free s \<and> length s < length m" if "ptr_str m p = Some s" for p s
  proof -
    from that obtain k where "mstr (drop k m) = Some s" by (auto simp: ptr_str_def mstr_at_def elim!: option_bind_SomeE)
    from mstr_text [OF this] show ?thesis by auto
  qed
  ultimately show ?thesis
    using assms(2,3) by (auto simp: req_view_def view_ok_def elim!: option_bind_SomeE) force+
qed

definition conn_keeps :: "conn \<Rightarrow> conn \<Rightarrow> bool" where
  \<comment> \<open>nothing but the network state and the counters of the allocations\<close>
  "conn_keeps c c' \<longleftrightarrow> same_web (conn_web c) (conn_web c') \<and> sv_acts (cn_server c') = sv_acts (cn_server c)
     \<and> sv_ecdh (cn_server c') = sv_ecdh (cn_server c)"

lemma on_net_responds:
  assumes "\<And>st. responds st (f st)"
  shows "\<exists>c'. on_net f c = Some c' \<and> conn_keeps c c'"
proof -
  let ?st = "\<lparr>ns_sent = cn_sent c, ns_calls = cn_calls c, ns_web = sv_web (cn_server c)\<rparr>"
  from assms [of ?st] show ?thesis by (auto simp: responds_def on_net_def conn_keeps_def conn_web_def)
qed

lemma fixed_responses:
  assumes "net_doc n" "ticking n"
  shows "responds st (netconn_resp_400 e n st)" "responds st (netconn_resp_500 e n st)"
    "responds st (netconn_resp_503 e n st)" "responds st (netconn_resp_302 e n st)"
  by (auto simp: netconn_resp_400_def netconn_resp_500_def netconn_resp_503_def netconn_resp_302_def resp_with_code_def
      resp_without_content_def intro!: responds_snd printf_writes [OF assms])

lemma run_between:
  assumes "server_run e cr tr s" "w_auth (sv_web s') = w_auth (sv_web s)" "w_extra (sv_web s') = w_extra (sv_web s)"
    and "sv_ecdh s' = sv_ecdh s"
  shows "server_run e cr tr s'"
  using run_wf [OF assms(1)] assms(2,3) by (intro server_run.between [OF assms(1,2,4)]) (simp add: web_wf_def)

definition login_event :: "event \<Rightarrow> bool" where
  "login_event ev = (case ev of Handled a q r s \<Rightarrow> login_request q | _ \<Rightarrow> False)"

definition served :: "env \<Rightarrow> crypto \<Rightarrow> event list \<Rightarrow> conn \<Rightarrow> conn \<Rightarrow> bool" where
  \<comment> \<open>with one request handled at most; the blocks on the heap are as before, but for one that a login may keep\<close>
  "served e cr tr c c' \<longleftrightarrow>
     (\<exists>evs. server_run e cr (tr @ evs) (cn_server c') \<and> length evs \<le> 1
        \<and> (w_live (conn_web c') = w_live (conn_web c)
           \<or> list_ex login_event evs \<and> w_live (conn_web c') = w_live (conn_web c) + 1))"

lemma served_without_request:
  assumes "server_run e cr tr (cn_server c)" "same_web (conn_web c) (conn_web c')"
    and "sv_ecdh (cn_server c') = sv_ecdh (cn_server c)"
  shows "served e cr tr c c'"
  unfolding served_def using run_between [OF assms(1) _ _ assms(3)] assms(2)
  by (intro exI [of _ "[]"]) (simp add: conn_web_def same_web_def)

lemma allowed_served:
  assumes run: "server_run (sc_env g) (sc_crypto g) tr (cn_server c)"
    and ready: "serve_ready g remote_ip" and v: "view_ok v"
  shows "case serve_allowed g v local_ip remote_ip host c of
      None \<Rightarrow> sends_empty_secret g v
    | Some c' \<Rightarrow> \<exists>a q r s. server_run (sc_env g) (sc_crypto g) (tr @ [Handled a q r s]) (cn_server c')
        \<and> (w_live (conn_web c') = w_live (conn_web c) - 1
           \<or> login_request q \<and> w_live (conn_web c') = w_live (conn_web c) + 1 - 1)"
proof -
  let ?s = "(cn_server c)\<lparr>sv_web := (sv_web (cn_server c))\<lparr>w_extra := []\<rparr>\<rparr>"
  define q where "q = \<lparr>rp_req = v, rp_remote_ip = remote_ip, rp_info = g_auth_info (w_auth (sv_web (cn_server c))),
    rp_lan = from_lan g local_ip\<rparr>"
  let ?h = "handle_req (sc_env g) (sc_crypto g) (sc_app g) q ?s"
  note e = ready [unfolded serve_ready_def]
  have run0: "server_run (sc_env g) (sc_crypto g) tr ?s"
    using run_wf [OF run] by (intro server_run.between [OF run]) (simp_all add: web_wf_def EXTRA_HEADER_FIELDS_SIZE_def)
  have req: "req_ready (sc_env g) (sc_crypto g) (sc_app g) q ?s"
    using e v run_wf [OF run0] by (simp add: req_ready_def param_ok_def auth_param_of_def q_def view_ok_def)
  have unanswered: "serve_allowed g v local_ip remote_ip host c = None" if "?h = None"
    using that by (simp add: serve_allowed_def Let_def q_def)
  show ?thesis
  proof (cases rule: handle_req_cases [OF req, case_names fault handled])
    case fault
    then have "sends_empty_secret g v"
      by (auto simp: reads_before_buffer_def reads_before_block_def flag_encrypted_def sends_empty_secret_def q_def
          split: option.splits)
    with unanswered [OF fault(2)] show ?thesis by simp
  next
    case (handled r s1)
    have ok: "resp_ok r" using handle_req_answers [OF req] e handled(2) by (simp add: answers_ok_def)
    note step = server_run.request [OF run0 req handled(2)] request_step(1,3) [OF req handled(2)]
    obtain ds0 where "brute_force_delay (task_wdog_feed_period_ms (sc_wdt_timeout_s g)) BRUTE_FORCE_PROTECTION_TIMEOUT_MS = Some ds0"
      using brute_force_delay_total [OF wdog_period_positive [of "sc_wdt_timeout_s g"]] e by blast
    then obtain ds where ds: "(if resp_code r = 401 \<or> resp_code r = 403
        then brute_force_delay (task_wdog_feed_period_ms (sc_wdt_timeout_s g)) BRUTE_FORCE_PROTECTION_TIMEOUT_MS
        else Some []) = Some ds" by (cases "resp_code r = 401 \<or> resp_code r = 403") simp_all
    let ?c1 = "c\<lparr>cn_server := s1, cn_delays := cn_delays c @ ds\<rparr>"
    have "\<exists>c2. on_net (resp_without_free (sc_env g) (sc_net g) r host) ?c1 = Some c2 \<and> conn_keeps ?c1 c2"
      by (rule on_net_responds, rule response_responds) (use e ok in simp_all)
    then obtain c2 where c2: "on_net (resp_without_free (sc_env g) (sc_net g) r host) ?c1 = Some c2" "conn_keeps ?c1 c2" by blast
    let ?c' = "upd_web heap_free (c2\<lparr>cn_freed := cn_freed c2 @ resp_free r\<rparr>)"
    have "serve_allowed g v local_ip remote_ip host c = Some ?c'"
      using handled(2) ds c2(1) by (simp add: serve_allowed_def Let_def q_def)
    moreover have "server_run (sc_env g) (sc_crypto g) (tr @ [Handled (sc_app g) q r ?s]) (cn_server ?c')"
      using c2(2) by (intro run_between [OF step(1)]) (auto simp: conn_keeps_def same_web_def conn_web_def upd_web_def)
    moreover have "w_live (conn_web ?c') = w_live (conn_web c) - 1
        \<or> login_request q \<and> w_live (conn_web ?c') = w_live (conn_web c) + 1 - 1"
      using c2(2) step(3) by (auto simp: conn_keeps_def same_web_def conn_web_def upd_web_def heap_free_def)
    ultimately show ?thesis by auto
  qed
qed

lemma request_refused:
  \<comment> \<open>the answers that need no handler; with the block of the extra header fields or without it\<close>
  assumes "server_run e cr tr (cn_server c)" "\<exists>c'. m = Some c' \<and> conn_keeps c1 c'"
    and "c1 = upd_web (\<lambda>_. snd (heap_alloc e (sv_web (cn_server c)))) c"
  shows "fst (heap_alloc e (sv_web (cn_server c))) \<Longrightarrow> \<exists>c'. map_option (upd_web heap_free) m = Some c' \<and> served e cr tr c c'"
    and "\<not> fst (heap_alloc e (sv_web (cn_server c))) \<Longrightarrow> \<exists>c'. m = Some c' \<and> served e cr tr c c'"
proof -
  obtain c' where c': "m = Some c'" "conn_keeps c1 c'" using assms(2) by blast
  show "\<exists>c'. map_option (upd_web heap_free) m = Some c' \<and> served e cr tr c c'" if "fst (heap_alloc e (sv_web (cn_server c)))"
    using c' that assms(3)
    by (auto simp: conn_keeps_def same_web_def conn_web_def upd_web_def heap_free_def heap_alloc_def Let_def
        intro!: served_without_request [OF assms(1)])
  show "\<exists>c'. m = Some c' \<and> served e cr tr c c'" if "\<not> fst (heap_alloc e (sv_web (cn_server c)))"
    using c' that assms(3)
    by (auto simp: conn_keeps_def same_web_def conn_web_def upd_web_def heap_alloc_def Let_def
        intro!: served_without_request [OF assms(1)])
qed

lemma request_served:
  assumes run: "server_run (sc_env g) (sc_crypto g) tr (cn_server c)"
    and ready: "serve_ready g remote_ip" and buf: "length buf < 2 ^ 31"
  shows "case serve_handle_req g buf local_ip remote_ip c of
      None \<Rightarrow> nul_free buf \<or> request_faults g buf
    | Some c' \<Rightarrow> served (sc_env g) (sc_crypto g) tr c c'"
proof -
  let ?m = "serve_handle_req g buf local_ip remote_ip c"
  have n: "net_doc (sc_net g)" "ticking (sc_net g)" using ready by (simp_all add: serve_ready_def)
  have fixed: "\<exists>c'. on_net (netconn_resp_400 (sc_env g) (sc_net g)) c1 = Some c' \<and> conn_keeps c1 c'"
    "\<exists>c'. on_net (netconn_resp_500 (sc_env g) (sc_net g)) c1 = Some c' \<and> conn_keeps c1 c'"
    "\<exists>c'. on_net (netconn_resp_503 (sc_env g) (sc_net g)) c1 = Some c' \<and> conn_keeps c1 c'"
    "\<exists>c'. on_net (netconn_resp_302 (sc_env g) (sc_net g)) c1 = Some c' \<and> conn_keeps c1 c'" for c1
    by (rule on_net_responds, rule fixed_responses [OF n])+
  have unparsed: ?thesis if "?m = None" "http_req_parse buf = None \<or> (\<exists>m i. http_req_parse buf = Some (m, i) \<and> is_success i \<and> req_view m i = None)"
  proof -
    have "nul_free buf" using that(2) http_req_parse_ok [of buf] by (cases "nul_free buf") auto
    with that(1) show ?thesis by simp
  qed
  show ?thesis
  proof (cases "http_req_parse buf")
    case None
    with unparsed show ?thesis by (simp add: serve_handle_req_def)
  next
    case (Some mi)
    obtain m i where parse: "http_req_parse buf = Some (m, i)" using Some by (cases mi) auto
    show ?thesis
    proof (cases "is_success i \<and> req_view m i \<noteq> None")
      case False
      with parse unparsed fixed(1) [of c] served_without_request [OF run] show ?thesis
        by (cases "is_success i") (auto simp: serve_handle_req_def conn_keeps_def)
    next
      case True
      then obtain v where v: "is_success i" "req_view m i = Some v" by auto
      obtain to_ap host where host: "extract_hostname v local_ip (ap_ip_str (sc_net g)) = (to_ap, host)" by (metis prod.exhaust)
      define ok where "ok = fst (heap_alloc (sc_env g) (sv_web (cn_server c)))"
      define c1 where "c1 = upd_web (\<lambda>_. snd (heap_alloc (sc_env g) (sv_web (cn_server c)))) c"
      have unfold: "?m =
          (if \<not> ok then on_net (netconn_resp_500 (sc_env g) (sc_net g)) c1
           else if from_lan g local_ip \<and> sc_lan_blocked g then
             map_option (upd_web heap_free) (on_net (netconn_resp_503 (sc_env g) (sc_net g)) c1)
           else if \<not> from_lan g local_ip \<and> \<not> to_ap then
             map_option (upd_web heap_free) (on_net (netconn_resp_302 (sc_env g) (sc_net g)) c1)
           else serve_allowed g v local_ip remote_ip host c1)"
        using v parse host by (simp add: serve_handle_req_def ok_def c1_def Let_def case_prod_beta)
      note answered = request_refused [OF run _ c1_def, folded ok_def]
      consider (refused) c' where "?m = Some c'" "served (sc_env g) (sc_crypto g) tr c c'"
        | (allowed) ok "?m = serve_allowed g v local_ip remote_ip host c1"
        using unfold answered(1) [OF fixed(3)] answered(1) [OF fixed(4)] answered(2) [OF fixed(2)] by metis
      then show ?thesis
      proof cases
        case refused
        then show ?thesis by simp
      next
        case allowed
        have w1: "w_auth (conn_web c1) = w_auth (conn_web c)" "w_extra (conn_web c1) = w_extra (conn_web c)"
          "w_live (conn_web c1) = w_live (conn_web c) + 1" "sv_ecdh (cn_server c1) = sv_ecdh (cn_server c)"
          using allowed(1) by (simp_all add: c1_def ok_def upd_web_def conn_web_def heap_alloc_def Let_def split: if_splits)
        have "server_run (sc_env g) (sc_crypto g) tr (cn_server c1)"
          using w1 by (intro run_between [OF run]) (simp_all add: conn_web_def)
        from allowed_served [OF this ready view_parsed [OF parse v(2) buf], of local_ip host] allowed(2) parse v w1(3)
        show ?thesis
          by (fastforce simp: request_faults_def served_def login_event_def split: option.splits)
      qed
    qed
  qed
qed

section \<open>Serving the clients\<close>

record client =
  \<comment> \<open>one connection: the program around it, what arrives and when, and its addresses\<close>
  cl_cfg :: serve_cfg
  cl_al :: "nat \<Rightarrow> bool" \<comment> \<open>whether the k-th allocation of the request buffer succeeds\<close>
  cl_junk :: "nat \<Rightarrow> byte"
  cl_hz :: nat
  cl_evs :: "(nat \<times> recv_event) list"
  cl_tcp1 :: bool
  cl_tcp2 :: bool
  cl_local_ip :: cstr
  cl_remote_ip :: cstr

definition serve_client :: "client \<Rightarrow> conn \<Rightarrow> conn option" where
  "serve_client w c = netconn_serve (cl_cfg w) (cl_al w) (cl_junk w) (cl_hz w) (cl_evs w) (cl_tcp1 w) (cl_tcp2 w)
     (cl_local_ip w) (cl_remote_ip w) c"

definition fault_cause :: "client \<Rightarrow> bool" where
  \<comment> \<open>the three defects: the heap had no room for the buffer of a request that is taken for complete; the client sent more
      than the buffer keeps, which leaves it without its NUL; the content is an empty secret\<close>
  "fault_cause w \<longleftrightarrow>
     (\<exists>en ctx. serve_loop (cl_al w) (cl_junk w) (cl_hz w) (cl_evs w) recv_ctx_init = Some (en, ctx) \<and> is_ready ctx \<and>
        (case p_req_buf ctx of
           None \<Rightarrow> \<exists>k. \<not> cl_al w k
         | Some buf \<Rightarrow> nul_free buf \<and> accum_len ctx < sent_bytes (cl_evs w) \<or> request_faults (cl_cfg w) buf))"

definition client_ok :: "env \<Rightarrow> crypto \<Rightarrow> client \<Rightarrow> bool" where
  \<comment> \<open>the surroundings are the documented ones; nothing is assumed of what the client sends\<close>
  "client_ok e cr w \<longleftrightarrow> sc_env (cl_cfg w) = e \<and> sc_crypto (cl_cfg w) = cr \<and> serve_ready (cl_cfg w) (cl_remote_ip w)
     \<and> clock_runs (cl_hz w) (cl_evs w)"

lemma buffer_released:
  assumes "served e cr tr (upd_web (\<lambda>w. w\<lparr>w_live := w_live w + 1\<rparr>) c) c'"
  shows "served e cr tr c (upd_web heap_free c')"
proof -
  let ?c0 = "upd_web (\<lambda>w. w\<lparr>w_live := w_live w + 1\<rparr>) c"
  obtain evs where evs: "server_run e cr (tr @ evs) (cn_server c')" "length evs \<le> 1"
    "w_live (conn_web c') = w_live (conn_web ?c0)
      \<or> list_ex login_event evs \<and> w_live (conn_web c') = w_live (conn_web ?c0) + 1"
    using assms unfolding served_def by blast
  have "server_run e cr (tr @ evs) (cn_server (upd_web heap_free c'))"
    by (rule run_between [OF evs(1)]) (simp_all add: upd_web_def heap_free_def)
  with evs(2,3) show ?thesis
    unfolding served_def by (intro exI [of _ evs]) (auto simp: upd_web_def conn_web_def heap_free_def)
qed

lemma client_served:
  assumes "client_ok e cr w" "server_run e cr tr (cn_server c)"
  shows "case serve_client w c of None \<Rightarrow> fault_cause w | Some c' \<Rightarrow> served e cr tr c c'"
proof (cases "cl_tcp1 w \<and> cl_tcp2 w")
  case False
  with served_without_request [OF assms(2), of c] show ?thesis
    by (auto simp: serve_client_def netconn_serve_def)
next
  case True
  let ?loop = "serve_loop (cl_al w) (cl_junk w) (cl_hz w) (cl_evs w) recv_ctx_init"
  let ?c0 = "\<lambda>n. upd_web (\<lambda>w. w\<lparr>w_live := w_live w + n\<rparr>) c"
  obtain en ctx where loop: "?loop = Some (en, ctx)" "buf_bounded ctx"
    using serve_loop_ok [OF recv_inv_init] by blast
  have g: "sc_env (cl_cfg w) = e" "sc_crypto (cl_cfg w) = cr" "serve_ready (cl_cfg w) (cl_remote_ip w)" "en \<noteq> Waiting"
    using assms(1) loop_not_waiting [OF loop(1)] by (simp_all add: client_ok_def)
  note fin = serve_loop_end [OF loop(1)]
  have run0: "server_run e cr tr (cn_server (?c0 n))" for n
    by (rule run_between [OF assms(2)]) (simp_all add: upd_web_def)
  show ?thesis
  proof (cases "is_ready ctx")
    case False
    have "served e cr tr (?c0 1) (?c0 1)" by (rule served_without_request [OF run0]) simp_all
    from buffer_released [OF this] served_without_request [OF assms(2), of c] False loop(1) g(4) True fin(1) show ?thesis
      by (cases "p_req_buf ctx") (simp_all add: serve_client_def netconn_serve_def upd_web_def)
  next
    case ready: True
    show ?thesis
    proof (cases "p_req_buf ctx")
      case None
      with loop(1) ready fin(2) True g(4) show ?thesis
        by (simp add: fault_cause_def serve_client_def netconn_serve_def)
    next
      case (Some buf)
      have len: "length buf < 2 ^ 31" using loop(2) Some by (simp add: buf_bounded_def max_req_buf_def max_sizes)
      let ?m = "serve_handle_req (cl_cfg w) buf (cl_local_ip w) (cl_remote_ip w) (?c0 1)"
      have "serve_client w c = map_option (upd_web heap_free) ?m"
        using True ready g(4) loop(1) Some fin(1)
        by (cases ?m) (simp_all add: serve_client_def netconn_serve_def)
      moreover have "fault_cause w" if "nul_free buf \<or> request_faults (cl_cfg w) buf"
        unfolding fault_cause_def using that loop(1) ready Some fin(3) [OF Some] by (intro exI [of _ en] exI [of _ ctx]) auto
      moreover have "case ?m of None \<Rightarrow> nul_free buf \<or> request_faults (cl_cfg w) buf | Some c' \<Rightarrow> served e cr tr (?c0 1) c'"
        by (rule request_served [where tr = tr and g = "cl_cfg w", unfolded g(1,2), OF run0 g(3) len])
      ultimately show ?thesis using buffer_released [of e cr tr c] by (cases ?m) simp_all
    qed
  qed
qed

lemma accept_served:
  assumes "client_ok e cr w" "server_run e cr tr (cn_server c)"
  shows "case accept_and_handle_conn ac (serve_client w) c of
      None \<Rightarrow> serve_client w c = None \<and> fault_cause w
    | Some (ops, c') \<Rightarrow> \<exists>evs. server_run e cr (tr @ evs) (cn_server c')"
proof -
  have "\<exists>evs. server_run e cr (tr @ evs) (cn_server c)" using assms(2) by (intro exI [of _ "[]"]) simp
  then show ?thesis
    using client_served [OF assms]
    by (cases "serve_client w c") (auto simp: accept_and_handle_conn_def served_def Let_def)
qed

type_synonym round = "nat list option \<times> accept_env \<times> client"

definition rounds_of :: "round list \<Rightarrow> http_round list" where
  "rounds_of rs = map (\<lambda>(sigs, ac, w). (sigs, ac, serve_client w)) rs"

definition round_ok :: "env \<Rightarrow> crypto \<Rightarrow> round \<Rightarrow> bool" where
  "round_ok e cr r = (case r of (sigs, ac, w) \<Rightarrow> list_all (\<lambda>sig. sig \<le> SIG_USER_REQ_2) (signals_of sigs) \<and> client_ok e cr w)"

definition stops :: "round list \<Rightarrow> bool" where
  "stops rs = list_ex (\<lambda>(sigs, ac, w). SIG_STOP \<in> set (signals_of sigs)) rs"

definition brought_down :: "round list \<Rightarrow> nat \<Rightarrow> conn \<Rightarrow> bool" where
  \<comment> \<open>the k-th client, served in this state, triggers a defect\<close>
  "brought_down rs k c = (k < length rs \<and>
     (case rs ! k of (sigs, ac, w) \<Rightarrow> SIG_STOP \<notin> set (signals_of sigs) \<and> serve_client w c = None \<and> fault_cause w))"

lemma loop_served:
  assumes "list_all (round_ok e cr) rs" "server_run e cr tr (cn_server c)"
  shows "case http_server_loop (rounds_of rs) c s of
      None \<Rightarrow> \<exists>k c' t. http_server_loop (rounds_of (take k rs)) c s = Some (False, c', t) \<and> brought_down rs k c'
    | Some (stopped, c', t) \<Rightarrow> stopped = stops rs \<and> (\<exists>evs. server_run e cr (tr @ evs) (cn_server c'))"
  using assms
proof (induction rs arbitrary: c s tr)
  case Nil
  then show ?case by (auto simp: rounds_of_def stops_def intro!: exI [of _ "[]"])
next
  case (Cons r rs)
  obtain sigs ac w where r: "r = (sigs, ac, w)" by (metis prod.exhaust)
  with Cons.prems(1) have known: "list_all (\<lambda>sig. sig \<le> SIG_USER_REQ_2) (signals_of sigs)" and w: "client_ok e cr w"
    by (simp_all add: round_ok_def)
  obtain u where u: "(case sigs of None \<Rightarrow> Some (False, s) | Some l \<Rightarrow> http_server_handle_sig_events l s)
      = Some (SIG_STOP \<in> set (signals_of sigs), u)"
    by (rule http_sig.waited [OF known])
  show ?case
  proof (cases "SIG_STOP \<in> set (signals_of sigs)")
    case True
    with u r Cons.prems(2) show ?thesis
      by (auto simp: rounds_of_def stops_def intro!: exI [of _ "[]"])
  next
    case False
    let ?a = "accept_and_handle_conn ac (serve_client w) c"
    note a = accept_served [OF w Cons.prems(2), of ac]
    show ?thesis
    proof (cases ?a)
      case None
      with a r False have "brought_down (r # rs) 0 c" by (simp add: brought_down_def)
      moreover have "http_server_loop (rounds_of (take 0 (r # rs))) c s = Some (False, c, s)" by (simp add: rounds_of_def)
      ultimately have "\<exists>k c' t. http_server_loop (rounds_of (take k (r # rs))) c s = Some (False, c', t) \<and> brought_down (r # rs) k c'"
        by blast
      moreover have "http_server_loop (rounds_of (r # rs)) c s = None" using r u False None by (simp add: rounds_of_def)
      ultimately show ?thesis by (simp only: option.case)
    next
      case (Some oc)
      obtain ops c1 where oc: "oc = (ops, c1)" by (cases oc)
      with a Some obtain evs where evs: "server_run e cr (tr @ evs) (cn_server c1)" by auto
      have step: "http_server_loop (rounds_of (r # xs)) c s = http_server_loop (rounds_of xs) c1 (calls [OsConn ops] u)" for xs
        using r u False Some oc by (simp add: rounds_of_def)
      have later: "brought_down (r # rs) (Suc k) c' = brought_down rs k c'" for k c' by (simp add: brought_down_def)
      have stop: "stops (r # rs) = stops rs" using r False by (simp add: stops_def)
      have ih: "case http_server_loop (rounds_of rs) c1 (calls [OsConn ops] u) of
          None \<Rightarrow> \<exists>k c' t. http_server_loop (rounds_of (take k rs)) c1 (calls [OsConn ops] u) = Some (False, c', t) \<and> brought_down rs k c'
        | Some (stopped, c', t) \<Rightarrow> stopped = stops rs \<and> (\<exists>evs'. server_run e cr ((tr @ evs) @ evs') (cn_server c'))"
        using Cons.IH [OF _ evs] Cons.prems(1) by simp
      show ?thesis
      proof (cases "http_server_loop (rounds_of rs) c1 (calls [OsConn ops] u)")
        case None
        with ih obtain k c' t where "http_server_loop (rounds_of (take k rs)) c1 (calls [OsConn ops] u) = Some (False, c', t)"
          "brought_down rs k c'" by auto
        then have "http_server_loop (rounds_of (take (Suc k) (r # rs))) c s = Some (False, c', t) \<and> brought_down (r # rs) (Suc k) c'"
          using step [of "take k rs"] later by simp
        moreover have "http_server_loop (rounds_of (r # rs)) c s = None" using None step by simp
        ultimately show ?thesis by (auto intro: exI [of _ "Suc k"])
      next
        case (Some res)
        obtain stopped c' t where "res = (stopped, c', t)" by (metis prod.exhaust)
        with Some ih step [of rs] stop show ?thesis by auto
      qed
    qed
  qed
qed

section \<open>Properties\<close>

text \<open>
  C3: Whatever its clients send and whatever the network does, the HTTP task serves one connection
  after the other, returns exactly when it is told to stop, and leaves the state of the server
  well formed and reached by a run of requests, whose theorems therefore hold; or one of the clients, after the
  ones before it were served, makes the server access memory that is not its own, and that client has triggered one of
  three defects of the code: it was sent while the heap had no room for its buffer, it sent more bytes
  than it announced, or its encrypted content is empty.
\<close>

theorem http_task_survives_clients:
  assumes "te_register te" "te_conn te" "te_listen te"
    and "list_all (round_ok e cr) rs" "server_run e cr tr (cn_server c)"
  shows "case http_server_task te (rounds_of rs) c s of
      None \<Rightarrow> \<exists>k c' t. http_server_task te (rounds_of (take k rs)) c s = Some (False, c', t) \<and> brought_down rs k c'
    | Some (stopped, c', t) \<Rightarrow> stopped = stops rs \<and> web_wf (conn_web c') \<and> (\<exists>evs. server_run e cr (tr @ evs) (cn_server c'))"
proof -
  obtain r where r: "http_server_sig_register_cur_thread te s = (True, r)"
    using assms(1) by (simp add: http_server_sig_register_cur_thread_def)
  define u where "u = acquire {WdtEntry} (acquire {WdogTimer} (acquire {ListenConn} r))"
  have task: "http_server_task te (rounds_of xs) c s = (case http_server_loop (rounds_of xs) c u of
      None \<Rightarrow> None
    | Some (stopped, c', t) \<Rightarrow> Some (stopped, c', if stopped then
        http_server_sig_unregister_cur_thread (release {ListenConn} (release {WdogTimer} (release {WdtEntry} t))) else t))" for xs
    using r assms(2,3) by (cases "http_server_loop (rounds_of xs) c u")
      (auto simp: http_server_task_def http_server_netconn_listen_def u_def)
  have "web_wf (conn_web c')" if "server_run e cr tr' (cn_server c')" for tr' c'
    using run_wf [OF that] by (simp add: conn_web_def)
  with loop_served [OF assms(4,5), of u] show ?thesis
    unfolding task by (cases "http_server_loop (rounds_of rs) c u") (fastforce split: option.splits)+
qed


section \<open>Witnesses\<close>

text \<open>
  Two clients of the server in which a user is logged in (\<open>Sessions\<close>): one posts the
  configuration, with the cookie of the session, in two packets; the other sends nothing.
\<close>

definition wire_cfg :: serve_cfg where
  "wire_cfg = \<lparr>sc_env = env1, sc_crypto = crypto0, sc_app = app0, sc_net = net0\<lparr>tick_at := of_nat\<rparr>,
     sc_lan_blocked = False, sc_wdt_timeout_s = Some 5\<rparr>"

definition wire_post :: cstr where
  "wire_post = ''POST /data HTTP/1.1'' @ [CR, LF] @ demo_cookie @ ''Content-Length: 2'' @ [CR, LF, CR, LF]"

definition posting_client :: client where
  "posting_client = \<lparr>cl_cfg = wire_cfg, cl_al = all_ok, cl_junk = junk_A, cl_hz = 100,
     cl_evs = [(0, RecvBuf [Some wire_post]), (1, RecvBuf [Some ''{}'']), (2, RecvErr)], cl_tcp1 = True, cl_tcp2 = True,
     cl_local_ip = ''192.168.1.5'', cl_remote_ip = ''10.10.0.2''\<rparr>"

definition silent_client :: client where
  "silent_client = posting_client\<lparr>cl_evs := [(0, RecvErr)]\<rparr>"

definition wire_rounds :: "round list" where
  "wire_rounds = [(Some [1], accept0\<lparr>ac_tcp := True\<rparr>, posting_client), (None, accept0\<lparr>ac_tcp := True\<rparr>, silent_client),
     (Some [0], accept0, silent_client)]"

definition wire_conn :: conn where
  "wire_conn = conn0\<lparr>cn_server := demo_logged_in\<rparr>"

lemma wire_ready: "serve_ready wire_cfg ''10.10.0.2''"
proof -
  have "\<exists>d. tick_at (net0\<lparr>tick_at := of_nat\<rparr>) (k + d + 1) - tick_at (net0\<lparr>tick_at := of_nat\<rparr>) k
      > ms_to_ticks net0 (send_timeout net0)" for k
    by (rule exI [of _ 15000]) (simp add: net0_def word_less_nat_alt)
  then have "ticking (net0\<lparr>tick_at := of_nat\<rparr>)" by (simp add: ticking_def net0_def)
  moreover have "app_ok app0"
    by (simp add: app_ok_def app0_def)
  moreover have "net_doc (net0\<lparr>tick_at := of_nat\<rparr>)" by (simp add: net_doc_def net0_def)
  ultimately show ?thesis
    using env_doc_env1 crypto_doc_crypto0 concrete_ok(1,4) by (simp add: serve_ready_def wire_cfg_def app0_def)
qed

lemma wire_clients: "client_ok env1 crypto0 posting_client" "client_ok env1 crypto0 silent_client"
  using wire_ready
  by (simp_all add: client_ok_def silent_client_def posting_client_def clock_runs_def wire_cfg_def)

text \<open>The post of the client reaches the application; none of the two clients triggers a defect.\<close>

lemma posting_client_served:
  "map_option (\<lambda>c. (sv_acts (cn_server c), w_live (conn_web c))) (serve_client posting_client wire_conn)
    = Some ([CbPost ''data'' None ''{}'' True], 0)"
  by code_simp

lemma wire_loops:
  "case serve_loop all_ok junk_A 100 (cl_evs silent_client) recv_ctx_init of Some (en, ctx) \<Rightarrow> \<not> is_ready ctx | None \<Rightarrow> False"
  "case serve_loop all_ok junk_A 100 (cl_evs posting_client) recv_ctx_init of Some (en, ctx) \<Rightarrow>
     (case p_req_buf ctx of Some buf \<Rightarrow> \<not> nul_free buf | None \<Rightarrow> False) | None \<Rightarrow> False"
  by code_simp+

lemma wire_no_fault: "\<not> fault_cause posting_client" "\<not> fault_cause silent_client"
proof -
  have "\<not> sends_empty_secret wire_cfg v" for v
    by (auto simp: sends_empty_secret_def secret_of_def wire_cfg_def env1_def parse_encrypted_req_def split: option.splits)
  then have "\<not> request_faults wire_cfg buf" for buf by (simp add: request_faults_def)
  with wire_loops show "\<not> fault_cause posting_client" "\<not> fault_cause silent_client"
    by (auto simp: fault_cause_def silent_client_def posting_client_def split: option.splits)
qed

lemma wire_run: "server_run env1 crypto0 demo_trace (cn_server wire_conn)"
  using demo_runs(1) by (simp add: wire_conn_def)

lemma http_task_survives_clients_witness:
  "\<exists>c' t. http_server_task task_env0 (rounds_of wire_rounds) wire_conn task0 = Some (True, c', t)
    \<and> web_wf (conn_web c') \<and> (\<exists>evs. server_run env1 crypto0 (demo_trace @ evs) (cn_server c'))"
proof -
  have "list_all (round_ok env1 crypto0) wire_rounds"
    using wire_clients by (simp add: wire_rounds_def round_ok_def signals_of_def SIG_USER_REQ_2_def)
  moreover have "stops wire_rounds" by (simp add: wire_rounds_def stops_def signals_of_def SIG_STOP_def)
  moreover have "\<not> brought_down wire_rounds k c" for k c
    using wire_no_fault by (auto simp: brought_down_def wire_rounds_def nth_Cons' split: if_splits)
  ultimately show ?thesis
    using http_task_survives_clients [of task_env0 env1 crypto0 wire_rounds demo_trace wire_conn task0] wire_run
    by (auto simp: task_env0_def split: option.splits)
qed


text \<open>
  The defects are there: a client that sends more than it announced, and one whose second packet finds the heap full,
  are not served to their end.
\<close>

definition crowding_client :: client where
  "crowding_client = posting_client\<lparr>cl_evs := [(0, RecvBuf [Some (wire_post @ ''{}'' @ ''more'')])]\<rparr>"

definition oom_client :: client where
  "oom_client = posting_client\<lparr>cl_al := \<lambda>k. k = 0, cl_evs := [(0, RecvBuf [Some (wire_post @ ''{}''), Some ''more''])]\<rparr>"

lemma faulting_clients: "serve_client crowding_client wire_conn = None" "serve_client oom_client wire_conn = None"
proof -
  have "Option.is_none (serve_client crowding_client wire_conn)" "Option.is_none (serve_client oom_client wire_conn)"
    by code_simp+
  then show "serve_client crowding_client wire_conn = None" "serve_client oom_client wire_conn = None"
    by (simp_all add: Option.is_none_def)
qed

end
