(* ===== verification/LoginFlow.thy ===== *)
theory LoginFlow
  imports Sessions NetconnResp
begin

text \<open>
  The login as a client goes through it: it asks for /auth, reads the challenge and the session
  id from the header of the answer, sends the digest back with the cookie of the session, and is
  from then on let in. \<open>Sessions\<close> shows that nobody gets in without a login; here is the
  converse, that a client that knows the password does.
\<close>

section \<open>Cookies\<close>

definition cookie_first :: "cstr \<Rightarrow> cstr \<Rightarrow> bool" where
  \<comment> \<open>the name does not start earlier than behind this text\<close>
  "cookie_first before name \<longleftrightarrow> strstr_idx (before @ name) name = Some (length before)"

lemma strstr_idx_append:
  assumes "strstr_idx h n = Some i"
  shows "strstr_idx (h @ t) n = Some i"
  using assms
proof (induction h arbitrary: i)
  case Nil
  then have "n = []" "i = 0" by (simp_all split: if_splits)
  then show ?case by (simp add: strstr_idx_prefix)
next
  case (Cons ch h)
  show ?case
  proof (cases "prefix n (ch # h)")
    case True
    then have "prefix n (ch # h @ t)" by (metis append_Cons prefix_prefix)
    with Cons.prems True show ?thesis by simp
  next
    case False
    with Cons.prems obtain j where j: "strstr_idx h n = Some j" "i = Suc j" by auto
    from strstr_idx_length [OF j(1)] have "j + length n \<le> length h" .
    then have "length n \<le> length (ch # h)" by simp
    with False have "\<not> prefix n (ch # h @ t)"
      using prefix_length_prefix [of n "(ch # h) @ t" "ch # h"] by auto
    with Cons.IH [OF j(1)] j(2) show ?thesis by simp
  qed
qed

lemma strstr_char_hit: "ch \<notin> set xs \<Longrightarrow> strstr_idx (xs @ ch # ys) [ch] = Some (length xs)"
  by (induction xs) auto

lemma strstr_char_miss: "ch \<notin> set xs \<Longrightarrow> strstr_idx xs [ch] = None"
  by (induction xs) auto

lemma get_cookie_value:
  assumes cookies: "take n cookies = before @ name @ CHR ''='' # v @ rest" "n \<le> length cookies"
    and name: "name \<noteq> []" "cookie_first before name" "CHR '';'' \<notin> set name" "CHR ''='' \<notin> set name"
    and v: "CHR '';'' \<notin> set v" "v \<noteq> []" "length v < bsz"
    and rest: "rest = [] \<or> hd rest = CHR '';''"
  shows "get_cookie cookies n name bsz = Some (True, v)"
proof -
  let ?b = "drop (length before) cookies" and ?m = "n - length before" and ?p = "length name + 1 + length v"
  have n: "n = length before + (?p + length rest)" using arg_cong [OF cookies(1), of length] cookies(2) by simp
  have "take ?m ?b = drop (length before) (take n cookies)" by (simp add: drop_take)
  then have b: "take ?m ?b = name @ CHR ''='' # v @ rest" using cookies(1) by simp
  have p: "take ?p ?b = name @ CHR ''='' # v"
  proof -
    have "take ?p ?b = take ?p (take ?m ?b)" using n by simp
    with b show ?thesis by simp
  qed
  have "strstr_idx (take n cookies) name = Some (length before)"
    using strstr_idx_append [OF name(2) [unfolded cookie_first_def]] cookies(1) by simp
  with name(1) n cookies(2) have r1: "http_server_strnstr cookies name n = Some (Some (length before))"
    by (subst http_server_strnstr_eq) simp_all
  have semi: "CHR '';'' \<notin> set (name @ CHR ''='' # v)" using name(3) v(1) by simp
  have "strstr_idx (take ?m ?b) '';'' = (if rest = [] then None else Some ?p)"
  proof (cases rest)
    case Nil
    with b strstr_char_miss [OF semi] show ?thesis by simp
  next
    case (Cons a as)
    with rest b strstr_char_hit [OF semi, of as] show ?thesis by simp
  qed
  then have r2: "http_server_strnstr ?b '';'' ?m = Some (if rest = [] then None else Some ?p)"
    using n cookies(2) by (subst http_server_strnstr_eq) simp_all
  have "strstr_idx (take ?p ?b) ''='' = Some (length name)"
    using strstr_char_hit [OF name(4), of v] p by simp
  then have r3: "http_server_strnstr ?b ''='' ?p = Some (Some (length name))"
    using n cookies(2) by (subst http_server_strnstr_eq) simp_all
  have "drop (length name + 1) (take ?p ?b) = v" using p by simp
  then have val: "take (length v) (drop (length name + 1) ?b) = v"
    by (simp add: drop_take)
  have sub: "sub_u32 n (length before) = ?m" using n by simp
  have len: "?m = ?p" if "rest = []" using n that by simp
  have pair: "cookie_pair_value ?b ?p bsz = Some (True, v)"
    using r3 v(2,3) val by (simp add: cookie_pair_value_def Let_def snprintf_s_def)
  show ?thesis
    unfolding get_cookie_def r1 using r2 pair sub len by (cases "rest = []") (simp_all add: Let_def)
qed

definition session_cookie_line :: "cstr \<Rightarrow> cstr \<Rightarrow> cstr \<Rightarrow> cstr" where
  \<comment> \<open>other cookies before and behind\<close>
  "session_cookie_line before sid rest = ''Cookie: '' @ before @ ''RUUVISESSION='' @ sid @ rest"

definition cookies_ok :: "cstr \<Rightarrow> cstr \<Rightarrow> bool" where
  "cookies_ok before rest \<longleftrightarrow> line_ok before \<and> line_ok rest \<and> (before = [] \<or> hd before \<noteq> SP \<and> hd before \<noteq> DQ)
     \<and> cookie_first before COOKIE_SESSION \<and> (rest = [] \<or> hd rest = CHR '';'')"

lemma upper_id_chars:
  "upper_id sid \<Longrightarrow> ch \<in> set sid \<Longrightarrow> ch \<noteq> CHR '';'' \<and> ch \<noteq> CHR ''='' \<and> ch \<noteq> DQ \<and> ch \<noteq> NUL \<and> \<not> is_crlf_char ch"
  by (auto simp: upper_id_def less_eq_char_def is_crlf_char_def)

lemma session_id_of_cookies:
  assumes "list_all (\<lambda>l. \<not> names_field ''Cookie:'' l) pre" "cookies_ok before rest" "upper_id sid"
  shows "get_session_id_from_cookies (header_block (pre @ session_cookie_line before sid rest # post)) = Some (True, sid)"
proof -
  let ?v = "before @ COOKIE_SESSION @ CHR ''='' # sid @ rest"
  let ?h = "header_block (pre @ (''Cookie:'' @ replicate 1 SP @ ?v) # post)"
  have "line_ok sid"
    using upper_id_chars [OF assms(3)] upper_id_fits [OF assms(3)] by (auto simp: line_ok_def fits_def)
  moreover have "line_ok (COOKIE_SESSION @ ''='')" by (simp add: line_ok_def is_crlf_char_def)
  ultimately have ok: "line_ok ?v"
    using assms(2) line_ok_append [of "COOKIE_SESSION @ ''=''" "sid @ rest"]
    by (simp add: cookies_ok_def line_ok_append)
  have start: "?v = [] \<or> hd ?v \<noteq> SP \<and> hd ?v \<noteq> DQ"
    using assms(2) by (cases before) (simp_all add: cookies_ok_def)
  have "header_value ?h ''Cookie:'' = Some ?v"
    by (rule header_value_found [THEN conjunct1, OF _ assms(1) refl ok start]) (simp add: field_name_ok_def)
  then obtain p n where f: "http_req_header_get_field ?h ''Cookie:'' = Some (p, n)" "take n p = ?v"
    by (auto simp: header_value_def)
  have "n \<le> length p" using get_field_len [OF f(1)] by simp
  from get_cookie_value [OF f(2) this, of SESSION_ID_SIZE] assms(2) upper_id_chars [OF assms(3)] upper_id_fits [OF assms(3)]
  have "get_cookie p n COOKIE_SESSION SESSION_ID_SIZE = Some (True, sid)"
    by (auto simp: cookies_ok_def fits_def)
  with f(1) show ?thesis by (simp add: get_session_id_from_cookies_def session_cookie_line_def)
qed

section \<open>The challenge\<close>

lemma split_at_first:
  "ch \<notin> set xs \<Longrightarrow> ch \<notin> set ys \<Longrightarrow> xs @ ch # a = ys @ ch # b \<Longrightarrow> xs = ys \<and> a = b"
proof (induction xs arbitrary: ys)
  case Nil
  then show ?case by (cases ys) auto
next
  case (Cons x xs)
  then show ?case by (cases ys) auto
qed

lemma www_ruuvi_text_inject:
  assumes "www_ruuvi_text h l = www_ruuvi_text h l'"
    and "DQ \<notin> set (ls_challenge l)" "DQ \<notin> set (ls_challenge l')" "DQ \<notin> set (ls_session_id l)" "DQ \<notin> set (ls_session_id l')"
  shows "ls_challenge l' = ls_challenge l \<and> ls_session_id l' = ls_session_id l"
proof -
  have "ls_challenge l @ DQ # '' session_cookie='' @ quoted ''RUUVISESSION'' @ '' session_id='' @ quoted (ls_session_id l) @ crlf
      @ ''Set-Cookie: RUUVISESSION='' @ ls_session_id l @ crlf
    = ls_challenge l' @ DQ # '' session_cookie='' @ quoted ''RUUVISESSION'' @ '' session_id='' @ quoted (ls_session_id l') @ crlf
      @ ''Set-Cookie: RUUVISESSION='' @ ls_session_id l' @ crlf"
    using assms(1) by (simp add: www_ruuvi_text_def quoted_def)
  note split = split_at_first [OF assms(2,3) this]
  from split [THEN conjunct2] have t: "ls_session_id l @ DQ # crlf @ ''Set-Cookie: RUUVISESSION='' @ ls_session_id l @ crlf
      = ls_session_id l' @ DQ # crlf @ ''Set-Cookie: RUUVISESSION='' @ ls_session_id l' @ crlf"
    by (simp add: quoted_def)
  from t have "ls_session_id l = ls_session_id l'"
    using split_at_first [OF assms(4,5)] by blast
  with split show ?thesis by simp
qed

lemma get_auth_challenge:
  assumes "param_ok prm w" "ap_from_lan prm" "auth_ty w \<in> {AUTH_RUUVI, AUTH_DEFAULT}" "\<not> ruuvi_grants e prm w"
  shows "handle_req_get_auth e prm w =
    Some (resp_401_auth_ruuvi_with_new_session_id e (ap_remote_ip prm) (ap_host prm) (auth_ty w) None w)"
proof -
  obtain ok sid where sid: "get_session_id_from_cookies (ap_header prm) = Some (ok, sid)"
    using session_id_read [OF assms(1)] by blast
  have "auth_type (ap_info prm) = auth_ty w" using assms(1) by (simp add: param_ok_def auth_ty_def)
  with assms(2-4) sid show ?thesis
    by (cases ok; cases "resp_401_auth_ruuvi_with_new_session_id e (ap_remote_ip prm) (ap_host prm) (auth_ty w) None w")
      (auto simp: handle_req_get_auth_def get_or_check_auth_def auth_by_type_def get_auth_ruuvi_def ruuvi_grants_def
        Let_def case_prod_beta)
qed

definition plain :: "req_param \<Rightarrow> bool" where
  \<comment> \<open>no part in the key exchange, and a body that is accepted without encryption\<close>
  "plain q \<longleftrightarrow> http_req_header_get_field (v_header (rp_req q)) ''Ruuvi-Ecdh-Pub-Key:'' = None \<and> \<not> flag_encrypted q
     \<and> length (v_body (rp_req q)) \<le> HTTP_SERVER_MAX_UNENCRYPTED_CONTENT_SIZE"

lemma login_page_challenge:
  assumes "req_ready e c a q s" "interactive s" "rp_lan q" "plain q" "v_cmd (rp_req q) = ''GET''" "v_uri (rp_req q) = ''/auth''"
    and "\<not> ruuvi_grants e (auth_param_of a q False) (sv_web s)" "handle_req e c a q s = Some (r, s')"
  shows "resp_code r = 401"
    and "\<exists>l. login_session (get_ruuvi e (sv_web s')) = l \<and> w_extra (sv_web s') = www_ruuvi_text (app_host a) l
      \<and> upper_id (ls_session_id l) \<and> is_hex (ls_challenge l) \<and> ls_remote_ip l = rp_remote_ip q"
proof -
  let ?w = "(sv_web s)\<lparr>w_extra := []\<rparr>" and ?prm = "auth_param_of a q False"
  have ty: "auth_ty (sv_web s) \<in> {AUTH_RUUVI, AUTH_DEFAULT}"
    using assms(2) by (simp add: interactive_def server_info_def auth_ty_def)
  have ready: "env_doc e" "web_wf ?w" "param_ok ?prm ?w" "host_ok (app_host a)" "fits STA_IP_STRING_SIZE (rp_remote_ip q)"
    using assms(1) by (auto simp: req_ready_def param_ok_def auth_param_of_def web_wf_def EXTRA_HEADER_FIELDS_SIZE_def)
  have "\<not> ruuvi_grants e ?prm ?w" using assms(7) by (simp add: ruuvi_grants_def get_ruuvi_def)
  from get_auth_challenge [OF ready(3) _ _ this] ty assms(3)
  have "handle_req_get_auth e ?prm ?w =
      Some (resp_401_auth_ruuvi_with_new_session_id e (rp_remote_ip q) (app_host a) (auth_ty ?w) None ?w)"
    by (simp add: auth_param_of_def auth_ty_def)
  with assms(4-6,8) have answer: "(r, sv_web s') = resp_401_auth_ruuvi_with_new_session_id e (rp_remote_ip q) (app_host a) (auth_ty ?w) None ?w"
    by (cases "resp_401_auth_ruuvi_with_new_session_id e (rp_remote_ip q) (app_host a) (auth_ty ?w) None ?w")
      (auto simp: handle_req_def handle_req_get_with_ecdh_key_def handle_req_get_def on_web_def req_path_def plain_def Let_def)
  have "ruuvi_type (auth_ty ?w)" using ty by (auto simp: ruuvi_type_def auth_ty_def)
  from new_login_challenge [OF ready(1,4,2) this ready(5), of "auth_ty ?w" None] answer
  show "resp_code r = 401"
    "\<exists>l. login_session (get_ruuvi e (sv_web s')) = l \<and> w_extra (sv_web s') = www_ruuvi_text (app_host a) l
      \<and> upper_id (ls_session_id l) \<and> is_hex (ls_challenge l) \<and> ls_remote_ip l = rp_remote_ip q"
    by auto
qed

section \<open>The answer to the challenge\<close>

definition knows_password :: "env \<Rightarrow> auth_info \<Rightarrow> cstr \<Rightarrow> cstr \<Rightarrow> bool" where
  \<comment> \<open>the body carries the name of the user and the digest of the challenge and the password\<close>
  "knows_password e info challenge body \<longleftrightarrow> auth_user info \<noteq> [] \<and> fits AUTH_USER_SIZE (auth_user info)
     \<and> (\<exists>root h. cjson_parse e body = Some root \<and> root ''login'' = Some (Some (auth_user info))
          \<and> root ''password'' = Some (Some h) \<and> fits AUTH_PASS_SIZE h
          \<and> gen_hashed_password e challenge (auth_pass info) = Some h)"

definition sends_session :: "req_param \<Rightarrow> cstr \<Rightarrow> bool" where
  "sends_session q sid \<longleftrightarrow> (\<exists>pre before rest post. v_header (rp_req q) = header_block (pre @ session_cookie_line before sid rest # post)
     \<and> list_all (\<lambda>l. \<not> names_field ''Cookie:'' l) pre \<and> cookies_ok before rest)"

lemma session_sent: "sends_session q sid \<Longrightarrow> upper_id sid \<Longrightarrow> get_session_id_from_cookies (v_header (rp_req q)) = Some (True, sid)"
  unfolding sends_session_def using session_id_of_cookies by metis

lemma fits_cut: "fits n t \<Longrightarrow> snprintf_s n t = t"
  by (auto simp: fits_def snprintf_s_def)

lemma handle_plain_post:
  "v_cmd (rp_req q) = ''POST'' \<Longrightarrow> plain q \<Longrightarrow>
    handle_req e c a q s = handle_req_post e a (req_path q) q (v_body (rp_req q)) (s\<lparr>sv_web := (sv_web s)\<lparr>w_extra := []\<rparr>\<rparr>)"
  by (simp add: handle_req_def handle_req_post_with_ecdh_key_def plain_def Let_def)

lemma req_ready_later:
  assumes "req_ready e c a q s" "web_wf (sv_web s')" "server_info s' = server_info s"
  shows "req_ready e c a q s'"
  using assms by (simp add: req_ready_def param_ok_def server_info_def)

lemma login_answered:
  assumes "req_ready e c a q s" "interactive s" "rp_lan q" "plain q" "v_cmd (rp_req q) = ''POST''" "v_uri (rp_req q) = ''/auth''"
    and memory: "\<forall>k. alloc_ok e k"
    and l: "login_session (get_ruuvi e (sv_web s)) = l" "upper_id (ls_session_id l)" "ls_remote_ip l = rp_remote_ip q"
    and client: "sends_session q (ls_session_id l)" "knows_password e (server_info s) (ls_challenge l) (v_body (rp_req q))"
  shows "\<exists>r s'. handle_req e c a q s = Some (r, s') \<and> resp_code r = 200
    \<and> \<lparr>as_session_id = ls_session_id l, as_remote_ip = rp_remote_ip q\<rparr> \<in> sessions_of e s'"
proof -
  let ?w = "(sv_web s)\<lparr>w_extra := []\<rparr>" and ?h = "v_header (rp_req q)" and ?ip = "rp_remote_ip q"
  have ty: "auth_ty ?w \<in> {AUTH_RUUVI, AUTH_DEFAULT}"
    using assms(2) by (simp add: interactive_def server_info_def auth_ty_def)
  have info: "rp_info q = server_info s" using assms(1) by (simp add: req_ready_def param_ok_def auth_param_of_def server_info_def)
  have ready: "env_doc e" "web_wf ?w" "host_ok (app_host a)" "nul_free ?h" "length ?h < 2 ^ 31" "fits STA_IP_STRING_SIZE ?ip"
    "rp_info q = g_auth_info (w_auth ?w)"
    using assms(1) by (auto simp: req_ready_def param_ok_def auth_param_of_def web_wf_def EXTRA_HEADER_FIELDS_SIZE_def)
  have r: "get_ruuvi e ?w = get_ruuvi e (sv_web s)" by (simp add: get_ruuvi_def)
  have sid: "get_session_id_from_cookies ?h = Some (True, ls_session_id l)" "ls_session_id l \<noteq> []"
    using session_sent [OF client(1) l(2)] upper_id_fits [OF l(2)] by simp_all
  have "login_session_grants l (ls_session_id l) ?ip" using sid(2) l(3) by (simp add: login_session_grants_def)
  moreover have "login_body_grants e (v_body (rp_req q)) (rp_info q) l"
    using client(2) unfolding info knows_password_def login_body_grants_def by (metis fits_cut)
  ultimately have grants: "login_grants e ?h ?ip (v_body (rp_req q)) (rp_info q) ?w"
    using sid(1) l(1) r by (auto simp: login_grants_def)
  from post_auth_lan [OF ready ty, of "v_body (rp_req q)"] memory grants obtain rr w' where
    w': "handle_req_post_auth e True ?h ?ip (v_body (rp_req q)) (rp_info q) (app_host a) ?w = Some (rr, w')" "resp_code rr = 200"
    "g_auth_info (w_auth w') = g_auth_info (w_auth ?w)"
    "\<exists>sid'. get_session_id_from_cookies ?h = Some (True, sid') \<and> authorized_sessions (get_ruuvi e w') = take MAX_NUM_SESSIONS
        (\<lparr>as_session_id = sid', as_remote_ip = ?ip\<rparr> # authorized_sessions (get_ruuvi e ?w))"
    by auto
  have "handle_req e c a q s = Some (rr, s\<lparr>sv_web := w'\<rparr>)"
    using w'(1) assms(3-6) by (simp add: handle_plain_post handle_req_post_def req_path_def on_web_def)
  moreover have "\<lparr>as_session_id = ls_session_id l, as_remote_ip = ?ip\<rparr> \<in> sessions_of e (s\<lparr>sv_web := w'\<rparr>)"
    using w'(4) sid by (auto simp: sessions_of_def MAX_NUM_SESSIONS_def)
  ultimately show ?thesis using w'(2) by blast
qed

section \<open>After the login\<close>

lemma session_let_in:
  assumes "req_ready e c a q s" "interactive s" "\<not> bearer_used (v_header (rp_req q))"
    and "upper_id sid" "sends_session q sid" "\<lparr>as_session_id = sid, as_remote_ip = rp_remote_ip q\<rparr> \<in> sessions_of e s"
  shows "\<exists>r b w'. handle_req_check_auth e (auth_param_of a q rw) ((sv_web s)\<lparr>w_extra := []\<rparr>) = Some (r, b, w') \<and> resp_code r = 200"
proof -
  let ?w = "(sv_web s)\<lparr>w_extra := []\<rparr>" and ?prm = "auth_param_of a q rw"
  have ready: "env_doc e" "web_wf ?w" "param_ok ?prm ?w"
    using assms(1) by (auto simp: req_ready_def param_ok_def auth_param_of_def web_wf_def EXTRA_HEADER_FIELDS_SIZE_def)
  have "find_authorized_session (get_ruuvi e ?w) sid (rp_remote_ip q) \<noteq> None"
    using assms(6) find_idx_None [of "session_matches sid (rp_remote_ip q)"]
    by (force simp: find_authorized_session_def sessions_of_def session_matches_def get_ruuvi_def)
  then have "ruuvi_grants e ?prm ?w"
    using session_sent [OF assms(5,4)] by (simp add: ruuvi_grants_def auth_param_of_def)
  moreover have "auth_type (ap_info ?prm) \<in> {AUTH_RUUVI, AUTH_DEFAULT}"
    using assms(1,2) by (simp add: req_ready_def param_ok_def auth_param_of_def interactive_def server_info_def)
  ultimately have "granted e ?prm ?w"
    using assms(3) by (auto simp: granted_def type_grants_def auth_param_of_def)
  with check_auth_spec [OF ready] show ?thesis by (auto simp: passes_def)
qed

lemma post_let_in:
  assumes "req_ready e c a q s" "interactive s" "rp_lan q" "\<not> bearer_used (v_header (rp_req q))" "plain q" "v_cmd (rp_req q) = ''POST''"
    and "req_path q \<notin> {''auth'', ''connect.json'', ''connect_wps''}"
    and "upper_id sid" "sends_session q sid" "\<lparr>as_session_id = sid, as_remote_ip = rp_remote_ip q\<rparr> \<in> sessions_of e s"
  shows "\<exists>s'. handle_req e c a q s =
      Some (app_cb_post a (req_path q) (v_uri_params (rp_req q)) (v_body (rp_req q)) True, s')
    \<and> sv_acts s' = sv_acts s @ [CbPost (req_path q) (v_uri_params (rp_req q)) (v_body (rp_req q)) True]"
proof -
  obtain r b w' where "handle_req_check_auth e (auth_param_of a q True) ((sv_web s)\<lparr>w_extra := []\<rparr>) = Some (r, b, w')"
    "resp_code r = 200"
    using session_let_in [OF assms(1,2,4,8-10)] by blast
  with assms(3,5-7) show ?thesis
    by (simp add: handle_plain_post handle_req_post_def gated_def act_def)
qed

section \<open>Properties\<close>

text \<open>
  C29: The cookie of the session is read back from every request that carries it, whatever
  other header fields and cookies there are, as long as none of them contains its name.
\<close>

theorem session_cookie_roundtrip:
  assumes "list_all (\<lambda>l. \<not> names_field ''Cookie:'' l) pre" "cookies_ok before rest" "upper_id sid"
  shows "get_session_id_from_cookies (header_block (pre @ session_cookie_line before sid rest # post)) = Some (True, sid)"
  by (rule session_id_of_cookies [OF assms])

text \<open>
  C2: A client that knows the password gets in: asking for /auth from the LAN it is refused with a
  challenge and a session id in the header of the answer; however it reads the two from that
  header, its login with the cookie of that session and the digest of the challenge and the password is
  accepted, and its next POST with that cookie reaches the application unchanged.
\<close>

theorem client_with_password_gets_in:
  assumes "interactive s" "\<forall>k. alloc_ok e k"
    and ask: "req_ready e c a q1 s" "rp_lan q1" "plain q1" "v_cmd (rp_req q1) = ''GET''" "v_uri (rp_req q1) = ''/auth''"
      "\<not> ruuvi_grants e (auth_param_of a q1 False) (sv_web s)" "handle_req e c a q1 s = Some (r1, s1)"
    and read: "w_extra (sv_web s1) = www_ruuvi_text (app_host a) l" "DQ \<notin> set (ls_challenge l)" "DQ \<notin> set (ls_session_id l)"
    and answer: "req_ready e c a q2 s" "rp_lan q2" "plain q2" "v_cmd (rp_req q2) = ''POST''" "v_uri (rp_req q2) = ''/auth''"
      "rp_remote_ip q2 = rp_remote_ip q1" "sends_session q2 (ls_session_id l)"
      "knows_password e (server_info s) (ls_challenge l) (v_body (rp_req q2))"
    and use: "req_ready e c a q3 s" "rp_lan q3" "plain q3" "v_cmd (rp_req q3) = ''POST''"
      "req_path q3 \<notin> {''auth'', ''connect.json'', ''connect_wps''}" "\<not> bearer_used (v_header (rp_req q3))"
      "rp_remote_ip q3 = rp_remote_ip q1" "sends_session q3 (ls_session_id l)"
  shows "resp_code r1 = 401 \<and> (\<exists>r2 s2 s3. handle_req e c a q2 s1 = Some (r2, s2) \<and> resp_code r2 = 200
    \<and> handle_req e c a q3 s2 =
        Some (app_cb_post a (req_path q3) (v_uri_params (rp_req q3)) (v_body (rp_req q3)) True, s3)
    \<and> sv_acts s3 = sv_acts s2 @ [CbPost (req_path q3) (v_uri_params (rp_req q3)) (v_body (rp_req q3)) True])"
proof -
  note step1 = request_step(1,2) [OF ask(1,7)]
  have same: "interactive s'" if "server_info s' = server_info s" for s'
    using assms(1) that by (simp add: interactive_def)
  obtain l0 where l0: "login_session (get_ruuvi e (sv_web s1)) = l0" "w_extra (sv_web s1) = www_ruuvi_text (app_host a) l0"
    "upper_id (ls_session_id l0)" "is_hex (ls_challenge l0)" "ls_remote_ip l0 = rp_remote_ip q1"
    using login_page_challenge(2) [OF ask(1) assms(1) ask(2-7)] by blast
  have "DQ \<notin> set (ls_challenge l0)" "DQ \<notin> set (ls_session_id l0)"
    using l0(4) upper_id_chars [OF l0(3)] by (auto simp: is_hex_def less_eq_char_def)
  from www_ruuvi_text_inject [OF read(1) [unfolded l0(2)] this(1) read(2) this(2) read(3)]
  have l: "ls_challenge l = ls_challenge l0" "ls_session_id l = ls_session_id l0" by simp_all
  note ready2 = req_ready_later [OF answer(1) step1]
  obtain r2 s2 where s2: "handle_req e c a q2 s1 = Some (r2, s2)" "resp_code r2 = 200"
    "\<lparr>as_session_id = ls_session_id l, as_remote_ip = rp_remote_ip q1\<rparr> \<in> sessions_of e s2"
    using login_answered [OF ready2 same [OF step1(2)] answer(2-5) assms(2) l0(1,3)] l0(5) answer(6-8) l step1(2) by auto
  note step2 = request_step(1,2) [OF ready2 s2(1)]
  have info2: "server_info s2 = server_info s" using step1(2) step2(2) by simp
  have "upper_id (ls_session_id l)" using l0(3) l(2) by simp
  from post_let_in [OF req_ready_later [OF use(1) step2(1) info2] same [OF info2] use(2,6,3-5) this use(8)] s2(3) use(7)
  show ?thesis using login_page_challenge(1) [OF ask(1) assms(1) ask(2-7)] s2(1,2) by auto
qed

section \<open>Witnesses\<close>

lemma session_cookie_roundtrip_witness:
  "get_session_id_from_cookies (header_block ([''Host: gw''] @
      session_cookie_line ''RUUVI_PREV_URL=/x; '' ''GHIJKLMNOPQRSTUV'' ''; lang=en'' # [''Accept: text/html'']))
    = Some (True, ''GHIJKLMNOPQRSTUV'')"
proof (rule session_cookie_roundtrip)
  show "list_all (\<lambda>l. \<not> names_field ''Cookie:'' l) [''Host: gw'']"
    by (simp add: names_field_def strcasestr_idx_def to_lower_def less_eq_char_def)
  show "cookies_ok ''RUUVI_PREV_URL=/x; '' ''; lang=en''"
    by (simp add: cookies_ok_def cookie_first_def line_ok_def is_crlf_char_def)
  show "upper_id ''GHIJKLMNOPQRSTUV''" by (simp add: upper_id_def SESSION_ID_SIZE_def less_eq_char_def)
qed

text \<open>The client of \<open>Sessions\<close>.\<close>

definition demo_challenge :: login_session where
  "demo_challenge = login_session (get_ruuvi env1 (sv_web (after demo_get demo_setup)))"

lemma demo_challenge_read:
  "w_extra (sv_web (after demo_get demo_setup)) = www_ruuvi_text (app_host app0) demo_challenge"
  "ls_session_id demo_challenge = ''GHIJKLMNOPQRSTUV''"
  "DQ \<notin> set (ls_challenge demo_challenge)"
  by code_simp+

lemma demo_password:
  "knows_password env1 (server_info demo_setup) (ls_challenge demo_challenge) ''{}''"
proof -
  have "server_info demo_setup = g_auth_info (w_auth web1)"
    by (simp add: demo_setup_def server_info_def server_set_auth_def server_init_def web1_def set_auth_eq
        opt_str_def auth_state_init_def AUTH_USER_SIZE_def AUTH_PASS_SIZE_def snprintf_s_def)
  then have "auth_user (server_info demo_setup) = ''Admin''" by (simp add: web1_def)
  moreover have "gen_hashed_password env1 (ls_challenge demo_challenge) p = Some (concat (replicate 32 ''41''))" for p
  proof -
    have "wifiman_sha256_hex_str env1 (replicate 32 CHR ''A'') = concat (replicate 32 ''41'')" by code_simp
    then show ?thesis by (simp add: gen_hashed_password_def env1_def env0_def)
  qed
  moreover have "cjson_parse env1 ''{}'' = Some (\<lambda>n. if n = ''login'' then Some (Some ''Admin'')
     else if n = ''password'' then Some (Some (concat (replicate 32 ''41''))) else None)" by (simp add: env1_def)
  moreover have "fits AUTH_USER_SIZE ''Admin''" "fits AUTH_PASS_SIZE (concat (replicate 32 ''41''))" by code_simp+
  ultimately show ?thesis unfolding knows_password_def by simp
qed

lemma demo_plain: "plain demo_get" "plain demo_login" "plain demo_post"
  by code_simp+

lemma demo_sends: "sends_session demo_login ''GHIJKLMNOPQRSTUV''" "sends_session demo_post ''GHIJKLMNOPQRSTUV''"
proof -
  have "demo_cookie = header_block ([] @ session_cookie_line [] ''GHIJKLMNOPQRSTUV'' [] # [])"
    by (simp add: demo_cookie_def header_block_def session_cookie_line_def crlf_def)
  moreover have "cookies_ok [] []" by (simp add: cookies_ok_def line_ok_def cookie_first_def strstr_idx_prefix)
  ultimately have "sends_session q ''GHIJKLMNOPQRSTUV''" if "v_header (rp_req q) = demo_cookie" for q
    unfolding sends_session_def that by (intro exI [of _ "[]"]) simp
  then show "sends_session demo_login ''GHIJKLMNOPQRSTUV''" "sends_session demo_post ''GHIJKLMNOPQRSTUV''"
    by (simp_all add: demo_login_def demo_post_def request_def)
qed

lemma client_with_password_gets_in_witness:
  "resp_code (answer_of demo_get demo_setup) = 401 \<and> (\<exists>r2 s2 s3.
      handle_req env1 crypto0 app0 demo_login (after demo_get demo_setup) = Some (r2, s2) \<and> resp_code r2 = 200
    \<and> handle_req env1 crypto0 app0 demo_post s2 = Some (app_cb_post app0 (req_path demo_post) (v_uri_params (rp_req demo_post))
        (v_body (rp_req demo_post)) True, s3)
    \<and> sv_acts s3 = sv_acts s2 @ [CbPost (req_path demo_post) (v_uri_params (rp_req demo_post)) (v_body (rp_req demo_post)) True])"
proof -
  have run: "server_run env1 crypto0 ([] @ [SetAuth AUTH_RUUVI (Some ''Admin'') (Some ''pw'') None None]) demo_setup"
    unfolding demo_setup_def by (rule server_run.set_auth [OF server_run.start]) (simp_all add: opt_str_def)
  note ready = demo_ready [OF run refl]
  have params: "rp_remote_ip demo_get = ''10.10.0.2''" "rp_remote_ip demo_login = ''10.10.0.2''" "rp_remote_ip demo_post = ''10.10.0.2''"
    "rp_lan demo_get" "rp_lan demo_login" "rp_lan demo_post" "v_body (rp_req demo_login) = ''{}''"
    "v_cmd (rp_req demo_get) = ''GET''" "v_uri (rp_req demo_get) = ''/auth''"
    "v_cmd (rp_req demo_login) = ''POST''" "v_uri (rp_req demo_login) = ''/auth''"
    "v_cmd (rp_req demo_post) = ''POST''" "req_path demo_post = ''data''"
    by (simp_all add: demo_get_def demo_login_def demo_post_def request_def req_path_def)
  have "auth_type (server_info demo_setup) = AUTH_RUUVI" by (simp add: demo_setup_def server_info_set_auth)
  then have i: "interactive demo_setup" by (simp add: interactive_def)
  have mem: "\<forall>k. alloc_ok env1 k" by (simp add: env1_def env0_def)
  have g: "\<not> ruuvi_grants env1 (auth_param_of app0 demo_get False) (sv_web demo_setup)"
    by (simp add: ruuvi_grants_def auth_param_of_def demo_get_def request_def other_header_facts)
  have b: "\<not> bearer_used (v_header (rp_req demo_post))"
  proof -
    have "header_value demo_cookie ''Authorization:'' = None" by code_simp
    then show ?thesis by (simp add: bearer_used_def demo_post_def request_def)
  qed
  have "handle_req env1 crypto0 app0 demo_get demo_setup = Some (answer_of demo_get demo_setup, after demo_get demo_setup)"
    by (rule demo_step [OF run refl]) simp
  from client_with_password_gets_in [OF i mem ready _ demo_plain(1) _ _ g this demo_challenge_read(1,3) _ ready _ demo_plain(2) _ _ _ _ _
      ready _ demo_plain(3) _ _ b]
  show ?thesis
    using params demo_password demo_sends demo_challenge_read(2) by simp
qed

end
