(* ===== verification/Pages.thy ===== *)
theory Pages
  imports HandleReq WifiProps
begin

text \<open>
  The two pages of data, /status.json and /ap.json, from the state of the manager to what the
  client reads: \<open>http_server_gen_resp_status_json\<close> of \<^verbatim>\<open>src/http_server_handle_req.c\<close> with the record of
  \<open>NetInfo\<close>, and the result of a scan (\<open>WifiMgr\<close>) with the list of \<open>ApList\<close>. The dispatch
  takes both texts as parameters of the application (\<open>app_status_json\<close>, \<open>app_scan_json\<close>); here they are
  the ones the program computes.
\<close>

section \<open>Model\<close>

definition gen_resp_status_json :: "'s strbuf \<Rightarrow> bool \<Rightarrow> net_info option \<Rightarrow> http_resp" where
  \<comment> \<open>the record, \<open>None\<close> when its mutex was not obtained in time\<close>
  "gen_resp_status_json B is_signed p_info =
     (case p_info of
        None \<Rightarrow> resp_err 503
      | Some info \<Rightarrow> resp_200_json (sb_text B (json_network_info_generate B is_signed info)))"

definition status_page :: "'s strbuf \<Rightarrow> bool \<Rightarrow> net_info option \<Rightarrow> app \<Rightarrow> app" where
  "status_page B is_signed p_info a =
     a\<lparr>app_status_json := map_option (\<lambda>info. sb_text B (json_network_info_generate B is_signed info)) p_info\<rparr>"

definition scan_page :: "'s strbuf \<Rightarrow> bool \<Rightarrow> wm \<Rightarrow> app \<Rightarrow> app" where
  \<comment> \<open>\<open>wifi_manager_scan_sync\<close> returns with the manager in this state\<close>
  "scan_page B is_signed m a = a\<lparr>app_scan_json := map_option (sb_text B) (scan_sync_result B is_signed m)\<rparr>"

section \<open>Lemmas\<close>

lemma ap_side_get:
  assumes "\<not> rp_lan q" "v_cmd (rp_req q) = ''GET''" "http_req_header_get_field (v_header (rp_req q)) ''Ruuvi-Ecdh-Pub-Key:'' = None"
    and "req_path q \<in> {''ap.json'', ''status.json''}"
  shows "\<exists>s1. handle_req e c a q s = Some (get_content a (req_path q) q s1) \<and> sv_acts s1 = sv_acts s
    \<and> w_auth (sv_web s1) = w_auth (sv_web s)"
proof -
  let ?w = "(sv_web s)\<lparr>w_extra := []\<rparr>" and ?f = "req_path q"
  have "\<not> ap_from_lan (auth_param_of a q (?f = ''ap.json''))" using assms(1) by (simp add: auth_param_of_def)
  from check_auth_ap_side [OF this, of e ?w] obtain json where
    "handle_req_check_auth e (auth_param_of a q (?f = ''ap.json'')) ?w = Some (resp_200_json json, False, ?w\<lparr>w_auth_json := json\<rparr>)"
    by blast
  moreover have "resp_code (resp_200_json json) = 200"
    by (simp add: resp_200_json_def resp_data_in_static_mem_def)
  moreover have "get_needs_auth ?f" using assms(4) by (elim insertE emptyE) (simp_all, code_simp+)
  moreover have "?f \<noteq> []" "?f \<noteq> ''auth''" using assms(4) by auto
  ultimately show ?thesis using assms(2,3)
    by (simp add: handle_req_def handle_req_get_with_ecdh_key_def handle_req_get_def get_check_auth_def Let_def case_prod_beta)
      (rule exI, rule conjI, rule refl, simp)
qed

lemma scan_done_list:
  assumes "d_records d (wm_log m) = Some recs"
    and "ap_list_filter_unique (take MAX_AP_NUM (wm_aps m) @ take MAX_AP_NUM recs
      @ drop (MAX_AP_NUM + length (take MAX_AP_NUM recs)) (wm_aps m)) = (ys, n)"
  shows "wm_aps (handle_ev_scan_done d m) = ap_list_sort_by_rssi (d_qsort d) ys n" "wm_ap_num (handle_ev_scan_done d m) = n"
  using assms
  by (simp_all add: handle_ev_scan_done_def wifi_scan_next_def scan_timer_start_def notify_scan_done_def clear_bits_def log_def Let_def)

section \<open>What the pages are to show\<close>

definition status_shown :: "net_info \<Rightarrow> cstr \<Rightarrow> bool" where
  \<comment> \<open>the document of the record, from which the name of the network is read back\<close>
  "status_shown p text \<longleftrightarrow> text = status_text p
     \<and> (ni_reason p \<noteq> UPDATE_CONNECTION_UNDEF \<and> \<not> ni_is_ssid_null p \<longrightarrow>
          (\<exists>r. read_json_string (drop (length (''{'' @ quoted ''ssid'' @ '':'')) text) = Some (ni_ssid p, r)))"

definition status_fits :: "net_info \<Rightarrow> bool" where
  "status_fits p \<longleftrightarrow> net_info_ok p \<and> length (ssid_text p) + length (ni_extra p) \<le> 103"

definition networks_of :: "ap list \<Rightarrow> ap list \<Rightarrow> bool" where
  \<comment> \<open>each name and kind found once, with its best signal, strongest first\<close>
  "networks_of found zs \<longleftrightarrow> distinct (map ap_key zs) \<and> ap_key ` set zs = ap_key ` set (named found)
     \<and> sorted_wrt (\<lambda>a b. ap_rssi b \<le> ap_rssi a) zs
     \<and> (\<forall>z\<in>set zs. \<exists>a\<in>set (named found). z = a\<lparr>ap_rssi := Max (ap_rssi ` {b \<in> set found. ap_key b = ap_key a})\<rparr>)"

definition known_and_new :: "wm \<Rightarrow> ap list \<Rightarrow> ap list" where
  \<comment> \<open>the records of the earlier channels and of this one\<close>
  "known_and_new m recs = take MAX_AP_NUM (wm_aps m) @ take MAX_AP_NUM recs
     @ drop (MAX_AP_NUM + length (take MAX_AP_NUM recs)) (wm_aps m)"

lemma status_content:
  assumes "strbuf_doc B" "status_fits p"
  shows "\<exists>text. gen_resp_status_json B False (Some p) = resp_200_json text \<and> status_shown p text"
proof -
  let ?t = "sb_text B (json_network_info_generate B False p)"
  have "?t = status_text p"
    "ni_reason p \<noteq> UPDATE_CONNECTION_UNDEF \<and> \<not> ni_is_ssid_null p \<longrightarrow>
      (\<exists>r. read_json_string (drop (length (''{'' @ quoted ''ssid'' @ '':'')) ?t) = Some (ni_ssid p, r))"
    using status_json_text [OF assms(1)] assms(2) unfolding status_fits_def by blast+
  then have "status_shown p ?t" unfolding status_shown_def by blast
  then show ?thesis by (intro exI [of _ ?t]) (simp add: gen_resp_status_json_def)
qed

lemma networks_after_scan:
  assumes "strbuf_doc B" "qsort_doc (d_qsort d)" "d_records d (wm_log m) = Some recs"
    and "scan_sync_result B False (handle_ev_scan_done d m) = Some b"
  shows "\<exists>zs. read_document 30 (sb_text B b) = Some (map ap_view (take 30 zs)) \<and> networks_of (known_and_new m recs) zs"
proof -
  obtain ys n where yn: "ap_list_filter_unique (known_and_new m recs) = (ys, n)" by (metis prod.exhaust)
  note list = scan_done_list [OF assms(3) yn [unfolded known_and_new_def]]
  have "json_access_points_generate B False (ap_list_sort_by_rssi (d_qsort d) ys n) n = Some b"
    using assms(4) list by (simp add: scan_sync_result_def generate_access_points_json_def)
  from access_points_json_read [OF assms(1) this] scan_list_merged [OF assms(2) yn] show ?thesis
    unfolding networks_of_def by (intro exI [of _ "take n (ap_list_sort_by_rssi (d_qsort d) ys n)"]) (simp add: min.commute)
qed

section \<open>Properties\<close>

text \<open>
  C30: The status page shows the status: a client of the access point that asks for /status.json gets
  the JSON of the record as it is, from which it reads back the name of the network, whatever bytes
  that has, as long as name and extra text fit; without the mutex it gets 503.
\<close>

theorem status_page_shows_record:
  assumes "\<not> rp_lan q" "v_cmd (rp_req q) = ''GET''" "req_path q = ''status.json''"
    and "http_req_header_get_field (v_header (rp_req q)) ''Ruuvi-Ecdh-Pub-Key:'' = None" "strbuf_doc B"
  shows "\<exists>r s'. handle_req e c (status_page B False p_info a) q s = Some (r, s')
    \<and> sv_acts s' = sv_acts s @ [ActStatusRequested]
    \<and> (case p_info of
         None \<Rightarrow> r = resp_err 503
       | Some p \<Rightarrow> status_fits p \<longrightarrow> (\<exists>text. r = resp_200_json text \<and> status_shown p text))"
proof -
  obtain s1 where s1: "handle_req e c (status_page B False p_info a) q s =
      Some (get_content (status_page B False p_info a) (req_path q) q s1)" "sv_acts s1 = sv_acts s"
    using ap_side_get [OF assms(1,2,4)] assms(3) by blast
  have "get_content (status_page B False p_info a) (req_path q) q s1 =
      (gen_resp_status_json B False p_info, act [ActStatusRequested] s1)"
    using assms(3) by (cases p_info) (simp_all add: get_content_def status_page_def gen_resp_status_json_def)
  moreover have "case p_info of None \<Rightarrow> gen_resp_status_json B False p_info = resp_err 503
      | Some p \<Rightarrow> status_fits p \<longrightarrow> (\<exists>text. gen_resp_status_json B False p_info = resp_200_json text \<and> status_shown p text)"
    using status_content [OF assms(5)] by (cases p_info) (simp_all add: gen_resp_status_json_def)
  ultimately show ?thesis
    using s1 by (intro exI [of _ "gen_resp_status_json B False p_info"] exI [of _ "act [ActStatusRequested] s1"]) (simp add: act_def)
qed

text \<open>
  C16: The scan page shows the scan: a client of the access point that asks for /ap.json after the
  driver has delivered the records of a channel reads from the answer the networks found, those of
  the earlier channels and those of this one: each name and kind once, with its best signal, strongest
  first, the first 30; it gets 503 only when there is no memory for the text.
\<close>

theorem scan_page_lists_networks:
  assumes "\<not> rp_lan q" "v_cmd (rp_req q) = ''GET''" "req_path q = ''ap.json''"
    and "http_req_header_get_field (v_header (rp_req q)) ''Ruuvi-Ecdh-Pub-Key:'' = None" "strbuf_doc B" "qsort_doc (d_qsort d)"
    and "d_records d (wm_log m) = Some recs"
  shows "\<exists>r s'. handle_req e c (scan_page B False (handle_ev_scan_done d m) a) q s = Some (r, s')
    \<and> sv_acts s' = sv_acts s @ [ActScan]
    \<and> (case scan_sync_result B False (handle_ev_scan_done d m) of
         None \<Rightarrow> r = resp_err 503
       | Some b \<Rightarrow> \<exists>text zs. r = resp_200_json_in_heap text \<and> read_document 30 text = Some (map ap_view (take 30 zs))
           \<and> networks_of (known_and_new m recs) zs)"
proof -
  let ?m = "handle_ev_scan_done d m" and ?a = "scan_page B False (handle_ev_scan_done d m) a"
  obtain s1 where s1: "handle_req e c ?a q s = Some (get_content ?a (req_path q) q s1)" "sv_acts s1 = sv_acts s"
    using ap_side_get [OF assms(1,2,4)] assms(3) by blast
  show ?thesis
  proof (cases "scan_sync_result B False ?m")
    case None
    with s1 assms(3) show ?thesis by (simp add: get_content_def scan_page_def act_def)
  next
    case (Some b)
    with s1 assms(3) networks_after_scan [OF assms(5-7) Some] show ?thesis
      by (simp add: get_content_def scan_page_def act_def) blast
  qed
qed

section \<open>Witnesses\<close>

definition page_get :: "cstr \<Rightarrow> req_param" where
  "page_get uri = request ''GET'' uri other_header [] False"

lemma page_get_ok:
  "\<not> rp_lan (page_get uri)" "v_cmd (rp_req (page_get uri)) = ''GET''" "req_path (page_get (CHR ''/'' # file)) = file"
  "http_req_header_get_field (v_header (rp_req (page_get uri))) ''Ruuvi-Ecdh-Pub-Key:'' = None"
proof -
  have "http_req_header_get_field other_header ''Ruuvi-Ecdh-Pub-Key:'' = None" by code_simp
  then show "http_req_header_get_field (v_header (rp_req (page_get uri))) ''Ruuvi-Ecdh-Pub-Key:'' = None"
    by (simp add: page_get_def request_def)
qed (simp_all add: page_get_def request_def req_path_def)

lemma status_page_shows_record_witness:
  "\<exists>r s' text. handle_req env0 crypto0 (status_page strbuf0 False (Some info0) app0) (page_get ''/status.json'') server1 = Some (r, s')
    \<and> sv_acts s' = sv_acts server1 @ [ActStatusRequested] \<and> r = resp_200_json text \<and> status_shown info0 text"
proof -
  have fits: "status_fits info0"
    by (simp add: status_fits_def net_info_ok_def info0_def long_info_def IP4ADDR_STRLEN_MAX_def JSON_NETWORK_EXTRA_INFO_SIZE_def
        fits_def nul_free_def ssid_text_def json_string_def json_char_def)
  from status_page_shows_record [OF page_get_ok(1-4) strbuf_doc_strbuf0, where p_info = "Some info0"] fits
  show ?thesis by fastforce
qed

definition page_driver :: driver where
  "page_driver = driver0\<lparr>d_records := \<lambda>l. Some aps0, d_qsort := sort_by\<rparr>"

definition page_wm :: wm where
  "page_wm = wm0 (Some []) {SCAN_BIT}"

lemma scan_page_lists_networks_witness:
  "\<exists>r s' text zs. handle_req env0 crypto0 (scan_page strbuf0 False (handle_ev_scan_done page_driver page_wm) app0) (page_get ''/ap.json'') server1
      = Some (r, s')
    \<and> sv_acts s' = sv_acts server1 @ [ActScan] \<and> r = resp_200_json_in_heap text
    \<and> read_document 30 text = Some (map ap_view (take 30 zs)) \<and> networks_of (known_and_new page_wm aps0) zs"
proof -
  have "scan_sync_result strbuf0 False (handle_ev_scan_done page_driver page_wm) \<noteq> None"
    by (simp add: scan_sync_result_def generate_access_points_json_def json_access_points_generate_def strbuf0_alloc del: not_None_eq)
  then obtain b where b: "scan_sync_result strbuf0 False (handle_ev_scan_done page_driver page_wm) = Some b" by blast
  have d: "qsort_doc (d_qsort page_driver)" "d_records page_driver (wm_log page_wm) = Some aps0"
    using qsort_doc_sort_by by (simp_all add: page_driver_def)
  from scan_page_lists_networks [OF page_get_ok(1-4) strbuf_doc_strbuf0 d, where e = env0 and c = crypto0 and a = app0 and s = server1] b
  show ?thesis by fastforce
qed

end
