(* ===== verification/Spec2Isabelle.thy ===== *)
theory Spec2Isabelle
  imports System Locked LazyMutex ManagerLock Digests Startup Wire LoginFlow Pages
begin

text \<open>
  A verification library of \<^verbatim>\<open>esp32-wifi-manager\<close>: the Wi-Fi manager of an ESP32, the HTTP server
  of its configuration pages and the DNS server of its captive portal. All C files lie in
  \<^verbatim>\<open>src/\<close>; file names below are relative to it.

  \<^bold>\<open>The program.\<close> Three tasks and the callbacks of the operating system. The HTTP task accepts one
  connection after the other, receives a request into a growing buffer, splits it in place,
  checks who may do what (four kinds of authentication, bearer keys, and the side the request
  comes from), lets the handler of the method act, and writes the response. The DNS task
  answers every query with the address of the access point, as long as a client is connected
  to it. The task of the manager handles the messages of a queue of three: commands of the other
  tasks, events of the driver and of timers. The tasks share the event bits, the queue, the
  configuration, the status record, the address of the station and the list of access points.

  \<^bold>\<open>Conventions.\<close> A C string is the list of its bytes before the NUL, a memory block the list of its
  bytes, and an access outside of it is the value \<open>None\<close> of the option monad, as is a wait that
  does not end by itself; which of the two is said in each theory. Integers have their width
  where they can wrap (channels of a scan, DNS counts, addresses, timestamps). Static variables are the
  fields of a record, with their C names in the comments. What is not in the repository (lwip,
  mbedtls, cJSON, \<^verbatim>\<open>str_buf\<close>, the Wi-Fi driver, FreeRTOS, the C library's \<^verbatim>\<open>qsort\<close>) is a parameter: a
  record of functions. What answers differently from call to call (the heap, random numbers, the network, the
  clock, the driver, the steps of the key agreement) gets the serial number of the call or the record of all calls before it; what
  computes (the digests over their list of updates, the cipher, base64, \<open>cJSON_Parse\<close> of a text, formatting) is a
  function of its input. What the sources rely on is a named
  predicate (\<open>env_doc\<close>, \<open>crypto_doc\<close>, \<open>strbuf_doc\<close>, \<open>qsort_doc\<close>), and each has a concrete instance
  in the witnesses. \<open>w_live\<close> counts the blocks of the web server on the heap: the buffer of the request, the extra
  header fields, the credentials and the texts of a request, and a JSON tree as one block.

  \<^bold>\<open>Theories.\<close> In the order of the calls, from the wire to the driver:

  \<^item> \<open>Prelude\<close>, \<open>CString\<close>: vocabulary, the functions of \<^verbatim>\<open>string.h\<close> on content and on raw memory.
  \<^item> \<open>HttpReq\<close> (\<^verbatim>\<open>http_req.c\<close>): splitting the request in place. It stays inside the buffer for
    every terminated one, and parsing what is printed yields its parts.
  \<^item> \<open>RecvConn\<close> (\<^verbatim>\<open>http_server_accept_and_handle_conn.c\<close>): the receive loop over a list of network
    events. It never writes outside of the buffer, fragments arrive in order, and with more
    bytes than announced the body is not terminated. \<open>RecvEnd\<close>: how the loop ends, with which buffer on the
    heap, and that a complete request without a terminated buffer had a cause, in the heap or in the client.
  \<^item> \<open>AuthTypes\<close>, \<open>AuthDigest\<close>, \<open>AuthRuuvi\<close>, \<open>HttpResp\<close>, \<open>GetAuth\<close>, \<open>PostAuth\<close>
    (\<^verbatim>\<open>http_server_auth*.c\<close>, \<^verbatim>\<open>http_server_resp.c\<close>, \<^verbatim>\<open>http_server_handle_req_*_auth.c\<close>,
    \<^verbatim>\<open>wifiman_sha256.c\<close>, \<^verbatim>\<open>wifiman_md5.c\<close>): the check of the credentials refines the access policy
    \<open>entitled\<close>, the login refines its specification, only a login adds a session, and the
    table keeps the last four.
  \<^item> \<open>Ecdh\<close>, \<open>Digests\<close> (\<^verbatim>\<open>http_server_ecdh.c\<close>, \<^verbatim>\<open>wifiman_sha256.c\<close>, \<^verbatim>\<open>wifiman_md5.c\<close>): decryption is sound
    and complete for the documented primitives, and has no result in exactly one case, a content that decodes to
    no byte (\<open>empty_secret\<close>). What base64 leaves of a block undecoded holds arbitrary bytes (\<open>fresh\<close>).
    The four functions that hash are sequences of calls into mbedtls any of which may fail; they implement the
    parameters \<open>sha256\<close>, \<open>md5\<close> and \<open>sha256_raw\<close> of the other theories.
  \<^item> \<open>HandleReq\<close> (\<^verbatim>\<open>http_server_handle_req.c\<close>): the dispatch. Its result includes the list of calls into
    the rest of the program (\<open>action\<close>); each is allowed by the policy, none of the LAN commands Wi-Fi. It has no result
    exactly for the encrypted POST with an empty content (\<open>reads_before_buffer\<close>). A session is added only by a login
    whose own body, decrypted when it is encrypted (\<open>plain_body\<close>), carries the right credentials (\<open>logged_in\<close>).
  \<^item> \<open>Sessions\<close>, \<open>LoginFlow\<close>: the runs of the server from its start, over all requests and changes of the
    credentials. Every state of a run is well formed, and who is let in by a session has logged
    in, from the same address, with the credentials that still hold; conversely a client that
    knows the password gets in, from the challenge it reads to the request it posts.
  \<^item> \<open>NetconnResp\<close>, \<open>ServeReq\<close> (\<^verbatim>\<open>http_server_netconn_resp.c\<close>,
    \<^verbatim>\<open>http_server_netconn_serve_handle_req.c\<close>): the write loop, the shape of a response, the access
    from the LAN and the captive portal, and the life of one connection.
  \<^item> \<open>Json\<close>, \<open>ApList\<close>, \<open>NetInfo\<close>, \<open>Config\<close> (\<^verbatim>\<open>json.c\<close>, \<^verbatim>\<open>access_points_list.c\<close>,
    \<^verbatim>\<open>json_access_points.c\<close>, \<^verbatim>\<open>json_network_info.c\<close>, \<^verbatim>\<open>sta_ip_unsafe.c\<close>, \<^verbatim>\<open>wifiman_config.c\<close>,
    \<^verbatim>\<open>wifiman_cfg_blob*.c\<close>, \<^verbatim>\<open>ap_ssid.c\<close>): the shared data and its texts, with reference readers for the
    JSON and a reference merge for the list of access points.
  \<^item> \<open>WifiMsg\<close>, \<open>WifiMgr\<close>, \<open>WifiTask\<close> (\<^verbatim>\<open>wifiman_msg.c\<close>, \<^verbatim>\<open>wifi_manager_handle_msg.c\<close>,
    \<^verbatim>\<open>wifi_manager.c\<close>, \<^verbatim>\<open>wifi_manager_internal.c\<close>): queue, handlers, and the step relation \<open>wm_step\<close> of
    all tasks, timers and driver events. \<open>WifiInv\<close> holds its frame rule (\<open>steps_quiet\<close>),
    \<open>WifiProps\<close> what follows for every reachable state, and the termination of a scan.
  \<^item> \<open>Dns\<close>, \<open>Tasks\<close> (\<^verbatim>\<open>dns_server.c\<close>, \<^verbatim>\<open>http_server.c\<close>, \<^verbatim>\<open>http_server_mutex.c\<close>): the bytes of query and
    answer; start, stop and signals of the two servers, and the sockets they listen on.
  \<^item> \<open>Wire\<close>: the layers from the receive loop to the HTTP task put together. Whatever the clients send
    and whatever the network does, the task serves one after the other, returns only when it
    is told to, and the state it leaves is the state of a run of \<open>Sessions\<close>; or a client has triggered one of the
    three defects of \<open>fault_cause\<close>. No block of memory is lost but by a login.
  \<^item> \<open>Mutex\<close>, \<open>Locked\<close>, \<open>LazyMutex\<close>, \<open>ManagerLock\<close> (\<^verbatim>\<open>sta_ip_safe.c\<close>, and the locks of \<^verbatim>\<open>json_network_info.c\<close>,
    \<^verbatim>\<open>wifiman_config.c\<close>, \<^verbatim>\<open>wifiman_msg.c\<close>, \<^verbatim>\<open>wifi_manager_internal.c\<close>): tasks step by step. The
    first two justify the sequential models of the shared data once the mutexes exist; the third shows
    how a mutex comes to exist at its first use, and why no task may overlap it (the start of the manager
    uses each mutex once before it starts its task); the last relates the task of the manager to its
    sequential model and shows when its tasks can stop each other.
  \<^item> \<open>Startup\<close> (\<^verbatim>\<open>wifi_manager.c\<close>, \<^verbatim>\<open>wifi_manager_internal.c\<close>, \<^verbatim>\<open>wifi_manager_default_config.c\<close>): the
    start of the manager under its mutex, and the callbacks of the application it registers, to
    which the requests of the HTTP server and the user requests are forwarded.
  \<^item> \<open>System\<close>, \<open>Pages\<close>: requests of the web page carried through to the driver, and what the pages of
    the status and of the scan show of the state of the manager.

  \<^bold>\<open>Interfaces.\<close> Six contracts are locales, each interpreted on the model: \<open>access_gate\<close> (the check of
  the credentials in front of the handlers), \<open>bounded_log\<close> (the table of the sessions), \<open>bounded_fifo\<close> (the queue of the manager), \<open>signal_handler\<close> (the signals of the two server tasks), \<open>step_frame\<close> (what every step
  of the manager keeps) and \<open>atomic_object\<close> (data under a mutex, three times).

  \<^bold>\<open>Bounds and fuel.\<close> Loops that read from the network or from the operating system take the list of what
  arrives, so that their recursion is on that list and a theorem for all lists speaks of every
  life of the loop. The write loop may run for ever and is a \<open>partial_function\<close>; it returns on
  every network that makes progress or reports an error (\<open>write_returns_prefix\<close>). A scan is bounded
  by its channels, unless the last one is 255 (\<open>scan_terminates\<close>). \<open>manager_task_p\<close> takes the number of messages it may handle: the
  theorems hold for all numbers. Programs of \<open>Mutex\<close> always end (\<open>executions_end\<close>), so that a state
  in which no task can go on is either the end or a deadlock.

  \<^bold>\<open>Not modelled.\<close> Logging, and the texts that are only logged. The inside of mbedtls, of the driver and of
  the operating system. The generators of content of the application (their text is a
  parameter). Header files that only declare. In \<open>WifiTask\<close> handlers are atomic; \<open>ManagerLock\<close> splits them at their
  operations on the mutex and the queue, not further, and leaves out the start of the manager, which runs
  before its task (\<open>Startup\<close>). A request that triggers one of three known defects, more
  bytes than announced (\<open>recv_excess_unterminated\<close>), a buffer lost after the request was complete
  (\<open>ready_without_buffer\<close>), and an encrypted content of length 0 (\<open>empty_content_reads_before_buffer\<close>), has no
  result in the model where it accesses memory that is not its own; what the code does from there on is not modelled.
  A \<open>cJSON_Parse\<close> or a digest that fails on one call and not on the next, for want of memory or of hardware, with the same input, is
  not modelled. The semaphore of the send callback is drained before
  every write and never waited for, so the write loop does without it.
\<close>

end
